(* ===== verification/Hepta_Prelude.thy ===== *)
theory Hepta_Prelude
  imports Main "HOL-Library.Char_ord" "HOL-Library.List_Lexorder" "HOL-Library.Sublist"
begin

text \<open>
  The part of Rust's language and standard library that the modelled crates use, and the
  lemmas the component theories share.

  \<^item> \<^verbatim>\<open>Result<T, E>\<close> is the sum \<open>'e + 'a\<close> with \<open>Inl\<close> for \<^verbatim>\<open>Err\<close>;
    the question mark operator is \<open>rbind\<close>, \<^verbatim>\<open>Option::ok_or\<close> is \<open>ok_or\<close>, and
    \<^verbatim>\<open>collect::<Result<Vec<_>, _>>()\<close> is \<open>rcollect\<close>.
  \<^item> \<^verbatim>\<open>u64\<close> values are natural numbers; the checked and saturating operations
    write the bound \<open>2 ^ 64\<close> out.
  \<^item> \<^verbatim>\<open>String\<close> and \<^verbatim>\<open>&str\<close> are \<open>string\<close>, a list of bytes (the UTF-8
    encoding), so \<open>length\<close> is \<^verbatim>\<open>str::len\<close> and the order is the byte order.
  \<^item> \<^verbatim>\<open>BTreeMap<K, V>\<close> is an association list kept in ascending key order:
    \<open>binsert\<close>, \<open>bremove\<close> and \<open>map_of\<close> are \<^verbatim>\<open>insert\<close>, \<^verbatim>\<open>remove\<close>
    and \<^verbatim>\<open>get\<close>, and iteration is list order. \<open>bmap_ok\<close> is the representation
    invariant. \<^verbatim>\<open>BTreeSet<T>\<close> is an ascending list with \<open>bset_insert\<close>.
\<close>

named_theorems result_simps "inversion of results, options and checked arithmetic"
named_theorems bmap_simps "lookup and key facts of ordered maps and sets"

section \<open>Results and options\<close>

definition rbind :: "'e + 'a \<Rightarrow> ('a \<Rightarrow> 'e + 'b) \<Rightarrow> 'e + 'b" where
  "rbind r f = (case r of Inl e \<Rightarrow> Inl e | Inr v \<Rightarrow> f v)"

definition ok_or :: "'a option \<Rightarrow> 'e \<Rightarrow> 'e + 'a" where
  "ok_or x e = (case x of None \<Rightarrow> Inl e | Some v \<Rightarrow> Inr v)"

definition map_err :: "('e \<Rightarrow> 'f) \<Rightarrow> 'e + 'a \<Rightarrow> 'f + 'a" where
  "map_err g r = (case r of Inl e \<Rightarrow> Inl (g e) | Inr v \<Rightarrow> Inr v)"

definition guard_err :: "bool \<Rightarrow> 'e \<Rightarrow> 'e + unit" where
  "guard_err b e = (if b then Inl e else Inr ())"

text \<open>
  A method that takes \<^verbatim>\<open>&mut self\<close> and can fail returns the state together with the
  result: an error leaves whatever was written before it.
\<close>

definition sbind :: "'s \<times> ('e + 'a) \<Rightarrow> ('s \<Rightarrow> 'a \<Rightarrow> 's \<times> ('e + 'b)) \<Rightarrow> 's \<times> ('e + 'b)" where
  "sbind x f = (case snd x of Inl e \<Rightarrow> (fst x, Inl e) | Inr v \<Rightarrow> f (fst x) v)"

primrec rcollect :: "('a \<Rightarrow> 'e + 'b) \<Rightarrow> 'a list \<Rightarrow> 'e + 'b list" where
  "rcollect f [] = Inr []"
| "rcollect f (x # xs) = rbind (f x) (\<lambda>y. rbind (rcollect f xs) (\<lambda>ys. Inr (y # ys)))"

definition rtranspose :: "('a \<Rightarrow> 'e + 'b) \<Rightarrow> 'a option \<Rightarrow> 'e + 'b option" where
  "rtranspose f x = (case x of None \<Rightarrow> Inr None | Some v \<Rightarrow> rbind (f v) (\<lambda>y. Inr (Some y)))"

definition opt_filter :: "('a \<Rightarrow> bool) \<Rightarrow> 'a option \<Rightarrow> 'a option" where
  "opt_filter P x = (case x of None \<Rightarrow> None | Some v \<Rightarrow> if P v then Some v else None)"

definition unwrap_or :: "'a option \<Rightarrow> 'a \<Rightarrow> 'a" where
  "unwrap_or x d = (case x of None \<Rightarrow> d | Some v \<Rightarrow> v)"

definition is_some_and :: "'a option \<Rightarrow> ('a \<Rightarrow> bool) \<Rightarrow> bool" where
  "is_some_and x P = (case x of None \<Rightarrow> False | Some v \<Rightarrow> P v)"

definition is_none_or :: "'a option \<Rightarrow> ('a \<Rightarrow> bool) \<Rightarrow> bool" where
  "is_none_or x P = (case x of None \<Rightarrow> True | Some v \<Rightarrow> P v)"

definition or_else :: "'a option \<Rightarrow> 'a option \<Rightarrow> 'a option" where
  "or_else x y = (case x of None \<Rightarrow> y | Some v \<Rightarrow> Some v)"

lemma rbind_simps [simp]:
  "rbind (Inl e) f = Inl e"
  "rbind (Inr v) f = f v"
  by (simp_all add: rbind_def)

lemma rbind_Inr_iff [simp, result_simps]:
  "rbind r f = Inr w \<longleftrightarrow> (\<exists>v. r = Inr v \<and> f v = Inr w)"
  by (cases r) auto

lemma rbind_Inl_iff [result_simps]:
  "rbind r f = Inl e \<longleftrightarrow> r = Inl e \<or> (\<exists>v. r = Inr v \<and> f v = Inl e)"
  by (cases r) auto

lemma if_Inl_Inr_iff [result_simps]: "(if c then Inl e else r) = Inr v \<longleftrightarrow> \<not> c \<and> r = Inr v"
  by simp

lemma rbind_cong [fundef_cong]:
  "r = r' \<Longrightarrow> (\<And>v. r' = Inr v \<Longrightarrow> f v = g v) \<Longrightarrow> rbind r f = rbind r' g"
  by (cases r') auto

lemma sbind_simps [simp]:
  "sbind (s, Inl e) f = (s, Inl e)"
  "sbind (s, Inr v) f = f s v"
  by (simp_all add: sbind_def)

lemma sbind_cong [fundef_cong]:
  "x = y \<Longrightarrow> (\<And>v. snd y = Inr v \<Longrightarrow> f (fst y) v = g (fst y) v) \<Longrightarrow> sbind x f = sbind y g"
  by (cases y; cases "snd y") (auto simp: sbind_def)

lemma sbind_Inr_iff [result_simps]:
  "sbind x f = (s, Inr w) \<longleftrightarrow> (\<exists>v. snd x = Inr v \<and> f (fst x) v = (s, Inr w))"
  by (cases x; cases "snd x") auto

lemma sbind_pair_Inr_iff [result_simps]:
  "sbind (s, r) f = (s', Inr w) \<longleftrightarrow> (\<exists>v. r = Inr v \<and> f s v = (s', Inr w))"
  by (cases r) auto

lemma if_pair_Inl_iff [result_simps]: "(if c then (s, Inl e) else r) = (s', Inr w) \<longleftrightarrow> \<not> c \<and> r = (s', Inr w)"
  by auto

lemma sbind_inv:
  "P s \<Longrightarrow> (\<And>v. r = Inr v \<Longrightarrow> P (fst (f s v))) \<Longrightarrow> P (fst (sbind (s, r) f))"
  by (cases r) auto

lemma ok_or_simps [simp]:
  "ok_or None e = Inl e"
  "ok_or (Some v) e = Inr v"
  by (simp_all add: ok_or_def)

lemma ok_or_iff [simp, result_simps]:
  "ok_or x e = Inr v \<longleftrightarrow> x = Some v"
  "ok_or x e = Inl e' \<longleftrightarrow> x = None \<and> e' = e"
  by (auto simp: ok_or_def split: option.splits)

lemma map_err_simps [simp]:
  "map_err g (Inl e) = Inl (g e)"
  "map_err g (Inr v) = Inr v"
  by (simp_all add: map_err_def)

lemma map_err_Inr_iff [simp]: "map_err g r = Inr v \<longleftrightarrow> r = Inr v"
  by (cases r) auto

lemma guard_err_iff [simp]:
  "guard_err b e = Inr u \<longleftrightarrow> \<not> b"
  "guard_err b e = Inl e' \<longleftrightarrow> b \<and> e' = e"
  by (auto simp: guard_err_def)

lemma guard_err_simps [simp]:
  "guard_err True e = Inl e"
  "guard_err False e = Inr ()"
  by (simp_all add: guard_err_def)

lemma rtranspose_simps [simp]:
  "rtranspose f None = Inr None"
  "rtranspose f (Some x) = rbind (f x) (\<lambda>y. Inr (Some y))"
  by (simp_all add: rtranspose_def)

lemma opt_filter_simps [simp]:
  "opt_filter P None = None"
  "opt_filter P (Some v) = (if P v then Some v else None)"
  by (simp_all add: opt_filter_def)

lemma opt_filter_Some_iff [simp]: "opt_filter P x = Some v \<longleftrightarrow> x = Some v \<and> P v"
  by (cases x) auto

lemma unwrap_or_simps [simp]:
  "unwrap_or None d = d"
  "unwrap_or (Some v) d = v"
  by (simp_all add: unwrap_or_def)

lemma is_some_and_simps [simp]:
  "is_some_and None P = False"
  "is_some_and (Some v) P = P v"
  by (simp_all add: is_some_and_def)

lemma is_none_or_simps [simp]:
  "is_none_or None P = True"
  "is_none_or (Some v) P = P v"
  by (simp_all add: is_none_or_def)

lemma or_else_simps [simp]:
  "or_else None y = y"
  "or_else (Some v) y = Some v"
  by (simp_all add: or_else_def)

lemma rcollect_Inr_length: "rcollect f xs = Inr ys \<Longrightarrow> length ys = length xs"
  by (induction xs arbitrary: ys) auto

lemma rcollect_Inr_set:
  "rcollect f xs = Inr ys \<Longrightarrow> y \<in> set ys \<Longrightarrow> \<exists>x \<in> set xs. f x = Inr y"
  by (induction xs arbitrary: ys) auto

section \<open>Unsigned 64-bit arithmetic\<close>

abbreviation u64_bound :: nat where
  "u64_bound \<equiv> 18446744073709551616"

definition checked_add64 :: "nat \<Rightarrow> nat \<Rightarrow> nat option" where
  "checked_add64 a b = (if a + b < u64_bound then Some (a + b) else None)"

definition checked_mul64 :: "nat \<Rightarrow> nat \<Rightarrow> nat option" where
  "checked_mul64 a b = (if a * b < u64_bound then Some (a * b) else None)"

definition saturating_add64 :: "nat \<Rightarrow> nat \<Rightarrow> nat" where
  "saturating_add64 a b = min (a + b) (u64_bound - 1)"

definition saturating_sub64 :: "nat \<Rightarrow> nat \<Rightarrow> nat" where
  "saturating_sub64 a b = (if a < b then 0 else a - b)"

lemma u64_bound_power: "u64_bound = 2 ^ 64"
  by simp

lemma checked_add64_Some_iff [simp, result_simps]:
  "checked_add64 a b = Some c \<longleftrightarrow> c = a + b \<and> a + b < u64_bound"
  by (auto simp: checked_add64_def)

lemma checked_add64_None_iff [simp]:
  "checked_add64 a b = None \<longleftrightarrow> u64_bound \<le> a + b"
  by (auto simp: checked_add64_def)

lemma checked_mul64_Some_iff [simp, result_simps]:
  "checked_mul64 a b = Some c \<longleftrightarrow> c = a * b \<and> a * b < u64_bound"
  by (auto simp: checked_mul64_def)

lemma saturating_add64_bound: "saturating_add64 a b < u64_bound"
  by (simp add: saturating_add64_def)

lemma saturating_add64_exact: "a + b < u64_bound \<Longrightarrow> saturating_add64 a b = a + b"
  by (simp add: saturating_add64_def)

section \<open>Byte strings\<close>

primrec split_on :: "'a \<Rightarrow> 'a list \<Rightarrow> 'a list list" where
  "split_on c [] = [[]]"
| "split_on c (x # xs) =
     (if x = c then [] # split_on c xs
      else (x # hd (split_on c xs)) # tl (split_on c xs))"

fun join_with :: "'a \<Rightarrow> 'a list list \<Rightarrow> 'a list" where
  "join_with c [] = []"
| "join_with c [w] = w"
| "join_with c (w # ws) = w @ c # join_with c ws"

primrec split_once :: "'a \<Rightarrow> 'a list \<Rightarrow> ('a list \<times> 'a list) option" where
  "split_once c [] = None"
| "split_once c (x # xs) =
     (if x = c then Some ([], xs)
      else map_option (\<lambda>(a, b). (x # a, b)) (split_once c xs))"

fun strip_prefix :: "'a list \<Rightarrow> 'a list \<Rightarrow> 'a list option" where
  "strip_prefix [] s = Some s"
| "strip_prefix (x # p) [] = None"
| "strip_prefix (x # p) (y # s) = (if x = y then strip_prefix p s else None)"

definition strip_suffix :: "'a list \<Rightarrow> 'a list \<Rightarrow> 'a list option" where
  "strip_suffix p s = map_option rev (strip_prefix (rev p) (rev s))"

definition starts_with :: "'a list \<Rightarrow> 'a list \<Rightarrow> bool" where
  "starts_with s p = (strip_prefix p s \<noteq> None)"

definition ends_with :: "'a list \<Rightarrow> 'a list \<Rightarrow> bool" where
  "ends_with s p = (strip_suffix p s \<noteq> None)"

definition trim_end_matches :: "'a list \<Rightarrow> 'a \<Rightarrow> 'a list" where
  "trim_end_matches s c = rev (dropWhile (\<lambda>x. x = c) (rev s))"

definition trim_start_matches :: "'a list \<Rightarrow> 'a \<Rightarrow> 'a list" where
  "trim_start_matches s c = dropWhile (\<lambda>x. x = c) s"

primrec contains_sub :: "'a list \<Rightarrow> 'a list \<Rightarrow> bool" where
  "contains_sub p [] = (p = [])"
| "contains_sub p (x # xs) = (starts_with (x # xs) p \<or> contains_sub p xs)"

abbreviation byte_of :: "char \<Rightarrow> nat" where
  "byte_of c \<equiv> (of_char c :: nat)"

definition is_ascii_digit :: "char \<Rightarrow> bool" where
  "is_ascii_digit c = (48 \<le> byte_of c \<and> byte_of c \<le> 57)"

definition is_ascii_lowercase :: "char \<Rightarrow> bool" where
  "is_ascii_lowercase c = (97 \<le> byte_of c \<and> byte_of c \<le> 122)"

definition is_ascii_uppercase :: "char \<Rightarrow> bool" where
  "is_ascii_uppercase c = (65 \<le> byte_of c \<and> byte_of c \<le> 90)"

definition is_ascii_alphabetic :: "char \<Rightarrow> bool" where
  "is_ascii_alphabetic c = (is_ascii_lowercase c \<or> is_ascii_uppercase c)"

definition is_ascii_alphanumeric :: "char \<Rightarrow> bool" where
  "is_ascii_alphanumeric c = (is_ascii_alphabetic c \<or> is_ascii_digit c)"

text \<open>
  \<^verbatim>\<open>s.chars().any(char::is_control)\<close> on the UTF-8 bytes: the control characters are
  U+0000 to U+001F, U+007F and U+0080 to U+009F, the last group encoded as the byte C2
  followed by a byte 80 to 9F.
\<close>

fun has_control :: "string \<Rightarrow> bool" where
  "has_control [] = False"
| "has_control [c] = (byte_of c < 32 \<or> byte_of c = 127)"
| "has_control (c # d # s) =
     (byte_of c < 32 \<or> byte_of c = 127 \<or>
      (byte_of c = 194 \<and> 128 \<le> byte_of d \<and> byte_of d \<le> 159) \<or> has_control (d # s))"

text \<open>\<^verbatim>\<open>String::from_utf8\<close>: well-formed UTF-8.\<close>

definition utf8_cont :: "char \<Rightarrow> bool" where
  "utf8_cont c = (128 \<le> byte_of c \<and> byte_of c \<le> 191)"

fun utf8_valid :: "string \<Rightarrow> bool" where
  "utf8_valid [] = True"
| "utf8_valid (a # s) =
     (if byte_of a < 128 then utf8_valid s
      else if 194 \<le> byte_of a \<and> byte_of a \<le> 223 then
        (case s of b # s \<Rightarrow> utf8_cont b \<and> utf8_valid s | _ \<Rightarrow> False)
      else if 224 \<le> byte_of a \<and> byte_of a \<le> 239 then
        (case s of
           b # c # s \<Rightarrow> utf8_cont b \<and> utf8_cont c \<and> (byte_of a = 224 \<longrightarrow> 160 \<le> byte_of b)
             \<and> (byte_of a = 237 \<longrightarrow> byte_of b \<le> 159) \<and> utf8_valid s
         | _ \<Rightarrow> False)
      else if 240 \<le> byte_of a \<and> byte_of a \<le> 244 then
        (case s of
           b # c # d # s \<Rightarrow> utf8_cont b \<and> utf8_cont c \<and> utf8_cont d
             \<and> (byte_of a = 240 \<longrightarrow> 144 \<le> byte_of b) \<and> (byte_of a = 244 \<longrightarrow> byte_of b \<le> 143)
             \<and> utf8_valid s
         | _ \<Rightarrow> False)
      else False)"

definition is_ascii :: "string \<Rightarrow> bool" where
  "is_ascii s = list_all (\<lambda>c. byte_of c < 128) s"

definition is_ascii_hexdigit :: "char \<Rightarrow> bool" where
  "is_ascii_hexdigit c =
     (is_ascii_digit c \<or> (97 \<le> byte_of c \<and> byte_of c \<le> 102) \<or> (65 \<le> byte_of c \<and> byte_of c \<le> 70))"

text \<open>
  \<^verbatim>\<open>str::parse::<u64>\<close>: one optional plus sign, then at least one decimal digit and
  nothing else, and a value below \<open>2 ^ 64\<close>.
\<close>

definition digits_value :: "string \<Rightarrow> nat" where
  "digits_value s = foldl (\<lambda>n c. 10 * n + (byte_of c - 48)) 0 s"

definition parse_u64 :: "string \<Rightarrow> nat option" where
  "parse_u64 s =
     (let d = (case s of [] \<Rightarrow> [] | c # r \<Rightarrow> if c = CHR ''+'' then r else s) in
      if d = [] \<or> \<not> list_all is_ascii_digit d \<or> u64_bound \<le> digits_value d then None
      else Some (digits_value d))"

definition digit_char :: "nat \<Rightarrow> char" where
  "digit_char d = char_of (48 + d)"

fun nat_to_dec :: "nat \<Rightarrow> string" where
  "nat_to_dec n = (if n < 10 then [digit_char n] else nat_to_dec (n div 10) @ [digit_char (n mod 10)])"

declare nat_to_dec.simps [simp del]

text \<open>\<^verbatim>\<open>{n:02}\<close> and its kin: the decimal representation padded with zeros on the left.\<close>

definition pad_dec :: "nat \<Rightarrow> nat \<Rightarrow> string" where
  "pad_dec w n = (let s = nat_to_dec n in replicate (w - length s) (CHR ''0'') @ s)"

subsection \<open>Splitting and joining\<close>

lemma split_on_not_Nil [simp]: "split_on c s \<noteq> []"
  by (cases s) auto

lemma split_on_no_sep: "w \<in> set (split_on c s) \<Longrightarrow> c \<notin> set w"
proof (induction s arbitrary: w)
  case Nil
  then show ?case by simp
next
  case (Cons x xs)
  obtain u us where us: "split_on c xs = u # us"
    by (cases "split_on c xs") auto
  have "c \<notin> set u" and "v \<in> set us \<Longrightarrow> c \<notin> set v" for v
    using Cons.IH by (simp_all add: us)
  moreover have "w = [] \<or> w = u \<or> w \<in> set us \<or> (x \<noteq> c \<and> w = x # u)"
    using Cons.prems by (simp add: us split: if_split_asm) blast
  ultimately show ?case by auto
qed

lemma join_with_Cons: "ws \<noteq> [] \<Longrightarrow> join_with c (w # ws) = w @ c # join_with c ws"
  by (cases ws) auto

lemma join_with_Cons_head: "join_with c ((x # w) # ws) = x # join_with c (w # ws)"
  by (cases ws) auto

lemma join_split [simp]: "join_with c (split_on c s) = s"
proof (induction s)
  case Nil
  then show ?case by simp
next
  case (Cons x xs)
  have "split_on c xs = hd (split_on c xs) # tl (split_on c xs)" by simp
  with Cons show ?case
    by (auto simp: join_with_Cons join_with_Cons_head)
qed

lemma split_on_append_sep: "c \<notin> set w \<Longrightarrow> split_on c (w @ c # s) = w # split_on c s"
  by (induction w) auto

lemma split_on_single: "c \<notin> set w \<Longrightarrow> split_on c w = [w]"
  by (induction w) auto

lemma split_join:
  assumes "ws \<noteq> []" and "\<And>w. w \<in> set ws \<Longrightarrow> c \<notin> set w"
  shows "split_on c (join_with c ws) = ws"
  using assms
proof (induction c ws rule: join_with.induct)
  case (1 c)
  then show ?case by simp
next
  case (2 c w)
  then show ?case by (simp add: split_on_single)
next
  case (3 c w v vs)
  then show ?case by (simp add: split_on_append_sep)
qed

lemma split_on_inj: "split_on c s = split_on c t \<longleftrightarrow> s = t"
  by (metis join_split)

lemma split_once_Some_iff:
  "split_once c s = Some (a, b) \<longleftrightarrow> s = a @ c # b \<and> c \<notin> set a"
proof (induction s arbitrary: a)
  case Nil
  then show ?case by simp
next
  case (Cons x xs)
  then show ?case by (cases a) auto
qed

lemma split_once_None_iff: "split_once c s = None \<longleftrightarrow> c \<notin> set s"
  by (induction s) auto

lemma strip_prefix_Some_iff [simp]: "strip_prefix p s = Some r \<longleftrightarrow> s = p @ r"
  by (induction p s rule: strip_prefix.induct) auto

lemma strip_prefix_self [simp]: "strip_prefix p (p @ r) = Some r"
  by simp

lemma starts_with_iff_prefix [simp]: "starts_with s p \<longleftrightarrow> prefix p s"
  by (auto simp: starts_with_def prefix_def)

lemma strip_suffix_Some_iff [simp]: "strip_suffix p s = Some r \<longleftrightarrow> s = r @ p"
proof -
  have "strip_suffix p s = Some r \<longleftrightarrow> (\<exists>t. rev s = rev p @ t \<and> r = rev t)"
    by (auto simp: strip_suffix_def)
  also have "\<dots> \<longleftrightarrow> s = r @ p"
    by (metis rev_append rev_rev_ident)
  finally show ?thesis .
qed

lemma ends_with_iff_suffix [simp]: "ends_with s p \<longleftrightarrow> suffix p s"
  by (auto simp: ends_with_def suffix_def)

lemma trim_end_matches_prefix: "\<exists>n. s = trim_end_matches s c @ replicate n c"
proof -
  have "rev s = takeWhile (\<lambda>x. x = c) (rev s) @ dropWhile (\<lambda>x. x = c) (rev s)" by simp
  moreover have "takeWhile (\<lambda>x. x = c) (rev s) =
      replicate (length (takeWhile (\<lambda>x. x = c) (rev s))) c"
    by (rule replicate_eqI) (auto dest: set_takeWhileD)
  ultimately have "s = trim_end_matches s c @
      rev (replicate (length (takeWhile (\<lambda>x. x = c) (rev s))) c)"
    unfolding trim_end_matches_def by (metis rev_append rev_rev_ident)
  then show ?thesis by auto
qed

lemma trim_end_matches_not_suffix:
  "trim_end_matches s c \<noteq> [] \<Longrightarrow> last (trim_end_matches s c) \<noteq> c"
  using hd_dropWhile [of "\<lambda>x. x = c" "rev s"] by (simp add: trim_end_matches_def last_rev)

lemma length_trim_end_matches: "length (trim_end_matches s c) \<le> length s"
  using length_dropWhile_le [of "\<lambda>x. x = c" "rev s"] by (simp add: trim_end_matches_def)

subsection \<open>Decimal numbers\<close>

lemma byte_of_digit_char: "d < 10 \<Longrightarrow> byte_of (digit_char d) = 48 + d"
  by (simp add: digit_char_def)

lemma digits_value_snoc: "digits_value (s @ [c]) = 10 * digits_value s + (byte_of c - 48)"
  by (simp add: digits_value_def)

lemma digits_value_nat_to_dec: "digits_value (nat_to_dec n) = n"
proof (induction n rule: nat_to_dec.induct)
  case (1 n)
  show ?case
  proof (cases "n < 10")
    case True
    then show ?thesis by (subst nat_to_dec.simps) (simp add: digits_value_def byte_of_digit_char)
  next
    case False
    then have "digits_value (nat_to_dec n) = 10 * (n div 10) + n mod 10"
      using 1 by (subst nat_to_dec.simps) (simp add: digits_value_snoc byte_of_digit_char)
    then show ?thesis by simp
  qed
qed

lemma is_ascii_digit_digit_char: "d < 10 \<Longrightarrow> is_ascii_digit (digit_char d)"
  by (simp add: is_ascii_digit_def byte_of_digit_char)

lemma nat_to_dec_digits: "nat_to_dec n \<noteq> [] \<and> list_all is_ascii_digit (nat_to_dec n)"
proof (induction n rule: nat_to_dec.induct)
  case (1 n)
  show ?case
  proof (cases "n < 10")
    case True
    then show ?thesis by (simp add: nat_to_dec.simps [of n] is_ascii_digit_digit_char)
  next
    case False
    then show ?thesis using 1 by (simp add: nat_to_dec.simps [of n] is_ascii_digit_digit_char)
  qed
qed

lemma nat_to_dec_no_zero: "0 < n \<Longrightarrow> \<not> starts_with (nat_to_dec n) ''0''"
proof (induction n rule: nat_to_dec.induct)
  case (1 n)
  show ?case
  proof (cases "n < 10")
    case True
    have "byte_of (digit_char n) = 48 + n" using True by (rule byte_of_digit_char)
    moreover have "byte_of (CHR ''0'') = 48" by simp
    ultimately have "digit_char n \<noteq> CHR ''0''" using 1(2) by (metis add_cancel_left_right less_numeral_extra(3))
    then show ?thesis using True by (simp add: nat_to_dec.simps [of n])
  next
    case False
    then have "\<not> prefix ''0'' (nat_to_dec (n div 10))" using 1(1) by simp
    moreover have "nat_to_dec (n div 10) \<noteq> []" using nat_to_dec_digits by blast
    ultimately show ?thesis using False
      by (cases "nat_to_dec (n div 10)") (auto simp: nat_to_dec.simps [of n])
  qed
qed

lemma parse_u64_nat_to_dec: "n < u64_bound \<Longrightarrow> parse_u64 (nat_to_dec n) = Some n"
proof -
  assume n: "n < u64_bound"
  obtain c s where s: "nat_to_dec n = c # s" using nat_to_dec_digits by (cases "nat_to_dec n") auto
  then have "is_ascii_digit c" using nat_to_dec_digits [of n] by simp
  then have "c \<noteq> CHR ''+''" by (auto simp: is_ascii_digit_def)
  then show ?thesis
    using n nat_to_dec_digits [of n] digits_value_nat_to_dec [of n] by (simp add: parse_u64_def s)
qed

lemma length_nat_to_dec: "n < 10 ^ Suc w \<Longrightarrow> length (nat_to_dec n) \<le> Suc w"
proof (induction n arbitrary: w rule: nat_to_dec.induct)
  case (1 n)
  show ?case
  proof (cases "n < 10")
    case True
    then show ?thesis by (subst nat_to_dec.simps) simp
  next
    case False
    then obtain v where "w = Suc v" using 1(2) by (cases w) auto
    then show ?thesis using 1(1) [OF False, of v] 1(2) False by (subst nat_to_dec.simps) simp
  qed
qed

lemma pad_dec_shape:
  assumes "n < 10 ^ w" and "0 < w"
  shows "length (pad_dec w n) = w \<and> list_all is_ascii_digit (pad_dec w n)"
proof -
  obtain v where "w = Suc v" using assms(2) by (cases w) auto
  then have "length (nat_to_dec n) \<le> w" using length_nat_to_dec assms(1) by simp
  then show ?thesis using nat_to_dec_digits [of n]
    by (auto simp: pad_dec_def Let_def list_all_iff is_ascii_digit_def [of "CHR ''0''"])
qed

section \<open>Ordered maps\<close>

type_synonym ('k, 'v) bmap = "('k \<times> 'v) list"

definition bmap_ok :: "('k::linorder, 'v) bmap \<Rightarrow> bool" where
  "bmap_ok m = sorted_wrt (<) (map fst m)"

primrec binsert :: "'k::linorder \<Rightarrow> 'v \<Rightarrow> ('k, 'v) bmap \<Rightarrow> ('k, 'v) bmap" where
  "binsert k v [] = [(k, v)]"
| "binsert k v (e # m) =
     (if k < fst e then (k, v) # e # m
      else if fst e < k then e # binsert k v m
      else (k, v) # m)"

definition bremove :: "'k \<Rightarrow> ('k, 'v) bmap \<Rightarrow> ('k, 'v) bmap" where
  "bremove k m = filter (\<lambda>e. fst e \<noteq> k) m"

definition bcontains :: "('k, 'v) bmap \<Rightarrow> 'k \<Rightarrow> bool" where
  "bcontains m k = (map_of m k \<noteq> None)"

definition bretain :: "('k \<Rightarrow> 'v \<Rightarrow> bool) \<Rightarrow> ('k, 'v) bmap \<Rightarrow> ('k, 'v) bmap" where
  "bretain P m = filter (\<lambda>e. P (fst e) (snd e)) m"

definition bmap_vals :: "('v \<Rightarrow> 'w) \<Rightarrow> ('k, 'v) bmap \<Rightarrow> ('k, 'w) bmap" where
  "bmap_vals f m = map (\<lambda>e. (fst e, f (snd e))) m"

lemma bmap_ok_Nil [simp]: "bmap_ok []"
  by (simp add: bmap_ok_def)

lemma bmap_ok_Cons: "bmap_ok (e # m) \<longleftrightarrow> (\<forall>x \<in> set m. fst e < fst x) \<and> bmap_ok m"
  by (auto simp: bmap_ok_def)

lemma bmap_ok_distinct: "bmap_ok m \<Longrightarrow> distinct (map fst m)"
  by (induction m) (auto simp: bmap_ok_Cons)

lemma map_of_binsert [simp, bmap_simps]:
  "map_of (binsert k v m) = (map_of m)(k \<mapsto> v)"
  by (induction m) (auto simp: fun_eq_iff)

lemma map_of_bremove [simp, bmap_simps]:
  "map_of (bremove k m) = (map_of m)(k := None)"
  by (induction m) (auto simp: bremove_def fun_eq_iff)

lemma map_of_bmap_vals [simp, bmap_simps]: "map_of (bmap_vals f m) k = map_option f (map_of m k)"
  by (induction m) (auto simp: bmap_vals_def)

lemma set_binsert: "set (binsert k v m) \<subseteq> insert (k, v) (set m)"
  by (induction m) auto

lemma keys_binsert [simp, bmap_simps]: "fst ` set (binsert k v m) = insert k (fst ` set m)"
  by (induction m) auto

lemma keys_bremove [simp, bmap_simps]: "fst ` set (bremove k m) = fst ` set m - {k}"
  by (auto simp: bremove_def)

lemma bmap_ok_binsert [simp]: "bmap_ok m \<Longrightarrow> bmap_ok (binsert k v m)"
proof (induction m)
  case Nil
  then show ?case by (simp add: bmap_ok_def)
next
  case (Cons e m)
  from Cons.prems have less: "\<forall>x \<in> set m. fst e < fst x" and ok: "bmap_ok m"
    by (simp_all add: bmap_ok_Cons)
  show ?case
  proof (cases "fst e < k")
    case True
    with less have "\<forall>x \<in> set (binsert k v m). fst e < fst x"
      using set_binsert [of k v m] by auto
    with True Cons.IH [OF ok] show ?thesis by (auto simp: bmap_ok_Cons)
  next
    case False
    with less ok show ?thesis by (auto simp: bmap_ok_Cons)
  qed
qed

lemma bmap_ok_filter [simp]: "bmap_ok m \<Longrightarrow> bmap_ok (filter P m)"
  by (induction m) (auto simp: bmap_ok_Cons)

lemma bmap_ok_bremove [simp]: "bmap_ok m \<Longrightarrow> bmap_ok (bremove k m)"
  by (simp add: bremove_def)

lemma bmap_ok_bretain [simp]: "bmap_ok m \<Longrightarrow> bmap_ok (bretain P m)"
  by (simp add: bretain_def)

lemma bmap_ok_bmap_vals [simp]: "bmap_ok (bmap_vals f m) = bmap_ok m"
  by (simp add: bmap_ok_def bmap_vals_def comp_def)

lemma bmap_ok_get_iff: "bmap_ok m \<Longrightarrow> map_of m k = Some v \<longleftrightarrow> (k, v) \<in> set m"
  by (simp add: bmap_ok_distinct)

lemma map_of_bretain [bmap_simps]:
  assumes "bmap_ok m"
  shows "map_of (bretain P m) k = (case map_of m k of None \<Rightarrow> None | Some v \<Rightarrow> if P k v then Some v else None)"
  using assms
proof (induction m)
  case Nil
  then show ?case by (simp add: bretain_def)
next
  case (Cons e m)
  then have "map_of m (fst e) = None"
    by (auto simp: bmap_ok_Cons map_of_eq_None_iff)
  with Cons show ?case by (auto simp: bretain_def bmap_ok_Cons split: option.splits)
qed

lemma bcontains_iff [simp, bmap_simps]: "bcontains m k \<longleftrightarrow> k \<in> fst ` set m"
  by (auto simp: bcontains_def map_of_eq_None_iff)

text \<open>Two ordered maps with the same bindings are the same list.\<close>

lemma bmap_ok_canonical:
  assumes "bmap_ok m"
  shows "m = map (\<lambda>k. (k, the (map_of m k))) (sorted_list_of_set (dom (map_of m)))"
proof -
  have "sorted_list_of_set (set (map fst m)) = map fst m"
    using assms by (intro sorted_list_of_set.idem_if_sorted_distinct)
      (simp_all add: bmap_ok_def strict_sorted_iff)
  then have keys: "sorted_list_of_set (dom (map_of m)) = map fst m"
    by (simp add: dom_map_of_conv_image_fst)
  have "map (\<lambda>e. (fst e, the (map_of m (fst e)))) m = m"
    using bmap_ok_distinct [OF assms] by (intro map_idI) (auto simp: map_of_is_SomeI)
  then show ?thesis by (simp add: keys comp_def)
qed

lemma bmap_ext:
  assumes "bmap_ok m" and "bmap_ok n" and "map_of m = map_of n"
  shows "m = n"
proof -
  have "m = map (\<lambda>k. (k, the (map_of n k))) (sorted_list_of_set (dom (map_of n)))"
    using bmap_ok_canonical [OF assms(1)] unfolding assms(3) .
  also have "\<dots> = n"
    by (rule bmap_ok_canonical [OF assms(2), symmetric])
  finally show ?thesis .
qed

lemma binsert_same: "bmap_ok m \<Longrightarrow> map_of m k = Some v \<Longrightarrow> binsert k v m = m"
  by (rule bmap_ext) (auto simp: fun_eq_iff)

lemma length_binsert_new: "k \<notin> fst ` set m \<Longrightarrow> length (binsert k v m) = Suc (length m)"
  by (induction m) auto

lemma length_binsert_le: "length (binsert k v m) \<le> Suc (length m)"
  by (induction m) auto

subsection \<open>Maps under update\<close>

lemma binsert_binsert [simp]: "binsert k v (binsert k w m) = binsert k v m"
  by (induction m) auto

lemma map_fst_binsert: "bmap_ok m \<Longrightarrow> k \<in> fst ` set m \<Longrightarrow> map fst (binsert k v m) = map fst m"
proof (induction m)
  case (Cons e m)
  then show ?case by (auto simp: bmap_ok_Cons)
qed simp

lemma binsert_last: "\<forall>e \<in> set m. fst e < k \<Longrightarrow> binsert k v m = m @ [(k, v)]"
  by (induction m) auto

lemma list_all_binsert: "list_all P m \<Longrightarrow> P (k, v) \<Longrightarrow> list_all P (binsert k v m)"
  by (induction m) auto

lemma list_all_bremove: "list_all P m \<Longrightarrow> list_all P (bremove k m)"
  by (simp add: bremove_def list_all_iff)

lemma list_all_map_of: "list_all (\<lambda>e. P (snd e)) m \<Longrightarrow> map_of m k = Some v \<Longrightarrow> P v"
  by (drule map_of_SomeD) (force simp: list_all_iff)

lemma length_bremove_le: "length (bremove k m) \<le> length m"
  by (simp add: bremove_def)

lemma bmap_ok_upt: "map fst m = [a..<b] \<Longrightarrow> bmap_ok m"
  by (simp add: bmap_ok_def)

lemma bremove_absent: "k \<notin> fst ` set m \<Longrightarrow> bremove k m = m"
  by (auto simp: bremove_def filter_id_conv image_iff)

lemma map_of_filter_fst:
  "map_of (filter (\<lambda>x. P (fst x)) m) k = (if P k then map_of m k else None)"
  by (induction m) auto

lemma map_fst_bretain: "map fst (bretain (\<lambda>k _. P k) m) = filter P (map fst m)"
  by (induction m) (auto simp: bretain_def)

lemma map_of_fold_bremove: "map_of (fold bremove fs m) k = (if k \<in> set fs then None else map_of m k)"
  by (induction fs arbitrary: m) auto

lemma map_of_fold_binsert: "map_of xs k = None \<Longrightarrow> map_of (fold (\<lambda>(f, v). binsert f v) xs m) k = map_of m k"
  by (induction xs arbitrary: m) (auto split: if_splits)

lemma map_prod_eq_iff: "map_prod f id p = (x, y) \<longleftrightarrow> (\<exists>z. p = (z, y) \<and> x = f z)"
  by (cases p) auto

lemma hd_split_on_append: "hd (split_on c (s @ [c])) = hd (split_on c s)"
proof (induction s)
  case (Cons x s)
  then show ?case by (cases "split_on c s"; cases "split_on c (s @ [c])") auto
qed simp

lemma hd_split_on_prefix: "c \<in> set s \<Longrightarrow> hd (split_on c (s @ t)) = hd (split_on c s)"
proof (induction s)
  case (Cons x s)
  then show ?case by (cases "split_on c s"; cases "split_on c (s @ t)") auto
qed simp

lemma sbind_result_iff:
  "sbind x f = (s', Inr w) \<longleftrightarrow> (\<exists>s v. x = (s, Inr v) \<and> f s v = (s', Inr w))"
  by (cases x; cases "snd x") (auto simp: sbind_def)

lemma filter_upt_ge: "filter (\<lambda>n. a \<le> n) [b..<c] = [max a b..<c]"
  by (induction c) (auto simp: max_def)

section \<open>Ordered sets\<close>

definition bset_ok :: "'a::linorder list \<Rightarrow> bool" where
  "bset_ok s = sorted_wrt (<) s"

primrec bset_insert :: "'a::linorder \<Rightarrow> 'a list \<Rightarrow> 'a list" where
  "bset_insert x [] = [x]"
| "bset_insert x (y # s) =
     (if x < y then x # y # s else if y < x then y # bset_insert x s else y # s)"

definition bset_of :: "'a::linorder list \<Rightarrow> 'a list" where
  "bset_of xs = fold bset_insert xs []"

lemma set_bset_insert [simp, bmap_simps]: "set (bset_insert x s) = insert x (set s)"
  by (induction s) auto

lemma bset_ok_insert [simp]: "bset_ok s \<Longrightarrow> bset_ok (bset_insert x s)"
  by (induction s) (auto simp: bset_ok_def)

lemma fold_bset_insert:
  "set (fold bset_insert xs s) = set xs \<union> set s \<and> (bset_ok s \<longrightarrow> bset_ok (fold bset_insert xs s))"
  by (induction xs arbitrary: s) auto

lemma set_bset_of [simp, bmap_simps]: "set (bset_of xs) = set xs"
  by (simp add: bset_of_def fold_bset_insert)

lemma bset_ok_bset_of [simp]: "bset_ok (bset_of xs)"
proof -
  have "bset_ok ([] :: 'a list)" by (simp add: bset_ok_def)
  then show ?thesis by (simp add: bset_of_def fold_bset_insert)
qed

lemma bset_ok_iff: "bset_ok s \<longleftrightarrow> sorted s \<and> distinct s"
  by (simp add: bset_ok_def strict_sorted_iff)

end
