(* ===== verification/Bytes.thy ===== *)
theory Bytes
  imports "HOL-Library.Word" Hepta_Prelude
begin

text \<open>
  Bytes as 8-bit words, big-endian encodings, and the cryptographic and encoding functions of
  third-party crates, gathered as the record \<open>crypto\<close> that the engines take as a
  parameter. A theorem that needs a documented property of one of them names it as a
  hypothesis.
\<close>

type_synonym byte = "8 word"

lemma unat_byte_bound: "unat (a :: byte) < 256"
  using unsigned_less [of a] by simp

lemma unat_word_of_nat_byte: "i < 256 \<Longrightarrow> unat (word_of_nat i :: byte) = i"
  by (simp add: unsigned_of_nat take_bit_nat_eq_self)

lemma byte_xor_eq_0_iff: "xor a b = 0 \<longleftrightarrow> a = (b :: byte)"
proof
  assume "xor a b = 0"
  then have "xor (xor a b) b = b" by simp
  then show "a = b" by (simp add: xor.assoc)
qed simp

definition byte_of_char :: "char \<Rightarrow> byte" where
  "byte_of_char c = word_of_nat (byte_of c)"

definition char_of_byte :: "byte \<Rightarrow> char" where
  "char_of_byte b = char_of (unat b)"

abbreviation bytes_of_string :: "string \<Rightarrow> byte list" where
  "bytes_of_string s \<equiv> map byte_of_char s"

lemma char_of_byte_of_char [simp]: "char_of_byte (byte_of_char c) = c"
proof -
  have "byte_of c < 256" using of_char_mod_256 [of c, where 'a = nat] by (metis mod_less_divisor zero_less_numeral)
  then show ?thesis by (simp add: char_of_byte_def byte_of_char_def unat_word_of_nat_byte)
qed

lemma byte_of_char_inj: "byte_of_char c = byte_of_char d \<longleftrightarrow> c = d"
  by (metis char_of_byte_of_char)

text \<open>\<^verbatim>\<open>u64::to_be_bytes\<close> and its inverse on eight bytes.\<close>

primrec be_bytes :: "nat \<Rightarrow> nat \<Rightarrow> byte list" where
  "be_bytes 0 n = []"
| "be_bytes (Suc k) n = be_bytes k (n div 256) @ [word_of_nat (n mod 256)]"

definition be_value :: "byte list \<Rightarrow> nat" where
  "be_value bs = foldl (\<lambda>n b. 256 * n + unat b) 0 bs"

lemma length_be_bytes [simp]: "length (be_bytes k n) = k"
  by (induction k arbitrary: n) auto

lemma be_value_snoc [simp]: "be_value (bs @ [b]) = 256 * be_value bs + unat b"
  by (simp add: be_value_def)

lemma be_value_be_bytes: "be_value (be_bytes k n) = n mod 256 ^ k"
proof (induction k arbitrary: n)
  case 0
  then show ?case by (simp add: be_value_def)
next
  case (Suc k)
  have "n mod 256 ^ Suc k = 256 * (n div 256 mod 256 ^ k) + n mod 256"
    using mod_mult2_eq [of n 256 "256 ^ k"] by simp
  then show ?case by (simp add: Suc unat_word_of_nat_byte)
qed

lemma be_bytes_be_value: "be_bytes (length bs) (be_value bs) = bs"
proof (induction bs rule: rev_induct)
  case (snoc b bs)
  have "(256 * be_value bs + unat b) div 256 = be_value bs" "(256 * be_value bs + unat b) mod 256 = unat b"
    using unat_byte_bound [of b] by simp_all
  then show ?case using snoc by simp
qed simp

lemma be_value_bound: "be_value bs < 256 ^ length bs"
  using be_value_be_bytes [of "length bs" "be_value bs"] by (simp add: be_bytes_be_value)
    (metis mod_less_divisor zero_less_numeral zero_less_power)

text \<open>\<^verbatim>\<open>to_le_bytes\<close> and \<^verbatim>\<open>from_le_bytes\<close>.\<close>

definition le_bytes :: "nat \<Rightarrow> nat \<Rightarrow> byte list" where
  "le_bytes k n = rev (be_bytes k n)"

definition le_value :: "byte list \<Rightarrow> nat" where
  "le_value bs = be_value (rev bs)"

lemma length_le_bytes [simp]: "length (le_bytes k n) = k"
  by (simp add: le_bytes_def)

lemma le_value_le_bytes: "n < 256 ^ k \<Longrightarrow> le_value (le_bytes k n) = n"
  by (simp add: le_value_def le_bytes_def be_value_be_bytes)

lemma le_value_bound: "le_value bs < 256 ^ length bs"
  using be_value_bound [of "rev bs"] by (simp add: le_value_def)

lemma byte_of_char_of_byte [simp]: "byte_of_char (char_of_byte b) = b"
  by (simp add: byte_of_char_def char_of_byte_def unat_byte_bound)

section \<open>Third-party cryptography\<close>

text \<open>
  The draws from the operating system's random source are indexed by the position of the call
  within a request, so distinct calls return unrelated bytes; \<open>None\<close> is a failure of the
  source. The second argument is the number of bytes asked for.
\<close>

type_synonym entropy = "nat list \<Rightarrow> nat \<Rightarrow> byte list option"

record crypto =
  hmac_sign :: "string \<Rightarrow> byte list \<Rightarrow> byte list \<Rightarrow> byte list"
  base64_encode :: "byte list \<Rightarrow> string"
  base64_decode :: "string \<Rightarrow> byte list option"
  aead_key_ok :: "string \<Rightarrow> byte list \<Rightarrow> bool"
  aead_seal :: "string \<Rightarrow> byte list \<Rightarrow> byte list \<Rightarrow> byte list \<Rightarrow> byte list \<Rightarrow> byte list option"
  aead_open :: "string \<Rightarrow> byte list \<Rightarrow> byte list \<Rightarrow> byte list \<Rightarrow> byte list \<Rightarrow> byte list option"
  ed25519_generate :: "byte list \<Rightarrow> byte list option"
  ed25519_public :: "byte list \<Rightarrow> byte list option"
  ed25519_sign :: "byte list \<Rightarrow> byte list \<Rightarrow> byte list"
  ed25519_verify :: "byte list \<Rightarrow> byte list \<Rightarrow> byte list \<Rightarrow> bool"
  sha_digest :: "string \<Rightarrow> byte list \<Rightarrow> byte list"
  json_tuple :: "string list \<Rightarrow> byte list \<Rightarrow> byte list"

section \<open>Input and output\<close>

text \<open>
  The outcome of a system call that writes. What a failure leaves behind depends on the call; the
  theories that model a directory say what the number means.
\<close>

datatype io_result = IoDone | IoFailed nat

end
