(* ===== verification/GF256.thy ===== *)
theory GF256
  imports Complex_Main Bytes
begin

text \<open>
  Arithmetic in the field with 256 elements, as \<^verbatim>\<open>crates/heptabao-server/src/crypto.rs\<close>
  computes it: \<open>gf_mul\<close> is the shift-and-add loop of the function of that name and
  \<open>gf_inverse\<close> its square-and-multiply loop with exponent 254.

  The loops are shown to be the multiplication and the inverse of a field. Multiplication
  is additive in both arguments, so its laws follow from facts about doubling (\<open>xtime\<close>)
  and about the eight single-bit bytes. The type \<open>gf256\<close> carries the result as an
  instance of the library's class \<open>field\<close>, which gives the interpolation argument of
  the theory \<open>Shamir\<close> the library's algebra.
\<close>

unbundle bit_operations_syntax

section \<open>The loops of the source\<close>

text \<open>One iteration updates the product, doubles \<open>left\<close> with reduction and halves \<open>right\<close>.\<close>

primrec gf_mul_loop :: "nat \<Rightarrow> byte \<Rightarrow> byte \<Rightarrow> byte \<Rightarrow> byte" where
  "gf_mul_loop 0 left right product = product"
| "gf_mul_loop (Suc n) left right product =
     (let product' = (if right AND 1 \<noteq> 0 then product XOR left else product);
          high = left AND 128;
          shifted = push_bit 1 left;
          left' = (if high \<noteq> 0 then shifted XOR 27 else shifted)
      in gf_mul_loop n left' (drop_bit 1 right) product')"

definition gf_mul :: "byte \<Rightarrow> byte \<Rightarrow> byte" where
  "gf_mul left right = gf_mul_loop 8 left right 0"

function gf_pow_loop :: "byte \<Rightarrow> byte \<Rightarrow> nat \<Rightarrow> byte" where
  "gf_pow_loop result base exponent =
     (if exponent \<noteq> 0
      then gf_pow_loop (if odd exponent then gf_mul result base else result)
             (gf_mul base base) (exponent div 2)
      else result)"
  by pat_completeness auto
termination
  by (relation "measure (\<lambda>(_, _, e). e)") auto

declare gf_pow_loop.simps [simp del]

definition gf_inverse :: "byte \<Rightarrow> string + byte" where
  "gf_inverse v =
     (if v = 0 then Inl ''zero has no inverse in GF(256)'' else Inr (gf_pow_loop 1 v 254))"

section \<open>Doubling and the additive structure\<close>

definition xtime :: "byte \<Rightarrow> byte" where
  "xtime a = (if bit a 7 then push_bit 1 a XOR 27 else push_bit 1 a)"

text \<open>The loop without its accumulator: a sum of doublings selected by the bits of \<open>right\<close>.\<close>

primrec gf_sum :: "nat \<Rightarrow> byte \<Rightarrow> byte \<Rightarrow> byte" where
  "gf_sum 0 a b = 0"
| "gf_sum (Suc n) a b = (if bit b 0 then a else 0) XOR gf_sum n (xtime a) (drop_bit 1 b)"

lemma byte_and_1: "(b AND 1 \<noteq> (0 :: byte)) \<longleftrightarrow> bit b 0"
  by (simp add: and_one_eq even_iff_mod_2_eq_zero bit_0 odd_iff_mod_2_eq_one)

lemma byte_and_128: "(b AND 128 \<noteq> (0 :: byte)) \<longleftrightarrow> bit b 7"
proof -
  have "(128 :: byte) = push_bit 7 1" by simp
  then show ?thesis by (metis and_exp_eq_0_iff_not_bit push_bit_of_1)
qed

lemma gf_mul_loop_sum: "gf_mul_loop n a b p = p XOR gf_sum n a b"
proof (induction n arbitrary: a b p)
  case 0
  then show ?case by simp
next
  case (Suc n)
  then show ?case
    by (simp add: Let_def byte_and_1 byte_and_128 xtime_def xor.assoc)
qed

lemma gf_mul_sum: "gf_mul a b = gf_sum 8 a b"
  by (simp add: gf_mul_def gf_mul_loop_sum)

lemma xtime_0 [simp]: "xtime 0 = 0"
  by (simp add: xtime_def)

lemma xtime_xor: "xtime (a XOR b) = xtime a XOR xtime b"
proof -
  have push: "push_bit 1 (a XOR b) = push_bit 1 a XOR push_bit 1 b"
    by (simp add: push_bit_xor)
  show ?thesis
    by (auto simp: xtime_def push bit_xor_iff xor.assoc xor.left_commute xor.commute)
qed

lemma gf_sum_xor_left: "gf_sum n (a XOR a') b = gf_sum n a b XOR gf_sum n a' b"
  by (induction n arbitrary: a a' b) (auto simp: xtime_xor xor.assoc xor.left_commute)

lemma gf_sum_xor_right: "gf_sum n a (b XOR b') = gf_sum n a b XOR gf_sum n a b'"
  by (induction n arbitrary: a b b')
    (auto simp: drop_bit_xor bit_xor_iff xor.assoc xor.left_commute xor.commute)

lemma gf_sum_xtime: "gf_sum n (xtime a) b = xtime (gf_sum n a b)"
  by (induction n arbitrary: a b) (auto simp: xtime_xor)

text \<open>Two additive maps that agree on the eight single-bit bytes are equal.\<close>

definition additive :: "(byte \<Rightarrow> byte) \<Rightarrow> bool" where
  "additive f \<longleftrightarrow> (\<forall>a b. f (a XOR b) = f a XOR f b)"

definition bit_part :: "byte \<Rightarrow> nat \<Rightarrow> byte" where
  "bit_part a i = (if bit a i then 2 ^ i else 0)"

lemma lt8_cases: "(n::nat) < 8 \<longleftrightarrow> n = 0 \<or> n = 1 \<or> n = 2 \<or> n = 3 \<or> n = 4 \<or> n = 5 \<or> n = 6 \<or> n = 7"
  by auto

lemma byte_bits_xor:
  "a = bit_part a 0 XOR bit_part a 1 XOR bit_part a 2 XOR bit_part a 3 XOR
       bit_part a 4 XOR bit_part a 5 XOR bit_part a 6 XOR bit_part a 7" (is "a = ?r")
proof (rule bit_word_eqI)
  fix n assume "n < LENGTH(8)"
  have *: "bit (bit_part a i) n \<longleftrightarrow> bit a i \<and> n = i" for i
    using \<open>n < LENGTH(8)\<close> by (auto simp: bit_part_def bit_simps)
  have "n < 8" using \<open>n < LENGTH(8)\<close> by simp
  then show "bit a n \<longleftrightarrow> bit ?r n"
    unfolding bit_xor_iff * lt8_cases by (elim disjE) simp_all
qed

lemma additive_0: "additive f \<Longrightarrow> f 0 = 0"
  unfolding additive_def by (metis xor_self_eq)

lemma additive_expand:
  assumes "additive f"
  shows "f a = f (bit_part a 0) XOR f (bit_part a 1) XOR f (bit_part a 2) XOR f (bit_part a 3) XOR
     f (bit_part a 4) XOR f (bit_part a 5) XOR f (bit_part a 6) XOR f (bit_part a 7)"
  using arg_cong [OF byte_bits_xor [of a], of f] assms by (simp only: additive_def)

lemma additive_ext:
  assumes f: "additive f" and g: "additive g"
    and eqs: "f 1 = g 1" "f 2 = g 2" "f 4 = g 4" "f 8 = g 8" "f 16 = g 16" "f 32 = g 32" "f 64 = g 64" "f 128 = g 128"
  shows "f a = g a"
proof -
  have "f (bit_part a i) = g (bit_part a i)" if "i \<in> {0,1,2,3,4,5,6,7}" for i
    using that eqs additive_0 [OF f] additive_0 [OF g] by (auto simp: bit_part_def)
  then show ?thesis unfolding additive_expand [OF f, of a] additive_expand [OF g, of a] by simp
qed

lemma xtime_numerals: "xtime 1 = 2" "xtime 2 = 4" "xtime 4 = 8" "xtime 8 = 16" "xtime 16 = 32" "xtime 32 = 64"
   "xtime 64 = 128" "xtime 128 = 27"
  by (simp_all add: xtime_def)

section \<open>Ring laws of the loop\<close>

lemma gf_mul_xor_left: "gf_mul (a XOR a') b = gf_mul a b XOR gf_mul a' b"
  by (simp add: gf_mul_sum gf_sum_xor_left)

lemma gf_mul_xor_right: "gf_mul a (b XOR b') = gf_mul a b XOR gf_mul a b'"
  by (simp add: gf_mul_sum gf_sum_xor_right)

lemma gf_mul_xtime_left: "gf_mul (xtime a) b = xtime (gf_mul a b)"
  by (simp add: gf_mul_sum gf_sum_xtime)

lemma additive_gf_mul_left: "additive (\<lambda>a. gf_mul a b)"
  by (simp add: additive_def gf_mul_xor_left)

lemma additive_gf_mul_right: "additive (gf_mul a)"
  by (simp add: additive_def gf_mul_xor_right)

lemma additive_comp: "additive f \<Longrightarrow> additive g \<Longrightarrow> additive (\<lambda>a. f (g a))"
  by (simp add: additive_def)

lemma gf_mul_0 [simp]: "gf_mul 0 b = 0" "gf_mul a 0 = 0"
  using additive_0 [OF additive_gf_mul_left] additive_0 [OF additive_gf_mul_right] by simp_all

lemma gf_mul_bits:
  "gf_mul a b =
     (if bit b 0 then a else 0) XOR (if bit b 1 then xtime a else 0) XOR
     (if bit b 2 then xtime (xtime a) else 0) XOR (if bit b 3 then xtime (xtime (xtime a)) else 0) XOR
     (if bit b 4 then xtime (xtime (xtime (xtime a))) else 0) XOR
     (if bit b 5 then xtime (xtime (xtime (xtime (xtime a)))) else 0) XOR
     (if bit b 6 then xtime (xtime (xtime (xtime (xtime (xtime a))))) else 0) XOR
     (if bit b 7 then xtime (xtime (xtime (xtime (xtime (xtime (xtime a)))))) else 0)"
proof -
  have eight: "8 = Suc (Suc (Suc (Suc (Suc (Suc (Suc (Suc 0)))))))" by simp
  show ?thesis
    unfolding gf_mul_sum eight gf_sum.simps drop_bit_drop_bit bit_drop_bit_eq comp_def
    by (simp split del: if_split add: eval_nat_numeral)
qed

lemma gf_mul_basis_right:
  "gf_mul a 1 = a"
  "gf_mul a 2 = xtime a"
  "gf_mul a 4 = xtime (xtime a)"
  "gf_mul a 8 = xtime (xtime (xtime a))"
  "gf_mul a 16 = xtime (xtime (xtime (xtime a)))"
  "gf_mul a 32 = xtime (xtime (xtime (xtime (xtime a))))"
  "gf_mul a 64 = xtime (xtime (xtime (xtime (xtime (xtime a)))))"
  "gf_mul a 128 = xtime (xtime (xtime (xtime (xtime (xtime (xtime a))))))"
  by (simp_all add: gf_mul_bits)

lemma gf_mul_1_left [simp]: "gf_mul 1 b = b"
  by (rule additive_ext [OF additive_gf_mul_right, of "\<lambda>b. b"])
    (simp_all add: additive_def gf_mul_basis_right xtime_numerals)

lemma gf_mul_basis_left:
  "gf_mul 2 b = xtime b"
  "gf_mul 4 b = xtime (xtime b)"
  "gf_mul 8 b = xtime (xtime (xtime b))"
  "gf_mul 16 b = xtime (xtime (xtime (xtime b)))"
  "gf_mul 32 b = xtime (xtime (xtime (xtime (xtime b))))"
  "gf_mul 64 b = xtime (xtime (xtime (xtime (xtime (xtime b)))))"
  "gf_mul 128 b = xtime (xtime (xtime (xtime (xtime (xtime (xtime b))))))"
  by (simp_all only: xtime_numerals(1-7) [symmetric] gf_mul_xtime_left gf_mul_1_left)

lemma gf_mul_commute: "gf_mul a b = gf_mul b a"
  by (rule additive_ext [OF additive_gf_mul_left additive_gf_mul_right])
    (simp_all add: gf_mul_basis_left gf_mul_basis_right)

lemma gf_mul_assoc: "gf_mul (gf_mul a b) c = gf_mul a (gf_mul b c)"
  by (rule additive_ext [OF additive_comp [OF additive_gf_mul_left additive_gf_mul_left]
        additive_gf_mul_left])
    (simp_all add: gf_mul_basis_left gf_mul_xtime_left)

section \<open>Squaring\<close>

definition gf_sq :: "byte \<Rightarrow> byte" where
  "gf_sq a = gf_mul a a"

lemma additive_gf_sq: "additive gf_sq"
  by (simp add: additive_def gf_sq_def gf_mul_xor_left gf_mul_xor_right gf_mul_commute
      xor.assoc xor.left_commute)

lemma gf_sq_numerals:
  "gf_sq 1 = 1" "gf_sq 2 = 4" "gf_sq 4 = 16" "gf_sq 8 = 64"
  "gf_sq 16 = 27" "gf_sq 32 = 108" "gf_sq 64 = 171" "gf_sq 128 = 154"
  by (simp_all add: gf_sq_def gf_mul_basis_left xtime_def)

lemma gf_sq_powers:
  "gf_sq (2 ^ 0) = 1" "gf_sq (2 ^ 1) = 4" "gf_sq (2 ^ 2) = 16" "gf_sq (2 ^ 3) = 64"
  "gf_sq (2 ^ 4) = 27" "gf_sq (2 ^ 5) = 108" "gf_sq (2 ^ 6) = 171" "gf_sq (2 ^ 7) = 154"
  by (simp_all add: gf_sq_numerals)

lemma gf_sq_idempotent:
  assumes "gf_sq e = e"
  shows "e = 0 \<or> e = 1"
proof -
  have part: "gf_sq (bit_part e i) = (if bit e i then gf_sq (2 ^ i) else 0)" for i
    by (simp add: bit_part_def additive_0 [OF additive_gf_sq])
  have "gf_sq e = (if bit e 0 then 1 else 0) XOR (if bit e 1 then 4 else 0) XOR
      (if bit e 2 then 16 else 0) XOR (if bit e 3 then 64 else 0) XOR (if bit e 4 then 27 else 0) XOR
      (if bit e 5 then 108 else 0) XOR (if bit e 6 then 171 else 0) XOR
      (if bit e 7 then 154 else 0)"
    unfolding additive_expand [OF additive_gf_sq, of e] part gf_sq_powers ..
  then have word_eq: "bit e n = bit ((if bit e 0 then 1 else 0) XOR (if bit e 1 then 4 else 0) XOR
      (if bit e 2 then 16 else 0) XOR (if bit e 3 then 64 else 0) XOR (if bit e 4 then 27 else 0) XOR
      (if bit e 5 then 108 else 0) XOR (if bit e 6 then 171 else 0) XOR
      (if bit e 7 then 154 else (0::byte))) n" for n
    unfolding assms by (rule arg_cong)
  have sel: "bit (if c then w else 0) n \<longleftrightarrow> c \<and> bit w n" for c n and w :: byte
    by simp
  note eqs = word_eq [unfolded bit_xor_iff sel]
  have bits: "\<not> bit e 1 \<and> \<not> bit e 2 \<and> \<not> bit e 3 \<and> \<not> bit e 4 \<and> \<not> bit e 5 \<and> \<not> bit e 6 \<and> \<not> bit e 7"
    using eqs [of 0] eqs [of 1] eqs [of 2] eqs [of 3] eqs [of 4] eqs [of 5] eqs [of 6] eqs [of 7]
    by simp (cases "bit e 4"; cases "bit e 5"; cases "bit e 7"; simp)
  show ?thesis
    using byte_bits_xor [of e] bits by (simp add: bit_part_def split: if_splits)
qed


lemma gf_sq_8: "gf_sq (gf_sq (gf_sq (gf_sq (gf_sq (gf_sq (gf_sq (gf_sq a))))))) = a"
proof -
  have "additive (\<lambda>a. gf_sq (gf_sq (gf_sq (gf_sq (gf_sq (gf_sq (gf_sq (gf_sq a))))))))"
    using additive_gf_sq by (simp add: additive_def)
  moreover have "additive (\<lambda>a. a)" by (simp add: additive_def)
  ultimately show ?thesis
    by (rule additive_ext) (simp_all add: gf_sq_def gf_mul_bits xtime_def)
qed

section \<open>The field\<close>

typedef gf256 = "UNIV :: byte set"
  morphisms byte_of_gf gf_of_byte ..

setup_lifting type_definition_gf256

instantiation gf256 :: comm_ring_1
begin

lift_definition zero_gf256 :: gf256 is 0 .
lift_definition one_gf256 :: gf256 is 1 .
lift_definition plus_gf256 :: "gf256 \<Rightarrow> gf256 \<Rightarrow> gf256" is "(XOR)" .
lift_definition minus_gf256 :: "gf256 \<Rightarrow> gf256 \<Rightarrow> gf256" is "(XOR)" .
lift_definition uminus_gf256 :: "gf256 \<Rightarrow> gf256" is "\<lambda>a. a" .
lift_definition times_gf256 :: "gf256 \<Rightarrow> gf256 \<Rightarrow> gf256" is gf_mul .

instance
proof
  fix a b c :: gf256
  show "a * b * c = a * (b * c)" by transfer (rule gf_mul_assoc)
  show "a * b = b * a" by transfer (rule gf_mul_commute)
  show "1 * a = a" by transfer simp
  show "a + b + c = a + (b + c)" by transfer (rule xor.assoc)
  show "a + b = b + a" by transfer (rule xor.commute)
  show "0 + a = a" by transfer simp
  show "- a + a = 0" by transfer simp
  show "a - b = a + - b" by transfer simp
  show "(a + b) * c = a * c + b * c" by transfer (rule gf_mul_xor_left)
  show "(0 :: gf256) \<noteq> 1" by transfer simp
qed

end

lemma gf_pow_loop_power: "gf_of_byte (gf_pow_loop r b e) = gf_of_byte r * gf_of_byte b ^ e"
proof (induction r b e rule: gf_pow_loop.induct)
  case (1 r b e)
  have mul: "gf_of_byte (gf_mul x y) = gf_of_byte x * gf_of_byte y" for x y
    by (simp add: times_gf256.abs_eq)
  show ?case
  proof (cases "e = 0")
    case True
    then show ?thesis by (simp add: gf_pow_loop.simps)
  next
    case False
    have "gf_of_byte b ^ e = (gf_of_byte b * gf_of_byte b) ^ (e div 2) * gf_of_byte b ^ (e mod 2)"
      by (simp add: power_mult [symmetric] power_add [symmetric] power2_eq_square [symmetric])
    then show ?thesis using 1 [OF False] False
      by (subst gf_pow_loop.simps) (auto simp: mul mod_2_eq_odd algebra_simps)
  qed
qed

lemma gf256_power_256: "a ^ 256 = (a :: gf256)"
proof -
  have sq: "x * x = gf_of_byte (gf_sq (byte_of_gf x))" for x :: gf256
    by (simp add: gf_sq_def times_gf256_def)
  have "a ^ 256 = (((((((a\<^sup>2)\<^sup>2)\<^sup>2)\<^sup>2)\<^sup>2)\<^sup>2)\<^sup>2)\<^sup>2"
    by (simp add: power_mult [symmetric])
  then show ?thesis
    by (simp add: power2_eq_square sq gf_of_byte_inverse byte_of_gf_inverse gf_sq_8)
qed

lemma gf256_power_255: "a \<noteq> 0 \<Longrightarrow> a ^ 255 = (1 :: gf256)"
proof -
  assume "a \<noteq> 0"
  define e where "e = a ^ 255"
  have ea: "e * a = a"
    using gf256_power_256 [of a] power_Suc2 [of a 255] by (simp add: e_def)
  have split: "e = a * a ^ 254" using power_Suc [of a 254] by (simp add: e_def)
  have "e * e = e * a * a ^ 254" by (subst (2) split) (rule mult.assoc [symmetric])
  also have "\<dots> = e" unfolding ea by (rule split [symmetric])
  finally have "gf_sq (byte_of_gf e) = byte_of_gf e"
    by transfer (simp add: gf_sq_def)
  then have "e = 0 \<or> e = 1" using gf_sq_idempotent by transfer blast
  with ea \<open>a \<noteq> 0\<close> show ?thesis by (auto simp: e_def)
qed


instantiation gf256 :: field
begin

definition inverse_gf256 :: "gf256 \<Rightarrow> gf256" where
  "inverse_gf256 a = a ^ 254"

definition divide_gf256 :: "gf256 \<Rightarrow> gf256 \<Rightarrow> gf256" where
  "divide_gf256 a b = a * b ^ 254"

instance
proof
  fix a b :: gf256
  show "a \<noteq> 0 \<Longrightarrow> inverse a * a = 1"
    using gf256_power_255 [of a] power_Suc2 [of a 254] by (simp add: inverse_gf256_def)
  show "a div b = a * inverse b"
    by (simp add: divide_gf256_def inverse_gf256_def)
  show "inverse (0 :: gf256) = 0"
    by (simp add: inverse_gf256_def)
qed

end

lemma gf_of_byte_simps:
  "gf_of_byte (a XOR b) = gf_of_byte a + gf_of_byte b"
  "gf_of_byte (a XOR b) = gf_of_byte a - gf_of_byte b"
  "gf_of_byte (gf_mul a b) = gf_of_byte a * gf_of_byte b"
  "gf_of_byte 0 = 0"
  "gf_of_byte 1 = 1"
  by (simp_all add: plus_gf256.abs_eq minus_gf256.abs_eq times_gf256.abs_eq zero_gf256_def one_gf256_def)

lemma gf_of_byte_eq_iff: "gf_of_byte a = gf_of_byte b \<longleftrightarrow> a = b"
  by (simp add: gf_of_byte_inject)

lemma gf_inverse_field:
  "gf_inverse v = (if v = 0 then Inl ''zero has no inverse in GF(256)''
     else Inr (byte_of_gf (inverse (gf_of_byte v))))"
  using gf_pow_loop_power [of 1 v 254] gf_of_byte_inverse [of "gf_pow_loop 1 v 254"]
  by (simp add: gf_inverse_def inverse_gf256_def gf_of_byte_simps)

lemma gf_inverse_zero_iff: "(\<exists>e. gf_inverse v = Inl e) \<longleftrightarrow> v = 0"
  by (simp add: gf_inverse_def)

text \<open>
  C3: the two arithmetic routines of the secret-sharing code are the multiplication and the
  inverse of a field. The multiplication loop is commutative, associative, distributes over
  the exclusive or that serves as addition, and has 1 as unit; \<open>gf_inverse\<close> returns a
  multiplicative inverse of every nonzero byte and its error exactly on zero.
\<close>

theorem gf256_field:
  "gf_mul a b = gf_mul b a \<and>
   gf_mul (gf_mul a b) c = gf_mul a (gf_mul b c) \<and>
   gf_mul a (b XOR c) = gf_mul a b XOR gf_mul a c \<and>
   gf_mul 1 a = a \<and>
   (case gf_inverse a of Inl e \<Rightarrow> a = 0 | Inr w \<Rightarrow> a \<noteq> 0 \<and> gf_mul a w = 1)"
proof -
  have "gf_mul a (byte_of_gf (inverse (gf_of_byte a))) = 1" if "a \<noteq> 0"
  proof -
    have "gf_of_byte a \<noteq> 0" using that gf_of_byte_eq_iff [of a 0] by (simp add: gf_of_byte_simps)
    then have "gf_of_byte (gf_mul a (byte_of_gf (inverse (gf_of_byte a)))) = gf_of_byte 1"
      by (simp add: gf_of_byte_simps(3,5) byte_of_gf_inverse)
    then show ?thesis by (simp add: gf_of_byte_eq_iff)
  qed
  then show ?thesis
    using gf_mul_commute [of a b] gf_mul_assoc [of a b c] by (simp add: gf_inverse_field gf_mul_xor_right)
qed

end
