(* ===== verification/Interpolation.thy ===== *)
theory Interpolation
  imports Main
begin

text \<open>
  Polynomial functions over an arbitrary field, given by their coefficient lists, and the
  two facts of interpolation that secret sharing rests on: the value at zero of a polynomial
  of length at most \<open>k\<close> is determined by Lagrange's formula from its values at \<open>k\<close>
  distinct points, and any values at \<open>k\<close> distinct points are taken by exactly one
  coefficient list of length \<open>k\<close>.
\<close>

section \<open>Coefficient lists\<close>

definition horner :: "'a::comm_ring_1 list \<Rightarrow> 'a \<Rightarrow> 'a" where
  "horner cs z = foldr (\<lambda>c acc. c + z * acc) cs 0"

lemma horner_simps [simp]:
  "horner [] z = 0"
  "horner (c # cs) z = c + z * horner cs z"
  by (simp_all add: horner_def)

lemma horner_zero: "horner (c # cs) 0 = c"
  by simp

lemma horner_add:
  "length cs = length ds \<Longrightarrow> horner (map2 (+) cs ds) z = horner cs z + horner ds z"
  by (induction cs ds rule: list_induct2) (auto simp: algebra_simps)

lemma horner_diff:
  "length cs = length ds \<Longrightarrow> horner (map2 (-) cs ds) z = horner cs z - horner ds z"
  by (induction cs ds rule: list_induct2) (simp_all add: right_diff_distrib)

lemma horner_scale: "horner (map ((*) a) cs) z = a * horner cs z"
  by (induction cs) (auto simp: algebra_simps)

lemma horner_replicate_0 [simp]: "horner (replicate n 0) z = 0"
  by (induction n) auto

lemma horner_snoc_0: "horner (cs @ [0]) z = horner cs z"
  by (induction cs) auto

text \<open>Synthetic division by the linear factor at \<open>a\<close>.\<close>

fun quotient_at :: "'a::comm_ring_1 \<Rightarrow> 'a list \<Rightarrow> 'a list" where
  "quotient_at a [] = []"
| "quotient_at a [c] = []"
| "quotient_at a (c # d # cs) = horner (d # cs) a # quotient_at a (d # cs)"

lemma length_quotient_at: "length (quotient_at a cs) = length cs - 1"
  by (induction a cs rule: quotient_at.induct) auto

lemma horner_quotient_at: "horner cs z = horner cs a + (z - a) * horner (quotient_at a cs) z"
proof (induction a cs rule: quotient_at.induct)
  case (3 a c d cs)
  have "horner (c # d # cs) z = c + z * horner (d # cs) z" by simp
  also have "\<dots> = c + z * (horner (d # cs) a + (z - a) * horner (quotient_at a (d # cs)) z)"
    by (subst "3.IH") (rule refl)
  also have "\<dots> = horner (c # d # cs) a + (z - a) * horner (quotient_at a (c # d # cs)) z"
    by (simp add: algebra_simps)
  finally show ?case .
qed auto

lemma quotient_at_all_zero:
  "set (quotient_at a cs) \<subseteq> {0} \<Longrightarrow> set (tl cs) \<subseteq> {0}"
proof (induction a cs rule: quotient_at.induct)
  case (3 a c d cs)
  then have "set cs \<subseteq> {0}" and sum: "d + a * horner cs a = 0" by auto
  then have "cs = replicate (length cs) 0"
    by (intro replicate_eqI) auto
  then have "horner cs a = 0" by (metis horner_replicate_0)
  with sum \<open>set cs \<subseteq> {0}\<close> show ?case by simp
qed auto

section \<open>Uniqueness\<close>

lemma many_roots_zero:
  fixes cs :: "'a::idom list"
  assumes "distinct xs" and "length cs \<le> length xs" and "\<forall>x \<in> set xs. horner cs x = 0"
  shows "set cs \<subseteq> {0}"
  using assms
proof (induction xs arbitrary: cs)
  case Nil
  then show ?case by simp
next
  case (Cons a xs)
  have "horner (quotient_at a cs) x = 0" if "x \<in> set xs" for x
  proof -
    have "horner cs x = 0" "horner cs a = 0" "x \<noteq> a" using Cons.prems that by auto
    then show ?thesis using horner_quotient_at [of cs x a] by simp
  qed
  then have "set (quotient_at a cs) \<subseteq> {0}"
    using Cons.prems by (intro Cons.IH) (auto simp: length_quotient_at)
  then have tl: "set (tl cs) \<subseteq> {0}" by (rule quotient_at_all_zero)
  show ?case
  proof (cases cs)
    case (Cons c ds)
    then have "ds = replicate (length ds) 0" using tl by (intro replicate_eqI) auto
    then have "horner ds a = 0" by (metis horner_replicate_0)
    then have "c = 0" using \<open>\<forall>x \<in> set (a # xs). horner cs x = 0\<close> Cons by simp
    then show ?thesis using tl Cons by simp
  qed simp
qed

lemma horner_unique:
  fixes cs ds :: "'a::idom list"
  assumes "distinct xs" and "length cs = length ds" and "length cs \<le> length xs"
    and "\<forall>x \<in> set xs. horner cs x = horner ds x"
  shows "cs = ds"
proof -
  have "set (map2 (-) cs ds) \<subseteq> {0}"
    using assms by (intro many_roots_zero [of xs]) (auto simp: horner_diff)
  with assms(2) show ?thesis
    by (induction cs ds rule: list_induct2) auto
qed

section \<open>Lagrange interpolation\<close>

definition polyfn :: "nat \<Rightarrow> ('a::comm_ring_1 \<Rightarrow> 'a) \<Rightarrow> bool" where
  "polyfn k f \<longleftrightarrow> (\<exists>cs. length cs = k \<and> f = horner cs)"

lemma polyfn_horner [intro]: "length cs = k \<Longrightarrow> polyfn k (horner cs)"
  by (auto simp: polyfn_def)

lemma polyfn_zero: "polyfn k (\<lambda>z. 0)"
  by (auto simp: polyfn_def fun_eq_iff intro!: exI [of _ "replicate k 0"])

lemma polyfn_one: "polyfn 1 (\<lambda>z. 1)"
  by (auto simp: polyfn_def fun_eq_iff intro!: exI [of _ "[1]"])

lemma polyfn_add: "polyfn k f \<Longrightarrow> polyfn k g \<Longrightarrow> polyfn k (\<lambda>z. f z + g z)"
proof (unfold polyfn_def, elim exE conjE)
  fix cs ds assume "length cs = k" "f = horner cs" "length ds = k" "g = horner ds"
  then show "\<exists>cs. length cs = k \<and> (\<lambda>z. f z + g z) = horner cs"
    by (intro exI [of _ "map2 (+) cs ds"]) (simp add: fun_eq_iff horner_add)
qed

lemma polyfn_scale: "polyfn k f \<Longrightarrow> polyfn k (\<lambda>z. a * f z)"
proof (unfold polyfn_def, elim exE conjE)
  fix cs assume "length cs = k" "f = horner cs"
  then show "\<exists>cs. length cs = k \<and> (\<lambda>z. a * f z) = horner cs"
    by (intro exI [of _ "map ((*) a) cs"]) (simp add: fun_eq_iff horner_scale)
qed

lemma polyfn_linear:
  assumes "polyfn k f"
  shows "polyfn (Suc k) (\<lambda>z. (z - a) * f z)"
proof -
  obtain cs where cs: "length cs = k" "f = horner cs" using assms by (auto simp: polyfn_def)
  have "length (map2 (-) (0 # cs) (map ((*) a) cs @ [0])) = Suc k"
    "horner (map2 (-) (0 # cs) (map ((*) a) cs @ [0])) z = (z - a) * f z" for z
    using cs by (simp_all add: horner_diff horner_snoc_0 horner_scale algebra_simps)
  then show ?thesis
    unfolding polyfn_def
    by (intro exI [of _ "map2 (-) (0 # cs) (map ((*) a) cs @ [0])"]) (simp add: fun_eq_iff)
qed

lemma polyfn_sum_list:
  "(\<And>j. j \<in> set js \<Longrightarrow> polyfn k (f j)) \<Longrightarrow> polyfn k (\<lambda>z. sum_list (map (\<lambda>j. f j z) js))"
  by (induction js) (auto intro: polyfn_zero polyfn_add)

text \<open>The basis polynomial of position \<open>j\<close>, its factors taken in list order.\<close>

definition basis_at :: "'a::field list \<Rightarrow> nat \<Rightarrow> 'a \<Rightarrow> 'a" where
  "basis_at xs j z =
     prod_list (map (\<lambda>m. (z - xs ! m) / (xs ! j - xs ! m)) (filter (\<lambda>m. m \<noteq> j) [0..<length xs]))"

lemma polyfn_prod_linear:
  "polyfn (Suc (length ms)) (\<lambda>z. prod_list (map (\<lambda>m. (z - u m) / v m) ms))"
  for u v :: "nat \<Rightarrow> 'a::field"
proof (induction ms)
  case Nil
  then show ?case using polyfn_one by simp
next
  case (Cons m ms)
  have "polyfn (Suc (Suc (length ms)))
      (\<lambda>z. (1 / v m) * ((z - u m) * prod_list (map (\<lambda>m. (z - u m) / v m) ms)))"
    by (intro polyfn_scale polyfn_linear Cons)
  then show ?case by (simp add: field_simps)
qed

lemma length_filter_neq: "j < n \<Longrightarrow> length (filter (\<lambda>m. m \<noteq> j) [0..<n]) = n - 1"
  by (induction n) (auto simp: less_Suc_eq filter_id_conv [THEN iffD2])

lemma polyfn_basis_at:
  assumes "j < length xs"
  shows "polyfn (length xs) (basis_at xs j)"
proof -
  have "Suc (length (filter (\<lambda>m. m \<noteq> j) [0..<length xs])) = length xs"
    using assms by (simp add: length_filter_neq)
  then show ?thesis
    using polyfn_prod_linear [of "filter (\<lambda>m. m \<noteq> j) [0..<length xs]" "\<lambda>m. xs ! m" "\<lambda>m. xs ! j - xs ! m"]
    unfolding basis_at_def [abs_def] by simp
qed

lemma basis_at_point:
  assumes "distinct xs" and "i < length xs" and "j < length xs"
  shows "basis_at xs j (xs ! i) = (if i = j then 1 else 0)"
proof (cases "i = j")
  case True
  have "(xs ! j - xs ! m) / (xs ! j - xs ! m) = 1" if "m < length xs" "m \<noteq> j" for m
    using assms that by (simp add: nth_eq_iff_index_eq)
  then have "map (\<lambda>m. (xs ! j - xs ! m) / (xs ! j - xs ! m)) (filter (\<lambda>m. m \<noteq> j) [0..<length xs])
      = map (\<lambda>m. 1) (filter (\<lambda>m. m \<noteq> j) [0..<length xs])"
    by (intro map_cong) auto
  with True show ?thesis by (simp add: basis_at_def map_replicate_const)
next
  case False
  then have "i \<in> set (filter (\<lambda>m. m \<noteq> j) [0..<length xs])" using assms by simp
  then have "(0::'a) \<in> set (map (\<lambda>m. (xs ! i - xs ! m) / (xs ! j - xs ! m))
      (filter (\<lambda>m. m \<noteq> j) [0..<length xs]))"
    by (force simp: image_iff)
  then show ?thesis using False by (simp add: basis_at_def prod_list_zero_iff)
qed

definition lagrange :: "'a::field list \<Rightarrow> 'a list \<Rightarrow> 'a \<Rightarrow> 'a" where
  "lagrange xs ys z = sum_list (map (\<lambda>j. ys ! j * basis_at xs j z) [0..<length xs])"

lemma polyfn_lagrange: "polyfn (length xs) (lagrange xs ys)"
  unfolding lagrange_def [abs_def]
  by (intro polyfn_sum_list polyfn_scale) (auto intro: polyfn_basis_at)

lemma lagrange_point:
  assumes "distinct xs" and "i < length xs"
  shows "lagrange xs ys (xs ! i) = ys ! i"
proof -
  have "map (\<lambda>j. ys ! j * basis_at xs j (xs ! i)) [0..<length xs]
      = map (\<lambda>j. if j = i then ys ! i else 0) [0..<length xs]"
    using assms by (intro map_cong) (auto simp: basis_at_point)
  then have "lagrange xs ys (xs ! i) = (\<Sum>j \<in> {0..<length xs}. if j = i then ys ! i else 0)"
    by (simp add: lagrange_def interv_sum_list_conv_sum_set_nat)
  then show ?thesis using assms by simp
qed

theorem lagrange_horner:
  fixes cs :: "'a::field list"
  assumes "distinct xs" and "length cs = length xs"
  shows "lagrange xs (map (horner cs) xs) z = horner cs z"
proof -
  obtain ds where ds: "length ds = length xs" "lagrange xs (map (horner cs) xs) = horner ds"
    using polyfn_lagrange [of xs "map (horner cs) xs"] unfolding polyfn_def by blast
  have "\<forall>x \<in> set xs. horner ds x = horner cs x"
    using lagrange_point [OF assms(1), of _ "map (horner cs) xs"] ds
    by (auto simp: in_set_conv_nth)
  then have "ds = cs"
    using assms ds by (intro horner_unique [of xs]) auto
  with ds show ?thesis by simp
qed

theorem interpolation_unique_ex:
  fixes ys :: "'a::field list"
  assumes "distinct xs" and "length ys = length xs"
  shows "\<exists>!cs. length cs = length xs \<and> map (horner cs) xs = ys"
proof -
  obtain ds where ds: "length ds = length xs" "lagrange xs ys = horner ds"
    using polyfn_lagrange [of xs ys] unfolding polyfn_def by blast
  have "map (horner ds) xs = ys"
    using assms lagrange_point [OF assms(1), of _ ys] ds by (intro nth_equalityI) auto
  moreover have "cs = ds" if "length cs = length xs" "map (horner cs) xs = ys" for cs
    using assms ds(1) that calculation by (intro horner_unique [of xs]) (auto simp: map_eq_conv)
  ultimately show ?thesis using ds(1) by blast
qed

end
