(* ===== verification/Shamir.thy ===== *)
theory Shamir
  imports GF256 Interpolation
begin

text \<open>
  The Shamir secret sharing and key wrapping of \<^verbatim>\<open>crates/heptabao-server/src/crypto.rs\<close>.

  A share is the record \<open>secret_share\<close>; \<open>split_secret\<close>, \<open>combine_shares\<close>,
  \<open>share_encode\<close> and \<open>share_decode\<close> follow the functions of the source loop by loop and
  return the source's error strings on the left of a sum. What the program takes from the
  \<^verbatim>\<open>ring\<close> crate is a parameter: \<open>fill\<close> is the operating system's random source
  (call number and position of the byte in the buffer; \<open>None\<close> when it is unavailable),
  \<open>sha\<close> is SHA-256, and \<open>seal\<close> and \<open>open\<close> are AES-256-GCM.
\<close>

section \<open>Shares\<close>

record secret_share =
  share_total :: byte
  share_threshold :: byte
  share_index :: byte
  share_value :: "byte list"

abbreviation SHARE_SECRET_BYTES :: nat where
  "SHARE_SECRET_BYTES \<equiv> 32"

definition SHARE_MAGIC :: "byte list" where
  "SHARE_MAGIC = [72, 66, 83, 49]"

definition SHARE_CHECKSUM_BYTES :: nat where
  "SHARE_CHECKSUM_BYTES = 4"

definition SHARE_BYTES :: nat where
  "SHARE_BYTES = length SHARE_MAGIC + 3 + SHARE_SECRET_BYTES + SHARE_CHECKSUM_BYTES"

definition validate_share_parameters :: "byte \<Rightarrow> byte \<Rightarrow> string + unit" where
  "validate_share_parameters n threshold =
     (if n = 0 \<or> threshold = 0 \<or> n < threshold
      then Inl ''invalid Shamir share parameters'' else Inr ())"

section \<open>Splitting\<close>

text \<open>The inner loop over the coefficients, with the running power of \<open>x\<close>.\<close>

primrec share_eval_loop :: "byte \<Rightarrow> byte list \<Rightarrow> byte \<Rightarrow> byte \<Rightarrow> byte" where
  "share_eval_loop x [] value pow = value"
| "share_eval_loop x (coefficient # coefficients) value pow =
     share_eval_loop x coefficients (value XOR gf_mul coefficient pow) (gf_mul pow x)"

definition share_eval :: "byte \<Rightarrow> byte list \<Rightarrow> byte \<Rightarrow> byte" where
  "share_eval secret_byte coefficients x = share_eval_loop x coefficients secret_byte x"

type_synonym rng = "nat \<Rightarrow> (nat \<Rightarrow> byte) option"

primrec split_bytes ::
  "rng \<Rightarrow> nat \<Rightarrow> nat \<Rightarrow> byte list \<Rightarrow> secret_share list \<Rightarrow> string + secret_share list" where
  "split_bytes fill coefficient_count byte_index [] shares = Inr shares"
| "split_bytes fill coefficient_count byte_index (secret_byte # rest) shares =
     rbind (ok_or (fill byte_index) ''operating system randomness unavailable'') (\<lambda>random.
       let coefficients = map random [0..<coefficient_count] in
       split_bytes fill coefficient_count (Suc byte_index) rest
         (map (\<lambda>share. share\<lparr>share_value := (share_value share)
                  [byte_index := share_eval secret_byte coefficients (share_index share)]\<rparr>) shares))"

definition split_secret ::
  "rng \<Rightarrow> byte list \<Rightarrow> byte \<Rightarrow> byte \<Rightarrow> string + secret_share list" where
  "split_secret fill secret n threshold =
     rbind (validate_share_parameters n threshold) (\<lambda>_.
       split_bytes fill (unat threshold - 1) 0 secret
         (map (\<lambda>index. \<lparr>share_total = n, share_threshold = threshold,
                 share_index = word_of_nat index,
                 share_value = replicate SHARE_SECRET_BYTES 0\<rparr>) [1..<Suc (unat n)]))"

section \<open>Combining\<close>

text \<open>The check of each selected share against the first one and against those before it.\<close>

primrec check_selected ::
  "secret_share \<Rightarrow> secret_share list \<Rightarrow> secret_share list \<Rightarrow> string + unit" where
  "check_selected first before [] = Inr ()"
| "check_selected first before (share # rest) =
     (if share_total share \<noteq> share_total first \<or> share_threshold share \<noteq> share_threshold first
      then Inl ''Shamir share parameter mismatch''
      else if list_ex (\<lambda>existing. share_index existing = share_index share) before
      then Inl ''duplicate Shamir share index''
      else check_selected first (before @ [share]) rest)"

text \<open>The Lagrange basis value at zero of the share at \<open>position\<close>.\<close>

primrec combine_basis ::
  "nat \<Rightarrow> secret_share \<Rightarrow> (nat \<times> secret_share) list \<Rightarrow> byte \<Rightarrow> string + byte" where
  "combine_basis position share [] basis = Inr basis"
| "combine_basis position share (entry # rest) basis =
     (if position = fst entry then combine_basis position share rest basis
      else
        let other = snd entry; denominator = share_index other XOR share_index share in
        if denominator = 0 then Inl ''duplicate Shamir share index''
        else rbind (gf_inverse denominator) (\<lambda>inv.
          combine_basis position share rest (gf_mul basis (gf_mul (share_index other) inv))))"

primrec combine_byte ::
  "secret_share list \<Rightarrow> nat \<Rightarrow> (nat \<times> secret_share) list \<Rightarrow> byte \<Rightarrow> string + byte" where
  "combine_byte selected byte_index [] value = Inr value"
| "combine_byte selected byte_index (entry # rest) value =
     rbind (combine_basis (fst entry) (snd entry) (enumerate 0 selected) 1) (\<lambda>basis.
       combine_byte selected byte_index rest
         (value XOR gf_mul (share_value (snd entry) ! byte_index) basis))"

definition combine_shares :: "secret_share list \<Rightarrow> string + byte list" where
  "combine_shares shares =
     (case shares of
        [] \<Rightarrow> Inl ''no Shamir shares supplied''
      | first # _ \<Rightarrow>
          rbind (validate_share_parameters (share_total first) (share_threshold first)) (\<lambda>_.
            if length shares < unat (share_threshold first) then Inl ''insufficient Shamir shares''
            else
              let selected = take (unat (share_threshold first)) shares in
              rbind (check_selected first [] selected) (\<lambda>_.
                rcollect (\<lambda>byte_index. combine_byte selected byte_index (enumerate 0 selected) 0)
                  [0..<SHARE_SECRET_BYTES])))"

section \<open>The opaque encoding of a share\<close>

definition share_domain :: "byte list" where
  "share_domain = map (\<lambda>c. word_of_nat (byte_of c)) ''heptabao.shamir-share.v1'' @ [0]"

definition share_checksum :: "(byte list \<Rightarrow> byte list) \<Rightarrow> byte list \<Rightarrow> byte list" where
  "share_checksum sha encoded_without_checksum = sha (share_domain @ encoded_without_checksum)"

definition share_encode :: "(byte list \<Rightarrow> byte list) \<Rightarrow> secret_share \<Rightarrow> byte list" where
  "share_encode sha share =
     (let encoded = SHARE_MAGIC @ [share_total share, share_threshold share, share_index share]
            @ share_value share
      in encoded @ take SHARE_CHECKSUM_BYTES (share_checksum sha encoded))"

definition share_decode :: "(byte list \<Rightarrow> byte list) \<Rightarrow> byte list \<Rightarrow> string + secret_share" where
  "share_decode sha encoded =
     (if length encoded \<noteq> SHARE_BYTES \<or> take (length SHARE_MAGIC) encoded \<noteq> SHARE_MAGIC
      then Inl ''invalid Shamir share format''
      else
        let checksum_offset = SHARE_BYTES - SHARE_CHECKSUM_BYTES;
            expected = share_checksum sha (take checksum_offset encoded) in
        if drop checksum_offset encoded \<noteq> take SHARE_CHECKSUM_BYTES expected
        then Inl ''invalid Shamir share checksum''
        else
          let n = encoded ! 4; threshold = encoded ! 5; index = encoded ! 6 in
          rbind (validate_share_parameters n threshold) (\<lambda>_.
            if index = 0 \<or> n < index then Inl ''invalid Shamir share index''
            else Inr \<lparr>share_total = n, share_threshold = threshold, share_index = index,
                      share_value = take SHARE_SECRET_BYTES (drop 7 encoded)\<rparr>))"

section \<open>Key wrapping\<close>

definition WRAPPED_KEY_MAGIC :: "byte list" where
  "WRAPPED_KEY_MAGIC = [72, 66, 75, 49]"

text \<open>
  \<open>seal key nonce context plaintext\<close> is the ciphertext with its 16-byte tag and
  \<open>open key nonce context ciphertext\<close> the authenticated plaintext; \<open>None\<close> is
  \<^verbatim>\<open>ring::error::Unspecified\<close>.
\<close>

type_synonym aead_fn = "byte list \<Rightarrow> byte list \<Rightarrow> byte list \<Rightarrow> byte list \<Rightarrow> byte list option"

definition wrap_barrier_key ::
  "aead_fn \<Rightarrow> rng \<Rightarrow> byte list \<Rightarrow> byte list \<Rightarrow> byte list \<Rightarrow> string + byte list" where
  "wrap_barrier_key seal fill seal_key context barrier_key =
     rbind (ok_or (fill 0) ''operating system randomness unavailable'') (\<lambda>random.
       let nonce = map random [0..<12] in
       rbind (ok_or (seal seal_key nonce context barrier_key) ''cannot wrap barrier key'')
         (\<lambda>ciphertext. Inr (WRAPPED_KEY_MAGIC @ nonce @ ciphertext)))"

definition unwrap_barrier_key ::
  "aead_fn \<Rightarrow> byte list \<Rightarrow> byte list \<Rightarrow> byte list \<Rightarrow> string + byte list" where
  "unwrap_barrier_key open_aead seal_key context encoded =
     (if length encoded \<noteq> length WRAPPED_KEY_MAGIC + 12 + 32 + 16
         \<or> take (length WRAPPED_KEY_MAGIC) encoded \<noteq> WRAPPED_KEY_MAGIC
      then Inl ''invalid wrapped barrier key format''
      else
        let nonce = take 12 (drop 4 encoded); ciphertext = drop 16 encoded in
        rbind (ok_or (open_aead seal_key nonce context ciphertext) ''seal key authentication failed'')
          (\<lambda>result. if length result \<noteq> 32 then Inl ''invalid wrapped barrier key length''
                    else Inr result))"

text \<open>The barrier of the durable store: the same cipher under a per-record nonce.\<close>

definition barrier_seal :: "aead_fn \<Rightarrow> rng \<Rightarrow> byte list \<Rightarrow> byte list \<Rightarrow> byte list \<Rightarrow> byte list option" where
  "barrier_seal seal fill key context plaintext =
     (case fill 0 of
        None \<Rightarrow> None
      | Some random \<Rightarrow>
          let nonce = map random [0..<12] in
          map_option (\<lambda>output. [72, 66, 65, 49] @ nonce @ output) (seal key nonce context plaintext))"

definition barrier_open :: "aead_fn \<Rightarrow> byte list \<Rightarrow> byte list \<Rightarrow> byte list \<Rightarrow> byte list option" where
  "barrier_open open_aead key context protected =
     (if length protected < 32 \<or> take 4 protected \<noteq> [72, 66, 65, 49] then None
      else open_aead key (take 12 (drop 4 protected)) context (drop 16 protected))"

section \<open>Shares are values of a polynomial\<close>

abbreviation G :: "byte \<Rightarrow> gf256" where
  "G \<equiv> gf_of_byte"

lemma gf256_minus [simp]: "- a = (a :: gf256)" "a - b = a + (b :: gf256)"
  by (transfer, simp)+

lemma G_eq_iff [simp]: "G a = G b \<longleftrightarrow> a = b" "G a = 0 \<longleftrightarrow> a = 0"
  using gf_of_byte_eq_iff [of a 0] by (simp_all add: gf_of_byte_eq_iff gf_of_byte_simps)

lemmas G_simps = gf_of_byte_simps(1,3-5)

lemma G_share_eval_loop:
  "G (share_eval_loop x cs v p) = G v + G p * horner (map G cs) (G x)"
  by (induction cs arbitrary: v p) (auto simp: G_simps algebra_simps)

lemma G_share_eval: "G (share_eval s cs x) = horner (map G (s # cs)) (G x)"
  by (simp add: share_eval_def G_share_eval_loop)

text \<open>The value array of one share after the loop over the secret's bytes.\<close>

primrec split_values :: "rng \<Rightarrow> nat \<Rightarrow> nat \<Rightarrow> byte list \<Rightarrow> byte \<Rightarrow> byte list \<Rightarrow> byte list" where
  "split_values fill cnt bi [] x vals = vals"
| "split_values fill cnt bi (s # ss) x vals =
     split_values fill cnt (Suc bi) ss x
       (vals[bi := share_eval s (map (the (fill bi)) [0..<cnt]) x])"

lemma split_bytes_Inr_iff:
  "split_bytes fill cnt bi secret shares = Inr out \<longleftrightarrow>
     (\<forall>i < length secret. fill (bi + i) \<noteq> None) \<and>
     out = map (\<lambda>sh. sh\<lparr>share_value := split_values fill cnt bi secret (share_index sh) (share_value sh)\<rparr>) shares"
proof (induction secret arbitrary: bi shares)
  case Nil
  then show ?case by auto
next
  case (Cons s ss)
  have "(\<forall>i < length (s # ss). fill (bi + i) \<noteq> None) \<longleftrightarrow>
      fill bi \<noteq> None \<and> (\<forall>i < length ss. fill (Suc bi + i) \<noteq> None)"
    by (auto simp: less_Suc_eq_0_disj)
  then show ?case
    by (cases "fill bi") (auto simp: Cons.IH Let_def comp_def)
qed

lemma length_split_values [simp]: "length (split_values fill cnt bi secret x vals) = length vals"
  by (induction secret arbitrary: bi vals) auto

lemma nth_split_values:
  "bi + length secret \<le> length vals \<Longrightarrow> i < length vals \<Longrightarrow>
   split_values fill cnt bi secret x vals ! i =
     (if bi \<le> i \<and> i < bi + length secret
      then share_eval (secret ! (i - bi)) (map (the (fill i)) [0..<cnt]) x
      else vals ! i)"
proof (induction secret arbitrary: bi vals)
  case Nil
  then show ?case by auto
next
  case (Cons s ss)
  show ?case
  proof (cases "i = bi")
    case True
    with Cons show ?thesis by simp
  next
    case False
    then have "Suc bi \<le> i \<longleftrightarrow> bi \<le> i" by auto
    moreover have "(s # ss) ! (i - bi) = ss ! (i - Suc bi)" if "bi \<le> i"
      using False that by (simp add: nth_Cons')
    ultimately show ?thesis using False Cons by simp
  qed
qed

text \<open>The share with index \<open>x\<close> that the split produces for each value of the random source.\<close>

definition share_at :: "rng \<Rightarrow> byte list \<Rightarrow> byte \<Rightarrow> byte \<Rightarrow> byte \<Rightarrow> secret_share" where
  "share_at fill secret n t x =
     \<lparr>share_total = n, share_threshold = t, share_index = x,
      share_value = map (\<lambda>b. share_eval (secret ! b) (map (the (fill b)) [0..<unat t - 1]) x) [0..<32]\<rparr>"

lemma share_at_simps [simp]:
  "share_total (share_at fill secret n t x) = n"
  "share_threshold (share_at fill secret n t x) = t"
  "share_index (share_at fill secret n t x) = x"
  "b < 32 \<Longrightarrow> share_value (share_at fill secret n t x) ! b =
     share_eval (secret ! b) (map (the (fill b)) [0..<unat t - 1]) x"
  by (simp_all add: share_at_def)

definition share_indices :: "byte \<Rightarrow> byte list" where
  "share_indices n = map word_of_nat [1..<Suc (unat n)]"

lemma validate_ok_iff [simp]:
  "validate_share_parameters n t = Inr u \<longleftrightarrow> n \<noteq> 0 \<and> t \<noteq> 0 \<and> t \<le> n"
  by (auto simp: validate_share_parameters_def)

lemma split_secret_Inr_iff:
  assumes "length secret = 32"
  shows "split_secret fill secret n t = Inr shares \<longleftrightarrow>
    n \<noteq> 0 \<and> t \<noteq> 0 \<and> t \<le> n \<and> (\<forall>i < 32. fill i \<noteq> None) \<and>
    shares = map (share_at fill secret n t) (share_indices n)"
proof -
  have "split_values fill (unat t - 1) 0 secret x (replicate 32 0) =
      map (\<lambda>b. share_eval (secret ! b) (map (the (fill b)) [0..<unat t - 1]) x) [0..<32]" for x
    using assms by (intro nth_equalityI) (simp_all add: nth_split_values)
  then show ?thesis
    using assms by (auto simp: split_secret_def split_bytes_Inr_iff share_at_def share_indices_def comp_def)
qed

lemma set_share_indices: "set (share_indices n) = {x. x \<noteq> 0 \<and> x \<le> n}"
proof -
  have "x \<in> word_of_nat ` {1..<Suc (unat n)}" if "x \<noteq> 0" "x \<le> n" for x
    using that by (intro image_eqI [of _ _ "unat x"])
      (auto simp: word_le_nat_alt unat_gt_0 Suc_le_eq)
  moreover have "word_of_nat i \<noteq> (0 :: byte) \<and> word_of_nat i \<le> n" if "1 \<le> i" "i \<le> unat n" for i
  proof -
    have "unat (word_of_nat i :: byte) = i"
      using that unat_byte_bound [of n] by (intro unat_word_of_nat_byte) simp
    then show ?thesis using that by (auto simp: word_le_nat_alt)
  qed
  moreover have "set (share_indices n) = word_of_nat ` {1..<Suc (unat n)}"
    by (simp only: share_indices_def set_map set_upt)
  ultimately show ?thesis by auto
qed

lemma distinct_share_indices: "distinct (share_indices n)"
proof -
  have "inj_on (word_of_nat :: nat \<Rightarrow> byte) {1..<Suc (unat n)}"
    using unat_byte_bound [of n] by (intro inj_on_inverseI [of _ unat]) (simp add: unat_word_of_nat_byte)
  then show ?thesis by (simp only: share_indices_def distinct_map set_upt distinct_upt simp_thms)
qed

lemma share_indices_3: "share_indices 3 = [1, 2, 3]"
  by (simp add: share_indices_def upt_rec)

section \<open>Combining evaluates Lagrange's formula at zero\<close>

lemma check_selected_ok:
  "check_selected first before sel = Inr () \<longleftrightarrow>
     (\<forall>s \<in> set sel. share_total s = share_total first \<and> share_threshold s = share_threshold first) \<and>
     distinct (map share_index sel) \<and>
     share_index ` set sel \<inter> share_index ` set before = {}"
proof (induction sel arbitrary: before)
  case Nil
  then show ?case by simp
next
  case (Cons s sel)
  have "list_ex (\<lambda>existing. share_index existing = share_index s) before \<longleftrightarrow>
      share_index s \<in> share_index ` set before"
    unfolding list_ex_iff image_iff by metis
  then show ?case
    using Cons.IH [of "before @ [s]"]
    by (cases "share_index s \<in> share_index ` set before") (simp_all, blast+)
qed

lemma combine_basis_value:
  "\<forall>e \<in> set entries. fst e \<noteq> pos \<longrightarrow> share_index (snd e) \<noteq> share_index share \<Longrightarrow>
   \<exists>b. combine_basis pos share entries basis = Inr b \<and>
     G b = G basis * prod_list (map (\<lambda>e. G (share_index (snd e)) /
       (G (share_index share) + G (share_index (snd e)))) (filter (\<lambda>e. fst e \<noteq> pos) entries))"
proof (induction entries arbitrary: basis)
  case Nil
  then show ?case by simp
next
  case (Cons e entries)
  show ?case
  proof (cases "fst e = pos")
    case True
    with Cons show ?thesis by simp
  next
    case False
    define d where "d = share_index (snd e) XOR share_index share"
    define w where "w = byte_of_gf (inverse (G d))"
    have d: "d \<noteq> 0" using Cons.prems False by (simp add: d_def byte_xor_eq_0_iff)
    have w: "gf_inverse d = Inr w" using d by (simp add: gf_inverse_field w_def)
    have Gw: "G w = 1 / (G (share_index share) + G (share_index (snd e)))"
      by (simp add: w_def byte_of_gf_inverse d_def G_simps inverse_eq_divide add.commute)
    obtain b where b: "combine_basis pos share entries (gf_mul basis (gf_mul (share_index (snd e)) w)) = Inr b"
      "G b = G (gf_mul basis (gf_mul (share_index (snd e)) w)) * prod_list (map (\<lambda>e. G (share_index (snd e)) /
       (G (share_index share) + G (share_index (snd e)))) (filter (\<lambda>e. fst e \<noteq> pos) entries))"
      using Cons by fastforce
    have "combine_basis pos share (e # entries) basis = Inr b"
      using False d w b(1) by (auto simp: Let_def d_def [symmetric])
    moreover have "G b = G basis * prod_list (map (\<lambda>e. G (share_index (snd e)) /
       (G (share_index share) + G (share_index (snd e)))) (filter (\<lambda>e. fst e \<noteq> pos) (e # entries)))"
      using False by (simp add: b(2) G_simps Gw)
    ultimately show ?thesis by blast
  qed
qed

lemma enumerate_nth: "enumerate 0 xs = map (\<lambda>m. (m, xs ! m)) [0..<length xs]"
  by (intro nth_equalityI) (auto simp: nth_enumerate_eq)

lemma combine_basis_lagrange:
  assumes "distinct (map share_index sel)" and "j < length sel"
  shows "\<exists>b. combine_basis j (sel ! j) (enumerate 0 sel) 1 = Inr b \<and>
    G b = basis_at (map (\<lambda>s. G (share_index s)) sel) j 0"
proof -
  have "\<forall>e \<in> set (enumerate 0 sel). fst e \<noteq> j \<longrightarrow> share_index (snd e) \<noteq> share_index (sel ! j)"
    using assms by (auto simp: enumerate_nth distinct_conv_nth)
  from combine_basis_value [OF this, of 1]
  obtain b where b: "combine_basis j (sel ! j) (enumerate 0 sel) 1 = Inr b"
    "G b = prod_list (map (\<lambda>e. G (share_index (snd e)) /
       (G (share_index (sel ! j)) + G (share_index (snd e)))) (filter (\<lambda>e. fst e \<noteq> j) (enumerate 0 sel)))"
    by (auto simp: G_simps)
  have "map (\<lambda>e. G (share_index (snd e)) / (G (share_index (sel ! j)) + G (share_index (snd e))))
      (filter (\<lambda>e. fst e \<noteq> j) (enumerate 0 sel)) =
    map (\<lambda>m. (0 - map (\<lambda>s. G (share_index s)) sel ! m) /
         (map (\<lambda>s. G (share_index s)) sel ! j - map (\<lambda>s. G (share_index s)) sel ! m))
      (filter (\<lambda>m. m \<noteq> j) [0..<length (map (\<lambda>s. G (share_index s)) sel)])"
    using assms by (auto simp: enumerate_nth filter_map comp_def)
  then show ?thesis using b by (simp add: basis_at_def)
qed

lemma combine_byte_sum:
  assumes "distinct (map share_index sel)" and "set js \<subseteq> {..<length sel}"
  shows "\<exists>b. combine_byte sel bi (map (\<lambda>j. (j, sel ! j)) js) v = Inr b \<and>
    G b = G v + sum_list (map (\<lambda>j. G (share_value (sel ! j) ! bi) *
      basis_at (map (\<lambda>s. G (share_index s)) sel) j 0) js)"
  using assms(2)
proof (induction js arbitrary: v)
  case Nil
  then show ?case by simp
next
  case (Cons j js)
  obtain b where b: "combine_basis j (sel ! j) (enumerate 0 sel) 1 = Inr b"
      "G b = basis_at (map (\<lambda>s. G (share_index s)) sel) j 0"
    using combine_basis_lagrange [OF assms(1), of j] Cons.prems by auto
  show ?case
    using Cons.IH [of "v XOR gf_mul (share_value (sel ! j) ! bi) b"] Cons.prems
    by (auto simp: b G_simps add.assoc)
qed

lemma combine_byte_secret:
  assumes "distinct (map share_index sel)" and "length sel = Suc (length cs)"
    and "\<forall>s \<in> set sel. share_value s ! bi = share_eval secret cs (share_index s)"
  shows "combine_byte sel bi (enumerate 0 sel) 0 = Inr secret"
proof -
  let ?xs = "map (\<lambda>s. G (share_index s)) sel"
  have dist: "distinct ?xs"
    using assms(1) by (auto simp: distinct_map inj_on_def)
  obtain b where b: "combine_byte sel bi (enumerate 0 sel) 0 = Inr b"
    "G b = sum_list (map (\<lambda>j. G (share_value (sel ! j) ! bi) * basis_at ?xs j 0) [0..<length sel])"
    using combine_byte_sum [OF assms(1), of "[0..<length sel]" bi 0]
    by (auto simp: enumerate_nth G_simps lessThan_atLeast0)
  have "map (\<lambda>j. G (share_value (sel ! j) ! bi) * basis_at ?xs j 0) [0..<length sel] =
      map (\<lambda>j. map (horner (map G (secret # cs))) ?xs ! j * basis_at ?xs j 0) [0..<length ?xs]"
    using assms(3) by (intro map_cong) (auto simp: G_share_eval)
  then have "G b = lagrange ?xs (map (horner (map G (secret # cs))) ?xs) 0"
    by (simp only: b(2) lagrange_def)
  also have "\<dots> = horner (map G (secret # cs)) 0"
    using dist assms(2) by (intro lagrange_horner) simp_all
  finally have "b = secret" by simp
  with b show ?thesis by simp
qed

lemma rcollect_all: "(\<And>x. x \<in> set xs \<Longrightarrow> f x = Inr (g x)) \<Longrightarrow> rcollect f xs = Inr (map g xs)"
  by (induction xs) auto

lemma combine_split:
  assumes "length secret = SHARE_SECRET_BYTES"
    and "split_secret fill secret n t = Inr shares"
    and "set chosen \<subseteq> set shares" and "distinct chosen" and "unat t \<le> length chosen"
  shows "combine_shares chosen = Inr secret"
proof -
  have n: "n \<noteq> 0" "t \<noteq> 0" "t \<le> n" and shares: "shares = map (share_at fill secret n t) (share_indices n)"
    using assms(1,2) by (simp_all add: split_secret_Inr_iff)
  have form: "s = share_at fill secret n t (share_index s)" if "s \<in> set chosen" for s
    using that assms(3) by (auto simp: shares)
  have "0 < unat t" using n(2) by (simp add: unat_gt_0)
  then obtain first rest where sub: "chosen = first # rest"
    using assms(5) by (cases chosen) auto
  define sel where "sel = take (unat t) chosen"
  have sel: "set sel \<subseteq> set chosen" "length sel = unat t" "distinct sel"
    using assms(4,5) by (auto simp: sel_def dest: in_set_takeD)
  have fields: "share_total s = n" "share_threshold s = t" if "s \<in> set chosen" for s
    using form [OF that] by (metis share_at_simps(1,2))+
  have inj: "inj_on share_index (set sel)"
    using form sel(1) by (intro inj_onI) (metis subsetD)
  then have dist: "distinct (map share_index sel)" using sel(3) by (simp add: distinct_map)
  have "combine_byte sel b (enumerate 0 sel) 0 = Inr (secret ! b)" if "b < 32" for b
  proof (rule combine_byte_secret [OF dist])
    show "length sel = Suc (length (map (the (fill b)) [0..<unat t - 1]))"
      using sel(2) \<open>0 < unat t\<close> by simp
    show "\<forall>s \<in> set sel. share_value s ! b =
        share_eval (secret ! b) (map (the (fill b)) [0..<unat t - 1]) (share_index s)"
      using form sel(1) that by (metis share_at_simps(4) subsetD)
  qed
  then have bytes: "rcollect (\<lambda>b. combine_byte sel b (enumerate 0 sel) 0) [0..<32] = Inr secret"
    using rcollect_all [of "[0..<32]" "\<lambda>b. combine_byte sel b (enumerate 0 sel) 0" "\<lambda>b. secret ! b"]
      map_nth [of secret] assms(1) by simp
  have "check_selected first [] sel = Inr ()"
    using fields sel(1) dist by (auto simp: check_selected_ok sub)
  moreover have "share_total first = n" "share_threshold first = t"
    using fields [of first] by (simp_all add: sub)
  ultimately show ?thesis
    using n assms(5) bytes by (simp add: combine_shares_def sub sel_def Let_def)
qed

text \<open>
  C1: any distinct shares of one split, at least \<open>threshold\<close> many and in any order, combine to
  the secret that was split, whatever the random coefficients were.
\<close>

theorem split_combine:
  assumes "length secret = SHARE_SECRET_BYTES"
    and "split_secret fill secret n t = Inr shares"
    and "set chosen \<subseteq> set shares" and "distinct chosen" and "unat t \<le> length chosen"
  shows "combine_shares chosen = Inr secret"
  using assms by (rule combine_split)

theorem split_combine_witness:
  "\<exists>shares. split_secret (\<lambda>i. Some (\<lambda>j. word_of_nat (i + 3 * j))) (replicate 32 7) 3 2 = Inr shares \<and>
     combine_shares (rev (tl shares)) = Inr (replicate 32 7)"
proof -
  let ?fill = "\<lambda>i. Some (\<lambda>j. word_of_nat (i + 3 * j))"
  let ?shares = "map (share_at ?fill (replicate 32 7) 3 2) (share_indices 3)"
  have ok: "split_secret ?fill (replicate 32 7) 3 2 = Inr ?shares"
    by (simp add: split_secret_Inr_iff)
  have "distinct (rev (tl ?shares))" "length (rev (tl ?shares)) = 2"
    by (auto simp: share_indices_3 dest: arg_cong [of _ _ share_index])
  then have "combine_shares (rev (tl ?shares)) = Inr (replicate 32 7)"
    by (intro split_combine [OF _ ok]) (auto dest: list.set_sel(2) [rotated])
  with ok show ?thesis by blast
qed

lemma share_row_ex1:
  assumes "distinct xs" and "0 \<notin> set xs" and "length ys = length xs"
  shows "\<exists>!row. length row = length xs \<and> map (share_eval s row) xs = ys"
proof -
  let ?xs = "map G (0 # xs)" and ?ys = "map G (s # ys)"
  have "distinct ?xs" using assms by (auto simp: distinct_map inj_on_def G_simps)
  then have ex: "\<exists>!cs. length cs = length ?xs \<and> map (horner cs) ?xs = ?ys"
    by (rule interpolation_unique_ex) (simp add: assms(3))
  then obtain cs where cs: "length cs = length ?xs" "map (horner cs) ?xs = ?ys" by blast
  have unique: "ds = cs" if "length ds = length ?xs" "map (horner ds) ?xs = ?ys" for ds
    using ex cs that by blast
  from cs obtain c ds where c: "cs = c # ds" by (cases cs) auto
  have "c = G s" using cs(2) by (simp add: c G_simps)
  define row where "row = map byte_of_gf ds"
  have ds: "ds = map G row" by (simp add: row_def comp_def byte_of_gf_inverse)
  have key: "map (share_eval s r) xs = ys \<longleftrightarrow> map (horner (map G (s # r))) ?xs = ?ys" for r
  proof -
    have "map (horner (map G (s # r))) ?xs = G s # map (\<lambda>x. G (share_eval s r x)) xs"
      by (simp add: G_simps G_share_eval comp_def)
    moreover have "map (\<lambda>x. G (share_eval s r x)) xs = map G ys \<longleftrightarrow> map (share_eval s r) xs = ys"
      using inj_map_eq_map [of G "map (share_eval s r) xs" ys] by (simp add: inj_def comp_def)
    ultimately show ?thesis by (simp only: list.map list.inject simp_thms)
  qed
  show ?thesis
  proof (intro ex1I [of _ row] conjI)
    show "length row = length xs" using cs(1) by (simp add: row_def c)
    show "map (share_eval s row) xs = ys"
      using cs(2) by (simp only: key list.map(2) c \<open>c = G s\<close> ds)
  next
    fix r assume r: "length r = length xs \<and> map (share_eval s r) xs = ys"
    then have "map G (s # r) = cs" by (intro unique) (simp_all only: key length_map list.size)
    then show "r = row" using inj_map_eq_map [of G r row] by (simp add: c ds inj_def)
  qed
qed

lemma rows_ex1:
  assumes "\<And>b. b < n \<Longrightarrow> \<exists>!r. P b r"
  shows "\<exists>!rows. length rows = n \<and> (\<forall>b < n. P b (rows ! b))"
proof (intro ex1I [of _ "map (\<lambda>b. THE r. P b r) [0..<n]"])
  show "length (map (\<lambda>b. THE r. P b r) [0..<n]) = n \<and>
      (\<forall>b < n. P b (map (\<lambda>b. THE r. P b r) [0..<n] ! b))"
    using theI' [OF assms] by simp
next
  fix rows assume rows: "length rows = n \<and> (\<forall>b < n. P b (rows ! b))"
  then have "rows ! b = (THE r. P b r)" if "b < n" for b
    using assms that by (intro the1_equality [symmetric]) auto
  then show "rows = map (\<lambda>b. THE r. P b r) [0..<n]"
    using rows by (intro nth_equalityI) auto
qed

definition coefficients_of :: "byte list list \<Rightarrow> rng" where
  "coefficients_of rows i = Some (\<lambda>j. rows ! i ! j)"

text \<open>
  C2: \<open>threshold - 1\<close> distinct shares of a split say nothing about the secret. For every
  other 32-byte secret there is exactly one assignment of polynomial coefficients under which
  the split of that secret produces the same shares, so with uniformly random coefficients
  every secret is equally likely.
\<close>

theorem shamir_secrecy:
  assumes "length secret = SHARE_SECRET_BYTES" and "length secret' = SHARE_SECRET_BYTES"
    and "split_secret fill secret n t = Inr shares"
    and "set known \<subseteq> set shares" and "distinct known" and "length known = unat t - 1"
  shows "\<exists>!rows. length rows = SHARE_SECRET_BYTES \<and> (\<forall>row \<in> set rows. length row = unat t - 1) \<and>
    (\<exists>shares'. split_secret (coefficients_of rows) secret' n t = Inr shares' \<and> set known \<subseteq> set shares')"
proof -
  have n: "n \<noteq> 0" "t \<noteq> 0" "t \<le> n" and shares: "shares = map (share_at fill secret n t) (share_indices n)"
    using assms(1,3) by (simp_all add: split_secret_Inr_iff)
  have form: "k = share_at fill secret n t (share_index k)" "share_index k \<in> set (share_indices n)"
    if "k \<in> set known" for k
    using that assms(4) by (auto simp: shares)
  let ?xs = "map share_index known"
  have inj: "inj_on share_index (set known)"
    using form(1) by (intro inj_onI) metis
  then have xs: "distinct ?xs" "0 \<notin> set ?xs"
    using assms(5) form(2) by (auto simp: distinct_map set_share_indices)
  define P where "P b row \<longleftrightarrow> length row = length ?xs \<and>
    map (share_eval (secret' ! b) row) ?xs = map (\<lambda>k. share_value k ! b) known" for b row
  have P1: "\<exists>!row. P b row" for b
    unfolding P_def using xs by (intro share_row_ex1) simp_all
  have known_iff: "set known \<subseteq> set (map (share_at (coefficients_of rows) secret' n t) (share_indices n))
      \<longleftrightarrow> (\<forall>k \<in> set known. \<forall>b < 32. share_value k ! b =
        share_eval (secret' ! b) (map (\<lambda>j. rows ! b ! j) [0..<unat t - 1]) (share_index k))" for rows
  proof -
    have "k \<in> set (map (share_at (coefficients_of rows) secret' n t) (share_indices n)) \<longleftrightarrow>
      k = share_at (coefficients_of rows) secret' n t (share_index k)" if "k \<in> set known" for k
      using form(2) [OF that] by auto
    moreover have "k = share_at (coefficients_of rows) secret' n t (share_index k) \<longleftrightarrow>
      (\<forall>b < 32. share_value k ! b =
        share_eval (secret' ! b) (map (\<lambda>j. rows ! b ! j) [0..<unat t - 1]) (share_index k))"
      if "k \<in> set known" for k
    proof -
      have "length (share_value k) = 32" "share_total k = n" "share_threshold k = t"
        by (subst form(1) [OF that], simp add: share_at_def)+
      then show ?thesis
        by (cases k) (auto simp: share_at_def coefficients_of_def list_eq_iff_nth_eq)
    qed
    ultimately show ?thesis by (auto simp: subset_iff)
  qed
  have "(length rows = 32 \<and> (\<forall>row \<in> set rows. length row = unat t - 1) \<and>
      (\<exists>shares'. split_secret (coefficients_of rows) secret' n t = Inr shares' \<and> set known \<subseteq> set shares'))
    \<longleftrightarrow> length rows = 32 \<and> (\<forall>b < 32. P b (rows ! b))" for rows
  proof -
    have "map (\<lambda>j. rows ! b ! j) [0..<unat t - 1] = rows ! b" if "length (rows ! b) = unat t - 1" for b
      using that map_nth [of "rows ! b"] by simp
    then show ?thesis
      using n assms(2,6) known_iff [of rows]
      by (auto simp: split_secret_Inr_iff coefficients_of_def P_def all_set_conv_all_nth)
  qed
  then show ?thesis using rows_ex1 [of 32 P, OF P1] by simp
qed

theorem shamir_secrecy_witness:
  "\<exists>shares. split_secret (\<lambda>i. Some (\<lambda>j. word_of_nat (i + 3 * j))) (replicate 32 7) 3 2 = Inr shares \<and>
     (\<exists>!rows. length rows = SHARE_SECRET_BYTES \<and> (\<forall>row \<in> set rows. length row = unat (2 :: byte) - 1) \<and>
       (\<exists>shares'. split_secret (coefficients_of rows) (replicate 32 200) 3 2 = Inr shares' \<and>
         set [hd shares] \<subseteq> set shares'))"
proof -
  let ?fill = "\<lambda>i. Some (\<lambda>j. word_of_nat (i + 3 * j))"
  let ?shares = "map (share_at ?fill (replicate 32 7) 3 2) (share_indices 3)"
  have ok: "split_secret ?fill (replicate 32 7) 3 2 = Inr ?shares"
    by (simp add: split_secret_Inr_iff)
  have "hd ?shares \<in> set ?shares" by (simp add: share_indices_3)
  then have "\<exists>!rows. length rows = SHARE_SECRET_BYTES \<and> (\<forall>row \<in> set rows. length row = unat (2 :: byte) - 1) \<and>
       (\<exists>shares'. split_secret (coefficients_of rows) (replicate 32 200) 3 2 = Inr shares' \<and>
         set [hd ?shares] \<subseteq> set shares')"
    by (intro shamir_secrecy [OF _ _ ok]) simp_all
  with ok show ?thesis by blast
qed

section \<open>Round trips of the encodings\<close>

lemma share_sizes [simp]:
  "length SHARE_MAGIC = 4" "SHARE_CHECKSUM_BYTES = 4" "SHARE_BYTES = 43"
  by (simp_all add: SHARE_MAGIC_def SHARE_CHECKSUM_BYTES_def SHARE_BYTES_def)

text \<open>What the constructors of a share guarantee.\<close>

definition share_ok :: "secret_share \<Rightarrow> bool" where
  "share_ok s = (share_total s \<noteq> 0 \<and> share_threshold s \<noteq> 0 \<and> share_threshold s \<le> share_total s \<and>
     share_index s \<noteq> 0 \<and> share_index s \<le> share_total s \<and> length (share_value s) = SHARE_SECRET_BYTES)"

lemma split_secret_share_ok:
  "length secret = SHARE_SECRET_BYTES \<Longrightarrow> split_secret fill secret n t = Inr shares \<Longrightarrow>
   s \<in> set shares \<Longrightarrow> share_ok s"
  by (auto simp: split_secret_Inr_iff share_ok_def set_share_indices share_at_def)

lemma decode_fields:
  assumes "length e = 43" and "take 4 e = SHARE_MAGIC"
  shows "take 39 e = SHARE_MAGIC @ [e ! 4, e ! 5, e ! 6] @ take 32 (drop 7 e)"
proof -
  have "take 39 e = take 4 e @ take 3 (drop 4 e) @ take 32 (drop 7 e)"
    by (simp add: take_add [of 4 35 e, simplified] take_add [of 3 32 "drop 4 e", simplified])
  moreover have "take 3 (drop 4 e) = [e ! 4, e ! 5, e ! 6]"
    using assms(1) by (intro nth_equalityI) (auto simp: less_Suc_eq numeral_3_eq_3)
  ultimately show ?thesis using assms(2) by simp
qed

text \<open>
  The opaque share format is canonical. Decoding accepts exactly the encodings of
  well-formed shares (parameters in range, index between 1 and the total) and returns the share
  that was encoded. The hypothesis is the output length of SHA-256.
\<close>

theorem share_codec:
  assumes sha256_length: "\<forall>m. length (sha m) = 32"
  shows "share_decode sha e = Inr s \<longleftrightarrow> share_ok s \<and> e = share_encode sha s"
proof
  assume *: "share_decode sha e = Inr s"
  then have len: "length e = 43" and magic: "take 4 e = SHARE_MAGIC"
    and sum: "drop 39 e = take 4 (share_checksum sha (take 39 e))"
    and params: "e ! 4 \<noteq> 0" "e ! 5 \<noteq> 0" "e ! 5 \<le> e ! 4" "e ! 6 \<noteq> 0" "e ! 6 \<le> e ! 4"
    and s: "s = \<lparr>share_total = e ! 4, share_threshold = e ! 5, share_index = e ! 6,
       share_value = take 32 (drop 7 e)\<rparr>"
    by (auto simp: share_decode_def Let_def not_less split: if_split_asm)
  have "e = take 39 e @ drop 39 e" by simp
  also have "\<dots> = take 39 e @ take 4 (share_checksum sha (take 39 e))" by (simp add: sum)
  also have "\<dots> = share_encode sha s"
    by (simp only: decode_fields [OF len magic]) (simp add: share_encode_def s Let_def)
  finally show "share_ok s \<and> e = share_encode sha s"
    using len params by (simp add: share_ok_def s)
next
  assume *: "share_ok s \<and> e = share_encode sha s"
  let ?body = "SHARE_MAGIC @ [share_total s, share_threshold s, share_index s] @ share_value s"
  have e: "e = ?body @ take 4 (share_checksum sha ?body)"
    using * by (simp add: share_encode_def Let_def)
  have body: "length ?body = 39" using * by (simp add: share_ok_def)
  have sum: "length (take 4 (share_checksum sha ?body)) = 4"
    by (simp add: share_checksum_def sha256_length)
  have parts: "take 39 e = ?body" "drop 39 e = take 4 (share_checksum sha ?body)" "length e = 43"
    using body sum by (simp_all only: e take_append drop_append length_append) simp_all
  have fields: "take 4 e = SHARE_MAGIC" "e ! 4 = share_total s" "e ! 5 = share_threshold s"
    "e ! 6 = share_index s" "take 32 (drop 7 e) = share_value s"
    using conjunct1 [OF *] by (simp_all add: e share_ok_def nth_append)
  show "share_decode sha e = Inr s"
    using conjunct1 [OF *] fields parts by (simp add: share_decode_def Let_def share_ok_def not_less)
qed

theorem share_codec_witness:
  "share_decode (\<lambda>m. replicate 32 (word_of_nat (length m)))
     (share_encode (\<lambda>m. replicate 32 (word_of_nat (length m)))
        \<lparr>share_total = 5, share_threshold = 3, share_index = 2, share_value = replicate 32 9\<rparr>) =
   Inr \<lparr>share_total = 5, share_threshold = 3, share_index = 2, share_value = replicate 32 9\<rparr>"
  using share_codec [of "\<lambda>m. replicate 32 (word_of_nat (length m))"] by (simp add: share_ok_def)

text \<open>
  C4: a barrier key wrapped under a seal key and a context is recovered by unwrapping with the
  same key and context. The hypotheses are the documented behaviour of AES-256-GCM: opening what
  was sealed returns the plaintext, and sealing appends a 16-byte tag.
\<close>

theorem wrap_unwrap:
  assumes aead_correct: "\<forall>k n c p x. seal k n c p = Some x \<longrightarrow> open_aead k n c x = Some p"
    and aead_tag_length: "\<forall>k n c p x. seal k n c p = Some x \<longrightarrow> length x = length p + 16"
    and "length barrier_key = 32"
    and "wrap_barrier_key seal fill seal_key ctx barrier_key = Inr encoded"
  shows "unwrap_barrier_key open_aead seal_key ctx encoded = Inr barrier_key"
proof -
  obtain random x where random: "fill 0 = Some random"
    and x: "seal seal_key (map random [0..<12]) ctx barrier_key = Some x"
    and enc: "encoded = WRAPPED_KEY_MAGIC @ map random [0..<12] @ x"
    using assms(4) by (auto simp: wrap_barrier_key_def Let_def)
  have "length x = 48" "open_aead seal_key (map random [0..<12]) ctx x = Some barrier_key"
    using aead_correct aead_tag_length x assms(3) by auto
  then show ?thesis
    using assms(3) by (simp add: unwrap_barrier_key_def enc WRAPPED_KEY_MAGIC_def Let_def)
qed

text \<open>An unauthenticated stand-in with the two documented properties.\<close>

definition toy_seal :: aead_fn where
  "toy_seal k n c p = Some (p @ replicate 16 0)"

definition toy_open :: aead_fn where
  "toy_open k n c x = Some (take (length x - 16) x)"

theorem wrap_unwrap_witness:
  "\<exists>encoded. wrap_barrier_key toy_seal (\<lambda>_. Some word_of_nat) [1, 2] [3] (replicate 32 4) = Inr encoded \<and>
     unwrap_barrier_key toy_open [1, 2] [3] encoded = Inr (replicate 32 4)"
proof -
  obtain encoded where e: "wrap_barrier_key toy_seal (\<lambda>_. Some word_of_nat) [1, 2] [3] (replicate 32 4) = Inr encoded"
    by (simp add: wrap_barrier_key_def toy_seal_def Let_def)
  moreover have "unwrap_barrier_key toy_open [1, 2] [3] encoded = Inr (replicate 32 4)"
    by (rule wrap_unwrap [OF _ _ _ e]) (auto simp: toy_seal_def toy_open_def)
  ultimately show ?thesis by blast
qed

end
