(* ===== verification/Json.thy ===== *)
theory Json
  imports Hepta_Prelude
begin

text \<open>
  The part of \<^verbatim>\<open>serde_json\<close> the engines use. A \<open>json\<close> value is
  \<^verbatim>\<open>serde_json::Value\<close>; objects are ordered maps (the crate is built without
  \<^verbatim>\<open>preserve_order\<close>), and \<open>json_ok\<close> is their representation invariant. A
  floating-point number is kept as its 64-bit pattern: no modelled operation computes with it.
\<close>

datatype jnumber = PosInt nat | NegInt int | Float nat

datatype json =
    JNull
  | JBool bool
  | JNum jnumber
  | JStr string
  | JArr "json list"
  | JObj "(string \<times> json) list"

fun json_ok :: "json \<Rightarrow> bool" where
  "json_ok (JArr xs) = list_all json_ok xs"
| "json_ok (JObj m) = (bmap_ok m \<and> list_all (\<lambda>e. json_ok (snd e)) m)"
| "json_ok _ = True"

section \<open>Accessors\<close>

fun is_object :: "json \<Rightarrow> bool" where
  "is_object (JObj m) = True"
| "is_object _ = False"

fun as_object :: "json \<Rightarrow> (string \<times> json) list option" where
  "as_object (JObj m) = Some m"
| "as_object _ = None"

fun as_array :: "json \<Rightarrow> json list option" where
  "as_array (JArr xs) = Some xs"
| "as_array _ = None"

fun as_str :: "json \<Rightarrow> string option" where
  "as_str (JStr s) = Some s"
| "as_str _ = None"

fun as_bool :: "json \<Rightarrow> bool option" where
  "as_bool (JBool b) = Some b"
| "as_bool _ = None"

fun as_u64 :: "json \<Rightarrow> nat option" where
  "as_u64 (JNum (PosInt n)) = Some n"
| "as_u64 _ = None"

definition json_get :: "json \<Rightarrow> string \<Rightarrow> json option" where
  "json_get v name = (case v of JObj m \<Rightarrow> map_of m name | _ \<Rightarrow> None)"

text \<open>\<^verbatim>\<open>json!({...})\<close>: the pairs are inserted in order into an empty map.\<close>

definition json_object :: "(string \<times> json) list \<Rightarrow> json" where
  "json_object kvs = JObj (fold (\<lambda>(k, v). binsert k v) kvs [])"

text \<open>\<^verbatim>\<open>value[name] = item\<close> on an object, or on null, which becomes an object.\<close>

definition json_set :: "json \<Rightarrow> string \<Rightarrow> json \<Rightarrow> json" where
  "json_set v name item = (case v of JObj m \<Rightarrow> JObj (binsert name item m) | _ \<Rightarrow> JObj [(name, item)])"

abbreviation json_u64 :: "nat \<Rightarrow> json" where
  "json_u64 n \<equiv> JNum (PosInt n)"

lemma json_get_simps [simp]:
  "json_get (JObj m) name = map_of m name"
  "json_get JNull name = None"
  by (simp_all add: json_get_def)

lemma json_get_Some_object: "json_get v name = Some x \<Longrightarrow> \<exists>m. v = JObj m \<and> map_of m name = Some x"
  by (auto simp: json_get_def split: json.splits)

lemma is_object_iff: "is_object v \<longleftrightarrow> (\<exists>m. v = JObj m)"
  by (cases v) auto

lemma as_object_Some_iff [simp]: "as_object v = Some m \<longleftrightarrow> v = JObj m"
  by (cases v) auto

lemma as_str_Some_iff [simp]: "as_str v = Some s \<longleftrightarrow> v = JStr s"
  by (cases v) auto

lemma as_bool_Some_iff [simp]: "as_bool v = Some b \<longleftrightarrow> v = JBool b"
  by (cases v) auto

lemma as_array_Some_iff [simp]: "as_array v = Some xs \<longleftrightarrow> v = JArr xs"
  by (cases v) auto

lemma as_u64_Some_iff [simp]: "as_u64 v = Some n \<longleftrightarrow> v = json_u64 n"
  by (cases v rule: as_u64.cases) auto

lemma json_object_get:
  "json_get (json_object kvs) name = map_of (rev kvs) name"
proof -
  have "map_of (fold (\<lambda>(k, v). binsert k v) kvs m) name = (map_of m ++ map_of (rev kvs)) name" for m
    by (induction kvs arbitrary: m) (auto simp: map_add_def split: option.splits)
  then show ?thesis by (simp add: json_object_def)
qed

lemma is_object_json_object [simp]: "is_object (json_object kvs)"
  by (simp add: json_object_def)

lemma json_ok_get:
  assumes "json_ok v" and "json_get v name = Some x"
  shows "json_ok x"
proof -
  obtain m where m: "v = JObj m" "map_of m name = Some x"
    using json_get_Some_object [OF assms(2)] by blast
  then have "(name, x) \<in> set m" by (simp add: map_of_SomeD)
  then show ?thesis using assms(1) m(1) by (auto simp: list_all_iff)
qed

end
