(* ===== verification/Engine_Base.thy ===== *)
theory Engine_Base
  imports Json
begin

text \<open>
  The helpers the secret engines share, from \<^verbatim>\<open>crates/heptabao-server/src/engines.rs\<close>:
  errors and responses, parameter readers, canonical paths, key listing, timestamps and
  durations.
\<close>

section \<open>Errors and responses\<close>

record engine_error =
  err_status :: nat
  err_message :: string

record engine_response =
  resp_status :: nat
  resp_body :: json
  mutated :: bool

definition eng_error :: "nat \<Rightarrow> string \<Rightarrow> engine_error" where
  "eng_error status message = \<lparr>err_status = status, err_message = message\<rparr>"

definition bad :: "string \<Rightarrow> engine_error" where
  "bad message = eng_error 400 message"

definition not_found :: engine_error where
  "not_found = eng_error 404 ''no value found''"

definition unsupported :: engine_error where
  "unsupported = eng_error 405 ''operation is not supported by this engine''"

definition ok_data :: "json \<Rightarrow> bool \<Rightarrow> engine_response" where
  "ok_data data mut = \<lparr>resp_status = 200, resp_body = json_object [(''data'', data)], mutated = mut\<rparr>"

definition empty_ok :: "bool \<Rightarrow> engine_response" where
  "empty_ok mut = \<lparr>resp_status = 204, resp_body = JNull, mutated = mut\<rparr>"

definition write_method :: "string \<Rightarrow> bool" where
  "write_method method = (method = ''POST'' \<or> method = ''PUT'')"

lemma mutated_simps [simp]:
  "mutated (ok_data d b) = b" "mutated (empty_ok b) = b"
  by (simp_all add: ok_data_def empty_ok_def)

section \<open>Paths and parameters\<close>

definition valid_path :: "string \<Rightarrow> engine_error + unit" where
  "valid_path path =
     (if path = [] \<or> 1024 < length path
         \<or> has_control path
         \<or> list_ex (\<lambda>c. c = CHR 0x5C \<or> c = CHR ''%'' \<or> c = CHR ''?'' \<or> c = CHR ''#'') path
         \<or> list_ex (\<lambda>s. s = [] \<or> s = ''.'' \<or> s = ''..'') (split_on (CHR ''/'') path)
      then Inl (bad ''path must contain canonical, nonempty path segments'')
      else Inr ())"

definition optional_u64 :: "json \<Rightarrow> string \<Rightarrow> engine_error + nat option" where
  "optional_u64 body name =
     rtranspose (\<lambda>v. ok_or (or_else (as_u64 v) (Option.bind (as_str v) parse_u64))
                       (bad ''expected a nonnegative integer parameter''))
       (json_get body name)"

definition optional_bool :: "json \<Rightarrow> string \<Rightarrow> engine_error + bool option" where
  "optional_bool body name =
     rtranspose (\<lambda>v. ok_or (as_bool v) (bad ''expected a boolean parameter'')) (json_get body name)"

definition string_param :: "json \<Rightarrow> string \<Rightarrow> engine_error + string" where
  "string_param body name =
     ok_or (Option.bind (json_get body name) as_str)
       (bad ''required string parameter is missing or invalid'')"

definition reject_unknown :: "json \<Rightarrow> string list \<Rightarrow> engine_error + unit" where
  "reject_unknown body allowed =
     rbind (ok_or (as_object body) (bad ''request body must be an object'')) (\<lambda>map.
       if list_ex (\<lambda>e. fst e \<notin> set allowed) map
       then Inl (bad ''unsupported parameter; no state was changed'') else Inr ())"

section \<open>Listing\<close>

definition list_prefix :: "string \<Rightarrow> string" where
  "list_prefix p = (if p = [] then [] else trim_end_matches p (CHR ''/'') @ ''/'')"

definition list_entry :: "bool \<Rightarrow> string \<Rightarrow> string" where
  "list_entry recursive rest =
     (if recursive then rest
      else case split_once (CHR ''/'') rest of None \<Rightarrow> rest | Some (first, _) \<Rightarrow> first @ ''/'')"

text \<open>The loop that fills the ordered set of listed names.\<close>

primrec list_found :: "string \<Rightarrow> bool \<Rightarrow> string list \<Rightarrow> string list \<Rightarrow> string list" where
  "list_found pre recursive [] found = found"
| "list_found pre recursive (key # keys) found =
     list_found pre recursive keys
       (case strip_prefix pre key of
          None \<Rightarrow> found
        | Some rest \<Rightarrow> if rest = [] then found else bset_insert (list_entry recursive rest) found)"

definition list_keys :: "string list \<Rightarrow> string \<Rightarrow> bool \<Rightarrow> json \<Rightarrow> engine_error + string list" where
  "list_keys keys pre recursive body =
     (let found = list_found (list_prefix pre) recursive keys [];
          after = unwrap_or (Option.bind (json_get body ''after'') as_str) '''' in
      rbind (optional_u64 body ''limit'') (\<lambda>limit.
        let shown = filter (\<lambda>s. after < s) found in
        Inr (if unwrap_or limit 0 = 0 then shown else take (unwrap_or limit 0) shown)))"

lemma list_found_set:
  "set (list_found pre recursive keys found) =
     set found \<union> {list_entry recursive rest | rest. rest \<noteq> [] \<and> pre @ rest \<in> set keys}"
  by (induction keys arbitrary: found) (auto split: option.splits)

lemma list_found_ok: "bset_ok found \<Longrightarrow> bset_ok (list_found pre recursive keys found)"
  by (induction keys arbitrary: found) (auto split: option.splits)

section \<open>Time\<close>

text \<open>
  Days since the epoch to a civil date, in signed arithmetic as the source has it; \<open>era\<close>
  counts spans of 400 years that start on the first of March.
\<close>

definition civil :: "int \<Rightarrow> int \<times> int \<times> int" where
  "civil days =
     (let z = days + 719468;
          era = z div 146097;
          doe = z - era * 146097;
          yoe = (doe - doe div 1460 + doe div 36524 - doe div 146096) div 365;
          year = yoe + era * 400;
          doy = doe - (365 * yoe + yoe div 4 - yoe div 100);
          mp = (5 * doy + 2) div 153;
          day = doy - (153 * mp + 2) div 5 + 1;
          month = mp + (if mp < 10 then 3 else -9)
      in (year + (if month \<le> 2 then 1 else 0), month, day))"

definition timestamp :: "nat \<Rightarrow> string" where
  "timestamp seconds =
     (let seconds = min seconds 253402300799;
          (year, month, day) = civil (int (seconds div 86400));
          day_seconds = seconds mod 86400
      in pad_dec 4 (nat year) @ ''-'' @ pad_dec 2 (nat month) @ ''-'' @ pad_dec 2 (nat day) @ ''T''
         @ pad_dec 2 (day_seconds div 3600) @ '':'' @ pad_dec 2 (day_seconds div 60 mod 60) @ '':''
         @ pad_dec 2 (day_seconds mod 60) @ ''Z'')"

text \<open>The unit letters end a number; \<open>number\<close> holds the digits read since the last one.\<close>

primrec duration_loop :: "string \<Rightarrow> string \<Rightarrow> nat \<Rightarrow> engine_error + string \<times> nat" where
  "duration_loop [] number acc = Inr (number, acc)"
| "duration_loop (ch # rest) number acc =
     (if is_ascii_digit ch then duration_loop rest (number @ [ch]) acc
      else
        rbind (if ch = CHR ''s'' then Inr 1
               else if ch = CHR ''m'' then Inr 60
               else if ch = CHR ''h'' then Inr 3600
               else Inl (bad ''duration supports integer s, m and h units'')) (\<lambda>multiplier.
        rbind (ok_or (parse_u64 number) (bad ''invalid duration'')) (\<lambda>count.
        rbind (ok_or (Option.bind (checked_mul64 count multiplier) (\<lambda>n. checked_add64 acc n))
                 (bad ''duration overflow'')) (\<lambda>acc.
        duration_loop rest [] acc))))"

definition duration_seconds :: "json \<Rightarrow> engine_error + nat" where
  "duration_seconds v =
     rbind (ok_or (as_str v) (bad ''duration must be a string'')) (\<lambda>text.
       if text = ''0'' then Inr 0
       else rbind (duration_loop text [] 0) (\<lambda>(number, acc).
         if number \<noteq> [] \<or> text = [] \<or> 315360000 < acc
         then Inl (bad ''invalid duration or duration exceeds ten years'') else Inr acc))"

end
