(* ===== verification/Kv.thy ===== *)
theory Kv
  imports Engine_Base
begin

text \<open>
  The key-value engines of \<^verbatim>\<open>crates/heptabao-server/src/engines/kv.rs\<close>. Version 1 is a
  map from paths to objects (\<open>handle_v1\<close>); version 2 keeps numbered versions of every
  entry with soft deletion, destruction, check-and-set and retention (\<open>kv2_handle\<close>).

  A method that mutates the engine returns the new engine together with its result, so a
  failing request shows what it had already written. \<open>kv2_ok\<close> is the invariant of the
  engine.
\<close>

section \<open>State\<close>

definition MAX_RETAINED_VERSIONS :: nat where
  "MAX_RETAINED_VERSIONS = 10000"

record kv_config =
  max_versions :: nat
  cas_required :: bool
  delete_version_after :: nat

record kv_version =
  version_created_at :: nat
  deletion_at :: "nat option"
  destroyed :: bool
  version_data :: "json option"

record kv_entry =
  entry_config :: kv_config
  current_version :: nat
  oldest_version :: nat
  entry_created_at :: nat
  entry_updated_at :: nat
  custom_metadata :: "(string, string) bmap option"
  versions :: "(nat, kv_version) bmap"

record kv2 =
  kv2_config :: kv_config
  kv2_entries :: "(string, kv_entry) bmap"

definition config_default :: kv_config where
  "config_default = \<lparr>max_versions = 0, cas_required = False, delete_version_after = 0\<rparr>"

definition kv2_default :: kv2 where
  "kv2_default = \<lparr>kv2_config = config_default, kv2_entries = []\<rparr>"

definition entry_new :: "nat \<Rightarrow> kv_entry" where
  "entry_new now =
     \<lparr>entry_config = config_default, current_version = 0, oldest_version = 0,
      entry_created_at = now, entry_updated_at = now, custom_metadata = None, versions = []\<rparr>"

section \<open>Configuration and metadata\<close>

definition config_update :: "kv_config \<Rightarrow> json \<Rightarrow> kv_config \<times> (engine_error + unit)" where
  "config_update c body =
     sbind (c, optional_u64 body ''max_versions'') (\<lambda>c limit.
     sbind (case limit of
              None \<Rightarrow> (c, Inr ())
            | Some limit \<Rightarrow>
                if MAX_RETAINED_VERSIONS < limit
                then (c, Inl (bad ''max_versions exceeds the supported retention bound''))
                else (c\<lparr>max_versions := limit\<rparr>, Inr ())) (\<lambda>c _.
     sbind (c, optional_bool body ''cas_required'') (\<lambda>c required.
     let c = (case required of None \<Rightarrow> c | Some b \<Rightarrow> c\<lparr>cas_required := b\<rparr>) in
     case json_get body ''delete_version_after'' of
       None \<Rightarrow> (c, Inr ())
     | Some after \<Rightarrow>
         sbind (c, duration_seconds after) (\<lambda>c secs. (c\<lparr>delete_version_after := secs\<rparr>, Inr ())))))"

definition config_json :: "kv_config \<Rightarrow> json" where
  "config_json c =
     json_object [(''max_versions'', json_u64 (max_versions c)),
       (''cas_required'', JBool (cas_required c)),
       (''delete_version_after'', JStr (nat_to_dec (delete_version_after c) @ ''s''))]"

definition deletion_time :: "kv_version \<Rightarrow> json" where
  "deletion_time v = JStr (case deletion_at v of None \<Rightarrow> '''' | Some at \<Rightarrow> timestamp at)"

definition custom_metadata_json :: "(string, string) bmap option \<Rightarrow> json" where
  "custom_metadata_json m = (case m of None \<Rightarrow> JNull | Some m \<Rightarrow> JObj (bmap_vals JStr m))"

definition version_metadata :: "kv_version \<Rightarrow> nat \<Rightarrow> (string, string) bmap option \<Rightarrow> json" where
  "version_metadata v version custom =
     json_object [(''version'', json_u64 version),
       (''created_time'', JStr (timestamp (version_created_at v))),
       (''deletion_time'', deletion_time v),
       (''destroyed'', JBool (destroyed v)),
       (''custom_metadata'', custom_metadata_json custom)]"

definition readable :: "kv_version \<Rightarrow> nat \<Rightarrow> bool" where
  "readable v now =
     (\<not> destroyed v \<and> version_data v \<noteq> None \<and> is_none_or (deletion_at v) (\<lambda>at. now < at))"

definition entry_metadata :: "kv_entry \<Rightarrow> json" where
  "entry_metadata e =
     (let metadata = config_json (entry_config e);
          metadata = json_set metadata ''created_time'' (JStr (timestamp (entry_created_at e)));
          metadata = json_set metadata ''updated_time'' (JStr (timestamp (entry_updated_at e)));
          metadata = json_set metadata ''current_version'' (json_u64 (current_version e));
          metadata = json_set metadata ''oldest_version'' (json_u64 (oldest_version e));
          metadata = json_set metadata ''custom_metadata'' (custom_metadata_json (custom_metadata e))
      in json_set metadata ''versions''
           (json_object (map (\<lambda>(version, v). (nat_to_dec version,
              json_object [(''created_time'', JStr (timestamp (version_created_at v))),
                (''deletion_time'', deletion_time v),
                (''destroyed'', JBool (destroyed v))])) (versions e))))"

section \<open>Version 1\<close>

definition handle_v1 ::
  "(string, json) bmap \<Rightarrow> string \<Rightarrow> string \<Rightarrow> json \<Rightarrow> (string, json) bmap \<times> (engine_error + engine_response)" where
  "handle_v1 entries method path body =
     (if method = ''LIST'' \<or> method = ''SCAN'' then
        (entries,
         rbind (if path \<noteq> [] then valid_path (trim_end_matches path (CHR ''/'')) else Inr ()) (\<lambda>_.
         rbind (list_keys (map fst entries) path (method = ''SCAN'') body) (\<lambda>keys.
         if keys = [] then Inl not_found
         else Inr (ok_data (json_object [(''keys'', JArr (map JStr keys))]) False))))
      else
        sbind (entries, valid_path path) (\<lambda>entries _.
          if method = ''GET'' then
            (entries, ok_or (map_option (\<lambda>data. ok_data data False) (map_of entries path)) not_found)
          else if method = ''POST'' \<or> method = ''PUT'' then
            if \<not> is_object body then (entries, Inl (bad ''secret data must be an object''))
            else (binsert path body entries, Inr (empty_ok True))
          else if method = ''DELETE'' then
            (case map_of entries path of
               Some _ \<Rightarrow> (bremove path entries, Inr (empty_ok True))
             | None \<Rightarrow> (entries, Inr (empty_ok False)))
          else (entries, Inl unsupported)))"

section \<open>JSON merge patch and subkeys\<close>

fun merge_patch :: "json \<Rightarrow> json \<Rightarrow> json"
  and merge_fields :: "(string \<times> json) list \<Rightarrow> (string \<times> json) list \<Rightarrow> (string \<times> json) list" where
  "merge_patch target (JObj patch_map) =
     JObj (merge_fields (case target of JObj m \<Rightarrow> m | _ \<Rightarrow> []) patch_map)"
| "merge_patch target JNull = JNull"
| "merge_patch target (JBool b) = JBool b"
| "merge_patch target (JNum n) = JNum n"
| "merge_patch target (JStr s) = JStr s"
| "merge_patch target (JArr xs) = JArr xs"
| "merge_fields target_map [] = target_map"
| "merge_fields target_map ((key, v) # rest) =
     merge_fields
       (if v = JNull then bremove key target_map
        else binsert key (merge_patch (unwrap_or (map_of target_map key) JNull) v) target_map)
       rest"

fun strip_values :: "json \<Rightarrow> nat \<Rightarrow> nat \<Rightarrow> json" where
  "strip_values (JObj m) depth level =
     (if m \<noteq> [] \<and> (depth = 0 \<or> level < depth)
      then JObj (map (\<lambda>e. (fst e, strip_values (snd e) depth (level + 1))) m)
      else JNull)"
| "strip_values _ depth level = JNull"

section \<open>Version 2\<close>

definition kv2_contains :: "kv2 \<Rightarrow> string \<Rightarrow> bool" where
  "kv2_contains st path = is_some_and (map_of (kv2_entries st) path) (\<lambda>e. 0 < current_version e)"

definition kv2_read :: "kv2 \<Rightarrow> string \<Rightarrow> json \<Rightarrow> nat \<Rightarrow> bool \<Rightarrow> engine_error + engine_response" where
  "kv2_read st resource body now subkeys =
     rbind (ok_or (map_of (kv2_entries st) resource) not_found) (\<lambda>entry.
     rbind (optional_u64 body ''version'') (\<lambda>requested.
     let selected = unwrap_or (opt_filter (\<lambda>v. v \<noteq> 0) requested) (current_version entry) in
     rbind (ok_or (map_of (versions entry) selected) not_found) (\<lambda>version.
     let metadata = version_metadata version selected (custom_metadata entry) in
     if \<not> readable version now then
       Inr \<lparr>resp_status = 404,
            resp_body = json_object [(''data'', json_object [(''data'', JNull), (''metadata'', metadata)])],
            mutated = False\<rparr>
     else
       rbind (ok_or (version_data version) not_found) (\<lambda>data.
       if subkeys then
         rbind (optional_u64 body ''depth'') (\<lambda>depth.
           Inr (ok_data (json_object [(''subkeys'', strip_values data (unwrap_or depth 0) 0),
                          (''metadata'', metadata)]) False))
       else Inr (ok_data (json_object [(''data'', data), (''metadata'', metadata)]) False)))))"

definition deletion_delay :: "kv_config \<Rightarrow> kv_config \<Rightarrow> nat" where
  "deletion_delay key engine =
     (if delete_version_after key = 0 then delete_version_after engine
      else if delete_version_after engine = 0 then delete_version_after key
      else min (delete_version_after key) (delete_version_after engine))"

definition retained_versions :: "kv_config \<Rightarrow> kv_config \<Rightarrow> nat" where
  "retained_versions key engine =
     (if max_versions key = 0
      then if max_versions engine = 0 then 10 else max_versions engine
      else max_versions key)"

text \<open>
  A write in the order of the source: the check-and-set parameter, the value to store with
  the number of the new version, the deletion deadline, and the entry with the version added
  and the old ones pruned.
\<close>

definition write_cas :: "json \<Rightarrow> engine_error + nat option" where
  "write_cas body =
     (case json_get body ''options'' of
        None \<Rightarrow> Inr None
      | Some options \<Rightarrow> rbind (reject_unknown options [''cas'']) (\<lambda>_. optional_u64 options ''cas''))"

definition write_value ::
  "kv2 \<Rightarrow> string \<Rightarrow> json \<Rightarrow> nat \<Rightarrow> bool \<Rightarrow> engine_error + json \<times> nat" where
  "write_value st resource body now patch =
     rbind (reject_unknown body [''data'', ''options'']) (\<lambda>_.
     rbind (ok_or (opt_filter is_object (json_get body ''data'')) (bad ''data must be a JSON object''))
       (\<lambda>new_data.
     rbind (write_cas body) (\<lambda>cas.
     let current = map_of (kv2_entries st) resource;
         current_no = (case current of None \<Rightarrow> 0 | Some e \<Rightarrow> current_version e) in
     if (cas_required (kv2_config st) \<or> is_some_and current (\<lambda>e. cas_required (entry_config e)))
        \<and> cas = None
     then Inl (bad ''check-and-set parameter is required for this key'')
     else if is_some_and cas (\<lambda>expected. expected \<noteq> current_no) \<or> (patch \<and> cas = Some 0)
     then Inl (bad ''check-and-set parameter did not match the current version'')
     else
       rbind (if patch then
                rbind (ok_or (Option.bind (opt_filter (\<lambda>v. readable v now)
                         (Option.bind current (\<lambda>e. map_of (versions e) current_no))) version_data)
                         not_found)
                  (\<lambda>current_value. Inr (merge_patch current_value new_data))
              else Inr new_data) (\<lambda>data.
       rbind (ok_or (checked_add64 current_no 1) (bad ''version limit reached'')) (\<lambda>next.
       Inr (data, next))))))"

definition write_deadline :: "kv_config \<Rightarrow> kv_config \<Rightarrow> nat \<Rightarrow> engine_error + nat option" where
  "write_deadline key engine now =
     (let after = deletion_delay key engine in
      if after = 0 then Inr None
      else rbind (ok_or (checked_add64 now after) (bad ''deletion deadline overflow''))
             (\<lambda>at. Inr (Some at)))"

definition written_entry :: "kv_config \<Rightarrow> kv_entry \<Rightarrow> nat \<Rightarrow> nat \<Rightarrow> kv_version \<Rightarrow> kv_entry" where
  "written_entry engine entry now next version =
     (let retained = retained_versions (entry_config entry) engine;
          low = saturating_add64 (saturating_sub64 next retained) 1 in
      entry\<lparr>current_version := next, entry_updated_at := now,
        versions := bretain (\<lambda>number _. low \<le> number) (binsert next version (versions entry)),
        oldest_version := if 1 < low then low else 0\<rparr>)"

definition kv2_write ::
  "kv2 \<Rightarrow> string \<Rightarrow> json \<Rightarrow> nat \<Rightarrow> bool \<Rightarrow> kv2 \<times> (engine_error + engine_response)" where
  "kv2_write st resource body now patch =
     sbind (st, write_value st resource body now patch) (\<lambda>st (data, next).
     let entry = unwrap_or (map_of (kv2_entries st) resource) (entry_new now);
         st = st\<lparr>kv2_entries := binsert resource entry (kv2_entries st)\<rparr> in
     sbind (st, write_deadline (entry_config entry) (kv2_config st) now) (\<lambda>st deadline.
     let version = \<lparr>version_created_at = now, deletion_at = deadline, destroyed = False,
                     version_data = Some data\<rparr>;
         metadata = version_metadata version next (custom_metadata entry);
         entry = written_entry (kv2_config st) entry now next version
     in (st\<lparr>kv2_entries := binsert resource entry (kv2_entries st)\<rparr>,
         Inr (ok_data metadata True))))"

text \<open>The loop of \<open>change_versions\<close> over the requested numbers.\<close>

definition change_version :: "string \<Rightarrow> nat \<Rightarrow> kv_version \<Rightarrow> kv_version option" where
  "change_version operation now v =
     (if destroyed v then None
      else if operation = ''destroy'' then Some (v\<lparr>version_data := None, destroyed := True\<rparr>)
      else if operation = ''delete'' \<and> is_none_or (deletion_at v) (\<lambda>at. now < at)
      then Some (v\<lparr>deletion_at := Some now\<rparr>)
      else if operation = ''undelete'' \<and> deletion_at v \<noteq> None then Some (v\<lparr>deletion_at := None\<rparr>)
      else None)"

primrec change_loop ::
  "string \<Rightarrow> nat \<Rightarrow> nat list \<Rightarrow> (nat, kv_version) bmap \<Rightarrow> bool \<Rightarrow> (nat, kv_version) bmap \<times> bool" where
  "change_loop operation now [] vs changed = (vs, changed)"
| "change_loop operation now (number # rest) vs changed =
     (case Option.bind (map_of vs number) (change_version operation now) of
        None \<Rightarrow> change_loop operation now rest vs changed
      | Some v \<Rightarrow> change_loop operation now rest (binsert number v vs) True)"

definition kv2_change_versions ::
  "kv2 \<Rightarrow> string \<Rightarrow> string \<Rightarrow> json \<Rightarrow> nat \<Rightarrow> kv2 \<times> (engine_error + engine_response)" where
  "kv2_change_versions st resource operation body now =
     sbind (st, reject_unknown body [''versions'']) (\<lambda>st _.
     sbind (st, ok_or (opt_filter (\<lambda>v. v \<noteq> []) (Option.bind (json_get body ''versions'') as_array))
                  (bad ''versions must be a nonempty integer array'')) (\<lambda>st listed.
     sbind (st, rcollect (\<lambda>v. ok_or (opt_filter (\<lambda>n. 0 < n) (as_u64 v))
                  (bad ''version numbers must be positive integers'')) listed) (\<lambda>st numbers.
     case map_of (kv2_entries st) resource of
       None \<Rightarrow> (st, Inr (empty_ok False))
     | Some entry \<Rightarrow>
         let (vs, changed) = change_loop operation now numbers (versions entry) False in
         (st\<lparr>kv2_entries := binsert resource (entry\<lparr>versions := vs\<rparr>) (kv2_entries st)\<rparr>,
          Inr (empty_ok changed)))))"

text \<open>The loop over the supplied custom metadata.\<close>

primrec metadata_loop ::
  "bool \<Rightarrow> (string \<times> json) list \<Rightarrow> (string, string) bmap \<Rightarrow> engine_error + (string, string) bmap" where
  "metadata_loop patch [] next = Inr next"
| "metadata_loop patch (entry # rest) next =
     (if fst entry = [] \<or> 128 < length (fst entry)
      then Inl (bad ''custom metadata key exceeds supported limits'')
      else if patch \<and> snd entry = JNull then metadata_loop patch rest (bremove (fst entry) next)
      else rbind (ok_or (as_str (snd entry)) (bad ''custom_metadata values must be strings'')) (\<lambda>v.
        if 512 < length v then Inl (bad ''custom metadata value exceeds supported limits'')
        else metadata_loop patch rest (binsert (fst entry) v next)))"

definition kv2_write_metadata ::
  "kv2 \<Rightarrow> string \<Rightarrow> json \<Rightarrow> nat \<Rightarrow> bool \<Rightarrow> kv2 \<times> (engine_error + engine_response)" where
  "kv2_write_metadata st resource body now patch =
     sbind (st, reject_unknown body
                  [''max_versions'', ''cas_required'', ''delete_version_after'', ''custom_metadata''])
       (\<lambda>st _.
     if patch \<and> \<not> bcontains (kv2_entries st) resource then (st, Inl not_found)
     else
       let entry = unwrap_or (map_of (kv2_entries st) resource) (entry_new now);
           (config, result) = config_update (entry_config entry) body;
           entry = entry\<lparr>entry_config := config\<rparr>;
           put = (\<lambda>entry. st\<lparr>kv2_entries := binsert resource entry (kv2_entries st)\<rparr>) in
       sbind (put entry, result) (\<lambda>_ _.
       case json_get body ''custom_metadata'' of
         None \<Rightarrow> (put entry, Inr (empty_ok True))
       | Some metadata \<Rightarrow>
           if metadata = JNull then (put (entry\<lparr>custom_metadata := None\<rparr>), Inr (empty_ok True))
           else
             sbind (put entry, ok_or (as_object metadata) (bad ''custom_metadata must be a string map''))
               (\<lambda>_ pairs.
             sbind (put entry, metadata_loop patch pairs
                      (if patch then unwrap_or (custom_metadata entry) [] else [])) (\<lambda>_ next.
             if 64 < length next then (put entry, Inl (bad ''too many custom metadata entries''))
             else (put (entry\<lparr>custom_metadata := Some next\<rparr>), Inr (empty_ok True))))))"

definition kv2_delete_latest ::
  "kv2 \<Rightarrow> string \<Rightarrow> nat \<Rightarrow> kv2 \<times> (engine_error + engine_response)" where
  "kv2_delete_latest st resource now =
     (case map_of (kv2_entries st) resource of
        None \<Rightarrow> (st, Inr (empty_ok False))
      | Some entry \<Rightarrow>
          (case map_of (versions entry) (current_version entry) of
             None \<Rightarrow> (st, Inr (empty_ok False))
           | Some version \<Rightarrow>
               if \<not> destroyed version \<and> is_none_or (deletion_at version) (\<lambda>at. now < at)
               then (st\<lparr>kv2_entries := binsert resource
                          (entry\<lparr>versions := binsert (current_version entry)
                             (version\<lparr>deletion_at := Some now\<rparr>) (versions entry)\<rparr>)
                          (kv2_entries st)\<rparr>, Inr (empty_ok True))
               else (st, Inr (empty_ok False))))"

definition kv2_list :: "kv2 \<Rightarrow> string \<Rightarrow> string \<Rightarrow> string \<Rightarrow> json \<Rightarrow> engine_error + engine_response" where
  "kv2_list st operation resource method body =
     rbind (if resource \<noteq> [] then valid_path (trim_end_matches resource (CHR ''/'')) else Inr ()) (\<lambda>_.
     rbind (list_keys (map fst (kv2_entries st)) resource (method = ''SCAN'') body) (\<lambda>keys.
     if keys = [] then Inl not_found
     else
       let data = json_object [(''keys'', JArr (map JStr keys))] in
       Inr (ok_data
         (if operation = ''detailed-metadata'' then
            json_set data ''key_info'' (json_object (List.map_filter (\<lambda>key.
              map_option (\<lambda>entry. (key, entry_metadata entry))
                (map_of (kv2_entries st) (list_prefix resource @ key))) keys))
          else data) False)))"

definition kv2_handle ::
  "kv2 \<Rightarrow> string \<Rightarrow> string \<Rightarrow> json \<Rightarrow> nat \<Rightarrow> kv2 \<times> (engine_error + engine_response)" where
  "kv2_handle st method path body now =
     (if path = ''config'' then
        if method = ''GET'' then (st, Inr (ok_data (config_json (kv2_config st)) False))
        else if \<not> write_method method then (st, Inl unsupported)
        else
          sbind (st, reject_unknown body [''max_versions'', ''cas_required'', ''delete_version_after''])
            (\<lambda>st _.
          let (config, result) = config_update (kv2_config st) body in
          sbind (st\<lparr>kv2_config := config\<rparr>, result) (\<lambda>st _. (st, Inr (empty_ok True))))
      else
        let (operation, resource) = unwrap_or (split_once (CHR ''/'') path) (path, '''') in
        if operation \<in> {''metadata'', ''detailed-metadata''} \<and> method \<in> {''LIST'', ''SCAN''}
        then (st, kv2_list st operation resource method body)
        else if operation \<notin> {''data'', ''subkeys'', ''metadata'', ''delete'', ''undelete'', ''destroy''}
        then (st, Inl (eng_error 404 ''unknown KV v2 operation''))
        else
          sbind (st, valid_path resource) (\<lambda>st _.
          if operation \<in> {''data'', ''subkeys''} \<and> method = ''GET''
          then (st, kv2_read st resource body now (operation = ''subkeys''))
          else if operation = ''data'' \<and> (write_method method \<or> method = ''PATCH'')
          then kv2_write st resource body now (method = ''PATCH'')
          else if operation = ''data'' \<and> method = ''DELETE''
          then kv2_delete_latest st resource now
          else if operation \<in> {''delete'', ''undelete'', ''destroy''} \<and> write_method method
          then kv2_change_versions st resource operation body now
          else if operation = ''metadata'' \<and> method = ''GET''
          then (st, ok_or (map_option (\<lambda>e. ok_data (entry_metadata e) False)
                  (map_of (kv2_entries st) resource)) not_found)
          else if operation = ''metadata'' \<and> method = ''DELETE''
          then (st\<lparr>kv2_entries := bremove resource (kv2_entries st)\<rparr>,
                Inr (empty_ok (bcontains (kv2_entries st) resource)))
          else if operation = ''metadata'' \<and> (write_method method \<or> method = ''PATCH'')
          then kv2_write_metadata st resource body now (method = ''PATCH'')
          else (st, Inl unsupported)))"

end
