(* ===== verification/Totp.thy ===== *)
theory Totp
  imports Engine_Base Bytes
begin

text \<open>
  The time-based one-time password engine of
  \<^verbatim>\<open>crates/heptabao-server/src/engines/totp.rs\<close>: keys with their replay and guessing
  counters, the RFC 6238 code, base32 and percent encodings, and the otpauth URL parser.
\<close>

unbundle bit_operations_syntax

section \<open>State\<close>

record totp_key =
  tk_secret :: "byte list"
  tk_issuer :: string
  tk_account_name :: string
  tk_algorithm :: string
  tk_digits :: nat
  tk_period :: nat
  tk_skew :: nat
  last_accepted_counter :: "nat option"
  failed_window :: nat
  tk_failures :: nat

type_synonym totp = "(string, totp_key) bmap"

definition totp_contains :: "totp \<Rightarrow> string \<Rightarrow> bool" where
  "totp_contains keys name = bcontains keys name"

section \<open>Encodings\<close>

definition BASE32 :: string where
  "BASE32 = ''ABCDEFGHIJKLMNOPQRSTUVWXYZ234567''"

text \<open>
  The accumulator holds the pending bits, fewer than five between bytes when encoding and
  fewer than eight between characters when decoding, so the 32-bit shifts of the source never
  lose a bit and natural numbers describe them.
\<close>

function base32_emit :: "nat \<Rightarrow> nat \<Rightarrow> string \<Rightarrow> string \<times> nat" where
  "base32_emit accumulator bits output =
     (if 5 \<le> bits
      then base32_emit accumulator (bits - 5)
             (output @ [BASE32 ! (accumulator div 2 ^ (bits - 5) mod 32)])
      else (output, bits))"
  by pat_completeness auto
termination
  by (relation "measure (\<lambda>(_, bits, _). bits)") auto

declare base32_emit.simps [simp del]

primrec encode_base32_loop :: "byte list \<Rightarrow> nat \<Rightarrow> nat \<Rightarrow> string \<Rightarrow> nat \<times> nat \<times> string" where
  "encode_base32_loop [] accumulator bits output = (accumulator, bits, output)"
| "encode_base32_loop (byte # rest) accumulator bits output =
     (let accumulator = accumulator * 256 + unat byte;
          (output, bits) = base32_emit accumulator (bits + 8) output
      in encode_base32_loop rest (accumulator mod 2 ^ bits) bits output)"

definition encode_base32 :: "byte list \<Rightarrow> string" where
  "encode_base32 bytes =
     (let (accumulator, bits, output) = encode_base32_loop bytes 0 0 '''' in
      if 0 < bits then output @ [BASE32 ! (accumulator * 2 ^ (5 - bits) mod 32)] else output)"

definition to_ascii_uppercase :: "char \<Rightarrow> char" where
  "to_ascii_uppercase c = (if is_ascii_lowercase c then char_of (byte_of c - 32) else c)"

fun position :: "'a \<Rightarrow> 'a list \<Rightarrow> nat option" where
  "position x [] = None"
| "position x (y # ys) = (if y = x then Some 0 else map_option Suc (position x ys))"

primrec decode_base32_loop ::
  "string \<Rightarrow> nat \<Rightarrow> nat \<Rightarrow> byte list \<Rightarrow> engine_error + nat \<times> nat \<times> byte list" where
  "decode_base32_loop [] accumulator bits bytes = Inr (accumulator, bits, bytes)"
| "decode_base32_loop (ch # rest) accumulator bits bytes =
     rbind (ok_or (position (to_ascii_uppercase ch) BASE32) (bad ''invalid base32 TOTP key'')) (\<lambda>v.
       let accumulator = accumulator * 32 + v; bits = bits + 5 in
       if 8 \<le> bits
       then decode_base32_loop rest (accumulator mod 2 ^ (bits - 8)) (bits - 8)
              (bytes @ [word_of_nat (accumulator div 2 ^ (bits - 8))])
       else decode_base32_loop rest accumulator bits bytes)"

definition decode_base32 :: "string \<Rightarrow> engine_error + byte list" where
  "decode_base32 text =
     (if 256 < length text then Inl (bad ''TOTP key encoding exceeds supported size'')
      else
        let unpadded = trim_end_matches text (CHR ''='') in
        if length text \<noteq> length unpadded
           \<and> (length text mod 8 \<noteq> 0 \<or> 6 < length text - length unpadded)
        then Inl (bad ''invalid base32 padding'')
        else
          rbind (decode_base32_loop unpadded 0 0 []) (\<lambda>(accumulator, bits, bytes).
            if accumulator \<noteq> 0 \<or> 5 \<le> bits then Inl (bad ''noncanonical base32 TOTP key'')
            else Inr bytes))"

definition hex_value :: "char \<Rightarrow> nat option" where
  "hex_value c =
     (if is_ascii_digit c then Some (byte_of c - 48)
      else if 97 \<le> byte_of c \<and> byte_of c \<le> 102 then Some (byte_of c - 87)
      else if 65 \<le> byte_of c \<and> byte_of c \<le> 70 then Some (byte_of c - 55)
      else None)"

text \<open>\<^verbatim>\<open>u8::from_str_radix(pair, 16)\<close> on two bytes, which accepts a leading plus sign.\<close>

definition parse_hex_pair :: "char \<Rightarrow> char \<Rightarrow> char option" where
  "parse_hex_pair a b =
     (if a = CHR ''+'' then map_option char_of (hex_value b)
      else Option.bind (hex_value a) (\<lambda>x. Option.bind (hex_value b) (\<lambda>y. Some (char_of (16 * x + y)))))"

fun percent_decode_loop :: "string \<Rightarrow> string \<Rightarrow> engine_error + string" where
  "percent_decode_loop [] output = Inr output"
| "percent_decode_loop (byte # rest) output =
     (if byte = CHR ''%'' then
        (case rest of
           a # b # rest' \<Rightarrow>
             rbind (ok_or (parse_hex_pair a b) (bad ''invalid URL percent encoding'')) (\<lambda>c.
               percent_decode_loop rest' (output @ [c]))
         | _ \<Rightarrow> Inl (bad ''invalid URL percent encoding''))
      else if byte = CHR ''+'' then percent_decode_loop rest (output @ '' '')
      else percent_decode_loop rest (output @ [byte]))"

definition percent_decode :: "string \<Rightarrow> engine_error + string" where
  "percent_decode text =
     rbind (percent_decode_loop text '''') (\<lambda>output.
       if utf8_valid output then Inr output else Inl (bad ''URL values must be UTF-8''))"

definition hex_upper :: "nat \<Rightarrow> char" where
  "hex_upper n = (if n < 10 then char_of (48 + n) else char_of (55 + n))"

definition percent_encode_byte :: "char \<Rightarrow> string" where
  "percent_encode_byte byte =
     (if is_ascii_alphanumeric byte \<or> byte \<in> set ''-._~'' then [byte]
      else [CHR ''%'', hex_upper (byte_of byte div 16), hex_upper (byte_of byte mod 16)])"

definition percent_encode :: "string \<Rightarrow> string" where
  "percent_encode text = concat (map percent_encode_byte text)"

definition url_field :: "string \<Rightarrow> string option" where
  "url_field field =
     (if field = ''secret'' then Some ''key''
      else if field \<in> {''issuer'', ''algorithm'', ''digits'', ''period''} then Some field
      else None)"

primrec parse_url_pairs :: "string list \<Rightarrow> json \<Rightarrow> engine_error + json" where
  "parse_url_pairs [] params = Inr params"
| "parse_url_pairs (pair # rest) params =
     rbind (ok_or (split_once (CHR ''='') pair) (bad ''invalid TOTP URL parameter'')) (\<lambda>(field, v).
     rbind (percent_decode field) (\<lambda>field.
     rbind (percent_decode v) (\<lambda>v.
     rbind (ok_or (url_field field) (bad ''unsupported TOTP URL parameter'')) (\<lambda>mapped.
     if json_get params mapped \<noteq> None then Inl (bad ''duplicate TOTP URL parameter'')
     else parse_url_pairs rest (json_set params mapped (JStr v))))))"

definition parse_url :: "string \<Rightarrow> engine_error + json" where
  "parse_url url =
     (if 2048 < length url \<or> CHR ''#'' \<in> set url then Inl (bad ''invalid TOTP URL'')
      else
        rbind (ok_or (strip_prefix ''otpauth://totp/'' url) (bad ''only otpauth TOTP URLs are supported''))
          (\<lambda>rest.
        rbind (ok_or (split_once (CHR ''?'') rest) (bad ''TOTP URL has no key parameters''))
          (\<lambda>(label, query).
        rbind (percent_decode label) (\<lambda>label.
        rbind (parse_url_pairs (split_on (CHR ''&'') query) (JObj [])) (\<lambda>params.
        case split_once (CHR '':'') label of
          Some (issuer, account) \<Rightarrow>
            if is_some_and (json_get params ''issuer'') (\<lambda>v. v \<noteq> JStr issuer)
            then Inl (bad ''TOTP URL label and issuer disagree'')
            else Inr (json_set (json_set params ''issuer'' (JStr issuer)) ''account_name'' (JStr account))
        | None \<Rightarrow> Inr (json_set params ''account_name'' (JStr label)))))))"

section \<open>Codes\<close>

definition totp_hmac_algorithm :: "string \<Rightarrow> engine_error + string" where
  "totp_hmac_algorithm algorithm =
     (if algorithm \<in> {''SHA1'', ''SHA256'', ''SHA512''} then Inr algorithm
      else Inl (bad ''TOTP algorithm must be SHA1, SHA256 or SHA512''))"

definition totp_truncate :: "byte list \<Rightarrow> 32 word" where
  "totp_truncate bytes =
     (let offset = unat (bytes ! (length bytes - 1) AND 15) in
      push_bit 24 (ucast (bytes ! offset AND 0x7F))
      OR push_bit 16 (ucast (bytes ! (offset + 1)))
      OR push_bit 8 (ucast (bytes ! (offset + 2)))
      OR ucast (bytes ! (offset + 3)))"

definition totp_code :: "'x crypto_scheme \<Rightarrow> totp_key \<Rightarrow> nat \<Rightarrow> engine_error + string" where
  "totp_code lib key counter =
     rbind (totp_hmac_algorithm (tk_algorithm key)) (\<lambda>algorithm.
       let bytes = hmac_sign lib algorithm (tk_secret key) (be_bytes 8 counter) in
       Inr (pad_dec (tk_digits key) (unat (totp_truncate bytes) mod 10 ^ tk_digits key)))"

section \<open>Operations\<close>

text \<open>The parameters of a write with those of an otpauth URL merged in.\<close>

primrec merge_url_fields :: "(string \<times> json) list \<Rightarrow> json \<Rightarrow> engine_error + json" where
  "merge_url_fields [] parameters = Inr parameters"
| "merge_url_fields (entry # rest) parameters =
     (if is_some_and (json_get parameters (fst entry)) (\<lambda>existing. existing \<noteq> snd entry)
      then Inl (bad ''TOTP URL conflicts with an explicit parameter'')
      else merge_url_fields rest (json_set parameters (fst entry) (snd entry)))"

definition totp_parameters :: "json \<Rightarrow> bool \<Rightarrow> engine_error + json" where
  "totp_parameters body generated =
     (case opt_filter (\<lambda>v. as_str v \<noteq> Some '''') (json_get body ''url'') of
        None \<Rightarrow> Inr body
      | Some url \<Rightarrow>
          if generated \<or> json_get body ''key'' \<noteq> None
          then Inl (bad ''specify exactly one TOTP secret source'')
          else
            rbind (ok_or (as_str url) (bad ''TOTP URL must be a string'')) (\<lambda>url.
            rbind (parse_url url) (\<lambda>parsed.
            rbind (ok_or (as_object parsed) (bad ''invalid TOTP URL parameters'')) (\<lambda>map.
            merge_url_fields map body))))"

definition optional_string :: "json \<Rightarrow> string \<Rightarrow> string \<Rightarrow> engine_error + string option" where
  "optional_string body name message =
     rtranspose (\<lambda>v. ok_or (as_str v) (bad message)) (json_get body name)"

definition totp_secret :: "entropy \<Rightarrow> json \<Rightarrow> json \<Rightarrow> bool \<Rightarrow> engine_error + byte list" where
  "totp_secret fill body parameters generated =
     (if generated then
        rbind (optional_u64 body ''key_size'') (\<lambda>size.
          let size = unwrap_or size 20 in
          if \<not> (10 \<le> size \<and> size \<le> 128)
          then Inl (bad ''TOTP key_size must be between 10 and 128 bytes'')
          else ok_or (fill [] size) (eng_error 503 ''system entropy is unavailable''))
      else rbind (string_param parameters ''key'') decode_base32)"

text \<open>The new key of a write and whether its secret was generated for export.\<close>

definition totp_new_key :: "entropy \<Rightarrow> json \<Rightarrow> engine_error + totp_key \<times> bool" where
  "totp_new_key fill body =
     rbind (reject_unknown body [''generate'', ''exported'', ''key_size'', ''url'', ''key'', ''issuer'',
              ''account_name'', ''period'', ''algorithm'', ''digits'', ''skew'', ''qr_size'']) (\<lambda>_.
     rbind (optional_bool body ''generate'') (\<lambda>generate.
     rbind (optional_bool body ''exported'') (\<lambda>export.
     let generated = unwrap_or generate False; exported = unwrap_or export True in
     rbind (totp_parameters body generated) (\<lambda>parameters.
     rbind (optional_string parameters ''issuer'' ''issuer must be a string'') (\<lambda>issuer.
     rbind (optional_string parameters ''account_name'' ''account_name must be a string'') (\<lambda>account.
     let issuer = unwrap_or issuer ''''; account = unwrap_or account '''' in
     if 256 < length issuer \<or> 256 < length account \<or> CHR '':'' \<in> set issuer
        \<or> has_control issuer \<or> has_control account
     then Inl (bad ''invalid TOTP issuer or account label'')
     else if generated \<and> (issuer = [] \<or> account = [])
     then Inl (bad ''generated TOTP keys require issuer and account_name'')
     else if generated \<and> (json_get body ''key'' \<noteq> None \<or> json_get body ''url'' \<noteq> None)
     then Inl (bad ''generated TOTP keys cannot also import a key'')
     else
       rbind (if generated \<and> exported then
                rbind (optional_u64 body ''qr_size'') (\<lambda>qr.
                  if unwrap_or qr 200 \<noteq> 0
                  then Inl (eng_error 501 ''QR image generation is not implemented; set qr_size=0 for an otpauth URL'')
                  else Inr ())
              else Inr ()) (\<lambda>_.
       rbind (optional_string parameters ''algorithm'' ''algorithm must be a string'') (\<lambda>algorithm.
       let algorithm = unwrap_or algorithm ''SHA1'' in
       rbind (totp_hmac_algorithm algorithm) (\<lambda>_.
       rbind (optional_u64 parameters ''digits'') (\<lambda>digits.
       let digits = unwrap_or digits 6 in
       if digits \<noteq> 6 \<and> digits \<noteq> 8 then Inl (bad ''TOTP digits must be 6 or 8'')
       else
         rbind (optional_u64 parameters ''period'') (\<lambda>period.
         let period = unwrap_or period 30 in
         if \<not> (1 \<le> period \<and> period \<le> 3600)
         then Inl (bad ''TOTP period must be between 1 and 3600 seconds'')
         else
           rbind (optional_u64 parameters ''skew'') (\<lambda>skew.
           let skew = unwrap_or skew 1 in
           if 1 < skew then Inl (bad ''TOTP skew must be 0 or 1'')
           else
             rbind (totp_secret fill body parameters generated) (\<lambda>secret.
             if \<not> (10 \<le> length secret \<and> length secret \<le> 128)
             then Inl (bad ''TOTP secrets must contain between 10 and 128 bytes'')
             else
               Inr (\<lparr>tk_secret = secret, tk_issuer = issuer, tk_account_name = account,
                      tk_algorithm = algorithm, tk_digits = digits, tk_period = period,
                      tk_skew = skew, last_accepted_counter = None, failed_window = 0,
                      tk_failures = 0\<rparr>, generated \<and> exported))))))))))))))"

text \<open>The same seed keeps its replay and guessing counters.\<close>

definition carry_counters :: "totp_key option \<Rightarrow> totp_key \<Rightarrow> totp_key" where
  "carry_counters previous key =
     (case previous of
        None \<Rightarrow> key
      | Some previous \<Rightarrow>
          if tk_secret previous = tk_secret key \<and> tk_algorithm previous = tk_algorithm key
             \<and> tk_period previous = tk_period key \<and> tk_digits previous = tk_digits key
          then key\<lparr>last_accepted_counter := last_accepted_counter previous,
                   failed_window := failed_window previous,
                   tk_failures := tk_failures previous\<rparr>
          else key)"

definition totp_url :: "totp_key \<Rightarrow> string" where
  "totp_url key =
     ''otpauth://totp/'' @ percent_encode (tk_issuer key) @ '':'' @ percent_encode (tk_account_name key)
     @ ''?algorithm='' @ tk_algorithm key @ ''&digits='' @ nat_to_dec (tk_digits key)
     @ ''&issuer='' @ percent_encode (tk_issuer key) @ ''&period='' @ nat_to_dec (tk_period key)
     @ ''&secret='' @ encode_base32 (tk_secret key)"

definition totp_write :: "entropy \<Rightarrow> totp \<Rightarrow> string \<Rightarrow> json \<Rightarrow> totp \<times> (engine_error + engine_response)" where
  "totp_write fill keys name body =
     sbind (keys, totp_new_key fill body) (\<lambda>keys (key, show_url).
       (binsert name (carry_counters (map_of keys name) key) keys,
        Inr (if show_url then ok_data (json_object [(''url'', JStr (totp_url key))]) True
             else empty_ok True)))"

text \<open>
  The loop over the accepted counters. \<^verbatim>\<open>hmac::verify\<close> recomputes the tag of the
  submitted code and compares it with the tag of the expected one.
\<close>

primrec totp_match ::
  "'x crypto_scheme \<Rightarrow> totp_key \<Rightarrow> string \<Rightarrow> nat list \<Rightarrow> nat option \<Rightarrow> engine_error + nat option" where
  "totp_match lib key submitted [] matched = Inr matched"
| "totp_match lib key submitted (counter # rest) matched =
     rbind (totp_code lib key counter) (\<lambda>expected.
       let tag = hmac_sign lib ''SHA256'' (tk_secret key) in
       totp_match lib key submitted rest
         (if tag (bytes_of_string submitted) = tag (bytes_of_string expected)
             \<and> is_none_or (last_accepted_counter key) (\<lambda>accepted. accepted < counter)
          then Some counter else matched))"

definition totp_validate ::
  "'x crypto_scheme \<Rightarrow> totp \<Rightarrow> string \<Rightarrow> json \<Rightarrow> nat \<Rightarrow> totp \<times> (engine_error + engine_response)" where
  "totp_validate lib keys name body now =
     sbind (keys, reject_unknown body [''code'']) (\<lambda>keys _.
     sbind (keys, string_param body ''code'') (\<lambda>keys submitted.
     sbind (keys, ok_or (map_of keys name) not_found) (\<lambda>keys key.
     if length submitted \<noteq> tk_digits key \<or> \<not> list_all is_ascii_digit submitted
     then (keys, Inl (bad ''TOTP code must contain exactly the configured number of decimal digits''))
     else
       let current = now div tk_period key;
           key = (if failed_window key < current
                  then key\<lparr>failed_window := current, tk_failures := 0\<rparr> else key);
           put = (\<lambda>key. binsert name key keys) in
       if 10 \<le> tk_failures key
       then (put key, Inl (eng_error 429 ''TOTP validation attempt limit reached for this period''))
       else
         sbind (put key, totp_match lib key submitted
                  [saturating_sub64 current (tk_skew key)..<Suc (saturating_add64 current (tk_skew key))]
                  None) (\<lambda>_ matched.
         case matched of
           Some counter \<Rightarrow>
             (put (key\<lparr>last_accepted_counter := Some counter, tk_failures := 0\<rparr>),
              Inr (ok_data (json_object [(''valid'', JBool True)]) True))
         | None \<Rightarrow>
             (put (key\<lparr>tk_failures := tk_failures key + 1\<rparr>),
              Inr (ok_data (json_object [(''valid'', JBool False)]) True))))))"

definition totp_describe :: "totp_key \<Rightarrow> json" where
  "totp_describe key =
     json_object [(''issuer'', JStr (tk_issuer key)), (''account_name'', JStr (tk_account_name key)),
       (''algorithm'', JStr (tk_algorithm key)), (''digits'', json_u64 (tk_digits key)),
       (''period'', json_u64 (tk_period key))]"

definition totp_generate :: "'x crypto_scheme \<Rightarrow> totp_key \<Rightarrow> nat \<Rightarrow> engine_error + engine_response" where
  "totp_generate lib key now =
     (let counter = now div tk_period key in
      rbind (ok_or (Option.bind (checked_add64 counter 1) (\<lambda>c. checked_mul64 c (tk_period key)))
               (bad ''TOTP time overflow'')) (\<lambda>expiry.
      rbind (totp_code lib key counter) (\<lambda>code.
      Inr (ok_data (json_object [(''code'', JStr code), (''generated'', json_u64 now),
             (''expire_time'', json_u64 expiry),
             (''period'', JStr (nat_to_dec (tk_period key) @ ''s''))]) False))))"

definition totp_handle ::
  "'x crypto_scheme \<Rightarrow> entropy \<Rightarrow> totp \<Rightarrow> string \<Rightarrow> string \<Rightarrow> json \<Rightarrow> nat \<Rightarrow>
   totp \<times> (engine_error + engine_response)" where
  "totp_handle lib fill keys method path body now =
     (if path = ''keys'' \<or> path = ''keys/'' then
        (keys,
         if method \<noteq> ''LIST'' then Inl unsupported
         else rbind (list_keys (map fst keys) '''' False body) (\<lambda>names.
           if names = [] then Inl not_found
           else Inr (ok_data (json_object [(''keys'', JArr (map JStr names))]) False)))
      else
        sbind (keys, ok_or (split_once (CHR ''/'') path) (eng_error 404 ''unknown TOTP operation''))
          (\<lambda>keys (operation, name).
        sbind (keys, valid_path name) (\<lambda>keys _.
        if CHR ''/'' \<in> set name
        then (keys, Inl (bad ''TOTP key names must be a single path segment''))
        else if operation = ''keys'' \<and> write_method method then totp_write fill keys name body
        else if operation = ''keys'' \<and> method = ''DELETE''
        then (bremove name keys, Inr (empty_ok (bcontains keys name)))
        else if operation = ''keys'' \<and> method = ''GET''
        then (keys, rbind (ok_or (map_of keys name) not_found) (\<lambda>key. Inr (ok_data (totp_describe key) False)))
        else if operation = ''code'' \<and> method = ''GET''
        then (keys, rbind (ok_or (map_of keys name) not_found) (\<lambda>key. totp_generate lib key now))
        else if operation = ''code'' \<and> write_method method then totp_validate lib keys name body now
        else (keys, Inl unsupported))))"

end
