(* ===== verification/Transit.thy ===== *)
theory Transit
  imports Engine_Base Bytes
begin

text \<open>
  The encryption engine of \<^verbatim>\<open>crates/heptabao-server/src/engines/transit.rs\<close>: named keys
  with numbered versions, encryption, decryption and rewrapping under authenticated encryption,
  HMAC, Ed25519 signatures, data keys, random bytes and hashes. The primitives are fields of the
  \<open>crypto\<close> parameter \<open>lib\<close>; \<open>fill\<close> supplies the random bytes, labelled by the place
  that asks for them (0 and 1 for the material and HMAC material of a new key version, 2 for a
  data key, 3 for a nonce, 4 for the random endpoint; an item of a batch puts its index in front).
\<close>

section \<open>State\<close>

definition MAX_INPUT_BYTES :: nat where
  "MAX_INPUT_BYTES = 4 * 1024 * 1024"

definition MAX_BATCH :: nat where
  "MAX_BATCH = 256"

definition MAX_ENCRYPTIONS_PER_VERSION :: nat where
  "MAX_ENCRYPTIONS_PER_VERSION = 2 ^ 32"

record key_version =
  material :: string
  hmac_material :: string
  kv_created_at :: nat
  encryptions :: nat

record transit_key =
  kind :: string
  latest_version :: nat
  min_decryption_version :: nat
  min_encryption_version :: nat
  deletion_allowed :: bool
  exportable :: bool
  deleted :: bool
  key_versions :: "(nat, key_version) bmap"

record transit =
  transit_keys :: "(string, transit_key) bmap"
  disable_upsert :: bool

definition transit_default :: transit where
  "transit_default = \<lparr>transit_keys = [], disable_upsert = False\<rparr>"

definition transit_contains :: "transit \<Rightarrow> string \<Rightarrow> bool" where
  "transit_contains st name = bcontains (transit_keys st) name"

section \<open>Encodings\<close>

definition random_bytes :: "entropy \<Rightarrow> nat \<Rightarrow> nat \<Rightarrow> engine_error + byte list" where
  "random_bytes fill label len = ok_or (fill [label] len) (eng_error 503 ''system entropy is unavailable'')"

definition transit_decode :: "'x crypto_scheme \<Rightarrow> string \<Rightarrow> engine_error + byte list" where
  "transit_decode lib v =
     (if MAX_INPUT_BYTES * 4 div 3 + 4 < length v
      then Inl (eng_error 413 ''cryptographic input exceeds the supported size'')
      else ok_or (base64_decode lib v) (bad ''invalid base64 input''))"

definition decode_field :: "'x crypto_scheme \<Rightarrow> json \<Rightarrow> string \<Rightarrow> engine_error + byte list" where
  "decode_field lib body field = rbind (string_param body field) (transit_decode lib)"

definition stored_material :: "'x crypto_scheme \<Rightarrow> string \<Rightarrow> engine_error + byte list" where
  "stored_material lib v = ok_or (base64_decode lib v) (eng_error 500 ''stored key material is invalid'')"

definition parse_wrapped :: "'x crypto_scheme \<Rightarrow> string \<Rightarrow> engine_error + nat \<times> byte list" where
  "parse_wrapped lib input =
     rbind (ok_or (strip_prefix ''vault:v'' input) (bad ''invalid versioned cryptographic value'')) (\<lambda>rest.
     rbind (ok_or (split_once (CHR '':'') rest) (bad ''invalid versioned cryptographic value'')) (\<lambda>(version, data).
     if starts_with version ''0'' \<or> \<not> list_all is_ascii_digit version
     then Inl (bad ''invalid cryptographic key version'')
     else
       rbind (ok_or (opt_filter (\<lambda>v. 0 < v) (parse_u64 version)) (bad ''invalid cryptographic key version''))
         (\<lambda>version.
       rbind (transit_decode lib data) (\<lambda>bytes. Inr (version, bytes)))))"

definition wrap_version :: "'x crypto_scheme \<Rightarrow> nat \<Rightarrow> byte list \<Rightarrow> string" where
  "wrap_version lib version bytes = ''vault:v'' @ nat_to_dec version @ '':'' @ base64_encode lib bytes"

section \<open>Keys\<close>

definition generate_version ::
  "'x crypto_scheme \<Rightarrow> entropy \<Rightarrow> string \<Rightarrow> nat \<Rightarrow> engine_error + key_version" where
  "generate_version lib fill k now =
     rbind (if k = ''aes128-gcm96'' then random_bytes fill 0 16
            else if k = ''aes256-gcm96'' \<or> k = ''chacha20-poly1305'' \<or> k = ''hmac'' then random_bytes fill 0 32
            else if k = ''ed25519'' then
              ok_or (Option.bind (fill [0] 32) (ed25519_generate lib)) (eng_error 503 ''key generation failed'')
            else Inl (eng_error 501 ''key type is not implemented'')) (\<lambda>mat.
     rbind (random_bytes fill 1 32) (\<lambda>mac.
     Inr \<lparr>material = base64_encode lib mat, hmac_material = base64_encode lib mac,
          kv_created_at = now, encryptions = 0\<rparr>))"

text \<open>A loop over flags, the first of which that is set fails with the given error.\<close>

primrec reject_flags :: "json \<Rightarrow> engine_error \<Rightarrow> string list \<Rightarrow> engine_error + unit" where
  "reject_flags body e [] = Inr ()"
| "reject_flags body e (flag # rest) =
     rbind (optional_bool body flag) (\<lambda>v.
       if unwrap_or v False then Inl e else reject_flags body e rest)"

definition reject_auto_rotate :: "json \<Rightarrow> engine_error + unit" where
  "reject_auto_rotate body =
     rbind (rtranspose duration_seconds (json_get body ''auto_rotate_period'')) (\<lambda>period.
       if unwrap_or period 0 \<noteq> 0
       then Inl (eng_error 501 ''automatic time-based rotation is not implemented'') else Inr ())"

definition unsupported_flags :: "string list" where
  "unsupported_flags = [''derived'', ''convergent_encryption'', ''allow_plaintext_backup'']"

definition key_new :: "'x crypto_scheme \<Rightarrow> entropy \<Rightarrow> json \<Rightarrow> nat \<Rightarrow> engine_error + transit_key" where
  "key_new lib fill body now =
     rbind (rtranspose (\<lambda>v. ok_or (as_str v) (bad ''key type must be a string'')) (json_get body ''type'')) (\<lambda>ty.
     let k = unwrap_or ty ''aes256-gcm96'' in
     rbind (reject_flags body
              (eng_error 501 ''derived keys, convergent encryption and plaintext backups are not implemented'')
              unsupported_flags) (\<lambda>_.
     rbind (reject_auto_rotate body) (\<lambda>_.
     rbind (optional_bool body ''exportable'') (\<lambda>export.
     rbind (generate_version lib fill k now) (\<lambda>version.
     Inr \<lparr>kind = k, latest_version = 1, min_decryption_version = 1, min_encryption_version = 0,
          deletion_allowed = False, exportable = unwrap_or export False, deleted = False,
          key_versions = [(1, version)]\<rparr>)))))"

definition version_descriptor ::
  "'x crypto_scheme \<Rightarrow> transit_key \<Rightarrow> nat \<times> key_version \<Rightarrow> engine_error + string \<times> json" where
  "version_descriptor lib key e =
     rbind (if kind key = ''ed25519'' then
              rbind (stored_material lib (material (snd e))) (\<lambda>doc.
              rbind (ok_or (ed25519_public lib doc) (eng_error 500 ''stored signing key is invalid'')) (\<lambda>pub.
              Inr (json_object [(''creation_time'', JStr (timestamp (kv_created_at (snd e)))),
                     (''public_key'', JStr (base64_encode lib pub))])))
            else Inr (json_u64 (kv_created_at (snd e))))
       (\<lambda>v. Inr (nat_to_dec (fst e), v))"

definition supports_encryption :: "string \<Rightarrow> bool" where
  "supports_encryption k = (k = ''aes128-gcm96'' \<or> k = ''aes256-gcm96'' \<or> k = ''chacha20-poly1305'')"

definition key_descriptor :: "'x crypto_scheme \<Rightarrow> transit_key \<Rightarrow> string \<Rightarrow> engine_error + json" where
  "key_descriptor lib key name =
     rbind (rcollect (version_descriptor lib key) (key_versions key)) (\<lambda>vs.
     let encryption = supports_encryption (kind key) in
     Inr (json_object [(''name'', JStr name), (''type'', JStr (kind key)), (''keys'', json_object vs),
       (''latest_version'', json_u64 (latest_version key)),
       (''min_decryption_version'', json_u64 (min_decryption_version key)),
       (''min_encryption_version'', json_u64 (min_encryption_version key)),
       (''deletion_allowed'', JBool (deletion_allowed key)), (''exportable'', JBool (exportable key)),
       (''allow_plaintext_backup'', JBool False), (''derived'', JBool False),
       (''convergent_encryption'', JBool False), (''supports_derivation'', JBool False),
       (''supports_encryption'', JBool encryption), (''supports_decryption'', JBool encryption),
       (''supports_signing'', JBool (kind key = ''ed25519'')), (''supports_hmac'', JBool True),
       (''imported_key'', JBool False), (''auto_rotate_period'', json_u64 0),
       (''soft_deleted'', JBool (deleted key)), (''min_available_version'', json_u64 0)]))"

definition alive :: "transit_key \<Rightarrow> engine_error + unit" where
  "alive key = guard_err (deleted key) (bad ''key is soft deleted'')"

definition selected_version :: "transit_key \<Rightarrow> json \<Rightarrow> engine_error + nat" where
  "selected_version key body =
     rbind (alive key) (\<lambda>_.
     rbind (optional_u64 body ''key_version'') (\<lambda>v.
     let version = unwrap_or (opt_filter (\<lambda>v. v \<noteq> 0) v) (latest_version key);
         minimum = max (min_encryption_version key) 1 in
     if version < minimum \<or> \<not> bcontains (key_versions key) version
     then Inl (bad ''key version is unavailable or disallowed by encryption policy'')
     else Inr version))"

definition decrypt_version :: "transit_key \<Rightarrow> nat \<Rightarrow> engine_error + key_version" where
  "decrypt_version key version =
     rbind (alive key) (\<lambda>_.
     if version < min_decryption_version key
     then Inl (bad ''key version is disallowed by decryption policy'')
     else ok_or (map_of (key_versions key) version) (bad ''key version is unavailable''))"

definition key_configure :: "transit_key \<Rightarrow> json \<Rightarrow> transit_key \<times> (engine_error + unit)" where
  "key_configure key body =
     sbind (key, reject_unknown body [''min_decryption_version'', ''min_encryption_version'', ''deletion_allowed'',
              ''exportable'', ''allow_plaintext_backup'', ''auto_rotate_period'']) (\<lambda>key _.
     sbind (key, optional_u64 body ''min_decryption_version'') (\<lambda>key mindec.
     let key = (case mindec of None \<Rightarrow> key | Some v \<Rightarrow> key\<lparr>min_decryption_version := max v 1\<rparr>) in
     sbind (key, optional_u64 body ''min_encryption_version'') (\<lambda>key minenc.
     let key = (case minenc of None \<Rightarrow> key | Some v \<Rightarrow> key\<lparr>min_encryption_version := v\<rparr>) in
     if latest_version key < min_decryption_version key \<or> latest_version key < min_encryption_version key
        \<or> (min_encryption_version key \<noteq> 0 \<and> min_encryption_version key < min_decryption_version key)
     then (key, Inl (bad ''minimum key versions are inconsistent or exceed the latest version''))
     else
       sbind (key, optional_bool body ''deletion_allowed'') (\<lambda>key del.
       let key = (case del of None \<Rightarrow> key | Some v \<Rightarrow> key\<lparr>deletion_allowed := v\<rparr>) in
       sbind (key, optional_bool body ''exportable'') (\<lambda>key export.
       if exportable key \<and> export = Some False
       then (key, Inl (bad ''exportability cannot be revoked once enabled''))
       else
         let key = (case export of None \<Rightarrow> key | Some v \<Rightarrow> key\<lparr>exportable := v\<rparr>) in
         sbind (key, optional_bool body ''allow_plaintext_backup'') (\<lambda>key backup.
         if unwrap_or backup False then (key, Inl (eng_error 501 ''plaintext backup is not implemented''))
         else (key, reject_auto_rotate body)))))))"

section \<open>Encryption\<close>

definition reject_context :: "json \<Rightarrow> engine_error + unit" where
  "reject_context body =
     (if list_ex (\<lambda>field. is_some_and (json_get body field) (\<lambda>v. as_str v \<noteq> Some '''')) [''context'', ''nonce'']
      then Inl (eng_error 501 ''derived contexts and caller-supplied nonces are not implemented'')
      else
        rbind (optional_bool body ''convergent_encryption'') (\<lambda>v.
          if unwrap_or v False then Inl (eng_error 501 ''convergent encryption is not implemented'')
          else Inr ()))"

definition select_algorithm :: "string \<Rightarrow> json \<Rightarrow> string \<Rightarrow> string \<Rightarrow> engine_error + string" where
  "select_algorithm path body field dflt =
     rbind (rtranspose (\<lambda>v. ok_or (as_str v) (bad ''algorithm must be a string'')) (json_get body field)) (\<lambda>v.
       if path \<noteq> [] then
         if is_some_and v (\<lambda>v. v \<noteq> path) then Inl (bad ''conflicting path and body algorithms'') else Inr path
       else Inr (unwrap_or v dflt))"

definition aead_algorithm :: "string \<Rightarrow> engine_error + string" where
  "aead_algorithm k =
     (if k = ''aes128-gcm96'' \<or> k = ''aes256-gcm96'' \<or> k = ''chacha20-poly1305'' then Inr k
      else Inl (bad ''key type does not support encryption''))"

definition transit_aad ::
  "'x crypto_scheme \<Rightarrow> string \<Rightarrow> string \<Rightarrow> string \<Rightarrow> json \<Rightarrow> engine_error + byte list" where
  "transit_aad lib namespace mount name body =
     rbind (rtranspose (\<lambda>v. rbind (ok_or (as_str v) (bad ''associated_data must be base64'')) (transit_decode lib))
              (json_get body ''associated_data'')) (\<lambda>associated.
       Inr (json_tuple lib [''heptabao-transit-aead-v1'', namespace, mount, name] (unwrap_or associated [])))"

definition transit_encrypt ::
  "'x crypto_scheme \<Rightarrow> entropy \<Rightarrow> transit_key \<Rightarrow> string \<Rightarrow> string \<Rightarrow> string \<Rightarrow> json \<Rightarrow> byte list \<Rightarrow>
   transit_key \<times> (engine_error + json)" where
  "transit_encrypt lib fill key namespace mount name body plaintext =
     sbind (key, aead_algorithm (kind key)) (\<lambda>key algorithm.
     sbind (key, selected_version key body) (\<lambda>key version_number.
     sbind (key, ok_or (map_of (key_versions key) version_number) not_found) (\<lambda>key version.
     if MAX_ENCRYPTIONS_PER_VERSION \<le> encryptions version
     then (key, Inl (bad ''key version reached its encryption limit; rotate the key''))
     else
       sbind (key, stored_material lib (material version)) (\<lambda>key mat.
       if \<not> aead_key_ok lib algorithm mat then (key, Inl (eng_error 500 ''stored encryption key is invalid''))
       else
         sbind (key, random_bytes fill 3 12) (\<lambda>key nonce.
         sbind (key, transit_aad lib namespace mount name body) (\<lambda>key aad.
         sbind (key, ok_or (aead_seal lib algorithm mat nonce aad plaintext) (eng_error 500 ''encryption failed''))
           (\<lambda>key ciphertext.
         (key\<lparr>key_versions := binsert version_number (version\<lparr>encryptions := encryptions version + 1\<rparr>)
                               (key_versions key)\<rparr>,
          Inr (json_object [(''ciphertext'', JStr (wrap_version lib version_number (nonce @ ciphertext))),
                 (''key_version'', json_u64 version_number)])))))))))"

definition transit_decrypt ::
  "'x crypto_scheme \<Rightarrow> transit_key \<Rightarrow> string \<Rightarrow> string \<Rightarrow> string \<Rightarrow> json \<Rightarrow> engine_error + byte list" where
  "transit_decrypt lib key namespace mount name body =
     rbind (aead_algorithm (kind key)) (\<lambda>algorithm.
     rbind (string_param body ''ciphertext'') (\<lambda>text.
     rbind (parse_wrapped lib text) (\<lambda>(version_number, ciphertext).
     rbind (decrypt_version key version_number) (\<lambda>version.
     if length ciphertext < 28 then Inl (bad ''invalid ciphertext'')
     else
       rbind (stored_material lib (material version)) (\<lambda>mat.
       if \<not> aead_key_ok lib algorithm mat then Inl (eng_error 500 ''stored encryption key is invalid'')
       else
         rbind (transit_aad lib namespace mount name body) (\<lambda>aad.
         ok_or (aead_open lib algorithm mat (take 12 ciphertext) aad (drop 12 ciphertext))
           (bad ''ciphertext authentication failed'')))))))"

section \<open>Message authentication and signatures\<close>

definition transit_hmac_algorithm :: "string \<Rightarrow> engine_error + string" where
  "transit_hmac_algorithm name =
     (if name = ''sha2-256'' \<or> name = ''sha2-384'' \<or> name = ''sha2-512'' then Inr name
      else Inl (eng_error 501 ''HMAC algorithm is not implemented''))"

definition signing_options :: "transit_key \<Rightarrow> json \<Rightarrow> string \<Rightarrow> engine_error + unit" where
  "signing_options key body path_algorithm =
     (if kind key \<noteq> ''ed25519'' then Inl (bad ''key does not support Ed25519 signing'')
      else
        rbind (optional_bool body ''prehashed'') (\<lambda>pre.
        if unwrap_or pre False then Inl (eng_error 501 ''Ed25519ph is not implemented'')
        else if json_get body ''signature_algorithm'' \<noteq> None \<or> json_get body ''marshaling_algorithm'' \<noteq> None
        then Inl (eng_error 501 ''signature algorithm options are not implemented for Ed25519'')
        else
          rbind (select_algorithm path_algorithm body ''hash_algorithm'' ''sha2-256'') (\<lambda>algorithm.
          if algorithm \<noteq> ''sha2-256''
          then Inl (eng_error 501 ''explicit hash selection is not implemented for Ed25519'')
          else Inr ())))"

definition crypto_hmac :: "'x crypto_scheme \<Rightarrow> transit_key \<Rightarrow> string \<Rightarrow> json \<Rightarrow> engine_error + json" where
  "crypto_hmac lib key algorithm body =
     rbind (selected_version key body) (\<lambda>version.
     rbind (select_algorithm algorithm body ''algorithm'' ''sha2-256'') (\<lambda>algorithm.
     rbind (ok_or (map_of (key_versions key) version) not_found) (\<lambda>v.
     rbind (stored_material lib (hmac_material v)) (\<lambda>mat.
     rbind (transit_hmac_algorithm algorithm) (\<lambda>algorithm.
     rbind (decode_field lib body ''input'') (\<lambda>input.
     Inr (json_object [(''hmac'', JStr (wrap_version lib version (hmac_sign lib algorithm mat input)))])))))))"

definition crypto_sign :: "'x crypto_scheme \<Rightarrow> transit_key \<Rightarrow> string \<Rightarrow> json \<Rightarrow> engine_error + json" where
  "crypto_sign lib key algorithm body =
     rbind (signing_options key body algorithm) (\<lambda>_.
     rbind (selected_version key body) (\<lambda>version.
     rbind (ok_or (map_of (key_versions key) version) not_found) (\<lambda>v.
     rbind (stored_material lib (material v)) (\<lambda>doc.
     if ed25519_public lib doc = None then Inl (eng_error 500 ''stored signing key is invalid'')
     else
       rbind (decode_field lib body ''input'') (\<lambda>input.
       Inr (json_object [(''signature'', JStr (wrap_version lib version (ed25519_sign lib doc input))),
              (''key_version'', json_u64 version)]))))))"

definition crypto_verify :: "'x crypto_scheme \<Rightarrow> transit_key \<Rightarrow> string \<Rightarrow> json \<Rightarrow> engine_error + json" where
  "crypto_verify lib key algorithm body =
     rbind (decode_field lib body ''input'') (\<lambda>input.
     rbind (case json_get body ''hmac'' of
              Some mac \<Rightarrow>
                if json_get body ''signature'' \<noteq> None then Inl (bad ''provide exactly one of hmac or signature'')
                else
                  rbind (ok_or (as_str mac) (bad ''hmac must be a string'')) (\<lambda>mac.
                  rbind (parse_wrapped lib mac) (\<lambda>(version, tag).
                  rbind (decrypt_version key version) (\<lambda>version.
                  rbind (stored_material lib (hmac_material version)) (\<lambda>mat.
                  rbind (select_algorithm algorithm body ''algorithm'' ''sha2-256'') (\<lambda>algorithm.
                  rbind (transit_hmac_algorithm algorithm) (\<lambda>algorithm.
                  Inr (hmac_sign lib algorithm mat input = tag)))))))
            | None \<Rightarrow>
                rbind (signing_options key body algorithm) (\<lambda>_.
                rbind (string_param body ''signature'') (\<lambda>sig.
                rbind (parse_wrapped lib sig) (\<lambda>(version, bytes).
                rbind (decrypt_version key version) (\<lambda>version.
                rbind (stored_material lib (material version)) (\<lambda>doc.
                rbind (ok_or (ed25519_public lib doc) (eng_error 500 ''stored signing key is invalid'')) (\<lambda>pub.
                Inr (ed25519_verify lib pub input bytes))))))))
       (\<lambda>valid. Inr (json_object [(''valid'', JBool valid)])))"

definition crypto_allowed :: "string \<Rightarrow> string list option" where
  "crypto_allowed operation =
     (if operation = ''encrypt'' then Some [''plaintext'', ''key_version'', ''associated_data'', ''context'', ''nonce'',
        ''type'', ''convergent_encryption'', ''reference'', ''batch_input'', ''partial_failure_response_code'']
      else if operation = ''decrypt'' then Some [''ciphertext'', ''associated_data'', ''context'', ''nonce'', ''reference'',
        ''batch_input'', ''partial_failure_response_code'']
      else if operation = ''rewrap'' then Some [''ciphertext'', ''key_version'', ''associated_data'', ''context'', ''nonce'',
        ''reference'', ''batch_input'', ''partial_failure_response_code'']
      else if operation = ''hmac'' then Some [''input'', ''key_version'', ''algorithm'', ''reference'', ''batch_input'',
        ''partial_failure_response_code'']
      else if operation = ''sign'' then Some [''input'', ''key_version'', ''hash_algorithm'', ''context'', ''prehashed'',
        ''signature_algorithm'', ''marshaling_algorithm'', ''reference'', ''batch_input'', ''partial_failure_response_code'']
      else if operation = ''verify'' then Some [''input'', ''signature'', ''hmac'', ''algorithm'', ''hash_algorithm'',
        ''context'', ''prehashed'', ''signature_algorithm'', ''marshaling_algorithm'', ''reference'', ''batch_input'',
        ''partial_failure_response_code'']
      else None)"

section \<open>Requests on a key\<close>

text \<open>
  \<^verbatim>\<open>handle_crypto\<close> of one item. The batch case of the source calls the same function on
  every item after removing \<^verbatim>\<open>batch_input\<close>, so that it cannot nest; \<open>handle_crypto\<close> below
  has the batch loop around this part.
\<close>

definition crypto_single ::
  "'x crypto_scheme \<Rightarrow> entropy \<Rightarrow> transit_key \<Rightarrow> string \<Rightarrow> string \<Rightarrow> string \<Rightarrow> string \<Rightarrow> string \<Rightarrow> json \<Rightarrow>
   transit_key \<times> (engine_error + engine_response)" where
  "crypto_single lib fill key namespace mount name operation algorithm body =
     sbind (key, reject_context body) (\<lambda>key _.
     sbind (if operation = ''encrypt'' then
              if is_some_and (json_get body ''type'') (\<lambda>k. k \<noteq> JStr (kind key))
              then (key, Inl (bad ''requested encryption type does not match the key''))
              else sbind (key, decode_field lib body ''plaintext'')
                     (\<lambda>key plaintext. transit_encrypt lib fill key namespace mount name body plaintext)
            else if operation = ''decrypt'' then
              (key, rbind (transit_decrypt lib key namespace mount name body)
                      (\<lambda>plaintext. Inr (json_object [(''plaintext'', JStr (base64_encode lib plaintext))])))
            else if operation = ''rewrap'' then
              sbind (key, transit_decrypt lib key namespace mount name body)
                (\<lambda>key plaintext. transit_encrypt lib fill key namespace mount name body plaintext)
            else if operation = ''hmac'' then (key, crypto_hmac lib key algorithm body)
            else if operation = ''sign'' then (key, crypto_sign lib key algorithm body)
            else if operation = ''verify'' then (key, crypto_verify lib key algorithm body)
            else (key, Inl unsupported)) (\<lambda>key data.
     (key, Inr (ok_data data (operation = ''encrypt'' \<or> operation = ''rewrap'')))))"

text \<open>The parameters of a batch item: those of the request without payloads, then the item's own.\<close>

definition batch_private :: "string list" where
  "batch_private = [''batch_input'', ''partial_failure_response_code'', ''input'', ''plaintext'', ''ciphertext'',
     ''context'', ''associated_data'', ''signature'', ''hmac'', ''reference'']"

definition batch_combine :: "json \<Rightarrow> json \<Rightarrow> json" where
  "batch_combine body item =
     (case body of
        JObj m \<Rightarrow>
          JObj (fold (\<lambda>(field, v). binsert field v) (unwrap_or (as_object item) [])
                  (fold bremove batch_private m))
      | _ \<Rightarrow> body)"

definition batch_item ::
  "'x crypto_scheme \<Rightarrow> entropy \<Rightarrow> transit_key \<Rightarrow> string \<Rightarrow> string \<Rightarrow> string \<Rightarrow> string \<Rightarrow> string \<Rightarrow> json \<Rightarrow>
   string list \<Rightarrow> json \<Rightarrow> transit_key \<times> (engine_error + engine_response)" where
  "batch_item lib fill key namespace mount name operation algorithm body allowed item =
     (if is_object item \<and> json_get item ''batch_input'' = None
         \<and> json_get item ''partial_failure_response_code'' = None
      then
        let combined = batch_combine body item in
        sbind (key, reject_unknown combined allowed)
          (\<lambda>key _. crypto_single lib fill key namespace mount name operation algorithm combined)
      else (key, Inl (bad ''batch items must be objects without nested batches'')))"

text \<open>The loop over the items: the key, the answers, the number of failures, whether it mutated.\<close>

primrec batch_loop ::
  "'x crypto_scheme \<Rightarrow> entropy \<Rightarrow> transit_key \<Rightarrow> string \<Rightarrow> string \<Rightarrow> string \<Rightarrow> string \<Rightarrow> string \<Rightarrow> json \<Rightarrow>
   string list \<Rightarrow> json list \<Rightarrow> nat \<Rightarrow> json list \<times> nat \<times> bool \<Rightarrow> transit_key \<times> json list \<times> nat \<times> bool" where
  "batch_loop lib fill key namespace mount name operation algorithm body allowed [] i acc = (key, acc)"
| "batch_loop lib fill key namespace mount name operation algorithm body allowed (item # items) i acc =
     (let (responses, failed, mut) = acc;
          (candidate, result) =
            batch_item lib (\<lambda>l. fill (i # l)) key namespace mount name operation algorithm body allowed item;
          (key, v, failed, mut) =
            (case result of
               Inr resp \<Rightarrow>
                 (if mutated resp then candidate else key, unwrap_or (json_get (resp_body resp) ''data'') JNull,
                  failed, mut \<or> mutated resp)
             | Inl failure \<Rightarrow> (key, json_object [(''error'', JStr (err_message failure))], failed + 1, mut));
          v = (case json_get item ''reference'' of None \<Rightarrow> v | Some r \<Rightarrow> json_set v ''reference'' r)
      in batch_loop lib fill key namespace mount name operation algorithm body allowed items (i + 1)
           (responses @ [v], failed, mut))"

definition batch_status :: "nat \<Rightarrow> nat \<Rightarrow> nat \<Rightarrow> nat" where
  "batch_status failed count partial_code =
     (if failed = 0 then 200 else if failed = count then 400 else partial_code)"

definition handle_crypto ::
  "'x crypto_scheme \<Rightarrow> entropy \<Rightarrow> transit_key \<Rightarrow> string \<Rightarrow> string \<Rightarrow> string \<Rightarrow> string \<Rightarrow> string \<Rightarrow> json \<Rightarrow>
   transit_key \<times> (engine_error + engine_response)" where
  "handle_crypto lib fill key namespace mount name operation algorithm body =
     sbind (key, ok_or (crypto_allowed operation) unsupported) (\<lambda>key allowed.
     sbind (key, reject_unknown body allowed) (\<lambda>key _.
     case json_get body ''batch_input'' of
       None \<Rightarrow> crypto_single lib fill key namespace mount name operation algorithm body
     | Some items \<Rightarrow>
         sbind (key, ok_or (opt_filter (\<lambda>items. items \<noteq> [] \<and> length items \<le> MAX_BATCH) (as_array items))
                       (bad ''batch_input must contain between 1 and 256 items'')) (\<lambda>key items.
         sbind (key, optional_u64 body ''partial_failure_response_code'') (\<lambda>key code.
         let partial_code = unwrap_or code 400 in
         if \<not> (200 \<le> partial_code \<and> partial_code \<le> 599)
         then (key, Inl (bad ''partial failure response code must be between 200 and 599''))
         else
           let (key, responses, failed, mut) =
                 batch_loop lib fill key namespace mount name operation algorithm body allowed items 0 ([], 0, False)
           in (key, Inr \<lparr>resp_status = batch_status failed (length items) partial_code,
                         resp_body = json_object [(''data'', json_object [(''batch_results'', JArr responses)])],
                         mutated = mut\<rparr>)))))"

section \<open>Requests on the engine\<close>

definition key_create_existing ::
  "'x crypto_scheme \<Rightarrow> transit_key \<Rightarrow> string \<Rightarrow> json \<Rightarrow> engine_error + engine_response" where
  "key_create_existing lib key name body =
     (if is_some_and (json_get body ''type'') (\<lambda>v. v \<noteq> JStr (kind key))
      then Inl (bad ''key already exists with a different immutable type'')
      else
        rbind (reject_flags body (eng_error 501 ''requested key feature is not implemented'') unsupported_flags) (\<lambda>_.
        rbind (optional_bool body ''exportable'') (\<lambda>export.
        if is_some_and export (\<lambda>e. e \<noteq> exportable key)
        then Inl (bad ''use the key config endpoint to change exportability'')
        else
          rbind (reject_auto_rotate body) (\<lambda>_.
          rbind (key_descriptor lib key name) (\<lambda>d. Inr (ok_data d False))))))"

definition key_rotate ::
  "'x crypto_scheme \<Rightarrow> entropy \<Rightarrow> transit_key \<Rightarrow> json \<Rightarrow> nat \<Rightarrow> transit_key \<times> (engine_error + unit)" where
  "key_rotate lib fill key body now =
     sbind (key, reject_unknown body []) (\<lambda>key _.
     sbind (key, alive key) (\<lambda>key _.
     if 10000 \<le> length (key_versions key) then (key, Inl (bad ''key version retention limit reached''))
     else
       sbind (key, ok_or (checked_add64 (latest_version key) 1) (bad ''key version limit reached'')) (\<lambda>key nxt.
       sbind (key, generate_version lib fill (kind key) now) (\<lambda>key version.
       (key\<lparr>key_versions := binsert nxt version (key_versions key), latest_version := nxt\<rparr>, Inr ())))))"

definition key_operation ::
  "'x crypto_scheme \<Rightarrow> entropy \<Rightarrow> transit_key \<Rightarrow> string \<Rightarrow> json \<Rightarrow> nat \<Rightarrow> transit_key \<times> (engine_error + unit)" where
  "key_operation lib fill key operation body now =
     (if operation = ''config'' then key_configure key body
      else if operation = ''rotate'' then key_rotate lib fill key body now
      else if operation = ''soft-delete'' then
        sbind (key, reject_unknown body []) (\<lambda>key _. (key\<lparr>deleted := True\<rparr>, Inr ()))
      else if operation = ''soft-delete-restore'' then
        sbind (key, reject_unknown body []) (\<lambda>key _. (key\<lparr>deleted := False\<rparr>, Inr ()))
      else (key, Inl (eng_error 404 ''unknown or unsupported transit key operation'')))"

definition put_key :: "transit \<Rightarrow> string \<Rightarrow> transit_key \<Rightarrow> transit" where
  "put_key st name key = st\<lparr>transit_keys := binsert name key (transit_keys st)\<rparr>"

definition handle_key ::
  "'x crypto_scheme \<Rightarrow> entropy \<Rightarrow> transit \<Rightarrow> string \<Rightarrow> string \<Rightarrow> json \<Rightarrow> nat \<Rightarrow> transit \<times> (engine_error + engine_response)" where
  "handle_key lib fill st method rest body now =
     (let (name, operation) = unwrap_or (split_once (CHR ''/'') rest) (rest, []) in
      sbind (st, valid_path name) (\<lambda>st _.
      if operation = [] then
        if method = ''GET'' then
          (st, rbind (ok_or (map_of (transit_keys st) name) not_found) (\<lambda>key.
               rbind (key_descriptor lib key name) (\<lambda>d. Inr (ok_data d False))))
        else if method = ''DELETE'' then
          (case map_of (transit_keys st) name of
             None \<Rightarrow> (st, Inr (empty_ok False))
           | Some key \<Rightarrow>
               if \<not> deletion_allowed key
               then (st, Inl (bad ''key deletion is disabled; explicitly enable deletion_allowed first''))
               else (st\<lparr>transit_keys := bremove name (transit_keys st)\<rparr>, Inr (empty_ok True)))
        else if \<not> write_method method then (st, Inl unsupported)
        else
          sbind (st, reject_unknown body [''type'', ''derived'', ''convergent_encryption'', ''exportable'',
                   ''allow_plaintext_backup'', ''auto_rotate_period'']) (\<lambda>st _.
          case map_of (transit_keys st) name of
            Some key \<Rightarrow> (st, key_create_existing lib key name body)
          | None \<Rightarrow>
              sbind (st, key_new lib fill body now) (\<lambda>st key.
              (put_key st name key, rbind (key_descriptor lib key name) (\<lambda>d. Inr (ok_data d True)))))
      else if \<not> write_method method \<and> \<not> (operation = ''soft-delete'' \<and> method = ''DELETE'')
      then (st, Inl unsupported)
      else
        sbind (st, ok_or (map_of (transit_keys st) name) not_found) (\<lambda>st key.
        let (key, result) = key_operation lib fill key operation body now in
        sbind (put_key st name key, result) (\<lambda>st _.
        (st, if operation = ''rotate'' then rbind (key_descriptor lib key name) (\<lambda>d. Inr (ok_data d True))
             else Inr (empty_ok True))))))"

definition export_kind_ok :: "string \<Rightarrow> transit_key \<Rightarrow> bool" where
  "export_kind_ok k key = (k = ''hmac-key'' \<or> (k = ''encryption-key'' \<and> supports_encryption (kind key)))"

definition transit_export :: "transit \<Rightarrow> string \<Rightarrow> string \<Rightarrow> engine_error + engine_response" where
  "transit_export st method rest =
     (if method \<noteq> ''GET'' then Inl unsupported
      else
        let parts = split_on (CHR ''/'') rest in
        if \<not> (2 \<le> length parts \<and> length parts \<le> 3) then Inl (bad ''invalid key export path'')
        else
          let k = parts ! 0; name = parts ! 1 in
          rbind (ok_or (map_of (transit_keys st) name) not_found) (\<lambda>key.
          rbind (alive key) (\<lambda>_.
          if \<not> exportable key then Inl (eng_error 403 ''key is not exportable'')
          else if \<not> export_kind_ok k key
          then Inl (eng_error 501 ''requested key export format is not implemented'')
          else
            rbind (rtranspose (\<lambda>version.
                     if version = ''latest'' then Inr (latest_version key)
                     else ok_or (parse_u64 version) (bad ''invalid key version''))
                     (if length parts = 3 then Some (parts ! 2) else None)) (\<lambda>selected.
            rbind (case selected of None \<Rightarrow> Inr () | Some version \<Rightarrow> rbind (decrypt_version key version) (\<lambda>_. Inr ()))
              (\<lambda>_.
            let keys = map (\<lambda>(version, v). (nat_to_dec version,
                         JStr (if k = ''hmac-key'' then hmac_material v else material v)))
                       (filter (\<lambda>(version, v). min_decryption_version key \<le> version
                          \<and> is_none_or selected (\<lambda>n. version = n)) (key_versions key)) in
            Inr (ok_data (json_object [(''name'', JStr name), (''type'', JStr (kind key)),
                   (''keys'', json_object keys)]) False))))))"

definition transit_datakey ::
  "'x crypto_scheme \<Rightarrow> entropy \<Rightarrow> transit \<Rightarrow> string \<Rightarrow> string \<Rightarrow> string \<Rightarrow> json \<Rightarrow> transit \<times> (engine_error + engine_response)" where
  "transit_datakey lib fill st namespace mount rest body =
     sbind (st, reject_unknown body [''bits'', ''key_version'', ''associated_data'', ''context'', ''nonce'']) (\<lambda>st _.
     sbind (st, ok_or (split_once (CHR ''/'') rest) (bad ''data key path requires mode and key name''))
       (\<lambda>st (mode, name).
     if mode \<noteq> ''plaintext'' \<and> mode \<noteq> ''wrapped''
     then (st, Inl (bad ''data key mode must be plaintext or wrapped''))
     else
       sbind (st, valid_path name) (\<lambda>st _.
       if CHR ''/'' \<in> set name then (st, Inl (bad ''transit key names cannot contain path separators''))
       else
         sbind (st, reject_context body) (\<lambda>st _.
         sbind (st, optional_u64 body ''bits'') (\<lambda>st bits.
         let bits = unwrap_or bits 256 in
         if bits \<noteq> 128 \<and> bits \<noteq> 256 \<and> bits \<noteq> 512
         then (st, Inl (bad ''data key bits must be 128, 256 or 512''))
         else
           sbind (st, random_bytes fill 2 (bits div 8)) (\<lambda>st plaintext.
           sbind (st, ok_or (map_of (transit_keys st) name) not_found) (\<lambda>st key.
           let (key, result) = transit_encrypt lib fill key namespace mount name body plaintext in
           sbind (put_key st name key, result) (\<lambda>st data.
           (st, Inr (ok_data (if mode = ''plaintext''
                              then json_set data ''plaintext'' (JStr (base64_encode lib plaintext)) else data)
                       True))))))))))"

definition hex_lower :: "byte list \<Rightarrow> string" where
  "hex_lower bytes = concat (map (\<lambda>b.
     map (\<lambda>n. if n < 10 then char_of (48 + n) else char_of (87 + n)) [unat b div 16, unat b mod 16]) bytes)"

definition transit_encoded :: "'x crypto_scheme \<Rightarrow> byte list \<Rightarrow> string \<Rightarrow> engine_error + string" where
  "transit_encoded lib bytes format =
     (if format = ''base64'' then Inr (base64_encode lib bytes)
      else if format = ''hex'' then Inr (hex_lower bytes)
      else Inl (bad ''output format must be hex or base64''))"

definition optional_format :: "json \<Rightarrow> string \<Rightarrow> engine_error + string" where
  "optional_format body dflt =
     rbind (rtranspose (\<lambda>v. ok_or (as_str v) (bad ''format must be a string'')) (json_get body ''format''))
       (\<lambda>v. Inr (unwrap_or v dflt))"

definition transit_random :: "'x crypto_scheme \<Rightarrow> entropy \<Rightarrow> string \<Rightarrow> json \<Rightarrow> engine_error + engine_response" where
  "transit_random lib fill path body =
     rbind (reject_unknown body [''bytes'', ''source'', ''format'']) (\<lambda>_.
     rbind (optional_u64 body ''bytes'') (\<lambda>bytes.
     rbind (rtranspose (\<lambda>v. ok_or (as_str v) (bad ''random source must be a string'')) (json_get body ''source''))
       (\<lambda>source.
     let count = unwrap_or bytes 32; source = unwrap_or source ''platform'' in
     rbind (if path = [] then Inr (source, count)
            else case split_on (CHR ''/'') path of
                [part] \<Rightarrow>
                  if list_all is_ascii_digit part
                  then rbind (ok_or (parse_u64 part) (bad ''invalid byte count'')) (\<lambda>count. Inr (source, count))
                  else Inr (part, count)
              | [selected, bytes] \<Rightarrow>
                  rbind (ok_or (parse_u64 bytes) (bad ''invalid byte count'')) (\<lambda>count. Inr (selected, count))
              | _ \<Rightarrow> Inl (bad ''invalid random endpoint path'')) (\<lambda>(source, count).
     if source \<noteq> ''platform'' \<and> source \<noteq> ''all''
     then Inl (eng_error 501 ''external entropy source is not implemented'')
     else if \<not> (1 \<le> count \<and> count \<le> MAX_INPUT_BYTES)
     then Inl (bad ''random byte count is outside supported bounds'')
     else
       rbind (optional_format body ''base64'') (\<lambda>format.
       rbind (random_bytes fill 4 count) (\<lambda>bytes.
       rbind (transit_encoded lib bytes format) (\<lambda>text.
       Inr (ok_data (json_object [(''random_bytes'', JStr text)]) False))))))))"

definition transit_hash :: "'x crypto_scheme \<Rightarrow> string \<Rightarrow> json \<Rightarrow> engine_error + engine_response" where
  "transit_hash lib path body =
     rbind (reject_unknown body [''input'', ''algorithm'', ''format'']) (\<lambda>_.
     rbind (select_algorithm path body ''algorithm'' ''sha2-256'') (\<lambda>algorithm.
     if algorithm \<noteq> ''sha2-256'' \<and> algorithm \<noteq> ''sha2-384'' \<and> algorithm \<noteq> ''sha2-512''
     then Inl (eng_error 501 ''hash algorithm is not implemented'')
     else
       rbind (decode_field lib body ''input'') (\<lambda>input.
       rbind (optional_format body ''hex'') (\<lambda>format.
       rbind (transit_encoded lib (sha_digest lib algorithm input) format) (\<lambda>text.
       Inr (ok_data (json_object [(''sum'', JStr text)]) False))))))"

text \<open>The requests that use a named key, which encryption may create.\<close>

definition transit_crypto ::
  "'x crypto_scheme \<Rightarrow> entropy \<Rightarrow> transit \<Rightarrow> string \<Rightarrow> string \<Rightarrow> string \<Rightarrow> string \<Rightarrow> json \<Rightarrow> nat \<Rightarrow>
   transit \<times> (engine_error + engine_response)" where
  "transit_crypto lib fill st namespace mount operation rest body now =
     (let (name, algorithm) = unwrap_or (split_once (CHR ''/'') rest) (rest, []) in
      sbind (st, valid_path name) (\<lambda>st _.
      if algorithm \<noteq> [] \<and> \<not> (operation = ''hmac'' \<or> operation = ''sign'' \<or> operation = ''verify'')
      then (st, Inl (bad ''unexpected transit path suffix''))
      else
        sbind (if operation = ''encrypt'' \<and> \<not> bcontains (transit_keys st) name then
                 if disable_upsert st then (st, Inl (bad ''key does not exist and upsert is disabled''))
                 else sbind (st, reject_context body) (\<lambda>st _.
                      sbind (st, key_new lib fill body now) (\<lambda>st key. (put_key st name key, Inr ())))
               else (st, Inr ())) (\<lambda>st _.
        sbind (st, ok_or (map_of (transit_keys st) name) not_found) (\<lambda>st key.
        sbind (st, alive key) (\<lambda>st _.
        let (key, result) = handle_crypto lib fill key namespace mount name operation algorithm body in
        (put_key st name key, result))))))"

definition transit_handle ::
  "'x crypto_scheme \<Rightarrow> entropy \<Rightarrow> transit \<Rightarrow> string \<Rightarrow> string \<Rightarrow> string \<Rightarrow> string \<Rightarrow> json \<Rightarrow> nat \<Rightarrow>
   transit \<times> (engine_error + engine_response)" where
  "transit_handle lib fill st namespace mount method path body now =
     (if path = ''config/keys'' then
        if method = ''GET'' then (st, Inr (ok_data (json_object [(''disable_upsert'', JBool (disable_upsert st))]) False))
        else if \<not> write_method method then (st, Inl unsupported)
        else
          sbind (st, reject_unknown body [''disable_upsert'']) (\<lambda>st _.
          sbind (st, optional_bool body ''disable_upsert'') (\<lambda>st flag.
          sbind (st, ok_or flag (bad ''disable_upsert is required'')) (\<lambda>st flag.
          (st\<lparr>disable_upsert := flag\<rparr>, Inr (empty_ok True)))))
      else if path = ''keys'' \<or> path = ''keys/'' then
        (st,
         if method \<noteq> ''LIST'' then Inl unsupported
         else rbind (list_keys (map fst (transit_keys st)) '''' False body) (\<lambda>names.
           if names = [] then Inl not_found
           else Inr (ok_data (json_object [(''keys'', JArr (map JStr names))]) False)))
      else
        case strip_prefix ''keys/'' path of
          Some rest \<Rightarrow> handle_key lib fill st method rest body now
        | None \<Rightarrow>
            (case strip_prefix ''export/'' path of
               Some rest \<Rightarrow> (st, transit_export st method rest)
             | None \<Rightarrow>
                 let (operation, rest) = unwrap_or (split_once (CHR ''/'') path) (path, []) in
                 if \<not> write_method method then (st, Inl unsupported)
                 else if operation = ''random'' then (st, transit_random lib fill rest body)
                 else if operation = ''hash'' then (st, transit_hash lib rest body)
                 else if operation \<in> {''encrypt'', ''decrypt'', ''rewrap'', ''hmac'', ''sign'', ''verify''}
                 then transit_crypto lib fill st namespace mount operation rest body now
                 else if operation = ''datakey'' then transit_datakey lib fill st namespace mount rest body
                 else (st, Inl (eng_error 404 ''unknown or unsupported transit operation''))))"

end
