(* ===== verification/Engines.thy ===== *)
theory Engines
  imports Kv Totp Transit
begin

text \<open>
  The mount table of \<^verbatim>\<open>crates/heptabao-server/src/engines.rs\<close>: the engines of every namespace,
  the capability a request needs, the routing of requests to mounts
  (\<^verbatim>\<open>EngineState::handle\<close>) and the operations on the table itself
  (\<^verbatim>\<open>handle_mounts\<close>).
\<close>

section \<open>State\<close>

datatype backend =
    Kv1 "(string, json) bmap"
  | Kv2 kv2
  | TransitEngine transit
  | TotpEngine totp

record mount =
  mount_description :: string
  mount_backend :: backend

record namespace_state =
  mounts :: "(string, mount) bmap"

record engine_state =
  namespaces :: "(string, namespace_state) bmap"

definition mount_new :: "backend \<Rightarrow> string \<Rightarrow> mount" where
  "mount_new backend description = \<lparr>mount_description = description, mount_backend = backend\<rparr>"

definition namespace_default :: namespace_state where
  "namespace_default =
     \<lparr>mounts = [(''secret/'', mount_new (Kv2 kv2_default) ''Versioned secrets''),
                (''transit/'', mount_new (TransitEngine transit_default) ''Cryptographic operations'')]\<rparr>"

definition engine_state_default :: engine_state where
  "engine_state_default = \<lparr>namespaces = []\<rparr>"

definition mount_options :: "mount \<Rightarrow> json" where
  "mount_options mt =
     (case mount_backend mt of
        Kv1 _ \<Rightarrow> json_object [(''version'', JStr ''1'')]
      | Kv2 _ \<Rightarrow> json_object [(''version'', JStr ''2'')]
      | TransitEngine _ \<Rightarrow> json_object []
      | TotpEngine _ \<Rightarrow> json_object [])"

definition mount_kind :: "mount \<Rightarrow> string" where
  "mount_kind mt =
     (case mount_backend mt of
        Kv1 _ \<Rightarrow> ''kv'' | Kv2 _ \<Rightarrow> ''kv'' | TransitEngine _ \<Rightarrow> ''transit'' | TotpEngine _ \<Rightarrow> ''totp'')"

definition mount_descriptor :: "mount \<Rightarrow> json" where
  "mount_descriptor mt =
     json_object
       [(''type'', JStr (mount_kind mt)), (''description'', JStr (mount_description mt)),
        (''options'', mount_options mt), (''local'', JBool False), (''seal_wrap'', JBool False),
        (''external_entropy_access'', JBool False),
        (''config'', json_object [(''default_lease_ttl'', json_u64 0), (''max_lease_ttl'', json_u64 0),
                                  (''force_no_cache'', JBool False)])]"

text \<open>
  \<^verbatim>\<open>self.namespaces.get(namespace).cloned().unwrap_or_default()\<close>, and the first mount in key
  order whose path is a prefix of the request's.
\<close>

definition namespace_of :: "engine_state \<Rightarrow> string \<Rightarrow> namespace_state" where
  "namespace_of st ns = unwrap_or (map_of (namespaces st) ns) namespace_default"

definition find_mount :: "namespace_state \<Rightarrow> string \<Rightarrow> (string \<times> mount) option" where
  "find_mount nst path = find (\<lambda>e. starts_with path (fst e)) (mounts nst)"

section \<open>Capabilities\<close>

text \<open>Whether the resource a write names exists, where the engine can tell.\<close>

definition resource_exists :: "backend \<Rightarrow> string \<Rightarrow> bool option" where
  "resource_exists backend relative =
     (case backend of
        Kv1 entries \<Rightarrow> Some (bcontains entries relative)
      | Kv2 engine \<Rightarrow> map_option (kv2_contains engine) (strip_prefix ''data/'' relative)
      | TotpEngine engine \<Rightarrow>
          map_option (totp_contains engine)
            (opt_filter (\<lambda>name. CHR ''/'' \<notin> set name) (strip_prefix ''keys/'' relative))
      | TransitEngine engine \<Rightarrow>
          map_option (transit_contains engine)
            (opt_filter (\<lambda>name. CHR ''/'' \<notin> set name)
              (or_else (strip_prefix ''encrypt/'' relative) (strip_prefix ''keys/'' relative))))"

definition method_capability :: "string \<Rightarrow> string" where
  "method_capability method =
     (if method = ''GET'' \<or> method = ''HEAD'' then ''read''
      else if method = ''LIST'' \<or> method = ''SCAN'' then ''list''
      else if method = ''DELETE'' then ''delete''
      else if method = ''PATCH'' then ''patch''
      else ''update'')"

definition required_capability :: "engine_state \<Rightarrow> string \<Rightarrow> string \<Rightarrow> string \<Rightarrow> string option" where
  "required_capability st namespace method path =
     (let path = trim_start_matches (hd (split_on (CHR ''?'') path)) (CHR ''/'') in
      Option.bind (find_mount (namespace_of st namespace) path) (\<lambda>(mount_path, mt).
        let relative = drop (length mount_path) path in
        case (if write_method method then resource_exists (mount_backend mt) relative else None) of
          Some exists \<Rightarrow> Some (if exists then ''update'' else ''create'')
        | None \<Rightarrow> Some (method_capability method)))"

section \<open>Requests\<close>

text \<open>The parameters of the query join those of the body; a name may come only once.\<close>

primrec merge_query :: "string list \<Rightarrow> (string, json) bmap \<Rightarrow> engine_error + (string, json) bmap" where
  "merge_query [] m = Inr m"
| "merge_query (pair # pairs) m =
     (if pair = [] then merge_query pairs m
      else
        rbind (ok_or (split_once (CHR ''='') pair) (bad ''invalid query parameter'')) (\<lambda>(key, v).
        if bcontains m key then Inl (bad ''duplicate request parameter'')
        else merge_query pairs (binsert key (JStr v) m)))"

definition request_params :: "json \<Rightarrow> string \<Rightarrow> engine_error + json" where
  "request_params body query =
     (let params = (if body = JNull then json_object [] else body) in
      rbind (ok_or (as_object params) (bad ''request body must be an object'')) (\<lambda>m.
      rbind (merge_query (split_on (CHR ''&'') query) m) (\<lambda>m. Inr (JObj m))))"

definition effective_method :: "string \<Rightarrow> json \<Rightarrow> string" where
  "effective_method method params =
     (if method = ''GET'' \<and> is_some_and (json_get params ''list'') (\<lambda>v. v = JStr ''true'' \<or> v = JBool True)
      then ''LIST'' else method)"

definition backend_handle ::
  "'x crypto_scheme \<Rightarrow> entropy \<Rightarrow> string \<Rightarrow> string \<Rightarrow> backend \<Rightarrow> string \<Rightarrow> string \<Rightarrow> json \<Rightarrow> nat \<Rightarrow>
   backend \<times> (engine_error + engine_response)" where
  "backend_handle lib fill namespace mount_path backend method relative params now =
     (case backend of
        Kv1 entries \<Rightarrow> map_prod Kv1 id (handle_v1 entries method relative params)
      | Kv2 engine \<Rightarrow> map_prod Kv2 id (kv2_handle engine method relative params now)
      | TotpEngine engine \<Rightarrow> map_prod TotpEngine id (totp_handle lib fill engine method relative params now)
      | TransitEngine engine \<Rightarrow>
          map_prod TransitEngine id (transit_handle lib fill engine namespace mount_path method relative params now))"

definition put_backend :: "namespace_state \<Rightarrow> string \<Rightarrow> mount \<Rightarrow> backend \<Rightarrow> namespace_state" where
  "put_backend nst name mt backend = nst\<lparr>mounts := binsert name (mt\<lparr>mount_backend := backend\<rparr>) (mounts nst)\<rparr>"

section \<open>The mount table\<close>

definition mount_tune ::
  "namespace_state \<Rightarrow> string \<Rightarrow> string \<Rightarrow> json \<Rightarrow> namespace_state \<times> (engine_error + engine_response)" where
  "mount_tune nst method name body =
     sbind (nst, ok_or (map_of (mounts nst) name) not_found) (\<lambda>nst mt.
       if method = ''GET'' then
         (nst, Inr (ok_data (json_object
            [(''description'', JStr (mount_description mt)), (''options'', mount_options mt),
             (''default_lease_ttl'', json_u64 0), (''max_lease_ttl'', json_u64 0)]) False))
       else if \<not> write_method method then (nst, Inl unsupported)
       else
         sbind (nst, reject_unknown body [''description'', ''options'']) (\<lambda>nst _.
         sbind
           (case json_get body ''description'' of
              None \<Rightarrow> (nst, Inr ())
            | Some v \<Rightarrow>
                (case as_str v of
                   None \<Rightarrow> (nst, Inl (bad ''description must be a string''))
                 | Some text \<Rightarrow> (nst\<lparr>mounts := binsert name (mt\<lparr>mount_description := text\<rparr>) (mounts nst)\<rparr>, Inr ())))
           (\<lambda>nst _.
         sbind
           (nst,
            case json_get body ''options'' of
              None \<Rightarrow> Inr ()
            | Some options \<Rightarrow>
                rbind (reject_unknown options [''version'']) (\<lambda>_.
                rbind (ok_or (Option.bind (json_get options ''version'') as_str) (bad ''KV version must be a string''))
                  (\<lambda>version.
                if (case mount_backend mt of
                      Kv1 _ \<Rightarrow> version = ''1'' | Kv2 _ \<Rightarrow> version = ''2'' | _ \<Rightarrow> False)
                then Inr ()
                else Inl (eng_error 501
                  ''online KV format conversion is not implemented; migrate through explicit API export/import''))))
           (\<lambda>nst _. (nst, Inr (empty_ok True))))))"

definition reserved_mounts :: "string list" where
  "reserved_mounts = [''sys'', ''auth'', ''identity'', ''cubbyhole'']"

text \<open>\<^verbatim>\<open>is_some_and(|v| v.as_object().is_none_or(|m| !m.is_empty()))\<close>.\<close>

definition nonempty_option :: "json \<Rightarrow> string \<Rightarrow> bool" where
  "nonempty_option body name = is_some_and (json_get body name) (\<lambda>v. is_none_or (as_object v) (\<lambda>m. m \<noteq> []))"

primrec reject_mount_flags :: "json \<Rightarrow> string list \<Rightarrow> engine_error + unit" where
  "reject_mount_flags body [] = Inr ()"
| "reject_mount_flags body (flag # flags) =
     rbind (optional_bool body flag) (\<lambda>v.
       if unwrap_or v False then Inl (eng_error 501 ''requested mount option is not implemented'')
       else reject_mount_flags body flags)"

definition kv_backend :: "string \<Rightarrow> json \<Rightarrow> engine_error + backend" where
  "kv_backend kind_name body =
     rbind (case json_get body ''options'' of
              None \<Rightarrow> Inr None
            | Some options \<Rightarrow>
                rbind (reject_unknown options [''version'']) (\<lambda>_.
                  rtranspose (\<lambda>v. ok_or (as_str v) (bad ''KV version must be a string''))
                    (json_get options ''version''))) (\<lambda>given.
       let version = unwrap_or given (if kind_name = ''kv-v2'' then ''2'' else ''1'') in
       if version = ''1'' then Inr (Kv1 [])
       else if version = ''2'' then Inr (Kv2 kv2_default)
       else Inl (bad ''KV version must be 1 or 2''))"

definition new_backend :: "string \<Rightarrow> json \<Rightarrow> engine_error + backend" where
  "new_backend kind_name body =
     (if kind_name = ''kv'' \<or> kind_name = ''kv-v1'' \<or> kind_name = ''kv-v2'' then kv_backend kind_name body
      else if kind_name = ''transit'' then
        if nonempty_option body ''options'' then Inl (bad ''transit mount options are not supported'')
        else Inr (TransitEngine transit_default)
      else if kind_name = ''totp'' then
        if nonempty_option body ''options'' then Inl (bad ''TOTP mount options are not supported'')
        else Inr (TotpEngine [])
      else Inl (eng_error 501 ''secret engine type is not implemented''))"

definition mount_conflict :: "namespace_state \<Rightarrow> string \<Rightarrow> bool" where
  "mount_conflict nst name = list_ex (\<lambda>e. starts_with (fst e) name \<or> starts_with name (fst e)) (mounts nst)"

definition mount_create ::
  "namespace_state \<Rightarrow> string \<Rightarrow> json \<Rightarrow> namespace_state \<times> (engine_error + engine_response)" where
  "mount_create nst name body =
     sbind (nst, reject_unknown body
       [''type'', ''description'', ''options'', ''config'', ''local'', ''seal_wrap'', ''external_entropy_access''])
     (\<lambda>nst _.
       if mount_conflict nst name then (nst, Inl (bad ''mount path conflicts with an existing mount''))
       else
         sbind (nst, reject_mount_flags body [''local'', ''seal_wrap'', ''external_entropy_access'']) (\<lambda>nst _.
         if nonempty_option body ''config''
         then (nst, Inl (eng_error 501 ''nondefault mount lease configuration is not implemented''))
         else
           sbind (nst, string_param body ''type'') (\<lambda>nst kind_name.
           sbind (nst, new_backend kind_name body) (\<lambda>nst backend.
           sbind (nst, rtranspose (\<lambda>v. ok_or (as_str v) (bad ''description must be a string''))
                         (json_get body ''description'')) (\<lambda>nst description.
           (nst\<lparr>mounts := binsert name (mount_new backend (unwrap_or description [])) (mounts nst)\<rparr>,
            Inr (empty_ok True)))))))"

definition handle_mounts ::
  "namespace_state \<Rightarrow> string \<Rightarrow> string \<Rightarrow> json \<Rightarrow> namespace_state \<times> (engine_error + engine_response)" where
  "handle_mounts nst method requested body =
     (let requested = trim_end_matches requested (CHR ''/'') in
      case strip_suffix ''/tune'' requested of
        Some mount_path \<Rightarrow> mount_tune nst method (mount_path @ ''/'') body
      | None \<Rightarrow>
          sbind (nst, valid_path requested) (\<lambda>nst _.
            if hd (split_on (CHR ''/'') requested) \<in> set reserved_mounts
            then (nst, Inl (bad ''reserved mount path''))
            else
              let name = requested @ ''/'' in
              if method = ''GET'' then
                (nst, ok_or (map_option (\<lambda>mt. ok_data (mount_descriptor mt) False) (map_of (mounts nst) name)) not_found)
              else if method = ''DELETE'' then
                (nst\<lparr>mounts := bremove name (mounts nst)\<rparr>, Inr (empty_ok (bcontains (mounts nst) name)))
              else if \<not> write_method method then (nst, Inl unsupported)
              else mount_create nst name body))"

section \<open>Dispatch\<close>

text \<open>
  A namespace candidate is worked on and replaces the live one only after a successful response
  that says it mutated; \<open>Inr None\<close> says that no mount owns the path.
\<close>

definition candidate_handle ::
  "'x crypto_scheme \<Rightarrow> entropy \<Rightarrow> namespace_state \<Rightarrow> string \<Rightarrow> string \<Rightarrow> string \<Rightarrow> json \<Rightarrow> nat \<Rightarrow>
   namespace_state \<times> (engine_error + engine_response option)" where
  "candidate_handle lib fill nst namespace method path params now =
     (if path = ''sys/mounts'' \<or> path = ''sys/mounts/'' then
        (nst,
         if method \<noteq> ''GET'' then Inl unsupported
         else Inr (Some (ok_data (JObj (bmap_vals mount_descriptor (mounts nst))) False)))
      else case strip_prefix ''sys/mounts/'' path of
        Some mount_path \<Rightarrow>
          sbind (handle_mounts nst method mount_path params) (\<lambda>nst resp. (nst, Inr (Some resp)))
      | None \<Rightarrow>
          (case find_mount nst path of
             None \<Rightarrow> (nst, Inr None)
           | Some (mount_path, mt) \<Rightarrow>
               let relative = drop (length mount_path) path;
                   (backend, res) =
                     backend_handle lib fill namespace mount_path (mount_backend mt) method relative params now
               in sbind (put_backend nst mount_path mt backend, res) (\<lambda>nst resp. (nst, Inr (Some resp)))))"

definition engine_handle ::
  "'x crypto_scheme \<Rightarrow> entropy \<Rightarrow> engine_state \<Rightarrow> string \<Rightarrow> string \<Rightarrow> string \<Rightarrow> json \<Rightarrow> nat \<Rightarrow>
   engine_state \<times> (engine_error + engine_response option)" where
  "engine_handle lib fill st namespace method path body now =
     (let (path, query) = unwrap_or (split_once (CHR ''?'') path) (path, []);
          path = trim_start_matches path (CHR ''/'') in
      case request_params body query of
        Inl e \<Rightarrow> (st, Inl e)
      | Inr params \<Rightarrow>
          (case candidate_handle lib fill (namespace_of st namespace) namespace (effective_method method params) path
                  params now of
             (candidate, Inr (Some resp)) \<Rightarrow>
               (if mutated resp then st\<lparr>namespaces := binsert namespace candidate (namespaces st)\<rparr> else st,
                Inr (Some resp))
           | (candidate, Inr None) \<Rightarrow> (st, Inr None)
           | (candidate, Inl e) \<Rightarrow> (st, Inl e)))"

end
