(* ===== verification/Engine_Spec.thy ===== *)
theory Engine_Spec
  imports Engine_Base Bytes
begin

text \<open>
  What the mount table relies on in a secret engine. A request is the arguments of an engine's
  \<^verbatim>\<open>handle\<close> method, with the random bytes the operating system will supply for it. The
  locale \<open>secret_engine\<close> is the contract of the method: a successful request keeps the engine's
  invariant. \<open>flagged_engine\<close> adds that a response which is not flagged as a mutation left the
  engine as it was, so that dropping the copy loses nothing. \<open>invariant_steps\<close> is what every
  state machine here promises, that its steps keep an invariant.
  \<open>engine_commit\<close> is how the callers apply a request (\<^verbatim>\<open>EngineState::handle\<close>,
  \<^verbatim>\<open>Service::dispatch\<close>): they work on a copy, which replaces the live state only after a
  successful response that says it mutated.
\<close>

record engine_request =
  req_method :: string
  req_path :: string
  req_body :: json
  req_now :: nat

record random_request = engine_request +
  req_fill :: entropy

definition engine_commit ::
  "('s \<Rightarrow> 'q \<Rightarrow> 's \<times> (engine_error + engine_response)) \<Rightarrow> 's \<Rightarrow> 'q \<Rightarrow> 's" where
  "engine_commit handle st q =
     (case handle st q of
        (st', Inr resp) \<Rightarrow> if mutated resp then st' else st
      | (st', Inl e) \<Rightarrow> st)"

primrec run_steps :: "('s \<Rightarrow> 'q \<Rightarrow> 's) \<Rightarrow> 's \<Rightarrow> 'q list \<Rightarrow> 's" where
  "run_steps step st [] = st"
| "run_steps step st (q # qs) = run_steps step (step st q) qs"

abbreviation engine_run ::
  "('s \<Rightarrow> 'q \<Rightarrow> 's \<times> (engine_error + engine_response)) \<Rightarrow> 's \<Rightarrow> 'q list \<Rightarrow> 's" where
  "engine_run handle \<equiv> run_steps (engine_commit handle)"

locale invariant_steps =
  fixes step :: "'s \<Rightarrow> 'q \<Rightarrow> 's"
    and ok :: "'s \<Rightarrow> bool"
    and init :: 's
  assumes initially: "ok init"
    and preserved: "ok st \<Longrightarrow> ok (step st q)"
begin

lemma run_ok: "ok st \<Longrightarrow> ok (run_steps step st qs)"
  by (induction qs arbitrary: st) (simp_all add: preserved)

lemma reachable_ok: "ok (run_steps step init qs)"
  using initially by (rule run_ok)

end

locale secret_engine =
  fixes handle :: "'s \<Rightarrow> 'q \<Rightarrow> 's \<times> (engine_error + engine_response)"
    and ok :: "'s \<Rightarrow> bool"
    and init :: 's
  assumes init_ok: "ok init"
    and handle_ok: "ok st \<Longrightarrow> handle st q = (st', Inr resp) \<Longrightarrow> ok st'"
begin

lemma commit_ok: "ok st \<Longrightarrow> ok (engine_commit handle st q)"
  using handle_ok [of st q] by (auto simp: engine_commit_def split: prod.splits sum.splits)

lemma commit_failure: "handle st q = (st', Inl e) \<Longrightarrow> engine_commit handle st q = st"
  by (simp add: engine_commit_def)

end

sublocale secret_engine \<subseteq> committed: invariant_steps "engine_commit handle" ok init
  by unfold_locales (rule init_ok, erule commit_ok)

locale flagged_engine = secret_engine +
  assumes unmutated: "ok st \<Longrightarrow> handle st q = (st', Inr resp) \<Longrightarrow> \<not> mutated resp \<Longrightarrow> st' = st"
begin

lemma commit_success: "ok st \<Longrightarrow> handle st q = (st', Inr resp) \<Longrightarrow> engine_commit handle st q = st'"
  using unmutated by (auto simp: engine_commit_def)

end

text \<open>A concrete cryptographic library, for evaluating the engines on inputs.\<close>

definition sample_crypto :: crypto where
  "sample_crypto =
     \<lparr>hmac_sign = (\<lambda>alg key msg. if length msg = 8 then replicate 20 0 else msg), base64_encode = map char_of_byte,
      base64_decode = (\<lambda>s. Some (bytes_of_string s)), aead_key_ok = (\<lambda>alg key. True),
      aead_seal = (\<lambda>alg key nonce aad plain. Some (plain @ replicate 16 0)),
      aead_open = (\<lambda>alg key nonce aad sealed. Some (take (length sealed - 16) sealed)),
      ed25519_generate = (\<lambda>seed. Some seed), ed25519_public = (\<lambda>doc. Some doc), ed25519_sign = (\<lambda>doc msg. msg),
      ed25519_verify = (\<lambda>pub msg sig. msg = sig), sha_digest = (\<lambda>alg msg. msg), json_tuple = (\<lambda>parts seed. seed)\<rparr>"

end
