(* ===== verification/Kv_Correct.thy ===== *)
theory Kv_Correct
  imports Kv Engine_Spec
begin

text \<open>
  Correctness of the key-value engine of version 2: the invariant \<open>kv2_ok\<close> and its
  preservation by every request, a case analysis of the handler (\<open>kv2_handle_cases\<close>) that
  the other proofs share, and the properties of reading, writing, check-and-set, destruction,
  merge patches and the subkeys view. \<open>kv2_run\<close> feeds a list of requests to the engine.
\<close>

section \<open>Invariant\<close>

definition version_ok :: "kv_version \<Rightarrow> bool" where
  "version_ok v = ((destroyed v \<longleftrightarrow> version_data v = None) \<and> is_none_or (version_data v) is_object)"

definition config_ok :: "kv_config \<Rightarrow> bool" where
  "config_ok c = (max_versions c \<le> MAX_RETAINED_VERSIONS \<and> delete_version_after c \<le> 315360000)"

definition custom_metadata_ok :: "(string, string) bmap \<Rightarrow> bool" where
  "custom_metadata_ok m =
     (bmap_ok m \<and> length m \<le> 64 \<and>
      list_all (\<lambda>e. fst e \<noteq> [] \<and> length (fst e) \<le> 128 \<and> length (snd e) \<le> 512) m)"

text \<open>
  The retained version numbers are the last ones, without a gap, and the newest version is
  among them.
\<close>

definition entry_ok :: "kv_entry \<Rightarrow> bool" where
  "entry_ok e =
     (let n = length (versions e); cur = current_version e in
      config_ok (entry_config e) \<and> is_none_or (custom_metadata e) custom_metadata_ok \<and>
      cur < u64_bound \<and> n \<le> cur \<and> n \<le> MAX_RETAINED_VERSIONS \<and> (0 < cur \<longrightarrow> 0 < n) \<and>
      map fst (versions e) = [Suc cur - n..<Suc cur] \<and> oldest_version e \<le> Suc cur - n \<and>
      list_all (\<lambda>v. version_ok (snd v)) (versions e))"

definition kv2_ok :: "kv2 \<Rightarrow> bool" where
  "kv2_ok st =
     (config_ok (kv2_config st) \<and> bmap_ok (kv2_entries st) \<and>
      list_all (\<lambda>e. entry_ok (snd e)) (kv2_entries st))"

section \<open>Entries\<close>

lemma entry_ok_new: "entry_ok (entry_new now)"
  by (simp add: entry_ok_def entry_new_def config_ok_def config_default_def)

lemma entry_okD:
  assumes "entry_ok e"
  shows "config_ok (entry_config e)" "is_none_or (custom_metadata e) custom_metadata_ok"
    "current_version e < u64_bound" "length (versions e) \<le> current_version e"
    "length (versions e) \<le> MAX_RETAINED_VERSIONS"
    "0 < current_version e \<Longrightarrow> 0 < length (versions e)"
    "map fst (versions e) = [Suc (current_version e) - length (versions e)..<Suc (current_version e)]"
    "oldest_version e \<le> Suc (current_version e) - length (versions e)"
    "list_all (\<lambda>v. version_ok (snd v)) (versions e)"
  using assms unfolding entry_ok_def Let_def by blast+

lemma entry_ok_bmap: "entry_ok e \<Longrightarrow> bmap_ok (versions e)"
  by (rule bmap_ok_upt [OF entry_okD(7)])

lemma entry_ok_keys: "entry_ok e \<Longrightarrow> fst ` set (versions e) = {Suc (current_version e) - length (versions e)..current_version e}"
proof -
  assume "entry_ok e"
  then have "set (map fst (versions e)) = {Suc (current_version e) - length (versions e)..<Suc (current_version e)}"
    using entry_okD(7) by (metis set_upt)
  then show ?thesis by auto
qed

lemma entry_ok_current:
  "entry_ok e \<Longrightarrow> 0 < current_version e \<Longrightarrow> \<exists>v. map_of (versions e) (current_version e) = Some v \<and> version_ok v"
proof -
  assume e: "entry_ok e" and "0 < current_version e"
  then have "current_version e \<in> fst ` set (versions e)"
    using entry_okD(6) [OF e] unfolding entry_ok_keys [OF e] by (cases "versions e") auto
  then obtain v where v: "map_of (versions e) (current_version e) = Some v"
    by (metis map_of_eq_None_iff not_None_eq)
  moreover have "version_ok v"
    using entry_okD(9) [OF e] v by (rule list_all_map_of)
  ultimately show ?thesis by blast
qed

lemma retained_bounds:
  "config_ok c \<Longrightarrow> config_ok d \<Longrightarrow> 0 < retained_versions c d \<and> retained_versions c d \<le> MAX_RETAINED_VERSIONS"
  by (auto simp: retained_versions_def config_ok_def MAX_RETAINED_VERSIONS_def)

lemma saturating_simps:
  "n < u64_bound \<Longrightarrow> 0 < r \<Longrightarrow> saturating_add64 (saturating_sub64 n r) 1 = Suc (n - r)"
  by (auto simp: saturating_add64_def saturating_sub64_def)

lemma written_versions:
  assumes e: "entry_ok e" and c: "config_ok c" and "Suc (current_version e) < u64_bound"
  defines "r \<equiv> retained_versions (entry_config e) c"
  shows "versions (written_entry c e now (Suc (current_version e)) v) =
      filter (\<lambda>x. Suc (Suc (current_version e) - r) \<le> fst x) (versions e @ [(Suc (current_version e), v)])"
    and "oldest_version (written_entry c e now (Suc (current_version e)) v) \<le> Suc (Suc (current_version e) - r)"
proof -
  have r: "0 < r" using retained_bounds [OF entry_okD(1) [OF e] c] by (simp add: r_def)
  have "\<forall>x \<in> set (versions e). fst x < Suc (current_version e)"
  proof
    fix x assume "x \<in> set (versions e)"
    then have "fst x \<in> fst ` set (versions e)" by simp
    then show "fst x < Suc (current_version e)" unfolding entry_ok_keys [OF e] by auto
  qed
  then have ins: "binsert (Suc (current_version e)) v (versions e) = versions e @ [(Suc (current_version e), v)]"
    by (rule binsert_last)
  note low = saturating_simps [OF assms(3) r, unfolded One_nat_def]
  show "versions (written_entry c e now (Suc (current_version e)) v) =
      filter (\<lambda>x. Suc (Suc (current_version e) - r) \<le> fst x) (versions e @ [(Suc (current_version e), v)])"
    by (simp add: written_entry_def Let_def r_def [symmetric] low ins bretain_def del: filter_append)
  show "oldest_version (written_entry c e now (Suc (current_version e)) v) \<le> Suc (Suc (current_version e) - r)"
    by (simp add: written_entry_def Let_def r_def [symmetric] low)
qed

lemma written_entry_fields [simp]:
  "current_version (written_entry c e now next v) = next"
  "entry_config (written_entry c e now next v) = entry_config e"
  "custom_metadata (written_entry c e now next v) = custom_metadata e"
  by (simp_all add: written_entry_def Let_def)

lemma written_entry_ok:
  assumes e: "entry_ok e" and c: "config_ok c" and v: "version_ok v" and "Suc (current_version e) < u64_bound"
  shows "entry_ok (written_entry c e now (Suc (current_version e)) v)" (is "entry_ok ?w")
proof -
  define n where "n = length (versions e)"
  define cur where "cur = current_version e"
  define r where "r = retained_versions (entry_config e) c"
  define low where "low = Suc (Suc cur - r)"
  note facts = entry_okD [OF e, folded n_def cur_def]
  have r: "0 < r" "r \<le> MAX_RETAINED_VERSIONS"
    using retained_bounds [OF facts(1) c] by (simp_all add: r_def)
  define vs where "vs = filter (\<lambda>x. low \<le> fst x) (versions e @ [(Suc cur, v)])"
  have vs: "versions ?w = vs" "oldest_version ?w \<le> low"
    using written_versions [OF e c assms(4)] by (simp_all add: vs_def low_def r_def cur_def)
  have "map fst vs = filter (\<lambda>k. low \<le> k) (map fst (versions e @ [(Suc cur, v)]))"
    unfolding vs_def by (induction "versions e @ [(Suc cur, v)]") (auto simp: filter_map comp_def)
  also have "map fst (versions e @ [(Suc cur, v)]) = [Suc cur - n..<Suc (Suc cur)]"
    using facts(4) by (simp add: facts(7))
  finally have keys: "map fst vs = [max low (Suc cur - n)..<Suc (Suc cur)]"
    by (simp only: filter_upt_ge)
  have "length vs = length (map fst vs)" by simp
  also have "\<dots> = Suc (Suc cur) - max low (Suc cur - n)" unfolding keys by (simp del: upt_Suc)
  finally have len: "length vs = Suc (Suc cur) - max low (Suc cur - n)" .
  have lowb: "max low (Suc cur - n) \<le> Suc cur" "0 < max low (Suc cur - n)"
    using r(1) by (auto simp: low_def)
  have "length vs \<le> MAX_RETAINED_VERSIONS"
    using len r(2) by (simp add: low_def)
  moreover have "0 < length vs" "length vs \<le> Suc cur" using len lowb by simp_all
  moreover have first: "Suc (Suc cur) - length vs = max low (Suc cur - n)" using len lowb by simp
  moreover have "list_all (\<lambda>v. version_ok (snd v)) vs"
    using facts(9) v by (auto simp: vs_def list_all_iff)
  moreover have "map fst vs = [Suc (Suc cur) - length vs..<Suc (Suc cur)]"
    unfolding first by (rule keys)
  ultimately show ?thesis
    using facts(1,2) assms(4) vs unfolding entry_ok_def Let_def
    by (simp add: cur_def [symmetric] del: upt_Suc)
qed

section \<open>What each operation does to the engine\<close>

lemma kv2_ok_entry: "kv2_ok st \<Longrightarrow> map_of (kv2_entries st) r = Some e \<Longrightarrow> entry_ok e"
  unfolding kv2_ok_def by (blast intro: list_all_map_of)

definition entry_at :: "kv2 \<Rightarrow> string \<Rightarrow> nat \<Rightarrow> kv_entry" where
  "entry_at st r now = unwrap_or (map_of (kv2_entries st) r) (entry_new now)"

lemma entry_ok_entry_at: "kv2_ok st \<Longrightarrow> entry_ok (entry_at st r now)"
  by (cases "map_of (kv2_entries st) r") (auto simp: entry_at_def entry_ok_new kv2_ok_entry)

lemma kv2_ok_put:
  "kv2_ok st \<Longrightarrow> entry_ok e \<Longrightarrow> kv2_ok (st\<lparr>kv2_entries := binsert r e (kv2_entries st)\<rparr>)"
  by (simp add: kv2_ok_def list_all_binsert)

lemma is_object_merge_patch: "is_object p \<Longrightarrow> is_object (merge_patch t p)"
  by (cases p) auto

lemma reject_unknown_ok:
  "reject_unknown body allowed = Inr u \<longleftrightarrow> (\<exists>m. body = JObj m \<and> fst ` set m \<subseteq> set allowed)"
  by (auto simp: reject_unknown_def list_ex_iff split: if_splits)

text \<open>A value is accepted only when every guard of the source passed.\<close>

lemma write_value_Inr:
  assumes "write_value st r body now patch = Inr (data, nx)"
  obtains new_data cas where
    "json_get body ''data'' = Some new_data" "is_object new_data" "write_cas body = Inr cas"
    "cas = None \<Longrightarrow> \<not> cas_required (kv2_config st) \<and> \<not> cas_required (entry_config (entry_at st r now))"
    "\<And>c. cas = Some c \<Longrightarrow> c = current_version (entry_at st r now)"
    "patch \<Longrightarrow> \<exists>v d. map_of (versions (entry_at st r now)) (current_version (entry_at st r now)) = Some v
        \<and> readable v now \<and> version_data v = Some d \<and> data = merge_patch d new_data"
    "\<not> patch \<Longrightarrow> data = new_data"
    "nx = Suc (current_version (entry_at st r now))" "nx < u64_bound"
proof -
  have cur: "(case map_of (kv2_entries st) r of None \<Rightarrow> 0 | Some e \<Rightarrow> current_version e) =
      current_version (entry_at st r now)"
    by (cases "map_of (kv2_entries st) r") (simp_all add: entry_at_def entry_new_def)
  have cas_eq: "is_some_and (map_of (kv2_entries st) r) (\<lambda>e. cas_required (entry_config e)) =
      cas_required (entry_config (entry_at st r now))"
    by (cases "map_of (kv2_entries st) r") (simp_all add: entry_at_def entry_new_def config_default_def)
  have vs_eq: "Option.bind (map_of (kv2_entries st) r) (\<lambda>e. map_of (versions e) n) =
      map_of (versions (entry_at st r now)) n" for n
    by (cases "map_of (kv2_entries st) r") (simp_all add: entry_at_def entry_new_def)
  from assms obtain new_data cas where nd: "json_get body ''data'' = Some new_data" "is_object new_data"
    and cas: "write_cas body = Inr cas"
    by (auto simp: write_value_def)
  have g: "\<not> ((cas_required (kv2_config st) \<or> cas_required (entry_config (entry_at st r now))) \<and> cas = None)"
      "\<not> (is_some_and cas (\<lambda>expected. expected \<noteq> current_version (entry_at st r now)) \<or> (patch \<and> cas = Some 0))"
    and rest: "rbind (if patch then
                rbind (ok_or (Option.bind (opt_filter (\<lambda>v. readable v now)
                         (map_of (versions (entry_at st r now)) (current_version (entry_at st r now)))) version_data)
                         not_found)
                  (\<lambda>current_value. Inr (merge_patch current_value new_data))
              else Inr new_data) (\<lambda>data.
       rbind (ok_or (checked_add64 (current_version (entry_at st r now)) 1) (bad ''version limit reached'')) (\<lambda>nx.
       Inr (data, nx))) = Inr (data, nx)"
    using assms nd cas unfolding write_value_def Let_def cur cas_eq vs_eq
    by (simp_all split: if_split_asm)
  show thesis
  proof (rule that [OF nd cas])
    show "cas = None \<Longrightarrow> \<not> cas_required (kv2_config st) \<and> \<not> cas_required (entry_config (entry_at st r now))"
      using g(1) by blast
    show "\<And>c. cas = Some c \<Longrightarrow> c = current_version (entry_at st r now)"
      using g(2) by auto
    show "patch \<Longrightarrow> \<exists>v d. map_of (versions (entry_at st r now)) (current_version (entry_at st r now)) = Some v
        \<and> readable v now \<and> version_data v = Some d \<and> data = merge_patch d new_data"
      using rest by (auto simp: bind_eq_Some_conv)
    show "\<not> patch \<Longrightarrow> data = new_data" using rest by simp
    show "nx = Suc (current_version (entry_at st r now))" "nx < u64_bound"
      using rest by auto
  qed
qed

lemma write_value_object:
  assumes "write_value st r body now patch = Inr (data, nx)"
  shows "is_object data" "nx = Suc (current_version (entry_at st r now))" "nx < u64_bound"
proof -
  from assms obtain new_data where "is_object new_data" "patch \<Longrightarrow> \<exists>d. data = merge_patch d new_data"
    "\<not> patch \<Longrightarrow> data = new_data" and nx: "nx = Suc (current_version (entry_at st r now))" "nx < u64_bound"
    by (rule write_value_Inr) blast
  then show "is_object data" using is_object_merge_patch by (cases patch) auto
  show "nx = Suc (current_version (entry_at st r now))" "nx < u64_bound" by (fact nx)+
qed

lemma kv2_write_cases:
  obtains (rejected) e where "kv2_write st r body now patch = (st, Inl e)" "write_value st r body now patch = Inl e"
  | (overflow) e data where "write_value st r body now patch = Inr data"
      "kv2_write st r body now patch = (st\<lparr>kv2_entries := binsert r (entry_at st r now) (kv2_entries st)\<rparr>, Inl e)"
  | (written) data nx deadline where "write_value st r body now patch = Inr (data, nx)"
      "write_deadline (entry_config (entry_at st r now)) (kv2_config st) now = Inr deadline"
      "kv2_write st r body now patch =
         (st\<lparr>kv2_entries := binsert r (written_entry (kv2_config st) (entry_at st r now) now nx
              \<lparr>version_created_at = now, deletion_at = deadline, destroyed = False, version_data = Some data\<rparr>)
              (kv2_entries st)\<rparr>,
          Inr (ok_data (version_metadata \<lparr>version_created_at = now, deletion_at = deadline, destroyed = False,
              version_data = Some data\<rparr> nx (custom_metadata (entry_at st r now))) True))"
proof (cases "write_value st r body now patch")
  case (Inl e)
  then show thesis by (intro rejected [of e]) (simp_all add: kv2_write_def)
next
  case (Inr p)
  then obtain data nx where v: "write_value st r body now patch = Inr (data, nx)" by (cases p) auto
  show thesis
  proof (cases "write_deadline (entry_config (entry_at st r now)) (kv2_config st) now")
    case (Inl e)
    with v show thesis
      by (intro overflow [of "(data, nx)" e]) (simp_all add: kv2_write_def entry_at_def)
  next
    case (Inr deadline)
    with v show thesis
      by (intro written [of data nx deadline]) (simp_all add: kv2_write_def entry_at_def Let_def)
  qed
qed

lemma kv2_write_ok: "kv2_ok st \<Longrightarrow> kv2_ok (fst (kv2_write st r body now patch))"
proof (cases rule: kv2_write_cases [of st r body now patch])
  case (written data nx deadline)
  assume st: "kv2_ok st"
  note w = write_value_object [OF written(1)]
  then show ?thesis using st entry_ok_entry_at [OF st, of r now]
    by (simp add: written(3))
      (intro kv2_ok_put written_entry_ok; simp add: version_ok_def kv2_ok_def)
qed (auto simp: entry_ok_entry_at kv2_ok_put)

lemma config_update_ok: "config_ok c \<Longrightarrow> config_ok (fst (config_update c body))"
proof -
  have dur: "duration_seconds v = Inr n \<Longrightarrow> n \<le> 315360000" for v n
    by (auto simp: duration_seconds_def split: if_splits prod.splits)
  have tail: "config_ok (fst (sbind (c, optional_bool body ''cas_required'') (\<lambda>c required.
      case json_get body ''delete_version_after'' of
        None \<Rightarrow> (case required of None \<Rightarrow> c | Some b \<Rightarrow> c\<lparr>cas_required := b\<rparr>, Inr ())
      | Some after \<Rightarrow>
          sbind (case required of None \<Rightarrow> c | Some b \<Rightarrow> c\<lparr>cas_required := b\<rparr>, duration_seconds after)
            (\<lambda>c secs. (c\<lparr>delete_version_after := secs\<rparr>, Inr ())))))" if "config_ok c" for c
    using that by (intro sbind_inv [where P = config_ok])
      (auto simp: config_ok_def sbind_def dur split: option.splits sum.splits)
  assume c: "config_ok c"
  have lim: "config_ok (c\<lparr>max_versions := n\<rparr>)" if "\<not> MAX_RETAINED_VERSIONS < n" for n
    using c that by (simp add: config_ok_def)
  show ?thesis
    unfolding config_update_def Let_def
    by (intro sbind_inv [where P = config_ok] c)
      (use c in \<open>auto intro!: tail lim split: option.splits\<close>)
qed

lemma change_loop_keys:
  assumes "bmap_ok vs"
  shows "map fst (fst (change_loop op now ns vs ch)) = map fst vs"
  using assms
proof (induction ns arbitrary: vs ch)
  case (Cons n ns)
  show ?case
  proof (cases "Option.bind (map_of vs n) (change_version op now)")
    case (Some v)
    then have "n \<in> fst ` set vs" by (auto simp: bind_eq_Some_conv dest: map_of_SomeD) (metis fst_conv image_eqI map_of_SomeD)
    with Some Cons show ?thesis by (simp add: map_fst_binsert)
  qed (simp add: Cons)
qed simp

lemma change_version_ok: "version_ok v \<Longrightarrow> change_version op now v = Some v' \<Longrightarrow> version_ok v'"
  by (auto simp: change_version_def version_ok_def split: if_splits)

lemma change_loop_versions_ok:
  "list_all (\<lambda>v. version_ok (snd v)) vs \<Longrightarrow> list_all (\<lambda>v. version_ok (snd v)) (fst (change_loop op now ns vs ch))"
proof (induction ns arbitrary: vs ch)
  case (Cons n ns)
  show ?case
  proof (cases "Option.bind (map_of vs n) (change_version op now)")
    case (Some v)
    then obtain w where "map_of vs n = Some w" "change_version op now w = Some v" by (auto simp: bind_eq_Some_conv)
    then have "version_ok v" using list_all_map_of [OF Cons.prems] change_version_ok by blast
    with Some Cons show ?thesis by (simp add: list_all_binsert)
  qed (simp add: Cons)
qed simp

lemma entry_ok_same_keys:
  assumes "entry_ok e" and "map fst vs = map fst (versions e)" and "list_all (\<lambda>v. version_ok (snd v)) vs"
  shows "entry_ok (e\<lparr>versions := vs\<rparr>)"
proof -
  have "length vs = length (versions e)" using assms(2) by (metis length_map)
  then show ?thesis using assms by (simp add: entry_ok_def Let_def del: upt_Suc)
qed

lemma kv2_change_versions_ok: "kv2_ok st \<Longrightarrow> kv2_ok (fst (kv2_change_versions st r op body now))"
proof -
  assume st: "kv2_ok st"
  have "entry_ok (e\<lparr>versions := fst (change_loop op now ns (versions e) False)\<rparr>)"
    if "map_of (kv2_entries st) r = Some e" for e ns
    using kv2_ok_entry [OF st that]
    by (intro entry_ok_same_keys) (simp_all add: change_loop_keys entry_ok_bmap change_loop_versions_ok entry_okD(9))
  then show ?thesis
    using st unfolding kv2_change_versions_def sbind_def
    by (auto simp: kv2_ok_put split: sum.splits option.splits prod.splits) (metis fst_conv kv2_ok_put)
qed

lemma kv2_delete_latest_ok: "kv2_ok st \<Longrightarrow> kv2_ok (fst (kv2_delete_latest st r now))"
proof -
  assume st: "kv2_ok st"
  have "entry_ok (e\<lparr>versions := binsert (current_version e) (v\<lparr>deletion_at := Some now\<rparr>) (versions e)\<rparr>)"
    if e: "map_of (kv2_entries st) r = Some e" and v: "map_of (versions e) (current_version e) = Some v" for e v
  proof (rule entry_ok_same_keys)
    note ok = kv2_ok_entry [OF st e]
    show "entry_ok e" by (rule ok)
    show "map fst (binsert (current_version e) (v\<lparr>deletion_at := Some now\<rparr>) (versions e)) = map fst (versions e)"
      using v by (intro map_fst_binsert entry_ok_bmap ok) (metis fst_conv image_eqI map_of_SomeD)
    have "version_ok v" using entry_okD(9) [OF ok] v by (rule list_all_map_of)
    then show "list_all (\<lambda>v. version_ok (snd v)) (binsert (current_version e) (v\<lparr>deletion_at := Some now\<rparr>) (versions e))"
      using entry_okD(9) [OF ok] by (intro list_all_binsert) (simp_all add: version_ok_def)
  qed
  then show ?thesis using st by (auto simp: kv2_delete_latest_def kv2_ok_put split: option.splits)
qed

lemma metadata_loop_ok:
  assumes "metadata_loop patch fs m = Inr m'" and "bmap_ok m"
    and "list_all (\<lambda>e. fst e \<noteq> [] \<and> length (fst e) \<le> 128 \<and> length (snd e) \<le> 512) m"
  shows "bmap_ok m' \<and> list_all (\<lambda>e. fst e \<noteq> [] \<and> length (fst e) \<le> 128 \<and> length (snd e) \<le> 512) m'"
  using assms
proof (induction fs arbitrary: m)
  case (Cons f fs)
  then show ?case
    by (auto simp: list_all_bremove list_all_binsert split: if_splits)
qed simp

lemma kv2_write_metadata_ok: "kv2_ok st \<Longrightarrow> kv2_ok (fst (kv2_write_metadata st r body now patch))"
proof -
  assume st: "kv2_ok st"
  let ?e = "entry_at st r now"
  have e: "entry_ok ?e" using st by (rule entry_ok_entry_at)
  obtain config result where c: "config_update (entry_config ?e) body = (config, result)" by fastforce
  then have cok: "config_ok config" using config_update_ok [OF entry_okD(1) [OF e], of body] by simp
  have e1: "entry_ok (?e\<lparr>entry_config := config\<rparr>)"
    and e2: "entry_ok (?e\<lparr>entry_config := config, custom_metadata := None\<rparr>)"
    and e3: "custom_metadata_ok m \<Longrightarrow> entry_ok (?e\<lparr>entry_config := config, custom_metadata := Some m\<rparr>)" for m
    using e cok by (simp_all add: entry_ok_def Let_def del: upt_Suc)
  have m: "custom_metadata_ok nx" if
    "metadata_loop patch fs (if patch then unwrap_or (custom_metadata ?e) [] else []) = Inr nx"
    "length nx \<le> 64" for fs nx
    using metadata_loop_ok [OF that(1)] entry_okD(2) [OF e] that(2)
    by (cases "custom_metadata ?e") (auto simp: custom_metadata_ok_def split: if_splits)
  note unfold = kv2_write_metadata_def entry_at_def [symmetric]
  show ?thesis
  proof (cases "reject_unknown body [''max_versions'', ''cas_required'', ''delete_version_after'', ''custom_metadata''] = Inr ()
      \<and> \<not> (patch \<and> \<not> bcontains (kv2_entries st) r)")
    case False
    then show ?thesis using st unfolding unfold by (auto simp: sbind_def split: sum.splits)
  next
    case True
    then show ?thesis unfolding unfold
      by (simp add: Let_def c split: option.split)
        (intro allI impI conjI sbind_inv [where P = kv2_ok]; simp add: e1 e2 e3 m kv2_ok_put [OF st])
  qed
qed

section \<open>The handler, case by case\<close>

lemma kv2_read_not_mutated: "kv2_read st r body now sub = Inr resp \<Longrightarrow> \<not> mutated resp"
  unfolding kv2_read_def Let_def by (auto split: if_splits)

lemma kv2_list_not_mutated: "kv2_list st op r method body = Inr resp \<Longrightarrow> \<not> mutated resp"
  unfolding kv2_list_def Let_def by (auto split: if_splits)

lemma split_once_path:
  "unwrap_or (split_once (CHR ''/'') path) (path, []) = (operation, resource) \<Longrightarrow> resource \<noteq> [] \<Longrightarrow>
   path = operation @ ''/'' @ resource"
  by (cases "split_once (CHR ''/'') path") (auto simp: split_once_Some_iff)

lemma valid_path_nonempty: "valid_path r = Inr u \<Longrightarrow> r \<noteq> []"
  by (auto simp: valid_path_def split: if_splits)

definition config_request :: "kv2 \<Rightarrow> json \<Rightarrow> kv2 \<times> (engine_error + engine_response)" where
  "config_request st body =
     (let (config, result) = config_update (kv2_config st) body in
      sbind (st\<lparr>kv2_config := config\<rparr>, result) (\<lambda>st _. (st, Inr (empty_ok True))))"

lemma kv2_handle_cases:
  obtains (readonly) res where "kv2_handle st method path body now = (st, res)"
      "\<And>resp. res = Inr resp \<Longrightarrow> \<not> mutated resp"
  | (config) "path = ''config''" "write_method method"
      "kv2_handle st method path body now = config_request st body"
  | (put) r where "path = ''data/'' @ r" "valid_path r = Inr ()" "write_method method \<or> method = ''PATCH''"
      "kv2_handle st method path body now = kv2_write st r body now (method = ''PATCH'')"
  | (delete) r where "path = ''data/'' @ r" "method = ''DELETE''"
      "kv2_handle st method path body now = kv2_delete_latest st r now"
  | (change) operation r where "path = operation @ ''/'' @ r"
      "operation = ''delete'' \<or> operation = ''undelete'' \<or> operation = ''destroy''" "write_method method"
      "kv2_handle st method path body now = kv2_change_versions st r operation body now"
  | (remove) r where "path = ''metadata/'' @ r" "method = ''DELETE''"
      "kv2_handle st method path body now =
         (st\<lparr>kv2_entries := bremove r (kv2_entries st)\<rparr>, Inr (empty_ok (bcontains (kv2_entries st) r)))"
  | (describe) r where "path = ''metadata/'' @ r" "write_method method \<or> method = ''PATCH''"
      "kv2_handle st method path body now = kv2_write_metadata st r body now (method = ''PATCH'')"
proof (cases "path = ''config''")
  case True
  show thesis
  proof (cases "write_method method \<and> method \<noteq> ''GET''
      \<and> reject_unknown body [''max_versions'', ''cas_required'', ''delete_version_after''] = Inr ()")
    case wr: True
    then show thesis using True
      by (intro config) (simp_all add: kv2_handle_def config_request_def)
  next
    case False
    then have "fst (kv2_handle st method path body now) = st
        \<and> (\<forall>resp. snd (kv2_handle st method path body now) = Inr resp \<longrightarrow> \<not> mutated resp)"
      using True by (cases "reject_unknown body [''max_versions'', ''cas_required'', ''delete_version_after'']")
        (auto simp: kv2_handle_def)
    then show thesis by (metis readonly prod.collapse)
  qed
next
  case np: False
  obtain operation r where opr: "unwrap_or (split_once (CHR ''/'') path) (path, []) = (operation, r)"
    by fastforce
  define listing where "listing \<longleftrightarrow> operation \<in> {''metadata'', ''detailed-metadata''} \<and> method \<in> {''LIST'', ''SCAN''}"
  define known where "known \<longleftrightarrow> operation \<in> {''data'', ''subkeys'', ''metadata'', ''delete'', ''undelete'', ''destroy''}"
  define c1 where "c1 \<longleftrightarrow> operation \<in> {''data'', ''subkeys''} \<and> method = ''GET''"
  define c2 where "c2 \<longleftrightarrow> operation = ''data'' \<and> (write_method method \<or> method = ''PATCH'')"
  define c3 where "c3 \<longleftrightarrow> operation = ''data'' \<and> method = ''DELETE''"
  define c4 where "c4 \<longleftrightarrow> operation \<in> {''delete'', ''undelete'', ''destroy''} \<and> write_method method"
  define c5 where "c5 \<longleftrightarrow> operation = ''metadata'' \<and> method = ''GET''"
  define c6 where "c6 \<longleftrightarrow> operation = ''metadata'' \<and> method = ''DELETE''"
  define c7 where "c7 \<longleftrightarrow> operation = ''metadata'' \<and> (write_method method \<or> method = ''PATCH'')"
  have eq: "kv2_handle st method path body now =
    (if listing then (st, kv2_list st operation r method body)
     else if \<not> known then (st, Inl (eng_error 404 ''unknown KV v2 operation''))
     else sbind (st, valid_path r) (\<lambda>st _.
       if c1 then (st, kv2_read st r body now (operation = ''subkeys''))
       else if c2 then kv2_write st r body now (method = ''PATCH'')
       else if c3 then kv2_delete_latest st r now
       else if c4 then kv2_change_versions st r operation body now
       else if c5 then (st, ok_or (map_option (\<lambda>e. ok_data (entry_metadata e) False)
                  (map_of (kv2_entries st) r)) not_found)
       else if c6 then (st\<lparr>kv2_entries := bremove r (kv2_entries st)\<rparr>, Inr (empty_ok (bcontains (kv2_entries st) r)))
       else if c7 then kv2_write_metadata st r body now (method = ''PATCH'')
       else (st, Inl unsupported)))"
    unfolding kv2_handle_def opr Let_def prod.case if_not_P [OF np]
      listing_def known_def c1_def c2_def c3_def c4_def c5_def c6_def c7_def by (rule refl)
  show thesis
  proof (cases "listing \<or> \<not> known \<or> valid_path r \<noteq> Inr ()")
    case True
    then have "fst (kv2_handle st method path body now) = st
        \<and> (\<forall>resp. snd (kv2_handle st method path body now) = Inr resp \<longrightarrow> \<not> mutated resp)"
      using kv2_list_not_mutated unfolding eq by (cases "valid_path r") auto
    then show thesis by (metis readonly prod.collapse)
  next
    case False
    then have path: "path = operation @ ''/'' @ r"
      using split_once_path [OF opr] valid_path_nonempty by blast
    from False have v: "valid_path r = Inr ()" and eqs: "\<not> listing" "known" by simp_all
    note eq' = eq [unfolded if_not_P [OF eqs(1)] v sbind_simps]
    consider (1) c1 | (2) "\<not> c1" c2 | (3) "\<not> c1" "\<not> c2" c3 | (4) "\<not> c1" "\<not> c2" "\<not> c3" c4
      | (5) "\<not> c1" "\<not> c2" "\<not> c3" "\<not> c4" c5 | (6) "\<not> c1" "\<not> c2" "\<not> c3" "\<not> c4" "\<not> c5" c6
      | (7) "\<not> c1" "\<not> c2" "\<not> c3" "\<not> c4" "\<not> c5" "\<not> c6" c7
      | (8) "\<not> c1" "\<not> c2" "\<not> c3" "\<not> c4" "\<not> c5" "\<not> c6" "\<not> c7"
      by blast
    then show thesis
    proof cases
      case 1
      with eqs show thesis
        by (intro readonly [of "kv2_read st r body now (operation = ''subkeys'')"])
          (simp_all add: eq' kv2_read_not_mutated)
    next
      case 2
      with eqs have "kv2_handle st method path body now = kv2_write st r body now (method = ''PATCH'')"
        by (simp add: eq')
      with 2 path v show thesis by (intro put [of r]) (simp_all add: c2_def)
    next
      case 3
      with eqs have "kv2_handle st method path body now = kv2_delete_latest st r now" by (simp add: eq')
      with 3 path show thesis by (intro delete [of r]) (simp_all add: c3_def)
    next
      case 4
      with eqs have "kv2_handle st method path body now = kv2_change_versions st r operation body now"
        by (simp add: eq')
      with 4 path show thesis by (intro change [of operation r]) (simp_all add: c4_def)
    next
      case 5
      with eqs show thesis
        by (intro readonly [of "ok_or (map_option (\<lambda>e. ok_data (entry_metadata e) False)
                  (map_of (kv2_entries st) r)) not_found"]) (auto simp: eq')
    next
      case 6
      with eqs have "kv2_handle st method path body now =
         (st\<lparr>kv2_entries := bremove r (kv2_entries st)\<rparr>, Inr (empty_ok (bcontains (kv2_entries st) r)))"
        by (simp add: eq')
      with 6 path show thesis by (intro remove [of r]) (simp_all add: c6_def)
    next
      case 7
      with eqs have "kv2_handle st method path body now = kv2_write_metadata st r body now (method = ''PATCH'')"
        by (simp add: eq')
      with 7 path show thesis by (intro describe [of r]) (simp_all add: c7_def)
    next
      case 8
      with eqs show thesis by (intro readonly [of "Inl unsupported"]) (simp_all add: eq')
    qed
  qed
qed

definition kv2_step :: "kv2 \<Rightarrow> engine_request \<Rightarrow> kv2" where
  "kv2_step st q = fst (kv2_handle st (req_method q) (req_path q) (req_body q) (req_now q))"

definition kv2_run :: "kv2 \<Rightarrow> engine_request list \<Rightarrow> kv2" where
  "kv2_run st qs = foldl kv2_step st qs"

lemma kv2_run_simps [simp]:
  "kv2_run st [] = st"
  "kv2_run st (q # qs) = kv2_run (kv2_step st q) qs"
  by (simp_all add: kv2_run_def)

lemma config_request_ok: "kv2_ok st \<Longrightarrow> kv2_ok (fst (config_request st body))"
  using config_update_ok [of "kv2_config st" body]
  by (cases "config_update (kv2_config st) body"; cases "snd (config_update (kv2_config st) body)")
    (auto simp: config_request_def kv2_ok_def)

lemma kv2_handle_ok: "kv2_ok st \<Longrightarrow> kv2_ok (fst (kv2_handle st method path body now))"
proof (cases rule: kv2_handle_cases [of st "method" path body now])
  case (remove r)
  assume "kv2_ok st"
  then show ?thesis by (simp add: remove(3) kv2_ok_def list_all_bremove)
qed (simp_all add: config_request_ok kv2_write_ok kv2_delete_latest_ok kv2_change_versions_ok kv2_write_metadata_ok)

lemma kv2_ok_default: "kv2_ok kv2_default"
  by (simp add: kv2_ok_def kv2_default_def config_ok_def config_default_def)

text \<open>
  C5: every state the version 2 engine can reach satisfies its invariant. The retained version
  numbers of an entry are the last ones without a gap and end with the current one, at most
  10,000 are kept, a version has data exactly when it is not destroyed, and the retention,
  deletion delay and custom metadata stay within their bounds, whatever requests were sent and
  whether or not they failed.
\<close>

theorem kv2_reachable_ok: "kv2_ok (kv2_run kv2_default requests)"
proof -
  have "kv2_ok (kv2_run st requests)" if "kv2_ok st" for st
    using that by (induction requests arbitrary: st) (simp_all add: kv2_step_def kv2_handle_ok)
  then show ?thesis using kv2_ok_default by blast
qed

section \<open>The mutation flag\<close>

lemma put_same: "bmap_ok (kv2_entries st) \<Longrightarrow> map_of (kv2_entries st) r = Some e \<Longrightarrow>
    st\<lparr>kv2_entries := binsert r e (kv2_entries st)\<rparr> = st"
  by (simp add: binsert_same)

lemma change_loop_flag:
  "change_loop op now ns vs ch = (vs', False) \<Longrightarrow> vs' = vs \<and> ch = False"
proof (induction ns arbitrary: vs ch)
  case (Cons n ns)
  then show ?case by (auto split: option.splits)
qed simp

lemma kv2_ok_bmap: "kv2_ok st \<Longrightarrow> bmap_ok (kv2_entries st)"
  by (simp add: kv2_ok_def)

lemma change_versions_flag:
  assumes "kv2_ok st" and "kv2_change_versions st r op body now = (st', Inr resp)" and "\<not> mutated resp"
  shows "st' = st"
proof -
  obtain listed ns where "reject_unknown body [''versions''] = Inr ()"
    "ok_or (opt_filter (\<lambda>v. v \<noteq> []) (Option.bind (json_get body ''versions'') as_array))
                  (bad ''versions must be a nonempty integer array'') = Inr listed"
    "rcollect (\<lambda>v. ok_or (opt_filter (\<lambda>n. 0 < n) (as_u64 v))
                  (bad ''version numbers must be positive integers'')) listed = Inr ns"
    using assms(2) by (auto simp: kv2_change_versions_def sbind_Inr_iff)
  note pre = this
  show ?thesis
  proof (cases "map_of (kv2_entries st) r")
    case None
    then show ?thesis using assms(2) pre by (simp add: kv2_change_versions_def)
  next
    case (Some e)
    obtain vs ch where loop: "change_loop op now ns (versions e) False = (vs, ch)" by fastforce
    then have "st' = st\<lparr>kv2_entries := binsert r (e\<lparr>versions := vs\<rparr>) (kv2_entries st)\<rparr>" "resp = empty_ok ch"
      using assms(2) pre Some by (simp_all add: kv2_change_versions_def)
    moreover have "vs = versions e" using loop \<open>resp = empty_ok ch\<close> assms(3) change_loop_flag by simp
    ultimately show ?thesis using put_same [OF kv2_ok_bmap [OF assms(1)] Some] by simp
  qed
qed

lemma kv2_unmutated:
  assumes "kv2_ok st" and "kv2_handle st method path body now = (st', Inr resp)" and "\<not> mutated resp"
  shows "st' = st"
proof (cases rule: kv2_handle_cases [of st "method" path body now])
  case (readonly res)
  then show ?thesis using assms(2) by simp
next
  case config
  then show ?thesis using assms(2,3)
    by (cases "config_update (kv2_config st) body"; cases "snd (config_update (kv2_config st) body)")
      (auto simp: config_request_def)
next
  case (put r)
  then show ?thesis using assms(2,3)
    by (cases rule: kv2_write_cases [of st r body now "method = ''PATCH''"]) auto
next
  case (delete r)
  then show ?thesis using assms(2,3) by (auto simp: kv2_delete_latest_def split: option.splits if_splits)
next
  case (change operation r)
  then show ?thesis using change_versions_flag [OF assms(1)] assms(2,3) by simp
next
  case (remove r)
  then have "bremove r (kv2_entries st) = kv2_entries st"
    using assms(2,3) by (intro bremove_absent) (simp, metis bcontains_iff mutated_simps(2))
  then show ?thesis using remove assms(2) by simp
next
  case (describe r)
  have "kv2_write_metadata st r body now (method = ''PATCH'') = (st', Inr resp)" using describe assms(2) by simp
  then have "mutated resp"
    unfolding kv2_write_metadata_def Let_def
    by (auto simp: sbind_Inr_iff split: if_splits prod.splits option.splits)
  then show ?thesis using assms(3) by blast
qed

definition kv2_request :: "kv2 \<Rightarrow> engine_request \<Rightarrow> kv2 \<times> (engine_error + engine_response)" where
  "kv2_request st q = kv2_handle st (req_method q) (req_path q) (req_body q) (req_now q)"

interpretation kv2_engine: flagged_engine kv2_request kv2_ok kv2_default
proof
  show "kv2_ok kv2_default" by (rule kv2_ok_default)
  show "kv2_ok st'" if "kv2_ok st" "kv2_request st q = (st', Inr resp)" for st q st' resp
    using kv2_handle_ok [OF that(1)] that(2) unfolding kv2_request_def by (metis fst_conv)
  show "st' = st" if "kv2_ok st" "kv2_request st q = (st', Inr resp)" "\<not> mutated resp" for st q st' resp
    using that unfolding kv2_request_def by (rule kv2_unmutated)
qed

text \<open>Version 1, whose state is the map itself.\<close>

definition kv1_ok :: "(string, json) bmap \<Rightarrow> bool" where
  "kv1_ok entries = (bmap_ok entries \<and> list_all (\<lambda>e. is_object (snd e)) entries)"

definition kv1_request :: "(string, json) bmap \<Rightarrow> engine_request \<Rightarrow>
    (string, json) bmap \<times> (engine_error + engine_response)" where
  "kv1_request entries q = handle_v1 entries (req_method q) (req_path q) (req_body q)"

lemma handle_v1_cases:
  obtains (readonly) res where "handle_v1 entries method path body = (entries, res)"
      "\<And>resp. res = Inr resp \<Longrightarrow> \<not> mutated resp"
  | (put) "is_object body" "handle_v1 entries method path body = (binsert path body entries, Inr (empty_ok True))"
  | (remove) "handle_v1 entries method path body = (bremove path entries, Inr (empty_ok True))"
proof -
  define listing where "listing \<longleftrightarrow> method = ''LIST'' \<or> method = ''SCAN''"
  define c1 where "c1 \<longleftrightarrow> method = ''GET''"
  define c2 where "c2 \<longleftrightarrow> method = ''POST'' \<or> method = ''PUT''"
  define c3 where "c3 \<longleftrightarrow> method = ''DELETE''"
  define names where "names = rbind (if path \<noteq> [] then valid_path (trim_end_matches path (CHR ''/'')) else Inr ()) (\<lambda>_.
         rbind (list_keys (map fst entries) path (method = ''SCAN'') body) (\<lambda>keys.
         if keys = [] then Inl not_found
         else Inr (ok_data (json_object [(''keys'', JArr (map JStr keys))]) False)))"
  have eq: "handle_v1 entries method path body =
    (if listing then (entries, names)
     else sbind (entries, valid_path path) (\<lambda>entries _.
          if c1 then
            (entries, ok_or (map_option (\<lambda>data. ok_data data False) (map_of entries path)) not_found)
          else if c2 then
            if \<not> is_object body then (entries, Inl (bad ''secret data must be an object''))
            else (binsert path body entries, Inr (empty_ok True))
          else if c3 then
            (case map_of entries path of
               Some _ \<Rightarrow> (bremove path entries, Inr (empty_ok True))
             | None \<Rightarrow> (entries, Inr (empty_ok False)))
          else (entries, Inl unsupported)))"
    unfolding handle_v1_def listing_def c1_def c2_def c3_def names_def by (rule refl)
  have names: "names = Inr resp \<Longrightarrow> \<not> mutated resp" for resp
    unfolding names_def by (auto split: if_splits)
  consider listing | e where "\<not> listing" "valid_path path = Inl e" | "\<not> listing" "valid_path path = Inr ()" c1
    | "\<not> listing" "valid_path path = Inr ()" "\<not> c1" c2 | "\<not> listing" "valid_path path = Inr ()" "\<not> c1" "\<not> c2"
    by (cases "valid_path path") auto
  then show thesis
  proof cases
    case 1
    then show thesis using names by (intro readonly [of names]) (simp_all add: eq)
  next
    case (2 e)
    then show thesis by (intro readonly [of "Inl e"]) (simp_all add: eq)
  next
    case 3
    then show thesis
      by (intro readonly [of "ok_or (map_option (\<lambda>data. ok_data data False) (map_of entries path)) not_found"])
        (auto simp: eq)
  next
    case 4
    then show thesis
    proof (cases "is_object body")
      case True
      then show thesis using 4 by (intro put) (simp_all add: eq)
    next
      case False
      then show thesis using 4 by (intro readonly [of "Inl (bad ''secret data must be an object'')"]) (simp_all add: eq)
    qed
  next
    case 5
    then show thesis
    proof (cases "c3 \<and> map_of entries path \<noteq> None")
      case True
      then show thesis using 5 by (intro remove) (auto simp: eq)
    next
      case False
      then show thesis using 5
        by (intro readonly [of "if c3 then Inr (empty_ok False) else Inl unsupported"]) (auto simp: eq split: if_splits)
    qed
  qed
qed

lemma handle_v1_ok: "kv1_ok entries \<Longrightarrow> kv1_ok (fst (handle_v1 entries method path body))"
  by (cases rule: handle_v1_cases [of entries "method" path body])
    (auto simp: kv1_ok_def list_all_binsert list_all_bremove)

lemma handle_v1_unmutated:
  "handle_v1 entries method path body = (entries', Inr resp) \<Longrightarrow> \<not> mutated resp \<Longrightarrow> entries' = entries"
  by (cases rule: handle_v1_cases [of entries "method" path body]) auto
interpretation kv1_engine: flagged_engine kv1_request kv1_ok "[]"
proof
  show "kv1_ok []" by (simp add: kv1_ok_def)
  show "kv1_ok st'" if "kv1_ok st" "kv1_request st q = (st', Inr resp)" for st q st' resp
    using handle_v1_ok [OF that(1)] that(2) unfolding kv1_request_def by (metis fst_conv)
  show "st' = st" if "kv1_ok st" "kv1_request st q = (st', Inr resp)" "\<not> mutated resp" for st q st' resp
    using that(2,3) unfolding kv1_request_def by (rule handle_v1_unmutated)
qed

section \<open>Writing and reading\<close>

lemma written_lookup:
  assumes "entry_ok e" and "config_ok c" and "Suc (current_version e) < u64_bound"
  shows "map_of (versions (written_entry c e now (Suc (current_version e)) v)) n =
    (if n = Suc (current_version e) then Some v
     else if Suc (Suc (current_version e) - retained_versions (entry_config e) c) \<le> n
     then map_of (versions e) n else None)"
proof -
  have "0 < retained_versions (entry_config e) c"
    using retained_bounds [OF entry_okD(1) [OF assms(1)] assms(2)] by blast
  moreover have "map_of (versions e) (Suc (current_version e)) = None"
    using entry_ok_keys [OF assms(1)] by (auto simp: map_of_eq_None_iff)
  ultimately show ?thesis
    unfolding written_versions [OF assms] map_of_filter_fst by (auto simp: map_add_def split: option.splits)
qed

lemma kv2_write_other:
  "r' \<noteq> r \<Longrightarrow> map_of (kv2_entries (fst (kv2_write st r body now patch))) r' = map_of (kv2_entries st) r'"
  by (cases rule: kv2_write_cases [of st r body now patch]) simp_all

lemma kv2_write_config: "kv2_config (fst (kv2_write st r body now patch)) = kv2_config st"
  by (cases rule: kv2_write_cases [of st r body now patch]) simp_all

lemma kv2_handle_data:
  "valid_path r = Inr () \<Longrightarrow> kv2_handle st ''GET'' (''data/'' @ r) body now = (st, kv2_read st r body now False)"
  "valid_path r = Inr () \<Longrightarrow> kv2_handle st ''POST'' (''data/'' @ r) body now = kv2_write st r body now False"
  by (simp_all add: kv2_handle_def write_method_def)

lemma version_data_written:
  assumes "kv2_ok st" and "kv2_write st r body now patch = (st', Inr resp)"
  obtains data deadline where
    "write_value st r body now patch = Inr (data, Suc (current_version (entry_at st r now)))"
    "write_deadline (entry_config (entry_at st r now)) (kv2_config st) now = Inr deadline"
    "st' = st\<lparr>kv2_entries := binsert r (written_entry (kv2_config st) (entry_at st r now) now
        (Suc (current_version (entry_at st r now)))
        \<lparr>version_created_at = now, deletion_at = deadline, destroyed = False, version_data = Some data\<rparr>)
        (kv2_entries st)\<rparr>"
    "Suc (current_version (entry_at st r now)) < u64_bound"
  using assms(2)
proof (cases rule: kv2_write_cases [of st r body now patch])
  case (written data nx deadline)
  note w = write_value_object [OF written(1)]
  show thesis
    using written assms(2) w by (intro that [of data deadline]) simp_all
qed simp_all

text \<open>
  C6: a write is read back. After a successful write of an object, reading the path returns that
  object as the version after the one that was current, with the metadata of the write, as long
  as the deletion deadline has not passed; reads of every other path are unaffected.
\<close>

theorem kv2_write_read:
  assumes st: "kv2_ok st" and path: "valid_path r = Inr ()" and d: "json_get body ''data'' = Some d"
    and written: "kv2_handle st ''POST'' (''data/'' @ r) body now = (st', Inr resp)"
    and alive: "write_deadline (entry_config (entry_at st r now)) (kv2_config st) now = Inr deadline"
      "is_none_or deadline (\<lambda>at. now' < at)"
  shows "kv2_handle st' ''GET'' (''data/'' @ r) (JObj []) now' =
    (st', Inr (ok_data (json_object [(''data'', d),
       (''metadata'', version_metadata \<lparr>version_created_at = now, deletion_at = deadline, destroyed = False,
          version_data = Some d\<rparr> (Suc (current_version (entry_at st r now))) (custom_metadata (entry_at st r now)))]) False))
    \<and> (\<forall>r' body' sub. r' \<noteq> r \<longrightarrow> kv2_read st' r' body' now' sub = kv2_read st r' body' now' sub)"
proof -
  let ?e = "entry_at st r now"
  have "kv2_write st r body now False = (st', Inr resp)"
    using written by (simp only: kv2_handle_data [OF path])
  from version_data_written [OF st this] obtain data deadline' where
    w: "write_value st r body now False = Inr (data, Suc (current_version ?e))"
      "write_deadline (entry_config ?e) (kv2_config st) now = Inr deadline'"
      "Suc (current_version ?e) < u64_bound"
    and st': "st' = st\<lparr>kv2_entries := binsert r (written_entry (kv2_config st) ?e now
        (Suc (current_version ?e))
        \<lparr>version_created_at = now, deletion_at = deadline', destroyed = False, version_data = Some data\<rparr>)
        (kv2_entries st)\<rparr>" by blast
  have data: "data = d" using w(1) by (rule write_value_Inr) (use d in auto)
  have dl: "deadline' = deadline" using w(2) alive(1) by simp
  have look: "map_of (versions (written_entry (kv2_config st) ?e now (Suc (current_version ?e)) v))
      (Suc (current_version ?e)) = Some v" for v
    using st w(3) by (subst written_lookup) (simp_all add: entry_ok_entry_at kv2_ok_def)
  have "kv2_read st' r (JObj []) now' False =
    Inr (ok_data (json_object [(''data'', d),
       (''metadata'', version_metadata \<lparr>version_created_at = now, deletion_at = deadline, destroyed = False,
          version_data = Some d\<rparr> (Suc (current_version ?e)) (custom_metadata ?e))]) False)"
    using alive(2) by (simp add: kv2_read_def st' look data dl readable_def optional_u64_def Let_def)
  moreover have "kv2_read st' r' body' now' sub = kv2_read st r' body' now' sub" if "r' \<noteq> r" for r' body' sub
    using that by (simp add: kv2_read_def st')
  ultimately show ?thesis by (simp only: kv2_handle_data [OF path]) blast
qed

section \<open>Check-and-set\<close>

text \<open>
  C7: check-and-set is enforced. A write without the parameter where the engine or the key
  requires it, and a write whose parameter differs from the current version, fail and leave the
  engine unchanged.
\<close>

theorem kv2_cas:
  assumes cas: "write_cas body = Inr cas"
    and guard: "cas = None \<and> (cas_required (kv2_config st) \<or> cas_required (entry_config (entry_at st r now)))
      \<or> (\<exists>c. cas = Some c \<and> c \<noteq> current_version (entry_at st r now))"
  shows "fst (kv2_write st r body now patch) = st \<and> (\<exists>e. snd (kv2_write st r body now patch) = Inl e)"
proof (cases rule: kv2_write_cases [of st r body now patch])
  case (overflow e data)
  obtain d n where "write_value st r body now patch = Inr (d, n)"
    using overflow(1) by (cases data) simp
  then have False by (elim write_value_Inr) (use cas guard in auto)
  then show ?thesis ..
next
  case (written data nx deadline)
  from written(1) have False by (elim write_value_Inr) (use cas guard in auto)
  then show ?thesis ..
qed simp

section \<open>Destruction is permanent\<close>

text \<open>Version \<open>n\<close> of \<open>r\<close> has been assigned and its data is gone.\<close>

definition erased :: "string \<Rightarrow> nat \<Rightarrow> kv2 \<Rightarrow> bool" where
  "erased r n st \<longleftrightarrow> (\<exists>e. map_of (kv2_entries st) r = Some e \<and> n \<le> current_version e \<and>
     (\<forall>v. map_of (versions e) n = Some v \<longrightarrow> destroyed v))"

lemma erased_put:
  "erased r n st \<Longrightarrow>
   (r' = r \<Longrightarrow> n \<le> current_version e \<and> (\<forall>v. map_of (versions e) n = Some v \<longrightarrow> destroyed v)) \<Longrightarrow>
   erased r n (st\<lparr>kv2_entries := binsert r' e (kv2_entries st)\<rparr>)"
  by (auto simp: erased_def)

lemma erased_entry_at:
  "erased r n st \<Longrightarrow> n \<le> current_version (entry_at st r now) \<and>
    (\<forall>v. map_of (versions (entry_at st r now)) n = Some v \<longrightarrow> destroyed v)"
  by (auto simp: erased_def entry_at_def)

lemma erased_write:
  assumes "kv2_ok st" and "erased r n st"
  shows "erased r n (fst (kv2_write st r' body now patch))"
proof (cases rule: kv2_write_cases [of st r' body now patch])
  case (overflow e data)
  then show ?thesis using erased_put [OF assms(2)] erased_entry_at [OF assms(2), of now] by simp
next
  case (written data nx deadline)
  note w = write_value_object(2,3) [OF written(1)]
  have "n \<le> nx \<and> (\<forall>v. map_of (versions (written_entry (kv2_config st) (entry_at st r now) now nx
      \<lparr>version_created_at = now, deletion_at = deadline, destroyed = False, version_data = Some data\<rparr>)) n = Some v \<longrightarrow> destroyed v)"
    if "r' = r"
    using erased_entry_at [OF assms(2), of now] w that assms(1)
    by (auto simp: written_lookup entry_ok_entry_at kv2_ok_def split: if_splits)
  then show ?thesis using assms(2) by (auto simp: written(3) intro!: erased_put)
qed (simp add: assms(2))

lemma change_loop_destroyed:
  "\<forall>v. map_of vs n = Some v \<longrightarrow> destroyed v \<Longrightarrow> map_of (fst (change_loop op now ns vs ch)) n = Some v \<Longrightarrow> destroyed v"
proof (induction ns arbitrary: vs ch)
  case (Cons m ns)
  show ?case
  proof (cases "Option.bind (map_of vs m) (change_version op now)")
    case None
    then show ?thesis using Cons by simp
  next
    case (Some w)
    then obtain u where u: "map_of vs m = Some u" "change_version op now u = Some w"
      by (auto simp: bind_eq_Some_conv)
    then have "\<not> destroyed u" by (auto simp: change_version_def split: if_splits)
    then have "m \<noteq> n" using u(1) Cons.prems(1) by auto
    then show ?thesis using Cons.IH [of "binsert m w vs" True] Cons.prems Some by simp
  qed
qed simp

lemma erased_change:
  assumes "erased r n st"
  shows "erased r n (fst (kv2_change_versions st r' op body now))"
proof -
  have "erased r n (st\<lparr>kv2_entries := binsert r' (e\<lparr>versions := fst (change_loop op now ns (versions e) False)\<rparr>) (kv2_entries st)\<rparr>)"
    if "map_of (kv2_entries st) r' = Some e" for e ns
    using assms that by (intro erased_put) (auto simp: erased_def dest!: change_loop_destroyed [rotated])
  then show ?thesis using assms
    by (auto simp: kv2_change_versions_def sbind_def split: sum.splits option.splits prod.splits)
      (metis fst_conv)
qed

lemma erased_delete:
  assumes "erased r n st"
  shows "erased r n (fst (kv2_delete_latest st r' now))"
  using assms by (auto simp: kv2_delete_latest_def split: option.splits intro!: erased_put)
    (auto simp: erased_def split: if_splits)

lemma erased_metadata:
  assumes "erased r n st"
  shows "erased r n (fst (kv2_write_metadata st r' body now patch))"
proof -
  let ?e = "entry_at st r' now"
  have upd: "erased r n (st\<lparr>kv2_entries := binsert r' (?e\<lparr>entry_config := c\<rparr>) (kv2_entries st)\<rparr>)"
    "erased r n (st\<lparr>kv2_entries := binsert r' (?e\<lparr>entry_config := c, custom_metadata := m\<rparr>) (kv2_entries st)\<rparr>)" for c m
    using erased_entry_at [OF assms, of now] by (intro erased_put [OF assms]; simp)+
  obtain config result where c: "config_update (entry_config ?e) body = (config, result)" by fastforce
  note unfold = kv2_write_metadata_def entry_at_def [symmetric]
  show ?thesis
  proof (cases "reject_unknown body [''max_versions'', ''cas_required'', ''delete_version_after'', ''custom_metadata''] = Inr ()
      \<and> \<not> (patch \<and> \<not> bcontains (kv2_entries st) r')")
    case False
    then show ?thesis using assms unfolding unfold by (auto simp: sbind_def split: sum.splits)
  next
    case True
    then show ?thesis unfolding unfold
      by (simp add: Let_def c split: option.split)
        (intro allI impI conjI sbind_inv [where P = "erased r n"]; simp add: upd)
  qed
qed

lemma erased_step:
  assumes "kv2_ok st" and "erased r n st" and "\<not> (req_method q = ''DELETE'' \<and> req_path q = ''metadata/'' @ r)"
  shows "erased r n (kv2_step st q)"
proof (cases rule: kv2_handle_cases [of st "req_method q" "req_path q" "req_body q" "req_now q"])
  case config
  then show ?thesis using assms(2)
    by (cases "config_update (kv2_config st) (req_body q)"; cases "snd (config_update (kv2_config st) (req_body q))")
      (auto simp: kv2_step_def config_request_def erased_def)
next
  case (remove r')
  then show ?thesis using assms(2,3) by (auto simp: kv2_step_def erased_def)
qed (simp_all add: kv2_step_def assms erased_write erased_change erased_delete erased_metadata)

lemma erased_run:
  assumes "kv2_ok st" and "erased r n st"
    and "\<forall>q \<in> set qs. \<not> (req_method q = ''DELETE'' \<and> req_path q = ''metadata/'' @ r)"
  shows "erased r n (kv2_run st qs)"
  using assms
proof (induction qs arbitrary: st)
  case (Cons q qs)
  then have "kv2_ok (kv2_step st q)" "erased r n (kv2_step st q)"
    by (simp_all add: kv2_step_def kv2_handle_ok) (use Cons erased_step [of st r n q] in \<open>simp add: kv2_step_def\<close>)
  with Cons show ?case by simp
qed simp

text \<open>The two answers that carry no secret: an error, or a 404 whose data is null.\<close>

definition no_data :: "engine_error + engine_response \<Rightarrow> bool" where
  "no_data res =
     (case res of
        Inl e \<Rightarrow> e = not_found
      | Inr resp \<Rightarrow> resp_status resp = 404 \<and>
          Option.bind (json_get (resp_body resp) ''data'') (\<lambda>d. json_get d ''data'') = Some JNull)"

lemma erased_unreadable:
  assumes "erased r n st" and "0 < n"
  shows "no_data (kv2_read st r (JObj [(''version'', json_u64 n)]) now sub)"
proof -
  obtain e where e: "map_of (kv2_entries st) r = Some e" "\<forall>v. map_of (versions e) n = Some v \<longrightarrow> destroyed v"
    using assms(1) by (auto simp: erased_def)
  show ?thesis using e assms(2)
    by (cases "map_of (versions e) n")
      (auto simp: kv2_read_def optional_u64_def readable_def Let_def no_data_def json_object_get)
qed

lemma change_loop_domain:
  "map_of vs n \<noteq> None \<Longrightarrow> map_of (fst (change_loop op now ns vs ch)) n \<noteq> None"
proof (induction ns arbitrary: vs ch)
  case (Cons m ns)
  show ?case
  proof (cases "Option.bind (map_of vs m) (change_version op now)")
    case (Some w)
    then show ?thesis using Cons.IH [of "binsert m w vs" True] Cons.prems by simp
  qed (use Cons in simp)
qed simp

lemma change_loop_destroys:
  assumes "n \<in> set ns" and "map_of (fst (change_loop ''destroy'' now ns vs ch)) n = Some v"
  shows "destroyed v"
  using assms
proof (induction ns arbitrary: vs ch)
  case (Cons m ns)
  show ?case
  proof (cases "m = n")
    case True
    show ?thesis
    proof (cases "Option.bind (map_of vs m) (change_version ''destroy'' now)")
      case None
      then have "\<forall>v. map_of vs n = Some v \<longrightarrow> destroyed v"
        using True by (auto simp: change_version_def split: if_splits)
      moreover have "map_of (fst (change_loop ''destroy'' now ns vs ch)) n = Some v"
        using Cons.prems(2) None by simp
      ultimately show ?thesis by (rule change_loop_destroyed)
    next
      case (Some w)
      then have "destroyed w" by (auto simp: bind_eq_Some_conv change_version_def split: if_splits)
      then have "\<forall>v. map_of (binsert m w vs) n = Some v \<longrightarrow> destroyed v" using True by simp
      moreover have "map_of (fst (change_loop ''destroy'' now ns (binsert m w vs) True)) n = Some v"
        using Cons.prems(2) Some by simp
      ultimately show ?thesis by (rule change_loop_destroyed)
    qed
  next
    case False
    then have "n \<in> set ns" using Cons.prems(1) by simp
    then show ?thesis using Cons.IH Cons.prems(2) by (auto split: option.splits)
  qed
qed simp

lemma rcollect_positive:
  "rcollect (\<lambda>v. ok_or (opt_filter (\<lambda>n. 0 < n) (as_u64 v)) e) xs = Inr ns \<Longrightarrow>
   json_u64 n \<in> set xs \<Longrightarrow> n \<in> set ns \<and> 0 < n"
  by (induction xs arbitrary: ns) auto

lemma kv2_handle_destroy:
  "valid_path r = Inr () \<Longrightarrow>
   kv2_handle st ''POST'' (''destroy/'' @ r) body now = kv2_change_versions st r ''destroy'' body now"
  by (simp add: kv2_handle_def write_method_def)

text \<open>
  C8: destruction is permanent. Once a version has been destroyed, no sequence of later requests
  makes its data readable again, as long as the key's metadata is not deleted (which restarts
  the version numbers).
\<close>

theorem kv2_destroy_permanent:
  assumes st: "kv2_ok st" and path: "valid_path r = Inr ()"
    and destroy: "kv2_handle st ''POST'' (''destroy/'' @ r) body now = (st', Inr resp)"
    and listed: "json_get body ''versions'' = Some (JArr ns)" "json_u64 n \<in> set ns"
    and existing: "map_of (kv2_entries st) r = Some e" "n \<le> current_version e"
    and kept: "\<forall>q \<in> set qs. \<not> (req_method q = ''DELETE'' \<and> req_path q = ''metadata/'' @ r)"
  shows "no_data (kv2_read (kv2_run st' qs) r (JObj [(''version'', json_u64 n)]) now' sub)"
proof -
  have change: "kv2_change_versions st r ''destroy'' body now = (st', Inr resp)"
    using destroy by (simp only: kv2_handle_destroy [OF path])
  then obtain nums where nums: "rcollect (\<lambda>v. ok_or (opt_filter (\<lambda>n. 0 < n) (as_u64 v))
      (bad ''version numbers must be positive integers'')) ns = Inr nums"
    and st': "st' = st\<lparr>kv2_entries := binsert r (e\<lparr>versions := fst (change_loop ''destroy'' now nums (versions e) False)\<rparr>) (kv2_entries st)\<rparr>"
    using listed existing
    by (auto simp: kv2_change_versions_def sbind_Inr_iff case_prod_beta Let_def split: if_splits)
  have n: "n \<in> set nums" "0 < n" using rcollect_positive [OF nums listed(2)] by blast+
  have "erased r n st'"
    using existing n by (auto simp: erased_def st' dest: change_loop_destroys)
  moreover have "kv2_ok st'" using kv2_change_versions_ok [OF st, of r "''destroy''" body now] change by simp
  ultimately have "erased r n (kv2_run st' qs)" using erased_run kept by blast
  then show ?thesis using n(2) by (rule erased_unreadable)
qed

section \<open>Merge patch\<close>

lemma merge_fields_lookup:
  "bmap_ok pm \<Longrightarrow> map_of (merge_fields tm pm) k =
     (case map_of pm k of
        None \<Rightarrow> map_of tm k
      | Some v \<Rightarrow> if v = JNull then None else Some (merge_patch (unwrap_or (map_of tm k) JNull) v))"
proof (induction pm arbitrary: tm)
  case (Cons e pm)
  obtain k' v where e: "e = (k', v)" by fastforce
  have "map_of pm k' = None"
    using Cons.prems by (auto simp: bmap_ok_Cons e map_of_eq_None_iff)
  then show ?case using Cons by (auto simp: e bmap_ok_Cons split: option.splits)
qed simp

lemma merge_fields_ok: "bmap_ok tm \<Longrightarrow> bmap_ok (merge_fields tm pm)"
proof (induction pm arbitrary: tm)
  case (Cons e pm)
  then show ?case by (cases e) simp
qed simp

lemma merge_patch_idem:
  "json_ok t \<Longrightarrow> json_ok p \<Longrightarrow> merge_patch (merge_patch t p) p = merge_patch t p"
proof (induction p arbitrary: t)
  case (JObj pm)
  let ?tm = "case t of JObj m \<Rightarrow> m | _ \<Rightarrow> []"
  have ok: "bmap_ok pm" "bmap_ok ?tm" using JObj.prems by (auto split: json.splits)
  have "map_of (merge_fields (merge_fields ?tm pm) pm) k = map_of (merge_fields ?tm pm) k" for k
  proof (cases "map_of pm k")
    case None
    then show ?thesis using ok by (simp add: merge_fields_lookup)
  next
    case (Some v)
    then have kv: "(k, v) \<in> set pm" by (rule map_of_SomeD)
    then have "json_ok v" using JObj.prems(2) by (auto simp: list_all_iff)
    moreover have "json_ok (unwrap_or (map_of ?tm k) JNull)"
    proof (cases "map_of ?tm k")
      case (Some x)
      then have "(k, x) \<in> set ?tm" by (rule map_of_SomeD)
      then show ?thesis using JObj.prems(1) Some by (auto simp: list_all_iff split: json.splits)
    qed simp
    ultimately have "merge_patch (merge_patch (unwrap_or (map_of ?tm k) JNull) v) v =
        merge_patch (unwrap_or (map_of ?tm k) JNull) v"
      using JObj.IH [of "(k, v)" v] kv by simp
    then show ?thesis using ok Some by (simp add: merge_fields_lookup)
  qed
  then have "merge_fields (merge_fields ?tm pm) pm = merge_fields ?tm pm"
    using ok by (intro bmap_ext) (simp_all add: merge_fields_ok fun_eq_iff)
  then show ?case by simp
qed simp_all

text \<open>
  C9: a PATCH applies a JSON merge patch. Null members remove, other members are merged
  recursively, absent members are kept, a patch that is no object replaces the target, and
  applying the same patch twice is the same as applying it once.
\<close>

theorem merge_patch_rfc7396:
  assumes "json_ok t" and "json_ok p"
  shows "merge_patch (merge_patch t p) p = merge_patch t p \<and>
    (case p of
       JObj pm \<Rightarrow> \<exists>m. merge_patch t p = JObj m \<and> (\<forall>k. map_of m k =
         (case map_of pm k of
            None \<Rightarrow> json_get t k
          | Some v \<Rightarrow> if v = JNull then None else Some (merge_patch (unwrap_or (json_get t k) JNull) v)))
     | _ \<Rightarrow> merge_patch t p = p)"
proof (cases p)
  case (JObj pm)
  have "map_of (case t of JObj m \<Rightarrow> m | _ \<Rightarrow> []) k = json_get t k" for k
    by (cases t) (simp_all add: json_get_def)
  then show ?thesis using JObj assms merge_patch_idem [OF assms]
    by (simp add: merge_fields_lookup split: option.split)
qed (use merge_patch_idem [OF assms] in simp_all)

theorem merge_patch_rfc7396_witness:
  "merge_patch (JObj [(''a'', JStr ''b''), (''c'', JObj [(''d'', JStr ''e''), (''f'', JStr ''g'')])])
     (JObj [(''a'', JStr ''z''), (''c'', JObj [(''f'', JNull)])]) =
   JObj [(''a'', JStr ''z''), (''c'', JObj [(''d'', JStr ''e'')])] \<and>
   merge_patch (JObj [(''a'', JStr ''z''), (''c'', JObj [(''d'', JStr ''e'')])])
     (JObj [(''a'', JStr ''z''), (''c'', JObj [(''f'', JNull)])]) =
   JObj [(''a'', JStr ''z''), (''c'', JObj [(''d'', JStr ''e'')])]"
proof -
  let ?t = "JObj [(''a'', JStr ''b''), (''c'', JObj [(''d'', JStr ''e''), (''f'', JStr ''g'')])]"
  let ?p = "JObj [(''a'', JStr ''z''), (''c'', JObj [(''f'', JNull)])]"
  have ok: "json_ok ?t" "json_ok ?p" by (simp_all add: bmap_ok_def)
  have "merge_patch ?t ?p = JObj [(''a'', JStr ''z''), (''c'', JObj [(''d'', JStr ''e'')])]"
    by (simp add: bremove_def)
  then show ?thesis using merge_patch_rfc7396 [OF ok] by simp
qed

section \<open>Subkeys\<close>

fun null_leaves :: "json \<Rightarrow> bool" where
  "null_leaves (JObj m) = list_all (\<lambda>e. null_leaves (snd e)) m"
| "null_leaves JNull = True"
| "null_leaves _ = False"

lemma null_leaves_strip: "null_leaves (strip_values v d l)"
  by (induction v d l rule: strip_values.induct) (auto simp: list_all_iff)

lemma strip_strip: "strip_values (strip_values v 0 k) d l = strip_values v d l"
proof (induction v arbitrary: k l)
  case (JObj m)
  have "map (\<lambda>e. (fst e, strip_values (strip_values (snd e) 0 (Suc k)) d (Suc l))) m =
      map (\<lambda>e. (fst e, strip_values (snd e) d (Suc l))) m"
    using JObj by (intro map_cong) auto
  then show ?case by (simp add: comp_def)
qed simp_all

text \<open>
  C10: the subkeys view discloses key names only. Its leaves are null, and it is a function of
  the key structure of the secret: secrets with the same keys and different values look the
  same.
\<close>

theorem strip_values_no_leak:
  "null_leaves (strip_values v depth level) \<and>
   strip_values (strip_values v 0 k) depth level = strip_values v depth level"
  by (simp add: null_leaves_strip strip_strip)

section \<open>Witnesses\<close>

definition kv2_sample :: kv2 where
  "kv2_sample = \<lparr>kv2_config = config_default, kv2_entries =
     [(''a'', \<lparr>entry_config = config_default, current_version = 2, oldest_version = 0,
        entry_created_at = 5, entry_updated_at = 6, custom_metadata = None,
        versions = [(1, \<lparr>version_created_at = 5, deletion_at = None, destroyed = False, version_data = Some (JObj [])\<rparr>),
                    (2, \<lparr>version_created_at = 6, deletion_at = None, destroyed = False, version_data = Some (JObj [])\<rparr>)]\<rparr>)]\<rparr>"

lemma kv2_sample_ok: "kv2_ok kv2_sample"
  by (simp add: kv2_sample_def kv2_ok_def bmap_ok_def entry_ok_def config_ok_def config_default_def
      MAX_RETAINED_VERSIONS_def version_ok_def upt_rec)

lemma kv2_valid_a: "valid_path ''a'' = Inr ()"
  by code_simp

theorem kv2_write_read_witness:
  "\<exists>resp st'. kv2_handle kv2_sample ''POST'' (''data/'' @ ''a'') (JObj [(''data'', JObj [(''k'', JNull)])]) 9 = (st', Inr resp) \<and>
    snd (kv2_handle st' ''GET'' (''data/'' @ ''a'') (JObj []) 11) =
      Inr (ok_data (json_object [(''data'', JObj [(''k'', JNull)]),
       (''metadata'', version_metadata \<lparr>version_created_at = 9, deletion_at = None, destroyed = False,
          version_data = Some (JObj [(''k'', JNull)])\<rparr> 3 None)]) False)"
proof -
  let ?b = "JObj [(''data'', JObj [(''k'', JNull)])]"
  have v: "write_value kv2_sample ''a'' ?b 9 False = Inr (JObj [(''k'', JNull)], 3)"
    by (simp add: write_value_def write_cas_def reject_unknown_def kv2_sample_def config_default_def Let_def)
  have e: "entry_at kv2_sample ''a'' 9 = snd (hd (kv2_entries kv2_sample))" by (simp add: entry_at_def kv2_sample_def)
  have dl: "write_deadline (entry_config (entry_at kv2_sample ''a'' 9)) (kv2_config kv2_sample) 9 = Inr None"
    by (simp add: e) (simp add: kv2_sample_def write_deadline_def deletion_delay_def config_default_def)
  obtain resp st' where h: "kv2_handle kv2_sample ''POST'' (''data/'' @ ''a'') ?b 9 = (st', Inr resp)"
    using v dl unfolding kv2_handle_data(2) [OF kv2_valid_a] by (simp add: kv2_write_def entry_at_def Let_def)
  have "kv2_handle st' ''GET'' (''data/'' @ ''a'') (JObj []) 11 =
     (st', Inr (ok_data (json_object [(''data'', JObj [(''k'', JNull)]),
       (''metadata'', version_metadata \<lparr>version_created_at = 9, deletion_at = None, destroyed = False,
          version_data = Some (JObj [(''k'', JNull)])\<rparr> (Suc (current_version (entry_at kv2_sample ''a'' 9))) (custom_metadata (entry_at kv2_sample ''a'' 9)))]) False))"
    using kv2_write_read [OF kv2_sample_ok kv2_valid_a _ h dl] by simp
  with h show ?thesis by (simp add: e) (simp add: kv2_sample_def)
qed

theorem kv2_cas_witness:
  "fst (kv2_write kv2_sample ''a'' (JObj [(''data'', JObj []), (''options'', JObj [(''cas'', json_u64 1)])]) 9 False) = kv2_sample"
proof -
  have "write_cas (JObj [(''data'', JObj []), (''options'', JObj [(''cas'', json_u64 1)])]) = Inr (Some 1)"
    by code_simp
  then show ?thesis
    using kv2_cas [of _ "Some 1" kv2_sample "''a''" 9 False] by (simp add: entry_at_def kv2_sample_def)
qed

theorem kv2_destroy_permanent_witness:
  "no_data (kv2_read (kv2_run (fst (kv2_handle kv2_sample ''POST'' (''destroy/'' @ ''a'')
       (JObj [(''versions'', JArr [json_u64 1])]) 9))
     [\<lparr>req_method = ''POST'', req_path = ''undelete/a'', req_body = JObj [(''versions'', JArr [json_u64 1])], req_now = 10\<rparr>])
     ''a'' (JObj [(''version'', json_u64 1)]) 12 False)"
proof -
  let ?b = "JObj [(''versions'', JArr [json_u64 1])]"
  have "snd (kv2_handle kv2_sample ''POST'' (''destroy/'' @ ''a'') ?b 9) = Inr (empty_ok True)"
    by code_simp
  then obtain st' where h: "kv2_handle kv2_sample ''POST'' (''destroy/'' @ ''a'') ?b 9 = (st', Inr (empty_ok True))"
    by (metis prod.collapse)
  show ?thesis
    unfolding h fst_conv
    by (rule kv2_destroy_permanent [OF kv2_sample_ok kv2_valid_a h, of "[json_u64 1]" _ "snd (hd (kv2_entries kv2_sample))"])
      (simp_all add: kv2_sample_def)
qed

end
