(* ===== verification/Totp_Codec.thy ===== *)
theory Totp_Codec
  imports Totp
begin

text \<open>
  The encodings of the one-time password engine are inverse to each other: base32 through a
  description by groups of bits, percent encoding byte by byte, and the otpauth URL, whose
  import gives back the key it was made from.
\<close>

unbundle bit_operations_syntax

section \<open>Bit groups\<close>

definition nbits :: "nat \<Rightarrow> nat \<Rightarrow> bool list" where
  "nbits k n = map (\<lambda>i. odd (n div 2 ^ i)) (rev [0..<k])"

definition bval :: "bool list \<Rightarrow> nat" where
  "bval bs = foldl (\<lambda>n b. 2 * n + of_bool b) 0 bs"

lemma length_nbits [simp]: "length (nbits k n) = k"
  by (simp add: nbits_def)

lemma bval_Nil [simp]: "bval [] = 0"
  by (simp add: bval_def)

lemma bval_snoc [simp]: "bval (bs @ [b]) = 2 * bval bs + of_bool b"
  by (simp add: bval_def)

lemma bval_append: "bval (xs @ ys) = bval xs * 2 ^ length ys + bval ys"
proof (induction ys rule: rev_induct)
  case (snoc y ys)
  have "bval (xs @ ys @ [y]) = 2 * bval (xs @ ys) + of_bool y"
    using bval_snoc [of "xs @ ys" y] by simp
  then show ?case using snoc by (simp add: algebra_simps)
qed simp

lemma bval_bound: "bval bs < 2 ^ length bs"
  by (induction bs rule: rev_induct) (auto simp: of_bool_def)

lemma nbits_Suc: "nbits (Suc k) n = nbits k (n div 2) @ [odd n]"
proof -
  have "map (\<lambda>i. odd (n div 2 ^ i)) (rev [0..<Suc k]) = map (\<lambda>i. odd (n div 2 ^ i)) (rev (0 # map Suc [0..<k]))"
    by (simp only: upt_conv_Cons zero_less_Suc map_Suc_upt)
  then show ?thesis by (simp add: nbits_def rev_map div_mult2_eq)
qed

lemma bval_nbits: "bval (nbits k n) = n mod 2 ^ k"
proof (induction k arbitrary: n)
  case (Suc k)
  have "n mod 2 ^ Suc k = 2 * (n div 2 mod 2 ^ k) + n mod 2"
    using mod_mult2_eq [of n 2 "2 ^ k"] by simp
  then show ?case by (simp add: nbits_Suc Suc mod_2_eq_odd)
qed (simp add: nbits_def)

lemma nbits_bval: "nbits (length bs) (bval bs) = bs"
proof (induction bs rule: rev_induct)
  case (snoc b bs)
  have "(2 * bval bs + of_bool b) div 2 = bval bs" by (cases b) simp_all
  then show ?case using snoc by (simp add: nbits_Suc)
qed (simp add: nbits_def)

function groups :: "nat \<Rightarrow> bool list \<Rightarrow> nat list \<times> bool list" where
  "groups k bs =
     (if k = 0 \<or> length bs < k then ([], bs)
      else (bval (take k bs) # fst (groups k (drop k bs)), snd (groups k (drop k bs))))"
  by pat_completeness auto
termination
  by (relation "measure (\<lambda>(k, bs). length bs)") auto

declare groups.simps [simp del]

lemma groups_short: "length bs < k \<Longrightarrow> groups k bs = ([], bs)"
  by (subst groups.simps) simp

lemma groups_step:
  "0 < k \<Longrightarrow> length g = k \<Longrightarrow> groups k (g @ bs) = (bval g # fst (groups k bs), snd (groups k bs))"
  by (subst groups.simps) simp

lemma groups_rest: "0 < k \<Longrightarrow> length (snd (groups k bs)) < k"
proof (induction k bs rule: groups.induct)
  case (1 k bs)
  then show ?case by (subst groups.simps) auto
qed

lemma groups_append:
  assumes "0 < k"
  shows "groups k (xs @ ys) =
    (fst (groups k xs) @ fst (groups k (snd (groups k xs) @ ys)), snd (groups k (snd (groups k xs) @ ys)))"
  using assms
proof (induction k xs rule: groups.induct)
  case (1 k xs)
  show ?case
  proof (cases "length xs < k")
    case True
    then show ?thesis by (simp add: groups_short)
  next
    case False
    then have split: "xs = take k xs @ drop k xs" "length (take k xs) = k" by simp_all
    have a: "groups k (xs @ ys) = (bval (take k xs) # fst (groups k (drop k xs @ ys)), snd (groups k (drop k xs @ ys)))"
      using groups_step [OF \<open>0 < k\<close> split(2), of "drop k xs @ ys"] by (metis append_assoc split(1))
    have b: "groups k xs = (bval (take k xs) # fst (groups k (drop k xs)), snd (groups k (drop k xs)))"
      using groups_step [OF \<open>0 < k\<close> split(2), of "drop k xs"] split(1) by metis
    show ?thesis using 1 False by (simp add: a b)
  qed
qed

lemma concat_groups:
  assumes "0 < k"
  shows "concat (map (nbits k) (fst (groups k bs))) @ snd (groups k bs) = bs"
  using assms
proof (induction k bs rule: groups.induct)
  case (1 k bs)
  show ?case
  proof (cases "length bs < k")
    case True
    then show ?thesis by (simp add: groups_short)
  next
    case False
    have "nbits k (bval (take k bs)) = take k bs"
      using nbits_bval [of "take k bs"] False by simp
    then show ?thesis using 1 False by (subst (1 2) groups.simps) simp
  qed
qed

lemma groups_concat:
  assumes "0 < k" and "\<forall>v \<in> set vs. v < 2 ^ k" and "length r < k"
  shows "groups k (concat (map (nbits k) vs) @ r) = (vs, r)"
  using assms(2)
proof (induction vs)
  case Nil
  then show ?case by (simp add: groups_short assms)
next
  case (Cons v vs)
  then have "groups k (concat (map (nbits k) vs) @ r) = (vs, r)" by simp
  moreover have "bval (nbits k v) = v" using Cons.prems by (simp add: bval_nbits)
  ultimately show ?case
    using groups_step [of k "nbits k v" "concat (map (nbits k) vs) @ r"] assms(1) by simp
qed

section \<open>Base32\<close>

lemma base32_emit_groups:
  "base32_emit (bval (p @ q)) (length q) out =
     (out @ map (\<lambda>v. BASE32 ! v) (fst (groups 5 q)), length (snd (groups 5 q)))"
proof (induction "length q" arbitrary: p q out rule: less_induct)
  case less
  show ?case
  proof (cases "length q < 5")
    case True
    then show ?thesis by (subst base32_emit.simps) (simp add: groups_short)
  next
    case False
    define g where "g = take 5 q"
    define q' where "q' = drop 5 q"
    have q: "q = g @ q'" "length g = 5" "length q = length q' + 5"
      using False by (simp_all add: g_def q'_def)
    have "bval (p @ q) = (bval p * 2 ^ 5 + bval g) * 2 ^ length q' + bval q'"
      using bval_append [of "p @ g" q'] bval_append [of p g] q by simp
    then have "bval (p @ q) div 2 ^ length q' = bval p * 2 ^ 5 + bval g"
      using bval_bound [of q'] by simp
    then have v: "bval (p @ q) div 2 ^ (length q - 5) mod 32 = bval g"
      using bval_bound [of g] q by simp
    have "base32_emit (bval (p @ q)) (length q) out =
        base32_emit (bval ((p @ g) @ q')) (length q') (out @ [BASE32 ! bval g])"
      using False v q by (subst base32_emit.simps) simp
    also have "\<dots> = (out @ [BASE32 ! bval g] @ map (\<lambda>v. BASE32 ! v) (fst (groups 5 q')), length (snd (groups 5 q')))"
      using less [of q' "p @ g" "out @ [BASE32 ! bval g]"] q by simp
    finally show ?thesis using groups_step [of 5 g q'] q by simp
  qed
qed

definition byte_bits :: "byte list \<Rightarrow> bool list" where
  "byte_bits bs = concat (map (\<lambda>b. nbits 8 (unat b)) bs)"

lemma bval_suffix: "bval (p @ r) mod 2 ^ length r = bval r"
  using bval_bound [of r] by (simp add: bval_append)

lemma encode_loop_groups:
  assumes "length r < 5"
  shows "encode_base32_loop bs (bval r) (length r) out =
    (bval (snd (groups 5 (r @ byte_bits bs))), length (snd (groups 5 (r @ byte_bits bs))),
     out @ map (\<lambda>v. BASE32 ! v) (fst (groups 5 (r @ byte_bits bs))))"
  using assms
proof (induction bs arbitrary: r out)
  case Nil
  then show ?case by (simp add: byte_bits_def groups_short)
next
  case (Cons b bs)
  define q where "q = r @ nbits 8 (unat b)"
  have acc: "bval r * 256 + unat b = bval q" "length r + 8 = length q"
    using unat_byte_bound [of b] by (simp_all add: q_def bval_append bval_nbits)
  define s where "s = snd (groups 5 q)"
  have s: "length s < 5" using groups_rest [of 5 q] by (simp add: s_def)
  have emit: "base32_emit (bval q) (length q) out = (out @ map (\<lambda>v. BASE32 ! v) (fst (groups 5 q)), length s)"
    using base32_emit_groups [of "[]" q out] by (simp add: s_def)
  have "q = concat (map (nbits 5) (fst (groups 5 q))) @ s"
    using concat_groups [of 5 q] by (simp add: s_def)
  then have "bval q mod 2 ^ length s = bval s" by (metis bval_suffix)
  moreover have "r @ byte_bits (b # bs) = q @ byte_bits bs" by (simp add: q_def byte_bits_def)
  ultimately show ?case
    using Cons.IH [OF s, of "out @ map (\<lambda>v. BASE32 ! v) (fst (groups 5 q))"]
    by (simp add: acc emit Let_def groups_append [of 5 q "byte_bits bs"] s_def [symmetric])
qed

definition base32_values :: "byte list \<Rightarrow> nat list" where
  "base32_values bs =
     (let (vs, r) = groups 5 (byte_bits bs) in
      if r = [] then vs else vs @ [bval (r @ replicate (5 - length r) False)])"

lemma bval_zeros [simp]: "bval (replicate n False) = 0"
proof (induction n)
  case (Suc n)
  have "replicate (Suc n) False = replicate n False @ [False]" by (simp add: replicate_append_same)
  then show ?case using Suc by (simp only: bval_snoc) simp
qed simp

lemma encode_base32_values: "encode_base32 bs = map (\<lambda>v. BASE32 ! v) (base32_values bs)"
proof -
  obtain vs r where g: "groups 5 (byte_bits bs) = (vs, r)" by fastforce
  then have "length r < 5" using groups_rest [of 5 "byte_bits bs"] by simp
  moreover have "bval r * 2 ^ (5 - length r) mod 32 = bval (r @ replicate (5 - length r) False)"
    using bval_bound [of "r @ replicate (5 - length r) False"] \<open>length r < 5\<close>
    by (simp add: bval_append)
  ultimately show ?thesis
    using encode_loop_groups [of "[]" bs "[]"]
    by (simp add: encode_base32_def base32_values_def g)
qed

lemma groups_bound: "v \<in> set (fst (groups k bs)) \<Longrightarrow> 0 < k \<Longrightarrow> v < 2 ^ k"
proof (induction k bs rule: groups.induct)
  case (1 k bs)
  then show ?case
    using bval_bound [of "take k bs"] by (subst (asm) (2) groups.simps) (auto split: if_splits simp: min_def)
qed

lemma base32_values_bits:
  "\<exists>z < 5. concat (map (nbits 5) (base32_values bs)) = byte_bits bs @ replicate z False"
  and base32_values_bound: "\<forall>v \<in> set (base32_values bs). v < 32"
proof -
  obtain vs r where g: "groups 5 (byte_bits bs) = (vs, r)" by fastforce
  then have r: "length r < 5" using groups_rest [of 5 "byte_bits bs"] by simp
  have c: "concat (map (nbits 5) vs) @ r = byte_bits bs" using concat_groups [of 5 "byte_bits bs"] g by simp
  have n: "nbits 5 (bval (r @ replicate (5 - length r) False)) = r @ replicate (5 - length r) False"
    using nbits_bval [of "r @ replicate (5 - length r) False"] r by simp
  show "\<exists>z < 5. concat (map (nbits 5) (base32_values bs)) = byte_bits bs @ replicate z False"
  proof (cases "r = []")
    case True
    then show ?thesis using c by (intro exI [of _ 0]) (simp add: base32_values_def g)
  next
    case False
    then have "concat (map (nbits 5) (base32_values bs)) =
        concat (map (nbits 5) vs) @ r @ replicate (5 - length r) False"
      using n by (simp add: base32_values_def g)
    also have "\<dots> = byte_bits bs @ replicate (5 - length r) False" using c by simp
    finally show ?thesis using False by (intro exI [of _ "5 - length r"]) simp
  qed
  have "\<forall>v \<in> set vs. v < 2 ^ 5" using groups_bound [of _ 5 "byte_bits bs"] g by simp
  then show "\<forall>v \<in> set (base32_values bs). v < 32"
    using bval_bound [of "r @ replicate (5 - length r) False"] r by (auto simp: base32_values_def g)
qed

section \<open>Base32\<close>

lemma base32_position: "v < 32 \<Longrightarrow> position (to_ascii_uppercase (BASE32 ! v)) BASE32 = Some v"
proof -
  have "list_all (\<lambda>v. position (to_ascii_uppercase (BASE32 ! v)) BASE32 = Some v \<and> BASE32 ! v \<noteq> CHR ''='') [0..<32]"
    by code_simp
  then show "v < 32 \<Longrightarrow> ?thesis" by (simp add: list_all_iff)
qed

lemma base32_no_pad: "v < 32 \<Longrightarrow> BASE32 ! v \<noteq> CHR ''='' \<and> is_ascii_alphanumeric (BASE32 ! v)"
proof -
  have "list_all (\<lambda>v. BASE32 ! v \<noteq> CHR ''='' \<and> is_ascii_alphanumeric (BASE32 ! v)) [0..<32]"
    by code_simp
  then show "v < 32 \<Longrightarrow> ?thesis" by (simp add: list_all_iff)
qed

lemma decode_loop_groups:
  assumes "length r < 8" and "\<forall>v \<in> set vs. v < 32"
  defines "C \<equiv> \<lambda>vs. concat (map (nbits 5) vs)"
  shows "decode_base32_loop (map (\<lambda>v. BASE32 ! v) vs) (bval r) (length r) out =
    Inr (bval (snd (groups 8 (r @ C vs))), length (snd (groups 8 (r @ C vs))),
      out @ map word_of_nat (fst (groups 8 (r @ C vs))))"
  using assms(1,2)
proof (induction vs arbitrary: r out)
  case Nil
  then show ?case by (simp add: C_def groups_short)
next
  case (Cons v vs)
  define q where "q = r @ nbits 5 v"
  have acc: "bval r * 32 + v = bval q" "length r + 5 = length q"
    using Cons.prems by (simp_all add: q_def bval_append bval_nbits)
  have pos: "position (to_ascii_uppercase (BASE32 ! v)) BASE32 = Some v"
    using Cons.prems by (intro base32_position) simp
  have app: "r @ C (v # vs) = q @ C vs" by (simp add: q_def C_def)
  show ?case
  proof (cases "8 \<le> length q")
    case True
    define g s where "g = take 8 q" and "s = drop 8 q"
    have q: "q = g @ s" "length g = 8" "length q = length s + 8" "length s < 8"
      using True Cons.prems acc(2) by (simp_all add: g_def s_def)
    have "bval q mod 2 ^ length s = bval s" "bval q div 2 ^ length s = bval g"
      using bval_bound [of s] by (simp_all add: q(1) bval_append)
    moreover have "groups 8 (q @ C vs) = (bval g # fst (groups 8 (s @ C vs)), snd (groups 8 (s @ C vs)))"
      using groups_step [of 8 g "s @ C vs"] q by simp
    ultimately show ?thesis
      using Cons.IH [OF q(4), of "out @ [word_of_nat (bval g)]"] Cons.prems True q(3)
      unfolding app by (simp add: pos acc Let_def)
  next
    case False
    then show ?thesis
      using Cons.IH [of q out] Cons.prems unfolding app by (simp add: pos acc Let_def)
  qed
qed

lemma trim_end_no_match: "c \<notin> set s \<Longrightarrow> trim_end_matches s c = s"
proof -
  assume "c \<notin> set s"
  then have "dropWhile (\<lambda>x. x = c) (rev s) = rev s"
    by (cases "rev s") (auto simp: dropWhile_eq_self_iff dest: arg_cong [of _ _ set])
  then show ?thesis by (simp add: trim_end_matches_def)
qed

lemma byte_bits_map: "byte_bits bs = concat (map (nbits 8) (map unat bs))"
  by (simp add: byte_bits_def comp_def)

lemma base32_round_trip:
  assumes "length bs \<le> 160"
  shows "decode_base32 (encode_base32 bs) = Inr bs"
proof -
  obtain z where z: "z < 5" "concat (map (nbits 5) (base32_values bs)) = byte_bits bs @ replicate z False"
    using base32_values_bits by blast
  note bound = base32_values_bound [of bs]
  have "length (concat (map (nbits 5) (base32_values bs))) = 5 * length (base32_values bs)"
    by (induction "base32_values bs") (simp_all add: length_concat comp_def sum_list_triv)
  moreover have "length (byte_bits bs) = 8 * length bs"
    by (simp add: byte_bits_def length_concat comp_def sum_list_triv)
  ultimately have "5 * length (base32_values bs) = 8 * length bs + z" using z(2) by simp
  then have len: "length (encode_base32 bs) \<le> 256" using assms z(1) by (simp add: encode_base32_values)
  have "CHR ''='' \<notin> set (encode_base32 bs)" using bound base32_no_pad by (fastforce simp: encode_base32_values)
  then have trim: "trim_end_matches (encode_base32 bs) (CHR ''='') = encode_base32 bs" by (rule trim_end_no_match)
  have "groups 8 (byte_bits bs @ replicate z False) = (map unat bs, replicate z False)"
    unfolding byte_bits_map using unat_byte_bound z(1) by (intro groups_concat) auto
  then have "decode_base32_loop (encode_base32 bs) 0 0 [] = Inr (0, z, bs)"
    using decode_loop_groups [of "[]" "base32_values bs" "[]"] bound z(2)
    by (simp add: encode_base32_values comp_def)
  then show ?thesis using len z(1) by (simp add: decode_base32_def trim Let_def)
qed

section \<open>Percent encoding\<close>

section \<open>Percent encoding\<close>

lemma byte_of_lt: "byte_of c < 256"
  by simp

lemma byte_of_hex_upper: "n < 16 \<Longrightarrow> byte_of (hex_upper n) = (if n < 10 then 48 + n else 55 + n)"
  by (simp add: hex_upper_def)

lemma hex_round: "n < 16 \<Longrightarrow> hex_value (hex_upper n) = Some n \<and> hex_upper n \<noteq> CHR ''+''"
proof -
  assume n: "n < 16"
  then have "byte_of (hex_upper n) \<noteq> byte_of (CHR ''+'')" by (simp add: byte_of_hex_upper)
  then have "hex_upper n \<noteq> CHR ''+''" by metis
  then show ?thesis using n by (auto simp: hex_value_def byte_of_hex_upper is_ascii_digit_def)
qed

lemma parse_hex_encoded:
  "parse_hex_pair (hex_upper (byte_of c div 16)) (hex_upper (byte_of c mod 16)) = Some c"
proof -
  have "byte_of c div 16 < 16" "byte_of c mod 16 < 16" using byte_of_lt [of c] by (simp_all add: less_mult_imp_div_less)
  then show ?thesis using hex_round by (simp add: parse_hex_pair_def)
qed

lemma percent_plain_not_special:
  "is_ascii_alphanumeric c \<or> c \<in> set ''-._~'' \<Longrightarrow> c \<noteq> CHR ''%'' \<and> c \<noteq> CHR ''+''"
  by (auto simp: is_ascii_alphanumeric_def is_ascii_alphabetic_def is_ascii_lowercase_def
      is_ascii_uppercase_def is_ascii_digit_def)

lemma percent_decode_encoded:
  "percent_decode_loop (percent_encode s @ t) out = percent_decode_loop t (out @ s)"
proof (induction s arbitrary: out)
  case (Cons c s)
  have "percent_encode (c # s) @ t = percent_encode_byte c @ percent_encode s @ t"
    by (simp add: percent_encode_def)
  moreover have "percent_decode_loop (percent_encode_byte c @ u) out = percent_decode_loop u (out @ [c])" for u
    using percent_plain_not_special [of c]
    by (auto simp: percent_encode_byte_def parse_hex_encoded)
  ultimately show ?case using Cons [of "out @ [c]"] by simp
qed (simp add: percent_encode_def)

lemma percent_decode_plain:
  "CHR ''%'' \<notin> set s \<Longrightarrow> CHR ''+'' \<notin> set s \<Longrightarrow> percent_decode_loop (s @ t) out = percent_decode_loop t (out @ s)"
  by (induction s arbitrary: out) auto

lemma percent_round_trip: "utf8_valid s \<Longrightarrow> percent_decode (percent_encode s) = Inr s"
  using percent_decode_encoded [of s "[]" "[]"] by (simp add: percent_decode_def)

lemma utf8_ascii: "list_all (\<lambda>c. byte_of c < 128) s \<Longrightarrow> utf8_valid s"
  by (induction s) auto

lemma percent_decode_ascii:
  "list_all is_ascii_alphanumeric s \<Longrightarrow> percent_decode s = Inr s"
proof -
  assume s: "list_all is_ascii_alphanumeric s"
  then have "list_all (\<lambda>c. byte_of c < 128) s"
    by (auto simp: list_all_iff is_ascii_alphanumeric_def is_ascii_alphabetic_def is_ascii_lowercase_def
      is_ascii_uppercase_def is_ascii_digit_def)
  then have "utf8_valid s" by (rule utf8_ascii)
  moreover have "CHR ''%'' \<notin> set s" "CHR ''+'' \<notin> set s"
    using s percent_plain_not_special by (auto simp: list_all_iff)
  ultimately show ?thesis using percent_decode_plain [of s "[]" "[]"] by (simp add: percent_decode_def)
qed

lemma percent_encode_safe:
  "c \<in> set (percent_encode s) \<Longrightarrow> c \<notin> set ''?&=#:''"
proof -
  have hex: "hex_upper n \<notin> set ''?&=#:''" if "n < 16" for n
  proof
    assume "hex_upper n \<in> set ''?&=#:''"
    then have "byte_of (hex_upper n) \<in> set (map byte_of ''?&=#:'')" by (metis image_eqI list.set_map)
    then show False using that by (auto simp: byte_of_hex_upper split: if_splits)
  qed
  have "c \<in> set (percent_encode_byte d) \<Longrightarrow> c \<notin> set ''?&=#:''" for d
  proof -
    have "byte_of d div 16 < 16" "byte_of d mod 16 < 16" using byte_of_lt [of d] by (simp_all add: less_mult_imp_div_less)
    then show "c \<in> set (percent_encode_byte d) \<Longrightarrow> ?thesis"
      using hex [of "byte_of d div 16"] hex [of "byte_of d mod 16"]
      by (auto simp: percent_encode_byte_def is_ascii_alphanumeric_def is_ascii_alphabetic_def
        is_ascii_lowercase_def is_ascii_uppercase_def is_ascii_digit_def split: if_splits)
  qed
  then show "c \<in> set (percent_encode s) \<Longrightarrow> ?thesis" by (auto simp: percent_encode_def)
qed

section \<open>The otpauth URL\<close>

lemma utf8_valid_append: "utf8_valid s \<Longrightarrow> utf8_valid (s @ t) = utf8_valid t"
proof (induction "length s" arbitrary: s rule: less_induct)
  case less
  show ?case
  proof (cases s)
    case (Cons a r)
    have IH: "utf8_valid u \<Longrightarrow> length u < length s \<Longrightarrow> utf8_valid (u @ t) = utf8_valid t" for u
      using less.hyps by blast
    consider (1) "byte_of a < 128" | (2) "194 \<le> byte_of a \<and> byte_of a \<le> 223"
      | (3) "224 \<le> byte_of a \<and> byte_of a \<le> 239" | (4) "240 \<le> byte_of a \<and> byte_of a \<le> 244"
      using less.prems Cons by (auto split: if_splits)
    then show ?thesis
    proof cases
      case 1
      then show ?thesis using less.prems IH [of r] by (simp add: Cons)
    next
      case 2
      then obtain b u where r: "r = b # u" using less.prems by (cases r) (auto simp: Cons)
      show ?thesis using less.prems 2 IH [of u] unfolding Cons r by simp
    next
      case 3
      then obtain b c u where r: "r = b # c # u"
        using less.prems by (cases r; cases "tl r") (auto simp: Cons)
      show ?thesis using less.prems 3 IH [of u] unfolding Cons r by simp
    next
      case 4
      then obtain b c d u where r: "r = b # c # d # u"
        using less.prems by (cases r; cases "tl r"; cases "tl (tl r)") (auto simp: Cons)
      show ?thesis using less.prems 4 IH [of u] unfolding Cons r by simp
    qed
  qed simp
qed

lemma alphanumeric_safe: "list_all is_ascii_alphanumeric s \<Longrightarrow> c \<in> set ''?&=#:%+'' \<Longrightarrow> c \<notin> set s"
  by (auto simp: list_all_iff is_ascii_alphanumeric_def is_ascii_alphabetic_def is_ascii_lowercase_def
      is_ascii_uppercase_def is_ascii_digit_def)

lemma digits_alphanumeric: "list_all is_ascii_digit s \<Longrightarrow> list_all is_ascii_alphanumeric s"
  by (auto simp: list_all_iff is_ascii_alphanumeric_def)

lemma encode_base32_alphanumeric: "list_all is_ascii_alphanumeric (encode_base32 bs)"
  using base32_values_bound [of bs] base32_no_pad by (simp add: encode_base32_values list_all_iff)
lemma parse_pair_step:
  assumes "list_all is_ascii_alphanumeric f" and "percent_decode raw = Inr v" and "url_field f = Some mapped"
    and "map_of m mapped = None"
  shows "parse_url_pairs ((f @ CHR ''='' # raw) # rest) (JObj m) =
    parse_url_pairs rest (JObj (binsert mapped (JStr v) m))"
proof -
  have "split_once (CHR ''='') (f @ CHR ''='' # raw) = Some (f, raw)"
    using alphanumeric_safe [OF assms(1), of "CHR ''=''"] by (simp add: split_once_Some_iff)
  then show ?thesis using assms percent_decode_ascii [OF assms(1)] by (simp add: json_set_def)
qed

definition totp_url_pairs :: "totp_key \<Rightarrow> (string \<times> string) list" where
  "totp_url_pairs k =
     [(''algorithm'', tk_algorithm k), (''digits'', nat_to_dec (tk_digits k)),
      (''issuer'', percent_encode (tk_issuer k)), (''period'', nat_to_dec (tk_period k)),
      (''secret'', encode_base32 (tk_secret k))]"

lemma totp_url_shape:
  "totp_url k = ''otpauth://totp/'' @ (percent_encode (tk_issuer k) @ CHR '':'' # percent_encode (tk_account_name k))
     @ CHR ''?'' # join_with (CHR ''&'') (map (\<lambda>(f, v). f @ CHR ''='' # v) (totp_url_pairs k))"
  by (simp add: totp_url_def totp_url_pairs_def)

lemma url_field_simps:
  "url_field ''algorithm'' = Some ''algorithm''" "url_field ''digits'' = Some ''digits''"
  "url_field ''issuer'' = Some ''issuer''" "url_field ''period'' = Some ''period''"
  "url_field ''secret'' = Some ''key''"
  by (simp_all add: url_field_def)

lemma url_field_names:
  "list_all is_ascii_alphanumeric ''algorithm''" "list_all is_ascii_alphanumeric ''digits''"
  "list_all is_ascii_alphanumeric ''issuer''" "list_all is_ascii_alphanumeric ''period''"
  "list_all is_ascii_alphanumeric ''secret''"
  by code_simp+

definition url_params :: "totp_key \<Rightarrow> (string \<times> json) list" where
  "url_params k =
     [(''account_name'', JStr (tk_account_name k)), (''algorithm'', JStr (tk_algorithm k)),
      (''digits'', JStr (nat_to_dec (tk_digits k))), (''issuer'', JStr (tk_issuer k)),
      (''key'', JStr (encode_base32 (tk_secret k))), (''period'', JStr (nat_to_dec (tk_period k)))]"

lemma parse_url_totp_url:
  assumes alg: "list_all is_ascii_alphanumeric (tk_algorithm k)"
    and utf8: "utf8_valid (tk_issuer k)" "utf8_valid (tk_account_name k)"
    and colon: "CHR '':'' \<notin> set (tk_issuer k)" and len: "length (totp_url k) \<le> 2048"
  shows "parse_url (totp_url k) = Inr (JObj (url_params k))"
proof -
  let ?label = "percent_encode (tk_issuer k) @ CHR '':'' # percent_encode (tk_account_name k)"
  let ?query = "join_with (CHR ''&'') (map (\<lambda>(f, v). f @ CHR ''='' # v) (totp_url_pairs k))"
  have dig: "list_all is_ascii_alphanumeric (nat_to_dec n)" for n
    using nat_to_dec_digits digits_alphanumeric by blast
  note safe = alphanumeric_safe [OF alg] alphanumeric_safe [OF dig] alphanumeric_safe [OF encode_base32_alphanumeric]
    alphanumeric_safe [OF url_field_names(1)] alphanumeric_safe [OF url_field_names(2)]
    alphanumeric_safe [OF url_field_names(3)] alphanumeric_safe [OF url_field_names(4)]
    alphanumeric_safe [OF url_field_names(5)]
  have enc: "c \<in> set ''?&=#:'' \<Longrightarrow> c \<notin> set (percent_encode s)" for c s using percent_encode_safe by blast
  have hash: "CHR ''#'' \<notin> set (totp_url k)"
    using enc [of "CHR ''#''"] alphanumeric_safe [OF alg, of "CHR ''#''"] alphanumeric_safe [OF dig, of "CHR ''#''"]
      alphanumeric_safe [OF encode_base32_alphanumeric, of "CHR ''#''"]
    by (simp add: totp_url_def)
  have q: "split_once (CHR ''?'') (?label @ CHR ''?'' # ?query) = Some (?label, ?query)"
    unfolding split_once_Some_iff using enc [of "CHR ''?''"] by simp
  have label: "percent_decode ?label = Inr (tk_issuer k @ CHR '':'' # tk_account_name k)"
  proof -
    have "percent_decode_loop ?label [] = Inr (tk_issuer k @ CHR '':'' # tk_account_name k)"
      using percent_decode_encoded [of "tk_account_name k" "[]" "tk_issuer k @ '':''"]
      by (simp add: percent_decode_encoded)
    moreover have "utf8_valid (tk_issuer k @ CHR '':'' # tk_account_name k)"
      using utf8 by (simp add: utf8_valid_append)
    ultimately show ?thesis by (simp add: percent_decode_def)
  qed
  have amp: "CHR ''&'' \<notin> set w" if "w \<in> set (map (\<lambda>(f, v). f @ CHR ''='' # v) (totp_url_pairs k))" for w
    using that enc [of "CHR ''&''"] safe [of "CHR ''&''"] by (auto simp: totp_url_pairs_def)
  have split: "split_on (CHR ''&'') ?query = map (\<lambda>(f, v). f @ CHR ''='' # v) (totp_url_pairs k)"
    by (rule split_join) (use amp in \<open>simp_all add: totp_url_pairs_def\<close>)
  have pairs: "parse_url_pairs (map (\<lambda>(f, v). f @ CHR ''='' # v) (totp_url_pairs k)) (JObj []) =
      Inr (JObj (tl (url_params k)))"
    unfolding totp_url_pairs_def list.map prod.case
    by (subst parse_pair_step, rule url_field_names, rule percent_decode_ascii [OF alg] percent_decode_ascii [OF dig]
          percent_decode_ascii [OF encode_base32_alphanumeric] percent_round_trip [OF utf8(1)], rule url_field_simps,
        simp)+
      (simp add: url_params_def)
  have colon_split: "split_once (CHR '':'') (tk_issuer k @ CHR '':'' # tk_account_name k) = Some (tk_issuer k, tk_account_name k)"
    using colon by (simp add: split_once_Some_iff)
  have strip: "strip_prefix ''otpauth://totp/'' (totp_url k) = Some (?label @ CHR ''?'' # ?query)"
    unfolding totp_url_shape by (rule strip_prefix_self)
  have "parse_url (totp_url k) =
      Inr (json_set (json_set (JObj (tl (url_params k))) ''issuer'' (JStr (tk_issuer k))) ''account_name'' (JStr (tk_account_name k)))"
    unfolding parse_url_def strip ok_or_simps rbind_simps q prod.case label split pairs colon_split option.case
    using len hash by (simp add: url_params_def)
  then show ?thesis by (simp add: url_params_def json_set_def)
qed

lemma merge_url_totp:
  "merge_url_fields (url_params k) (JObj [(''url'', u)]) = Inr (JObj (url_params k @ [(''url'', u)]))"
  by (simp add: url_params_def json_set_def)

end
