(* ===== verification/Totp_Correct.thy ===== *)
theory Totp_Correct
  imports Totp_Codec Engine_Spec
begin

text \<open>
  Correctness of the one-time password engine: the invariant of its keys, the shape of codes,
  the case analysis of the handler, and the properties of export and import, replay and
  guessing protection.
\<close>

section \<open>Keys\<close>

definition totp_key_ok :: "totp_key \<Rightarrow> bool" where
  "totp_key_ok k =
     (10 \<le> length (tk_secret k) \<and> length (tk_secret k) \<le> 128 \<and>
      tk_algorithm k \<in> {''SHA1'', ''SHA256'', ''SHA512''} \<and> (tk_digits k = 6 \<or> tk_digits k = 8) \<and>
      1 \<le> tk_period k \<and> tk_period k \<le> 3600 \<and> tk_skew k \<le> 1 \<and> tk_failures k \<le> 10 \<and>
      length (tk_issuer k) \<le> 256 \<and> length (tk_account_name k) \<le> 256 \<and> CHR '':'' \<notin> set (tk_issuer k) \<and>
      \<not> has_control (tk_issuer k) \<and> \<not> has_control (tk_account_name k))"

definition totp_ok :: "totp \<Rightarrow> bool" where
  "totp_ok keys = (bmap_ok keys \<and> list_all (\<lambda>e. totp_key_ok (snd e)) keys)"

lemma totp_code_shape:
  assumes "totp_key_ok k"
  shows "\<exists>s. totp_code lib k c = Inr s \<and> length s = tk_digits k \<and> list_all is_ascii_digit s"
proof -
  have "totp_hmac_algorithm (tk_algorithm k) = Inr (tk_algorithm k)"
    using assms by (simp add: totp_key_ok_def totp_hmac_algorithm_def)
  moreover have "length (pad_dec (tk_digits k) (n mod 10 ^ tk_digits k)) = tk_digits k \<and>
      list_all is_ascii_digit (pad_dec (tk_digits k) (n mod 10 ^ tk_digits k))" for n
    using assms by (intro pad_dec_shape) (auto simp: totp_key_ok_def)
  ultimately show ?thesis by (simp add: totp_code_def Let_def)
qed

lemma totp_match_Inr:
  assumes "totp_key_ok k"
  shows "\<exists>m. totp_match lib k s cs m0 = Inr m \<and> (m = m0 \<or> (\<exists>c \<in> set cs. m = Some c \<and>
     (\<exists>expected. totp_code lib k c = Inr expected \<and>
        hmac_sign lib ''SHA256'' (tk_secret k) (bytes_of_string s) =
        hmac_sign lib ''SHA256'' (tk_secret k) (bytes_of_string expected)) \<and>
     is_none_or (last_accepted_counter k) (\<lambda>a. a < c)))"
proof (induction cs arbitrary: m0)
  case (Cons c cs)
  obtain e where e: "totp_code lib k c = Inr e" using totp_code_shape [OF assms] by blast
  show ?case
    using Cons [of "if hmac_sign lib ''SHA256'' (tk_secret k) (bytes_of_string s) =
        hmac_sign lib ''SHA256'' (tk_secret k) (bytes_of_string e)
        \<and> is_none_or (last_accepted_counter k) (\<lambda>a. a < c) then Some c else m0"]
    by (auto simp: e Let_def split: if_splits)
qed simp

lemma carry_counters_ok: "totp_key_ok k \<Longrightarrow> (\<forall>p. prev = Some p \<longrightarrow> totp_key_ok p) \<Longrightarrow> totp_key_ok (carry_counters prev k)"
  by (auto simp: carry_counters_def totp_key_ok_def split: option.splits)

lemma totp_new_key_ok:
  assumes "totp_new_key fill body = Inr (k, url)"
  shows "totp_key_ok k \<and> last_accepted_counter k = None \<and> failed_window k = 0 \<and> tk_failures k = 0"
  using assms unfolding totp_new_key_def Let_def
  apply (simp only: rbind_Inr_iff if_Inl_Inr_iff sum.inject prod.inject)
  apply (elim exE conjE)
  apply hypsubst
  apply (simp add: totp_key_ok_def totp_hmac_algorithm_def split: if_split_asm)
  done


section \<open>The handler\<close>

lemma totp_generate_unmutated: "totp_generate lib key now = Inr resp \<Longrightarrow> \<not> mutated resp"
  by (auto simp: totp_generate_def Let_def)

lemma totp_handle_cases:
  obtains (readonly) res where "totp_handle lib fill keys method path body now = (keys, res)"
      "\<And>resp. res = Inr resp \<Longrightarrow> \<not> mutated resp"
  | (put) name where "path = ''keys/'' @ name" "write_method method"
      "totp_handle lib fill keys method path body now = totp_write fill keys name body"
  | (remove) name where "path = ''keys/'' @ name" "method = ''DELETE''"
      "totp_handle lib fill keys method path body now = (bremove name keys, Inr (empty_ok (bcontains keys name)))"
  | (validate) name where "path = ''code/'' @ name" "write_method method"
      "totp_handle lib fill keys method path body now = totp_validate lib keys name body now"
proof -
  define listing where "listing \<longleftrightarrow> path = ''keys'' \<or> path = ''keys/''"
  define names where "names = (if method \<noteq> ''LIST'' then Inl unsupported
         else rbind (list_keys (map fst keys) '''' False body) (\<lambda>names.
           if names = [] then Inl not_found
           else Inr (ok_data (json_object [(''keys'', JArr (map JStr names))]) False)))"
  have names: "names = Inr resp \<Longrightarrow> \<not> mutated resp" for resp
    unfolding names_def by (auto split: if_splits)
  show thesis
  proof (cases listing)
    case True
    then have "totp_handle lib fill keys method path body now = (keys, names)"
      unfolding totp_handle_def listing_def names_def by simp
    then show thesis using names by (rule readonly)
  next
    case nl: False
    then have nl': "\<not> (path = ''keys'' \<or> path = ''keys/'')" by (simp add: listing_def)
    show thesis
    proof (cases "split_once (CHR ''/'') path")
      case None
      then have "totp_handle lib fill keys method path body now = (keys, Inl (eng_error 404 ''unknown TOTP operation''))"
        unfolding totp_handle_def if_not_P [OF nl'] None by simp
      then show thesis by (rule readonly) simp
    next
      case (Some pr)
      obtain operation name where pr: "pr = (operation, name)" by fastforce
      have path: "path = operation @ ''/'' @ name" using Some by (simp add: pr split_once_Some_iff)
      define c1 where "c1 \<longleftrightarrow> operation = ''keys'' \<and> write_method method"
      define c2 where "c2 \<longleftrightarrow> operation = ''keys'' \<and> method = ''DELETE''"
      define c3 where "c3 \<longleftrightarrow> operation = ''keys'' \<and> method = ''GET''"
      define c4 where "c4 \<longleftrightarrow> operation = ''code'' \<and> method = ''GET''"
      define c5 where "c5 \<longleftrightarrow> operation = ''code'' \<and> write_method method"
      define slash where "slash \<longleftrightarrow> CHR ''/'' \<in> set name"
      define get where "get = rbind (ok_or (map_of keys name) not_found) (\<lambda>key. Inr (ok_data (totp_describe key) False))"
      define gen where "gen = rbind (ok_or (map_of keys name) not_found) (\<lambda>key. totp_generate lib key now)"
      have get: "get = Inr resp \<Longrightarrow> \<not> mutated resp" for resp by (auto simp: get_def)
      have gen: "gen = Inr resp \<Longrightarrow> \<not> mutated resp" for resp
        using totp_generate_unmutated by (auto simp: gen_def)
      have eq: "totp_handle lib fill keys method path body now =
        sbind (keys, valid_path name) (\<lambda>keys' _.
          if slash then (keys', Inl (bad ''TOTP key names must be a single path segment''))
          else if c1 then totp_write fill keys' name body
          else if c2 then (bremove name keys', Inr (empty_ok (bcontains keys' name)))
          else if c3 then (keys', get) else if c4 then (keys', gen)
          else if c5 then totp_validate lib keys' name body now else (keys', Inl unsupported))"
        unfolding totp_handle_def if_not_P [OF nl'] Some pr ok_or_simps sbind_simps prod.case
          c1_def c2_def c3_def c4_def c5_def slash_def get_def gen_def
        by (cases "valid_path name") simp_all
      have rd: "totp_handle lib fill keys method path body now = (keys, res) \<Longrightarrow> (\<And>resp. res = Inr resp \<Longrightarrow> \<not> mutated resp) \<Longrightarrow> thesis" for res
        by (rule readonly)
      consider e where "valid_path name = Inl e" | "valid_path name = Inr ()" slash
        | (w) "valid_path name = Inr ()" "\<not> slash" c1 | (r) "valid_path name = Inr ()" "\<not> slash" "\<not> c1" c2
        | "valid_path name = Inr ()" "\<not> slash" "\<not> c1" "\<not> c2" c3 | "valid_path name = Inr ()" "\<not> slash" "\<not> c1" "\<not> c2" "\<not> c3" c4
        | (v) "valid_path name = Inr ()" "\<not> slash" "\<not> c1" "\<not> c2" "\<not> c3" "\<not> c4" c5
        | "valid_path name = Inr ()" "\<not> slash" "\<not> c1" "\<not> c2" "\<not> c3" "\<not> c4" "\<not> c5"
        by (cases "valid_path name") auto
      then show thesis
      proof cases
        case w
        then have "totp_handle lib fill keys method path body now = totp_write fill keys name body" by (simp add: eq)
        with w path show thesis by (intro put [of name]) (simp_all add: c1_def)
      next
        case r
        then have "totp_handle lib fill keys method path body now = (bremove name keys, Inr (empty_ok (bcontains keys name)))"
          by (simp add: eq)
        with r path show thesis by (intro remove [of name]) (simp_all add: c2_def)
      next
        case v
        then have "totp_handle lib fill keys method path body now = totp_validate lib keys name body now" by (simp add: eq)
        with v path show thesis by (intro validate [of name]) (simp_all add: c5_def)
      qed (rule rd, simp add: eq, simp add: get gen)+
    qed
  qed
qed

lemma totp_write_cases:
  obtains (fail) e where "totp_write fill keys name body = (keys, Inl e)"
  | (ok) k url resp where "totp_new_key fill body = Inr (k, url)" "mutated resp"
      "totp_write fill keys name body = (binsert name (carry_counters (map_of keys name) k) keys, Inr resp)"
proof (cases "totp_new_key fill body")
  case (Inl e)
  then show thesis by (intro fail [of e]) (simp add: totp_write_def)
next
  case (Inr p)
  obtain k url where p: "p = (k, url)" by fastforce
  then show thesis using Inr
    by (intro ok [of k url "if url then ok_data (json_object [(''url'', JStr (totp_url k))]) True else empty_ok True"])
      (simp_all add: totp_write_def)
qed

definition fresh_window :: "totp_key \<Rightarrow> nat \<Rightarrow> totp_key" where
  "fresh_window k now =
     (if failed_window k < now div tk_period k
      then k\<lparr>failed_window := now div tk_period k, tk_failures := 0\<rparr> else k)"

definition valid_answer :: "bool \<Rightarrow> engine_error + engine_response" where
  "valid_answer b = Inr (ok_data (json_object [(''valid'', JBool b)]) True)"

lemma fresh_window_fields [simp]:
  "tk_secret (fresh_window k now) = tk_secret k" "tk_algorithm (fresh_window k now) = tk_algorithm k"
  "tk_digits (fresh_window k now) = tk_digits k" "tk_period (fresh_window k now) = tk_period k"
  "tk_skew (fresh_window k now) = tk_skew k" "last_accepted_counter (fresh_window k now) = last_accepted_counter k"
  by (simp_all add: fresh_window_def)

lemma fresh_window_ok: "totp_key_ok k \<Longrightarrow> totp_key_ok (fresh_window k now)"
  by (simp add: fresh_window_def totp_key_ok_def)

definition counters_at :: "totp_key \<Rightarrow> nat \<Rightarrow> nat list" where
  "counters_at k now = [saturating_sub64 (now div tk_period k) (tk_skew k)..<
     Suc (saturating_add64 (now div tk_period k) (tk_skew k))]"

lemma totp_validate_cases:
  assumes "list_all (\<lambda>e. totp_key_ok (snd e)) keys"
  obtains (fail) e where "totp_validate lib keys name body now = (keys, Inl e)"
  | (limit) k where "map_of keys name = Some k" "10 \<le> tk_failures (fresh_window k now)"
      "totp_validate lib keys name body now = (binsert name (fresh_window k now) keys,
         Inl (eng_error 429 ''TOTP validation attempt limit reached for this period''))"
  | (accept) k code counter where "map_of keys name = Some k" "json_get body ''code'' = Some (JStr code)"
      "tk_failures (fresh_window k now) < 10"
      "totp_match lib (fresh_window k now) code (counters_at k now) None = Inr (Some counter)"
      "totp_validate lib keys name body now =
         (binsert name ((fresh_window k now)\<lparr>last_accepted_counter := Some counter, tk_failures := 0\<rparr>) keys,
          valid_answer True)"
  | (reject) k code where "map_of keys name = Some k" "json_get body ''code'' = Some (JStr code)"
      "tk_failures (fresh_window k now) < 10"
      "totp_match lib (fresh_window k now) code (counters_at k now) None = Inr None"
      "totp_validate lib keys name body now =
         (binsert name ((fresh_window k now)\<lparr>tk_failures := tk_failures (fresh_window k now) + 1\<rparr>) keys,
          valid_answer False)"
proof -
  let ?shape = "\<lambda>k code. length code \<noteq> tk_digits k \<or> \<not> list_all is_ascii_digit code"
  have eq: "totp_validate lib keys name body now =
     sbind (keys, reject_unknown body [''code'']) (\<lambda>keys _.
     sbind (keys, string_param body ''code'') (\<lambda>keys submitted.
     sbind (keys, ok_or (map_of keys name) not_found) (\<lambda>keys key.
     if ?shape key submitted
     then (keys, Inl (bad ''TOTP code must contain exactly the configured number of decimal digits''))
     else if 10 \<le> tk_failures (fresh_window key now)
     then (binsert name (fresh_window key now) keys, Inl (eng_error 429 ''TOTP validation attempt limit reached for this period''))
     else sbind (binsert name (fresh_window key now) keys, totp_match lib (fresh_window key now) submitted (counters_at key now) None)
       (\<lambda>_ matched. case matched of
           Some counter \<Rightarrow>
             (binsert name ((fresh_window key now)\<lparr>last_accepted_counter := Some counter, tk_failures := 0\<rparr>) keys,
              valid_answer True)
         | None \<Rightarrow>
             (binsert name ((fresh_window key now)\<lparr>tk_failures := tk_failures (fresh_window key now) + 1\<rparr>) keys,
              valid_answer False)))))"
    unfolding totp_validate_def Let_def fresh_window_def [symmetric] valid_answer_def counters_at_def fresh_window_fields
    by (rule refl)
  show thesis
  proof (cases "reject_unknown body [''code'']")
    case (Inl e)
    then show thesis by (intro fail [of e]) (simp add: eq)
  next
    case ru: (Inr u)
    show thesis
    proof (cases "string_param body ''code''")
      case (Inl e)
      then show thesis using ru by (intro fail [of e]) (simp add: eq)
    next
      case sp: (Inr code)
      then have code: "json_get body ''code'' = Some (JStr code)"
        by (auto simp: string_param_def Option.bind_eq_Some_conv)
      show thesis
      proof (cases "map_of keys name")
        case None
        then show thesis using ru sp by (intro fail [of not_found]) (simp add: eq)
      next
        case k: (Some k)
        then have "totp_key_ok (fresh_window k now)" using assms list_all_map_of fresh_window_ok by fastforce
        then obtain matched where m: "totp_match lib (fresh_window k now) code (counters_at k now) None = Inr matched"
          using totp_match_Inr by blast
        show thesis
        proof (cases "?shape k code")
          case True
          then show thesis using ru sp k by (intro fail) (simp add: eq)
        next
          case ns: False
          show thesis
          proof (cases "10 \<le> tk_failures (fresh_window k now)")
            case True
            then show thesis using ru sp k ns by (intro limit [of k]) (auto simp: eq)
          next
            case False
            then have lt: "tk_failures (fresh_window k now) < 10" by simp
            show thesis
            proof (cases matched)
              case None
              then show thesis using ru sp k ns lt m code by (intro reject [of k code]) (auto simp: eq)
            next
              case (Some counter)
              then show thesis using ru sp k ns lt m code by (intro accept [of k code counter]) (auto simp: eq)
            qed
          qed
        qed
      qed
    qed
  qed
qed

definition totp_request :: "'x crypto_scheme \<Rightarrow> totp \<Rightarrow> random_request \<Rightarrow> totp \<times> (engine_error + engine_response)" where
  "totp_request lib keys q = totp_handle lib (req_fill q) keys (req_method q) (req_path q) (req_body q) (req_now q)"

lemma totp_ok_put: "totp_ok keys \<Longrightarrow> totp_key_ok k \<Longrightarrow> totp_ok (binsert name k keys)"
  by (simp add: totp_ok_def list_all_binsert)

lemma totp_ok_remove: "totp_ok keys \<Longrightarrow> totp_ok (bremove name keys)"
  by (simp add: totp_ok_def list_all_bremove)

lemma totp_ok_get: "totp_ok keys \<Longrightarrow> map_of keys name = Some k \<Longrightarrow> totp_key_ok k"
  unfolding totp_ok_def by (blast intro: list_all_map_of)

lemma totp_write_ok: "totp_ok keys \<Longrightarrow> totp_ok (fst (totp_write fill keys name body))"
  by (cases rule: totp_write_cases [of fill keys name body])
    (use totp_new_key_ok totp_ok_get in \<open>auto intro!: totp_ok_put carry_counters_ok\<close>)

lemma totp_validate_ok: "totp_ok keys \<Longrightarrow> totp_ok (fst (totp_validate lib keys name body now))"
proof -
  assume ok: "totp_ok keys"
  then have all: "list_all (\<lambda>e. totp_key_ok (snd e)) keys" by (simp add: totp_ok_def)
  have fresh: "map_of keys name = Some k \<Longrightarrow> totp_key_ok (fresh_window k now)" for k
    using ok totp_ok_get fresh_window_ok by blast
  show ?thesis
    by (cases rule: totp_validate_cases [OF all, of lib name body now])
      (use ok fresh in \<open>auto intro!: totp_ok_put simp: totp_key_ok_def\<close>)
qed

lemma totp_request_ok: "totp_ok st \<Longrightarrow> totp_ok (fst (totp_request lib st q))"
  unfolding totp_request_def
  by (cases rule: totp_handle_cases [of lib "req_fill q" st "req_method q" "req_path q" "req_body q" "req_now q"])
    (simp_all add: totp_write_ok totp_validate_ok totp_ok_remove)

interpretation totp_engine: flagged_engine "totp_request lib" totp_ok "[]" for lib :: "'x crypto_scheme"
proof
  show "totp_ok []" by (simp add: totp_ok_def)
  show "totp_ok st'" if "totp_ok st" "totp_request lib st q = (st', Inr resp)" for st q st' resp
    using totp_request_ok [OF that(1), of lib q] that(2) by simp
  show "st' = st" if ok: "totp_ok st" and h: "totp_request lib st q = (st', Inr resp)" and m: "\<not> mutated resp" for st q st' resp
  proof (cases rule: totp_handle_cases [of lib "req_fill q" st "req_method q" "req_path q" "req_body q" "req_now q"])
    case (put name)
    then show ?thesis using h m by (cases rule: totp_write_cases [of "req_fill q" st name "req_body q"]) (auto simp: totp_request_def)
  next
    case (validate name)
    have "list_all (\<lambda>e. totp_key_ok (snd e)) st" using ok by (simp add: totp_ok_def)
    then show ?thesis using h m validate
      by (cases rule: totp_validate_cases [of st lib name "req_body q" "req_now q"]) (auto simp: totp_request_def valid_answer_def)
  qed (use h m in \<open>auto simp: totp_request_def bremove_absent\<close>)
qed

section \<open>Replay and guessing\<close>

definition validates :: "string \<Rightarrow> random_request \<Rightarrow> bool" where
  "validates name q = (req_path q = ''code/'' @ name \<and> write_method (req_method q))"

definition credential :: "totp_key \<Rightarrow> byte list \<times> string \<times> nat \<times> nat" where
  "credential k = (tk_secret k, tk_algorithm k, tk_period k, tk_digits k)"

primrec credential_kept ::
  "'x crypto_scheme \<Rightarrow> string \<Rightarrow> byte list \<times> string \<times> nat \<times> nat \<Rightarrow> totp \<Rightarrow> random_request list \<Rightarrow> bool" where
  "credential_kept lib name cred keys [] = (map_option credential (map_of keys name) = Some cred)"
| "credential_kept lib name cred keys (q # qs) =
     (map_option credential (map_of keys name) = Some cred
      \<and> credential_kept lib name cred (engine_commit (totp_request lib) keys q) qs)"

definition answers :: "'x crypto_scheme \<Rightarrow> string \<Rightarrow> totp \<Rightarrow> random_request \<Rightarrow> bool \<Rightarrow> bool" where
  "answers lib name keys q b = (validates name q \<and> snd (totp_request lib keys q) = valid_answer b)"

primrec totp_accepted :: "'x crypto_scheme \<Rightarrow> string \<Rightarrow> totp \<Rightarrow> random_request list \<Rightarrow> nat list" where
  "totp_accepted lib name keys [] = []"
| "totp_accepted lib name keys (q # qs) =
     (let keys' = engine_commit (totp_request lib) keys q;
          rest = totp_accepted lib name keys' qs in
      if answers lib name keys q True
      then (case Option.bind (map_of keys' name) last_accepted_counter of None \<Rightarrow> rest | Some c \<Rightarrow> c # rest)
      else rest)"

primrec totp_rejections :: "'x crypto_scheme \<Rightarrow> string \<Rightarrow> totp \<Rightarrow> random_request list \<Rightarrow> nat" where
  "totp_rejections lib name keys [] = 0"
| "totp_rejections lib name keys (q # qs) =
     (if answers lib name keys q False then 1 else 0)
     + totp_rejections lib name (engine_commit (totp_request lib) keys q) qs"

lemma valid_answer_inject [simp]: "valid_answer b = valid_answer c \<longleftrightarrow> b = c"
proof
  assume "valid_answer b = valid_answer c"
  then have "json_get (json_object [(''valid'', JBool b)]) ''valid'' = json_get (json_object [(''valid'', JBool c)]) ''valid''"
    unfolding valid_answer_def ok_data_def by (simp add: json_object_def)
  then show "b = c" by (simp add: json_object_get)
qed simp

lemma valid_answer_facts [simp]: "valid_answer b \<noteq> Inl e" "valid_answer b = Inr resp \<Longrightarrow> mutated resp"
  "Inl e \<noteq> valid_answer b"
  by (auto simp: valid_answer_def)

lemma valid_answer_ok_data: "valid_answer b \<noteq> Inr (empty_ok c)" "Inr (empty_ok c) \<noteq> valid_answer b"
  by (auto simp: valid_answer_def ok_data_def empty_ok_def)

lemma commit_valid_answer: "handle st q = (st', valid_answer b) \<Longrightarrow> engine_commit handle st q = st'"
  by (simp add: engine_commit_def valid_answer_def)

lemma totp_step:
  assumes ok: "totp_ok keys" and k: "map_of keys name = Some k"
    and k': "map_of (engine_commit (totp_request lib) keys q) name = Some k'" and cred: "credential k' = credential k"
  obtains (accept) counter where "answers lib name keys q True" "\<not> answers lib name keys q False"
      "last_accepted_counter k' = Some counter" "is_none_or (last_accepted_counter k) (\<lambda>a. a < counter)"
  | (reject) "answers lib name keys q False" "\<not> answers lib name keys q True" "last_accepted_counter k' = last_accepted_counter k"
      "failed_window k' = failed_window (fresh_window k (req_now q))"
      "tk_failures k' = tk_failures (fresh_window k (req_now q)) + 1" "tk_failures (fresh_window k (req_now q)) < 10"
  | (other) "\<not> answers lib name keys q True" "\<not> answers lib name keys q False"
      "last_accepted_counter k' = last_accepted_counter k" "failed_window k' = failed_window k"
      "tk_failures k' = tk_failures k"
proof -
  have all: "list_all (\<lambda>e. totp_key_ok (snd e)) keys" using ok by (simp add: totp_ok_def)
  have kok: "totp_key_ok k" using totp_ok_get [OF ok k] .
  note commit = engine_commit_def [of "totp_request lib" keys q]
  show thesis
  proof (cases rule: totp_handle_cases [of lib "req_fill q" keys "req_method q" "req_path q" "req_body q" "req_now q"])
    case (readonly res)
    have "\<not> answers lib name keys q b" for b
      using readonly by (auto simp: answers_def totp_request_def valid_answer_def)
    moreover have "engine_commit (totp_request lib) keys q = keys"
      using readonly by (auto simp: commit totp_request_def split: sum.splits)
    ultimately show thesis using k k' by (intro other) simp_all
  next
    case (put n)
    have na: "\<not> answers lib name keys q b" for b using put(1) by (simp add: answers_def validates_def)
    show thesis
      using k k' cred na put(3)
      by (cases rule: totp_write_cases [of "req_fill q" keys n "req_body q"])
        (auto simp: commit totp_request_def carry_counters_def credential_def split: if_splits intro: other)
  next
    case (remove n)
    have na: "\<not> answers lib name keys q b" for b using remove(1) by (simp add: answers_def validates_def)
    show thesis using k k' na remove(3)
      by (intro other) (auto simp: commit totp_request_def split: if_splits)
  next
    case (validate n)
    show thesis
    proof (cases "n = name")
      case False
      then have na: "\<not> answers lib name keys q b" for b using validate(1) by (simp add: answers_def validates_def)
      have "map_of (engine_commit (totp_request lib) keys q) name = map_of keys name"
        using False validate(3)
        by (cases rule: totp_validate_cases [OF all, of lib n "req_body q" "req_now q"])
          (auto simp: commit totp_request_def split: sum.splits)
      then show thesis using k k' na by (intro other) simp_all
    next
      case True
      have v: "validates name q" using validate(1,2) True by (simp add: validates_def)
      from all show thesis
      proof (cases rule: totp_validate_cases [of keys lib name "req_body q" "req_now q"])
        case (fail e)
        then show thesis using validate(3) True k k' by (intro other) (auto simp: answers_def commit totp_request_def)
      next
        case (limit k)
        then show thesis using validate(3) True \<open>map_of keys name = Some k\<close> assms(2) k'
          by (intro other) (auto simp: answers_def commit totp_request_def)
      next
        case (accept k2 code counter)
        have "k2 = k" using accept(1) k by simp
        have "is_none_or (last_accepted_counter (fresh_window k (req_now q))) (\<lambda>a. a < counter)"
          using totp_match_Inr [OF fresh_window_ok [OF kok], of lib "req_now q" code "counters_at k (req_now q)" None] accept(4)
          by (auto simp: \<open>k2 = k\<close>)
        moreover from accept(5) have h: "totp_request lib keys q =
            (binsert name ((fresh_window k (req_now q))\<lparr>last_accepted_counter := Some counter, tk_failures := 0\<rparr>) keys, valid_answer True)"
          using validate(3) True by (simp add: totp_request_def \<open>k2 = k\<close>)
        ultimately show thesis using v k'
          by (intro that(1) [of counter]) (auto simp: answers_def commit_valid_answer [of "totp_request lib", OF h] h)
      next
        case (reject k2 code)
        have "k2 = k" using reject(1) k by simp
        from reject(5) have h: "totp_request lib keys q =
            (binsert name ((fresh_window k (req_now q))\<lparr>tk_failures := tk_failures (fresh_window k (req_now q)) + 1\<rparr>) keys, valid_answer False)"
          using validate(3) True by (simp add: totp_request_def \<open>k2 = k\<close>)
        then show thesis using v k' reject(3)
          by (intro that(2)) (auto simp: answers_def commit_valid_answer [of "totp_request lib", OF h] h \<open>k2 = k\<close>)
      qed
    qed
  qed
qed

lemma credential_kept_head: "credential_kept lib name cred keys qs \<Longrightarrow> \<exists>k. map_of keys name = Some k \<and> credential k = cred"
  by (cases qs) (auto split: option.splits)

text \<open>
  C11: a one-time password is accepted at most once. As long as a key keeps its credential
  (secret, algorithm, period and digits), the counters of the accepted validations strictly
  increase, starting above the last one accepted before, whatever requests are interleaved:
  other keys, metadata changes and re-imports of the same seed included.
\<close>

theorem totp_no_replay:
  assumes "totp_ok keys" and "credential_kept lib name cred keys qs" and "map_of keys name = Some k"
  shows "sorted_wrt (<) (totp_accepted lib name keys qs) \<and>
    list_all (\<lambda>c. is_none_or (last_accepted_counter k) (\<lambda>a. a < c)) (totp_accepted lib name keys qs)"
  using assms
proof (induction qs arbitrary: keys k)
  case (Cons q qs)
  let ?keys = "engine_commit (totp_request lib) keys q"
  have ok': "totp_ok ?keys" using Cons.prems(1) by (rule totp_engine.commit_ok)
  have kept: "credential_kept lib name cred ?keys qs" using Cons.prems(2) by simp
  then obtain k' where k': "map_of ?keys name = Some k'" "credential k' = cred" using credential_kept_head by blast
  moreover have "credential k = cred" using Cons.prems(2,3) by simp
  ultimately have same: "credential k' = credential k" by simp
  note IH = Cons.IH [OF ok' kept k'(1)]
  from Cons.prems(1,3) k'(1) same show ?case
  proof (cases rule: totp_step)
    case (accept counter)
    then show ?thesis using IH k'(1)
      by (cases "last_accepted_counter k") (auto simp: Let_def list_all_iff)
  qed (use IH k'(1) in \<open>simp_all add: Let_def\<close>)
qed simp

definition remaining_guesses :: "nat \<Rightarrow> totp_key \<Rightarrow> nat" where
  "remaining_guesses w k = (if failed_window k < w then 10 else 10 - tk_failures k)"

lemma guesses_step:
  assumes "totp_key_ok k" and "now div tk_period k = w" and "tk_failures (fresh_window k now) < 10"
    and "failed_window k' = failed_window (fresh_window k now)" and "tk_failures k' = tk_failures (fresh_window k now) + 1"
  shows "Suc (remaining_guesses w k') \<le> remaining_guesses w k"
  using assms by (auto simp: remaining_guesses_def fresh_window_def split: if_splits)

text \<open>
  C12: a code cannot be guessed by trying. Within one period of a key, and until a validation
  succeeds, at most ten wrong codes are compared; every further attempt is refused with status
  429 before any comparison. The bound holds over any sequence of requests that leaves the
  credential in place.
\<close>

theorem totp_guess_limit:
  assumes "totp_ok keys" and "credential_kept lib name (secret, algorithm, period, digits) keys qs"
    and "\<forall>q \<in> set qs. validates name q \<longrightarrow> req_now q div period = w"
    and "totp_accepted lib name keys qs = []"
  shows "totp_rejections lib name keys qs \<le> 10"
proof -
  have "totp_rejections lib name keys qs \<le> remaining_guesses w k" if "map_of keys name = Some k" for k
    using assms that
  proof (induction qs arbitrary: keys k)
    case (Cons q qs)
    let ?keys = "engine_commit (totp_request lib) keys q"
    have ok': "totp_ok ?keys" using Cons.prems(1) by (rule totp_engine.commit_ok)
    have kept: "credential_kept lib name (secret, algorithm, period, digits) ?keys qs" using Cons.prems(2) by simp
    then obtain k' where k': "map_of ?keys name = Some k'" "credential k' = (secret, algorithm, period, digits)"
      using credential_kept_head by blast
    moreover have ck: "credential k = (secret, algorithm, period, digits)" using Cons.prems(2,5) by simp
    ultimately have same: "credential k' = credential k" by simp
    have kok: "totp_key_ok k" using totp_ok_get Cons.prems(1,5) by blast
    from Cons.prems(1,5) k'(1) same show ?case
    proof (cases rule: totp_step)
      case (accept counter)
      then show ?thesis using Cons.prems(4) k'(1) by (simp add: Let_def)
    next
      case reject
      then have "totp_rejections lib name ?keys qs \<le> remaining_guesses w k'"
        using Cons.IH [OF ok' kept] Cons.prems(3,4) k'(1) by (simp add: Let_def)
      moreover have "Suc (remaining_guesses w k') \<le> remaining_guesses w k"
        using reject Cons.prems(3) ck kok by (intro guesses_step) (auto simp: answers_def credential_def)
      ultimately show ?thesis using reject by simp
    next
      case other
      then have "totp_rejections lib name ?keys qs \<le> remaining_guesses w k'"
        using Cons.IH [OF ok' kept] Cons.prems(3,4) k'(1) by (simp add: Let_def)
      moreover have "remaining_guesses w k' = remaining_guesses w k" using other by (simp add: remaining_guesses_def)
      ultimately show ?thesis using other by simp
    qed
  qed simp
  moreover obtain k where "map_of keys name = Some k" using credential_kept_head [OF assms(2)] by blast
  moreover have "remaining_guesses w k \<le> 10" by (simp add: remaining_guesses_def)
  ultimately show ?thesis by (meson le_trans)
qed

section \<open>Acceptance\<close>

definition code_matches :: "'x crypto_scheme \<Rightarrow> totp_key \<Rightarrow> string \<Rightarrow> nat \<Rightarrow> bool" where
  "code_matches lib k s c =
     (case totp_code lib k c of
        Inl e \<Rightarrow> False
      | Inr expected \<Rightarrow> hmac_sign lib ''SHA256'' (tk_secret k) (bytes_of_string s) =
          hmac_sign lib ''SHA256'' (tk_secret k) (bytes_of_string expected))"

lemma totp_match_iff:
  assumes "totp_key_ok k"
  shows "\<exists>m. totp_match lib k s cs m0 = Inr m \<and>
    (m \<noteq> None \<longleftrightarrow> m0 \<noteq> None \<or> (\<exists>c \<in> set cs. code_matches lib k s c \<and> is_none_or (last_accepted_counter k) (\<lambda>a. a < c)))"
proof (induction cs arbitrary: m0)
  case (Cons c cs)
  obtain e where e: "totp_code lib k c = Inr e" using totp_code_shape [OF assms] by blast
  define hit where "hit \<longleftrightarrow> code_matches lib k s c \<and> is_none_or (last_accepted_counter k) (\<lambda>a. a < c)"
  have step: "totp_match lib k s (c # cs) m0 = totp_match lib k s cs (if hit then Some c else m0)"
    by (simp add: e Let_def hit_def code_matches_def)
  show ?case using Cons [of "if hit then Some c else m0"] unfolding step by (auto simp: hit_def split: if_splits)
qed simp

lemma totp_code_cong:
  "tk_secret k = tk_secret k' \<Longrightarrow> tk_algorithm k = tk_algorithm k' \<Longrightarrow> tk_digits k = tk_digits k' \<Longrightarrow>
   totp_code lib k c = totp_code lib k' c"
  by (simp add: totp_code_def)

lemma code_matches_fresh: "code_matches lib (fresh_window k now) s c = code_matches lib k s c"
proof -
  have "totp_code lib (fresh_window k now) c = totp_code lib k c" by (rule totp_code_cong) simp_all
  then show ?thesis by (simp add: code_matches_def split: sum.split)
qed

lemma set_counters_at:
  "now < u64_bound \<Longrightarrow> c \<in> set (counters_at k now) \<longleftrightarrow>
     now div tk_period k \<le> c + tk_skew k \<and> c \<le> now div tk_period k + tk_skew k \<and> c < u64_bound"
proof -
  assume "now < u64_bound"
  then have "now div tk_period k < u64_bound" using div_le_dividend [of now "tk_period k"] by linarith
  then show ?thesis unfolding counters_at_def saturating_sub64_def saturating_add64_def by (auto simp del: upt_Suc)
qed

text \<open>
  C13: validation accepts exactly the codes of the current window. For a well-formed submission
  that is not refused by the attempt limit, the answer is \<open>true\<close> if and only if the
  submission is the code of some counter within the configured skew of the current one that is
  later than the last accepted counter. The hypothesis on \<open>hmac_sign\<close> is that the tags by
  which the source compares two codes in constant time are equal only for equal codes.
\<close>

theorem totp_validate_iff:
  assumes ok: "totp_ok keys" and k: "map_of keys name = Some k" and now: "now < u64_bound"
    and shape: "length s = tk_digits k" "list_all is_ascii_digit s" and limit: "tk_failures (fresh_window k now) < 10"
    and tags: "inj_on (\<lambda>s. hmac_sign lib ''SHA256'' (tk_secret k) (bytes_of_string s))
      {s. length s = tk_digits k \<and> list_all is_ascii_digit s}"
  shows "snd (totp_validate lib keys name (JObj [(''code'', JStr s)]) now) = valid_answer True \<longleftrightarrow>
    (\<exists>c. now div tk_period k \<le> c + tk_skew k \<and> c \<le> now div tk_period k + tk_skew k \<and> c < u64_bound \<and>
       totp_code lib k c = Inr s \<and> is_none_or (last_accepted_counter k) (\<lambda>a. a < c))"
proof -
  let ?body = "JObj [(''code'', JStr s)]"
  have all: "list_all (\<lambda>e. totp_key_ok (snd e)) keys" using ok by (simp add: totp_ok_def)
  have kok: "totp_key_ok k" using totp_ok_get ok k by blast
  have eq: "code_matches lib k s c \<longleftrightarrow> totp_code lib k c = Inr s" for c
    using totp_code_shape [OF kok, of lib c] inj_onD [OF tags, of s] shape by (auto simp: code_matches_def)
  have m: "\<exists>m. totp_match lib (fresh_window k now) s (counters_at k now) None = Inr m \<and>
      (m \<noteq> None \<longleftrightarrow> (\<exists>c \<in> set (counters_at k now). totp_code lib k c = Inr s \<and> is_none_or (last_accepted_counter k) (\<lambda>a. a < c)))"
    using totp_match_iff [OF fresh_window_ok [OF kok], of lib now s "counters_at k now" None]
    by (simp add: code_matches_fresh eq)
  have form: "reject_unknown ?body [''code''] = Inr ()" "string_param ?body ''code'' = Inr s"
    by (simp_all add: reject_unknown_def string_param_def)
  from all show ?thesis
  proof (cases rule: totp_validate_cases [of keys lib name ?body now])
    case (fail e)
    with m obtain mm where "totp_match lib (fresh_window k now) s (counters_at k now) None = Inr mm" by blast
    with fail form k shape limit have False
      by (simp add: totp_validate_def Let_def fresh_window_def [symmetric] counters_at_def split: option.splits)
    then show ?thesis ..
  next
    case (limit k2)
    then show ?thesis using k assms(6) by simp
  next
    case (accept k2 code counter)
    then show ?thesis using m k now by (auto simp: set_counters_at)
  next
    case (reject k2 code)
    then show ?thesis using m k now by (auto simp: set_counters_at)
  qed
qed


section \<open>Witnesses\<close>

definition sample_totp :: totp where
  "sample_totp = [(''a'', \<lparr>tk_secret = replicate 10 0, tk_issuer = ''i'', tk_account_name = ''b'', tk_algorithm = ''SHA1'',
     tk_digits = 6, tk_period = 30, tk_skew = 1, last_accepted_counter = None, failed_window = 0, tk_failures = 0\<rparr>)]"

lemma sample_totp_ok: "totp_ok sample_totp"
  by (simp add: sample_totp_def totp_ok_def totp_key_ok_def bmap_ok_def)

definition sample_guess :: "string \<Rightarrow> random_request" where
  "sample_guess s = \<lparr>req_method = ''POST'', req_path = ''code/a'', req_body = JObj [(''code'', JStr s)], req_now = 65,
     req_fill = (\<lambda>_ _. None)\<rparr>"

lemma sample_code: "totp_code sample_crypto (snd (hd sample_totp)) c = Inr ''000000''"
proof -
  have "totp_truncate (replicate 20 0) = 0"
    by (simp add: totp_truncate_def Let_def)
  moreover have "pad_dec 6 0 = ''000000''" by code_simp
  ultimately show ?thesis
    by (simp add: totp_code_def sample_totp_def sample_crypto_def totp_hmac_algorithm_def)
qed

definition sample_totp' :: totp where
  "sample_totp' = [(''a'', (snd (hd sample_totp))\<lparr>last_accepted_counter := Some 3, failed_window := 2\<rparr>)]"

lemma sample_request: "totp_request sample_crypto keys (sample_guess s) =
    totp_validate sample_crypto keys ''a'' (JObj [(''code'', JStr s)]) 65"
proof -
  have "valid_path ''a'' = Inr ()" by code_simp
  then show ?thesis by (simp add: totp_request_def totp_handle_def sample_guess_def write_method_def)
qed

lemma sample_validate:
  "totp_validate sample_crypto sample_totp ''a'' (JObj [(''code'', JStr ''000000'')]) 65 = (sample_totp', valid_answer True)"
  "totp_validate sample_crypto sample_totp' ''a'' (JObj [(''code'', JStr ''000000'')]) 65 =
     ([(''a'', (snd (hd sample_totp'))\<lparr>tk_failures := 1\<rparr>)], valid_answer False)"
  "totp_validate sample_crypto sample_totp ''a'' (JObj [(''code'', JStr ''111111'')]) 65 =
     ([(''a'', (snd (hd sample_totp))\<lparr>failed_window := 2, tk_failures := 1\<rparr>)], valid_answer False)"
proof -
  have digits: "list_all is_ascii_digit ''000000''" "list_all is_ascii_digit ''111111''" by code_simp+
  have code: "totp_code sample_crypto ((snd (hd sample_totp))\<lparr>last_accepted_counter := l, failed_window := w, tk_failures := f\<rparr>) c = Inr ''000000''" for l w f c
    using sample_code [of c] by (simp add: totp_code_def)
  have tags: "hmac_sign sample_crypto ''SHA256'' key (bytes_of_string ''111111'') \<noteq> hmac_sign sample_crypto ''SHA256'' key (bytes_of_string ''000000'')" for key
    by (simp add: sample_crypto_def byte_of_char_inj)
  note defs = totp_validate_def reject_unknown_def string_param_def sample_totp_def sample_totp'_def Let_def
      saturating_sub64_def saturating_add64_def upt_rec valid_answer_def
  show "totp_validate sample_crypto sample_totp ''a'' (JObj [(''code'', JStr ''000000'')]) 65 = (sample_totp', valid_answer True)"
    using digits code by (simp add: defs)
  show "totp_validate sample_crypto sample_totp' ''a'' (JObj [(''code'', JStr ''000000'')]) 65 =
     ([(''a'', (snd (hd sample_totp'))\<lparr>tk_failures := 1\<rparr>)], valid_answer False)"
    using digits code by (simp add: defs)
  show "totp_validate sample_crypto sample_totp ''a'' (JObj [(''code'', JStr ''111111'')]) 65 =
     ([(''a'', (snd (hd sample_totp))\<lparr>failed_window := 2, tk_failures := 1\<rparr>)], valid_answer False)"
    using digits code tags by (simp add: defs)
qed

lemma sample_commit:
  "engine_commit (totp_request sample_crypto) sample_totp (sample_guess ''000000'') = sample_totp'"
  "engine_commit (totp_request sample_crypto) sample_totp' (sample_guess ''000000'') =
     [(''a'', (snd (hd sample_totp'))\<lparr>tk_failures := 1\<rparr>)]"
  "engine_commit (totp_request sample_crypto) sample_totp (sample_guess ''111111'') =
     [(''a'', (snd (hd sample_totp))\<lparr>failed_window := 2, tk_failures := 1\<rparr>)]"
  using commit_valid_answer [of "totp_request sample_crypto" sample_totp "sample_guess ''000000''" _ True]
    commit_valid_answer [of "totp_request sample_crypto" sample_totp' "sample_guess ''000000''" _ False]
    commit_valid_answer [of "totp_request sample_crypto" sample_totp "sample_guess ''111111''" _ False]
  by (simp_all add: sample_request sample_validate)

abbreviation sample_credential :: "byte list \<times> string \<times> nat \<times> nat" where
  "sample_credential \<equiv> (replicate 10 0, ''SHA1'', 30, 6)"

theorem totp_no_replay_witness:
  "totp_accepted sample_crypto ''a'' sample_totp [sample_guess ''000000'', sample_guess ''000000''] = [3] \<and>
   sorted_wrt (<) (totp_accepted sample_crypto ''a'' sample_totp [sample_guess ''000000'', sample_guess ''000000''])"
proof -
  have "credential_kept sample_crypto ''a'' sample_credential sample_totp [sample_guess ''000000'', sample_guess ''000000'']"
    by (simp add: sample_commit) (simp add: sample_totp_def sample_totp'_def credential_def)
  moreover have "map_of sample_totp ''a'' = Some (snd (hd sample_totp))" by (simp add: sample_totp_def)
  moreover have "validates ''a'' (sample_guess s)" for s by (simp add: validates_def sample_guess_def write_method_def)
  then have "totp_accepted sample_crypto ''a'' sample_totp [sample_guess ''000000'', sample_guess ''000000''] = [3]"
    by (simp add: sample_commit answers_def sample_request sample_validate) (simp add: sample_totp'_def)
  ultimately show ?thesis using totp_no_replay [OF sample_totp_ok] by blast
qed

theorem totp_guess_limit_witness:
  "totp_rejections sample_crypto ''a'' sample_totp [sample_guess ''111111''] \<le> 10 \<and>
   totp_rejections sample_crypto ''a'' sample_totp [sample_guess ''111111''] = 1"
proof -
  have "validates ''a'' (sample_guess s)" for s by (simp add: validates_def sample_guess_def write_method_def)
  then have a: "answers sample_crypto ''a'' sample_totp (sample_guess ''111111'') b \<longleftrightarrow> \<not> b" for b
    by (simp add: answers_def sample_request sample_validate)
  have kept: "credential_kept sample_crypto ''a'' sample_credential sample_totp [sample_guess ''111111'']"
    by (simp add: sample_commit) (simp add: sample_totp_def credential_def)
  have "totp_rejections sample_crypto ''a'' sample_totp [sample_guess ''111111''] \<le> 10"
    by (rule totp_guess_limit [OF sample_totp_ok kept, of 2]) (simp_all add: a, simp add: sample_guess_def)
  then show ?thesis by (simp add: a)
qed

theorem totp_validate_iff_witness:
  "snd (totp_validate sample_crypto sample_totp ''a'' (JObj [(''code'', JStr ''000000'')]) 65) = valid_answer True \<and>
   (\<exists>c. 65 div 30 \<le> c + (1::nat) \<and> c \<le> 65 div 30 + 1 \<and> totp_code sample_crypto (snd (hd sample_totp)) c = Inr ''000000'')"
proof -
  let ?k = "snd (hd sample_totp)"
  have k: "map_of sample_totp ''a'' = Some ?k" by (simp add: sample_totp_def)
  have f: "tk_digits ?k = 6" "tk_period ?k = 30" "tk_skew ?k = 1" "tk_failures (fresh_window ?k 65) < 10"
    by (simp_all add: sample_totp_def fresh_window_def)
  have "inj_on (\<lambda>s. hmac_sign sample_crypto ''SHA256'' (tk_secret ?k) (bytes_of_string s))
      {s. length s = tk_digits ?k \<and> list_all is_ascii_digit s}"
    by (rule inj_onI) (auto simp: sample_crypto_def f(1) dest!: map_injective simp: inj_def byte_of_char_inj)
  moreover have "list_all is_ascii_digit ''000000''" by code_simp
  ultimately show ?thesis
    using totp_validate_iff [OF sample_totp_ok k, of 65 "''000000''" sample_crypto] f
    by (auto simp: sample_validate)
qed



end
