(* ===== verification/Transit_Correct.thy ===== *)
theory Transit_Correct
  imports Transit Engine_Spec
begin

text \<open>
  Correctness of the encryption engine: the invariant of keys and their versions and how a
  request can change them (\<open>transit_handle_effect\<close>), that ciphertexts, signatures and message
  authentication codes stay verifiable, the policies of decryption, export and deletion, the
  counting of encryptions, and the equivalence of a batch with its single items.
\<close>

section \<open>Encryption under a key\<close>

lemma transit_encrypt_Inr:
  assumes "transit_encrypt lib fill key ns mount name body pt = (key', Inr data)"
  obtains n v mat nonce aad ct where "aead_algorithm (kind key) = Inr (kind key)" "selected_version key body = Inr n"
    "map_of (key_versions key) n = Some v" "encryptions v < MAX_ENCRYPTIONS_PER_VERSION"
    "stored_material lib (material v) = Inr mat" "aead_key_ok lib (kind key) mat" "fill [3] 12 = Some nonce"
    "transit_aad lib ns mount name body = Inr aad" "aead_seal lib (kind key) mat nonce aad pt = Some ct"
    "key' = key\<lparr>key_versions := binsert n (v\<lparr>encryptions := encryptions v + 1\<rparr>) (key_versions key)\<rparr>"
    "data = json_object [(''ciphertext'', JStr (wrap_version lib n (nonce @ ct))), (''key_version'', json_u64 n)]"
proof -
  obtain alg where alg: "aead_algorithm (kind key) = Inr alg"
    using assms by (cases "aead_algorithm (kind key)") (simp_all add: transit_encrypt_def)
  then have "alg = kind key" by (auto simp: aead_algorithm_def split: if_splits)
  obtain n where n: "selected_version key body = Inr n"
    using assms alg by (cases "selected_version key body") (simp_all add: transit_encrypt_def)
  obtain v where v: "map_of (key_versions key) n = Some v"
    using assms alg n by (cases "map_of (key_versions key) n") (simp_all add: transit_encrypt_def)
  note a = assms [unfolded transit_encrypt_def alg n v sbind_simps ok_or_simps]
  have lim: "encryptions v < MAX_ENCRYPTIONS_PER_VERSION" using a by (simp split: if_splits)
  obtain mat where mat: "stored_material lib (material v) = Inr mat"
    using a by (cases "stored_material lib (material v)") (simp_all split: if_splits)
  have ok: "aead_key_ok lib alg mat" using a by (simp add: mat split: if_splits)
  obtain nonce where nonce: "fill [3] 12 = Some nonce"
    using a lim ok by (cases "fill [3] 12") (simp_all add: mat random_bytes_def)
  obtain aad where aad: "transit_aad lib ns mount name body = Inr aad"
    using a lim ok by (cases "transit_aad lib ns mount name body") (simp_all add: mat random_bytes_def nonce)
  obtain ct where ct: "aead_seal lib alg mat nonce aad pt = Some ct"
    using a lim ok by (cases "aead_seal lib alg mat nonce aad pt") (simp_all add: mat random_bytes_def nonce aad)
  show thesis
    by (rule that [of n v mat nonce aad ct])
      (use alg \<open>alg = kind key\<close> n v lim mat ok nonce aad ct a in \<open>simp_all add: random_bytes_def\<close>)
qed

lemma transit_encrypt_Inl: "transit_encrypt lib fill key ns mount name body pt = (key', Inl e) \<Longrightarrow> key' = key"
  unfolding transit_encrypt_def
  by (cases "aead_algorithm (kind key)"; cases "selected_version key body";
      cases "map_of (key_versions key) (projr (selected_version key body))";
      cases "stored_material lib (material (the (map_of (key_versions key) (projr (selected_version key body)))))";
      cases "random_bytes fill 3 12"; cases "transit_aad lib ns mount name body")
    (auto split: if_splits simp: ok_or_def split: option.splits)

definition encrypt_step :: "'x crypto_scheme \<Rightarrow> string \<Rightarrow> string \<Rightarrow> string \<Rightarrow> transit_key \<Rightarrow> transit_key \<Rightarrow> bool" where
  "encrypt_step lib ns mount name key key' =
     (\<exists>fill body pt data. transit_encrypt lib fill key ns mount name body pt = (key', Inr data))"

lemma crypto_single_result:
  assumes "crypto_single lib fill key ns mount name operation algorithm body = (key', r)"
  shows "(key' = key \<or> encrypt_step lib ns mount name key key')
    \<and> (\<forall>e. r = Inl e \<longrightarrow> key' = key)
    \<and> (\<forall>resp. r = Inr resp \<longrightarrow> \<not> mutated resp \<longrightarrow> key' = key)"
proof -
  define enc where "enc \<longleftrightarrow> operation = ''encrypt''"
  define dec where "dec \<longleftrightarrow> operation = ''decrypt''"
  define rew where "rew \<longleftrightarrow> operation = ''rewrap''"
  define mac where "mac \<longleftrightarrow> operation = ''hmac''"
  define sig where "sig \<longleftrightarrow> operation = ''sign''"
  define ver where "ver \<longleftrightarrow> operation = ''verify''"
  define plain where "plain = decode_field lib body ''plaintext''"
  define opened where "opened = transit_decrypt lib key ns mount name body"
  define same_type where "same_type \<longleftrightarrow> \<not> is_some_and (json_get body ''type'') (\<lambda>k. k \<noteq> JStr (kind key))"
  define f where "f = (\<lambda>key. transit_encrypt lib fill key ns mount name body)"
  define inner where "inner =
     (if enc then if \<not> same_type then (key, Inl (bad ''requested encryption type does not match the key''))
        else sbind (key, plain) f
      else if dec then (key, rbind opened (\<lambda>plaintext. Inr (json_object [(''plaintext'', JStr (base64_encode lib plaintext))])))
      else if rew then sbind (key, opened) f
      else if mac then (key, crypto_hmac lib key algorithm body)
      else if sig then (key, crypto_sign lib key algorithm body)
      else if ver then (key, crypto_verify lib key algorithm body)
      else (key, Inl unsupported))"
  have eq: "crypto_single lib fill key ns mount name operation algorithm body =
      sbind (key, reject_context body) (\<lambda>_ _. sbind inner (\<lambda>key data. (key, Inr (ok_data data (enc \<or> rew)))))"
    unfolding crypto_single_def inner_def enc_def dec_def rew_def mac_def sig_def ver_def plain_def opened_def
      same_type_def f_def not_not by (cases "reject_context body") simp_all
  have f: "f key pt = (key', Inr data) \<Longrightarrow> encrypt_step lib ns mount name key key'"
    "f key pt = (key', Inl e) \<Longrightarrow> key' = key" for pt key' data e
    using transit_encrypt_Inl unfolding f_def encrypt_step_def by blast+
  have inner: "(fst inner = key \<or> encrypt_step lib ns mount name key (fst inner)) \<and> (\<forall>e. snd inner = Inl e \<longrightarrow> fst inner = key)
      \<and> (\<not> (enc \<or> rew) \<longrightarrow> fst inner = key)"
  proof -
    have "sbind (key, r) f = (key, Inl e) \<or> (\<exists>pt. sbind (key, r) f = f key pt)" if "r = Inl e \<or> (\<exists>pt. r = Inr pt)" for r e
      using that by auto
    then have "(fst (sbind (key, r) f) = key \<or> encrypt_step lib ns mount name key (fst (sbind (key, r) f)))
        \<and> (\<forall>e. snd (sbind (key, r) f) = Inl e \<longrightarrow> fst (sbind (key, r) f) = key)" for r
      using f by (cases r; cases "f key (projr r)"; cases "snd (f key (projr r))") auto
    then show ?thesis unfolding inner_def by auto
  qed
  show ?thesis
    using assms inner unfolding eq
    by (cases "reject_context body"; cases inner; cases "snd inner") auto
qed

lemma batch_item_result:
  assumes "batch_item lib fill key ns mount name operation algorithm body allowed item = (key', r)"
  shows "(key' = key \<or> encrypt_step lib ns mount name key key')
    \<and> (\<forall>e. r = Inl e \<longrightarrow> key' = key) \<and> (\<forall>resp. r = Inr resp \<longrightarrow> \<not> mutated resp \<longrightarrow> key' = key)"
proof -
  define nested where "nested \<longleftrightarrow> \<not> (is_object item \<and> json_get item ''batch_input'' = None
         \<and> json_get item ''partial_failure_response_code'' = None)"
  have eq: "batch_item lib fill key ns mount name operation algorithm body allowed item =
      (if nested then (key, Inl (bad ''batch items must be objects without nested batches''))
       else sbind (key, reject_unknown (batch_combine body item) allowed)
          (\<lambda>key _. crypto_single lib fill key ns mount name operation algorithm (batch_combine body item)))"
    unfolding batch_item_def nested_def Let_def by simp
  show ?thesis
    using assms crypto_single_result [of lib fill key ns mount name operation algorithm "batch_combine body item" key' r]
    unfolding eq by (cases "reject_unknown (batch_combine body item) allowed") (auto split: if_splits)
qed

lemma batch_loop_steps:
  "batch_loop lib fill key ns mount name operation algorithm body allowed items i (rs, failed, mut) = (key', rs', failed', mut') \<Longrightarrow>
   (encrypt_step lib ns mount name)\<^sup>*\<^sup>* key key' \<and> length rs' = length rs + length items \<and>
   failed \<le> failed' \<and> failed' \<le> failed + length items \<and> (mut \<longrightarrow> mut') \<and> (\<not> mut' \<longrightarrow> key' = key)"
proof (induction items arbitrary: key i rs failed mut)
  case (Cons item items)
  obtain candidate r where it: "batch_item lib (\<lambda>l. fill (i # l)) key ns mount name operation algorithm body allowed item = (candidate, r)"
    by fastforce
  note step = batch_item_result [OF it]
  define k1 where "k1 = (case r of Inr resp \<Rightarrow> if mutated resp then candidate else key | Inl _ \<Rightarrow> key)"
  define m1 where "m1 \<longleftrightarrow> mut \<or> (case r of Inr resp \<Rightarrow> mutated resp | Inl _ \<Rightarrow> False)"
  obtain v1 f1 where loop: "batch_loop lib fill k1 ns mount name operation algorithm body allowed items (i + 1) (rs @ [v1], f1, m1) = (key', rs', failed', mut')"
    and f1: "f1 = failed \<or> f1 = failed + 1"
    using Cons.prems by (cases r) (auto simp: it Let_def k1_def m1_def)
  have "(encrypt_step lib ns mount name)\<^sup>*\<^sup>* key k1" "\<not> m1 \<longrightarrow> k1 = key"
    using step by (auto simp: k1_def m1_def split: sum.splits if_splits)
  moreover note Cons.IH [OF loop]
  ultimately show ?case using f1 by (auto simp: m1_def intro: rtranclp_trans)
qed simp

lemma handle_crypto_steps:
  assumes "handle_crypto lib fill key ns mount name operation algorithm body = (key', r)"
  shows "(encrypt_step lib ns mount name)\<^sup>*\<^sup>* key key' \<and> (\<forall>e. r = Inl e \<longrightarrow> key' = key)
    \<and> (\<forall>resp. r = Inr resp \<longrightarrow> \<not> mutated resp \<longrightarrow> key' = key)"
proof (cases "crypto_allowed operation")
  case None
  then show ?thesis using assms by (auto simp: handle_crypto_def)
next
  case (Some allowed)
  note a = assms [unfolded handle_crypto_def Some ok_or_simps sbind_simps]
  show ?thesis
  proof (cases "reject_unknown body allowed")
    case (Inl e)
    then show ?thesis using a by auto
  next
    case (Inr u)
    show ?thesis
    proof (cases "json_get body ''batch_input''")
      case None
      then show ?thesis using a Inr crypto_single_result [of lib fill key ns mount name operation algorithm body key' r] by auto
    next
      case (Some raw)
      define chosen where "chosen = ok_or (opt_filter (\<lambda>items. items \<noteq> [] \<and> length items \<le> MAX_BATCH) (as_array raw))
                       (bad ''batch_input must contain between 1 and 256 items'')"
      define code where "code = optional_u64 body ''partial_failure_response_code''"
      note b = a [unfolded Inr Some sbind_simps option.case chosen_def [symmetric] code_def [symmetric]]
      show ?thesis
      proof (cases chosen)
        case (Inl e)
        then show ?thesis using b by auto
      next
        case ch: (Inr items)
        show ?thesis
        proof (cases code)
          case (Inl e)
          then show ?thesis using b ch by auto
        next
          case co: (Inr c)
          obtain k2 rs f m where loop: "batch_loop lib fill key ns mount name operation algorithm body allowed items 0 ([], 0, False) = (k2, rs, f, m)"
            by (metis prod_cases4)
          show ?thesis
            using b ch co batch_loop_steps [OF loop] by (auto simp: Let_def loop split: if_splits)
        qed
      qed
    qed
  qed
qed

section \<open>The invariant\<close>

definition transit_key_ok :: "transit_key \<Rightarrow> bool" where
  "transit_key_ok k =
     (kind k \<in> {''aes128-gcm96'', ''aes256-gcm96'', ''chacha20-poly1305'', ''hmac'', ''ed25519''} \<and>
      map fst (key_versions k) = [1..<Suc (latest_version k)] \<and>
      1 \<le> latest_version k \<and> latest_version k \<le> 10000 \<and>
      1 \<le> min_decryption_version k \<and> min_decryption_version k \<le> latest_version k \<and>
      min_encryption_version k \<le> latest_version k \<and>
      (min_encryption_version k = 0 \<or> min_decryption_version k \<le> min_encryption_version k) \<and>
      list_all (\<lambda>e. encryptions (snd e) \<le> MAX_ENCRYPTIONS_PER_VERSION) (key_versions k))"

definition transit_ok :: "transit \<Rightarrow> bool" where
  "transit_ok st = (bmap_ok (transit_keys st) \<and> list_all (\<lambda>e. transit_key_ok (snd e)) (transit_keys st))"

definition key_grows :: "transit_key \<Rightarrow> transit_key \<Rightarrow> bool" where
  "key_grows k k' =
     (kind k' = kind k \<and> latest_version k \<le> latest_version k' \<and> (exportable k \<longrightarrow> exportable k') \<and>
      (\<forall>n v. map_of (key_versions k) n = Some v \<longrightarrow>
         (\<exists>v'. map_of (key_versions k') n = Some v' \<and> material v' = material v \<and>
            hmac_material v' = hmac_material v \<and> encryptions v \<le> encryptions v')))"

lemma key_grows_refl [simp]: "key_grows k k"
  by (simp add: key_grows_def)

lemma key_grows_trans: "key_grows k k' \<Longrightarrow> key_grows k' k'' \<Longrightarrow> key_grows k k''"
  unfolding key_grows_def by (elim conjE) (smt (verit) le_trans)

lemma transit_key_versions:
  assumes "transit_key_ok k"
  shows "bmap_ok (key_versions k)" and "map_of (key_versions k) n \<noteq> None \<longleftrightarrow> 1 \<le> n \<and> n \<le> latest_version k"
    and "length (key_versions k) = latest_version k"
proof -
  have m: "map fst (key_versions k) = [1..<Suc (latest_version k)]" using assms by (simp add: transit_key_ok_def)
  then show "bmap_ok (key_versions k)" by (rule bmap_ok_upt)
  have "fst ` set (key_versions k) = {1..<Suc (latest_version k)}" by (metis m set_map set_upt)
  then show "map_of (key_versions k) n \<noteq> None \<longleftrightarrow> 1 \<le> n \<and> n \<le> latest_version k"
    by (auto simp: map_of_eq_None_iff)
  show "length (key_versions k) = latest_version k" using arg_cong [OF m, of length] by simp
qed

lemma encrypt_step_ok:
  assumes "encrypt_step lib ns mount name k k'" and ok: "transit_key_ok k"
  shows "transit_key_ok k' \<and> key_grows k k'"
proof -
  obtain fill body pt data where "transit_encrypt lib fill k ns mount name body pt = (k', Inr data)"
    using assms(1) by (auto simp: encrypt_step_def)
  then show ?thesis
  proof (rule transit_encrypt_Inr)
    fix n v mat nonce aad ct
    assume v: "map_of (key_versions k) n = Some v" and lim: "encryptions v < MAX_ENCRYPTIONS_PER_VERSION"
      and k': "k' = k\<lparr>key_versions := binsert n (v\<lparr>encryptions := encryptions v + 1\<rparr>) (key_versions k)\<rparr>"
    have "n \<in> fst ` set (key_versions k)" using v by (metis domI dom_map_of_conv_image_fst)
    then have "map fst (key_versions k') = map fst (key_versions k)"
      using transit_key_versions(1) [OF ok] by (simp add: k' map_fst_binsert)
    moreover have "list_all (\<lambda>e. encryptions (snd e) \<le> MAX_ENCRYPTIONS_PER_VERSION) (key_versions k')"
      using ok lim by (simp add: k' transit_key_ok_def list_all_binsert)
    ultimately have "transit_key_ok k'" using ok by (simp add: transit_key_ok_def k')
    moreover have "key_grows k k'" using v by (auto simp: key_grows_def k')
    ultimately show ?thesis by simp
  qed
qed

lemma encrypt_steps_ok:
  "(encrypt_step lib ns mount name)\<^sup>*\<^sup>* k k' \<Longrightarrow> transit_key_ok k \<Longrightarrow> transit_key_ok k' \<and> key_grows k k'"
proof (induction rule: rtranclp_induct)
  case (step k1 k2)
  then show ?case using encrypt_step_ok [of lib ns mount name k1 k2] key_grows_trans by blast
qed simp

lemma generate_version_Inr:
  "generate_version lib fill k now = Inr v \<Longrightarrow>
     k \<in> {''aes128-gcm96'', ''aes256-gcm96'', ''chacha20-poly1305'', ''hmac'', ''ed25519''} \<and> encryptions v = 0"
  by (auto simp: generate_version_def split: if_splits)

lemma key_new_ok:
  assumes "key_new lib fill body now = Inr k"
  shows "transit_key_ok k \<and> \<not> deleted k"
proof -
  obtain ty v export where v: "generate_version lib fill (unwrap_or ty ''aes256-gcm96'') now = Inr v"
    and k: "k = \<lparr>kind = unwrap_or ty ''aes256-gcm96'', latest_version = 1, min_decryption_version = 1,
          min_encryption_version = 0, deletion_allowed = False, exportable = unwrap_or export False, deleted = False,
          key_versions = [(1, v)]\<rparr>"
    using assms unfolding key_new_def Let_def by (auto simp only: rbind_Inr_iff sum.inject)
  show ?thesis using generate_version_Inr [OF v] unfolding k transit_key_ok_def by simp
qed

lemma key_rotate_ok:
  assumes "key_rotate lib fill k body now = (k', Inr u)" and ok: "transit_key_ok k"
  shows "transit_key_ok k' \<and> key_grows k k'"
proof -
  obtain v where lt: "length (key_versions k) < 10000" and v: "generate_version lib fill (kind k) now = Inr v"
    and k': "k' = k\<lparr>key_versions := binsert (latest_version k + 1) v (key_versions k), latest_version := latest_version k + 1\<rparr>"
    using assms(1) by (auto simp: key_rotate_def sbind_Inr_iff split: if_splits)
  note vs = transit_key_versions [OF ok]
  have keys: "map fst (key_versions k) = [1..<Suc (latest_version k)]" using ok by (simp add: transit_key_ok_def)
  have "e \<in> set (key_versions k) \<Longrightarrow> fst e < latest_version k + 1" for e
    using vs(2) [of "fst e"] by (metis Suc_eq_plus1 less_Suc_eq_le map_of_eq_None_iff image_eqI)
  then have b: "binsert (latest_version k + 1) v (key_versions k) = key_versions k @ [(latest_version k + 1, v)]"
    by (intro binsert_last) blast
  then have kv: "key_versions k' = key_versions k @ [(latest_version k + 1, v)]" by (simp add: k')
  have lv: "latest_version k' = Suc (latest_version k)" by (simp add: k')
  have "map fst (key_versions k') = [1..<Suc (latest_version k')]"
    using keys unfolding kv lv by (simp add: upt_Suc_append del: upt_Suc)
  moreover have "list_all (\<lambda>e. encryptions (snd e) \<le> MAX_ENCRYPTIONS_PER_VERSION) (key_versions k')"
    using ok generate_version_Inr [OF v] unfolding kv by (simp add: transit_key_ok_def)
  ultimately have "transit_key_ok k'"
    using ok lt vs(3) by (simp add: transit_key_ok_def k')
  moreover have "map_of (key_versions k) (latest_version k + 1) = None" using vs(2) [of "latest_version k + 1"] by simp
  then have "key_grows k k'" by (auto simp: key_grows_def k')
  ultimately show ?thesis by simp
qed

lemma key_configure_Inr:
  assumes "key_configure k body = (k', Inr u)"
  obtains mindec minenc del ex where
    "k' = k\<lparr>min_decryption_version := mindec, min_encryption_version := minenc, deletion_allowed := del, exportable := ex\<rparr>"
    "mindec = min_decryption_version k \<or> 1 \<le> mindec" "mindec \<le> latest_version k" "minenc \<le> latest_version k"
    "minenc = 0 \<or> mindec \<le> minenc" "exportable k \<longrightarrow> ex"
proof -
  define k1 where "k1 = (\<lambda>m. case m of None \<Rightarrow> k | Some v \<Rightarrow> k\<lparr>min_decryption_version := max v 1\<rparr>)"
  define k2 where "k2 = (\<lambda>m n. case n of None \<Rightarrow> k1 m | Some v \<Rightarrow> (k1 m)\<lparr>min_encryption_version := v\<rparr>)"
  define k3 where "k3 = (\<lambda>m n d. case d of None \<Rightarrow> k2 m n | Some v \<Rightarrow> (k2 m n)\<lparr>deletion_allowed := v\<rparr>)"
  define k4 where "k4 = (\<lambda>m n d e. case e of None \<Rightarrow> k3 m n d | Some v \<Rightarrow> (k3 m n d)\<lparr>exportable := v\<rparr>)"
  have "\<exists>m n d e. k' = k4 m n d e \<and>
      \<not> (latest_version (k2 m n) < min_decryption_version (k2 m n) \<or> latest_version (k2 m n) < min_encryption_version (k2 m n)
        \<or> (min_encryption_version (k2 m n) \<noteq> 0 \<and> min_encryption_version (k2 m n) < min_decryption_version (k2 m n))) \<and>
      \<not> (exportable (k3 m n d) \<and> e = Some False)"
    using assms
    unfolding key_configure_def Let_def sbind_pair_Inr_iff if_pair_Inl_iff prod.inject k4_def k3_def k2_def k1_def
    by blast
  then obtain m n d e where k': "k' = k4 m n d e"
    and c: "\<not> (latest_version (k2 m n) < min_decryption_version (k2 m n) \<or> latest_version (k2 m n) < min_encryption_version (k2 m n)
        \<or> (min_encryption_version (k2 m n) \<noteq> 0 \<and> min_encryption_version (k2 m n) < min_decryption_version (k2 m n)))"
    and ex: "\<not> (exportable (k3 m n d) \<and> e = Some False)"
    by blast
  have fields: "latest_version (k2 m n) = latest_version k" "exportable (k3 m n d) = exportable k"
    "min_decryption_version (k2 m n) = min_decryption_version k \<or> 1 \<le> min_decryption_version (k2 m n)"
    by (auto simp: k1_def k2_def k3_def split: option.splits)
  have shape: "k' = k\<lparr>min_decryption_version := min_decryption_version (k2 m n), min_encryption_version := min_encryption_version (k2 m n),
      deletion_allowed := deletion_allowed (k3 m n d), exportable := exportable (k4 m n d e)\<rparr>"
    unfolding k' by (auto simp: k1_def k2_def k3_def k4_def split: option.splits)
  have mono: "exportable k \<longrightarrow> exportable (k4 m n d e)"
    using ex fields(2) by (auto simp: k4_def split: option.splits)
  show thesis using c fields by (intro that [OF shape]) (auto simp: mono)
qed

lemma key_operation_ok:
  assumes "key_operation lib fill k operation body now = (k', Inr u)" and ok: "transit_key_ok k"
  shows "transit_key_ok k' \<and> key_grows k k'"
proof -
  consider "key_configure k body = (k', Inr u)" | "key_rotate lib fill k body now = (k', Inr u)"
    | "k' = k\<lparr>deleted := True\<rparr>" | "k' = k\<lparr>deleted := False\<rparr>"
    using assms(1) by (auto simp: key_operation_def sbind_Inr_iff split: if_splits)
  then show ?thesis
  proof cases
    case 1
    then show ?thesis
      by (rule key_configure_Inr) (use ok in \<open>auto simp: transit_key_ok_def key_grows_def\<close>)
  next
    case 2
    then show ?thesis using key_rotate_ok ok by blast
  qed (use ok in \<open>simp_all add: transit_key_ok_def key_grows_def\<close>)
qed

section \<open>The handler\<close>

lemma handle_key_success:
  assumes "handle_key lib fill st method rest body now = (st', Inr resp)"
  obtains (readonly) "st' = st" "\<not> mutated resp"
  | (create) name key where "map_of (transit_keys st) name = None" "key_new lib fill body now = Inr key"
      "st' = put_key st name key" "mutated resp"
  | (remove) name key where "rest = name \<or> rest = name @ ''/''" "method = ''DELETE''" "map_of (transit_keys st) name = Some key" "deletion_allowed key"
      "st' = st\<lparr>transit_keys := bremove name (transit_keys st)\<rparr>" "mutated resp"
  | (operate) name operation key key' where "map_of (transit_keys st) name = Some key"
      "key_operation lib fill key operation body now = (key', Inr ())" "st' = put_key st name key'" "mutated resp"
proof -
  obtain name operation where no: "unwrap_or (split_once (CHR ''/'') rest) (rest, []) = (name, operation)" by fastforce
  define is_get where "is_get \<longleftrightarrow> method = ''GET''"
  define is_delete where "is_delete \<longleftrightarrow> method = ''DELETE''"
  define bare where "bare \<longleftrightarrow> operation = []"
  define known where "known = reject_unknown body [''type'', ''derived'', ''convergent_encryption'', ''exportable'',
                   ''allow_plaintext_backup'', ''auto_rotate_period'']"
  define refused where "refused \<longleftrightarrow> \<not> write_method method \<and> \<not> (operation = ''soft-delete'' \<and> method = ''DELETE'')"
  define rotated where "rotated \<longleftrightarrow> operation = ''rotate''"
  have eq: "handle_key lib fill st method rest body now =
      sbind (st, valid_path name) (\<lambda>st _.
      if bare then
        if is_get then
          (st, rbind (ok_or (map_of (transit_keys st) name) not_found) (\<lambda>key.
               rbind (key_descriptor lib key name) (\<lambda>d. Inr (ok_data d False))))
        else if is_delete then
          (case map_of (transit_keys st) name of
             None \<Rightarrow> (st, Inr (empty_ok False))
           | Some key \<Rightarrow>
               if \<not> deletion_allowed key
               then (st, Inl (bad ''key deletion is disabled; explicitly enable deletion_allowed first''))
               else (st\<lparr>transit_keys := bremove name (transit_keys st)\<rparr>, Inr (empty_ok True)))
        else if \<not> write_method method then (st, Inl unsupported)
        else
          sbind (st, known) (\<lambda>st _.
          case map_of (transit_keys st) name of
            Some key \<Rightarrow> (st, key_create_existing lib key name body)
          | None \<Rightarrow>
              sbind (st, key_new lib fill body now) (\<lambda>st key.
              (put_key st name key, rbind (key_descriptor lib key name) (\<lambda>d. Inr (ok_data d True)))))
      else if refused then (st, Inl unsupported)
      else
        sbind (st, ok_or (map_of (transit_keys st) name) not_found) (\<lambda>st key.
        let (key, result) = key_operation lib fill key operation body now in
        sbind (put_key st name key, result) (\<lambda>st _.
        (st, if rotated then rbind (key_descriptor lib key name) (\<lambda>d. Inr (ok_data d True))
             else Inr (empty_ok True)))))"
    unfolding handle_key_def no Let_def prod.case is_get_def is_delete_def bare_def known_def refused_def rotated_def
    by (rule refl)
  have v: "valid_path name = Inr ()" using assms unfolding eq by (cases "valid_path name") auto
  note a = assms [unfolded eq v sbind_simps]
  have rest: "bare \<Longrightarrow> rest = name \<or> rest = name @ ''/''"
    using no by (cases "split_once (CHR ''/'') rest") (auto simp: bare_def split_once_Some_iff)
  have existing: "key_create_existing lib key name body = Inr resp \<Longrightarrow> \<not> mutated resp" for key
    by (auto simp: key_create_existing_def split: if_splits)
  show thesis
  proof (cases bare)
    case True
    consider "is_get" | "\<not> is_get" "is_delete" | "\<not> is_get" "\<not> is_delete" by blast
    then show thesis
    proof cases
      case 1
      then show thesis using a True by (intro readonly) auto
    next
      case 2
      then show thesis
      proof (cases "map_of (transit_keys st) name")
        case None
        then show thesis using a True 2 by (intro readonly) auto
      next
        case (Some key)
        then show thesis using a True 2 rest
          by (intro remove [of name key]) (auto simp: is_delete_def split: if_splits)
      qed
    next
      case 3
      then have w: "write_method method" and kn: "known = Inr ()"
        using a True by (auto split: if_splits simp: sbind_Inr_iff)
      show thesis
      proof (cases "map_of (transit_keys st) name")
        case None
        then show thesis using a True 3 w kn by (auto simp: sbind_pair_Inr_iff intro: create)
      next
        case (Some key)
        then show thesis using a True 3 w kn existing [of key] by (intro readonly) auto
      qed
    qed
  next
    case False
    obtain key where key: "map_of (transit_keys st) name = Some key" and nr: "\<not> refused"
      using a False by (auto simp: sbind_Inr_iff split: if_splits)
    obtain key' r where op: "key_operation lib fill key operation body now = (key', r)" by fastforce
    show thesis using a False key nr op
      by (intro operate [of name key operation key']) (cases r; auto split: if_splits)+
  qed
qed

lemma transit_crypto_success:
  assumes "transit_crypto lib fill st ns mount operation rest body now = (st', Inr resp)"
  obtains name algorithm st1 key key' where
    "unwrap_or (split_once (CHR ''/'') rest) (rest, []) = (name, algorithm)"
    "st1 = st \<or> (operation = ''encrypt'' \<and> map_of (transit_keys st) name = None \<and>
       (\<exists>k. key_new lib fill body now = Inr k \<and> st1 = put_key st name k))"
    "map_of (transit_keys st1) name = Some key" "alive key = Inr ()"
    "handle_crypto lib fill key ns mount name operation algorithm body = (key', Inr resp)"
    "st' = put_key st1 name key'"
proof -
  obtain name algorithm where na: "unwrap_or (split_once (CHR ''/'') rest) (rest, []) = (name, algorithm)" by fastforce
  define suffix where "suffix \<longleftrightarrow> algorithm \<noteq> [] \<and> \<not> (operation = ''hmac'' \<or> operation = ''sign'' \<or> operation = ''verify'')"
  define upsert where "upsert \<longleftrightarrow> operation = ''encrypt'' \<and> \<not> bcontains (transit_keys st) name"
  define made where "made = (if upsert then
                 if disable_upsert st then (st, Inl (bad ''key does not exist and upsert is disabled''))
                 else sbind (st, reject_context body) (\<lambda>st _.
                      sbind (st, key_new lib fill body now) (\<lambda>st key. (put_key st name key, Inr ())))
               else (st, Inr ()))"
  have v: "valid_path name = Inr ()" using assms unfolding transit_crypto_def na by (cases "valid_path name") auto
  have eq: "transit_crypto lib fill st ns mount operation rest body now =
      (if suffix then (st, Inl (bad ''unexpected transit path suffix''))
      else
        sbind made (\<lambda>st _.
        sbind (st, ok_or (map_of (transit_keys st) name) not_found) (\<lambda>st key.
        sbind (st, alive key) (\<lambda>st _.
        let (key, result) = handle_crypto lib fill key ns mount name operation algorithm body in
        (put_key st name key, result)))))"
    unfolding transit_crypto_def na Let_def prod.case v sbind_simps suffix_def upsert_def made_def by (rule refl)
  note a = assms [unfolded eq if_pair_Inl_iff]
  obtain st1 where made: "made = (st1, Inr ())" using a by (cases made; cases "snd made") auto
  have st1: "st1 = st \<or> (upsert \<and> (\<exists>k. key_new lib fill body now = Inr k \<and> st1 = put_key st name k))"
    using made unfolding made_def by (auto simp: sbind_pair_Inr_iff split: if_splits)
  obtain key where key: "map_of (transit_keys st1) name = Some key" "alive key = Inr ()"
    using a made by (auto simp: sbind_pair_Inr_iff)
  obtain key' r where h: "handle_crypto lib fill key ns mount name operation algorithm body = (key', r)" by fastforce
  show thesis
    by (rule that [OF na _ key, of key']) (use st1 a made key h in \<open>auto simp: upsert_def map_of_eq_None_iff\<close>)
qed

lemma transit_datakey_success:
  assumes "transit_datakey lib fill st ns mount rest body = (st', Inr resp)"
  obtains name key key' pt data where "map_of (transit_keys st) name = Some key"
    "transit_encrypt lib fill key ns mount name body pt = (key', Inr data)" "st' = put_key st name key'" "mutated resp"
proof -
  have "\<exists>nm pt key data. map_of (transit_keys st) nm = Some key \<and>
      snd (transit_encrypt lib fill key ns mount nm body pt) = Inr data \<and>
      put_key st nm (fst (transit_encrypt lib fill key ns mount nm body pt)) = st' \<and> mutated resp"
    using assms unfolding transit_datakey_def case_prod_beta sbind_pair_Inr_iff if_pair_Inl_iff Let_def ok_or_iff prod.inject
    apply (elim exE conjE)
    apply (intro exI conjI)
       apply assumption+
    apply (drule sum.inject(2) [THEN iffD1], erule subst, rule mutated_simps(1) [THEN iffD2], rule TrueI)
    done
  then obtain nm pt key data where key: "map_of (transit_keys st) nm = Some key"
    and e: "snd (transit_encrypt lib fill key ns mount nm body pt) = Inr data"
      "put_key st nm (fst (transit_encrypt lib fill key ns mount nm body pt)) = st'" "mutated resp"
    by auto
  show thesis using e by (intro that [OF key, of pt "fst (transit_encrypt lib fill key ns mount nm body pt)" data]) (auto intro: prod_eqI)
qed

lemma transit_handle_success:
  assumes "transit_handle lib fill st ns mount method path body now = (st', Inr resp)"
  obtains (readonly) "st' = st" "\<not> mutated resp"
  | (config) flag where "st' = st\<lparr>disable_upsert := flag\<rparr>" "mutated resp"
  | (key) rest where "path = ''keys/'' @ rest" "handle_key lib fill st method rest body now = (st', Inr resp)"
  | (crypto) operation rest where "write_method method" "operation \<in> {''encrypt'', ''decrypt'', ''rewrap'', ''hmac'', ''sign'', ''verify''}"
      "path = operation @ ''/'' @ rest \<or> path = operation \<and> rest = []"
      "transit_crypto lib fill st ns mount operation rest body now = (st', Inr resp)"
  | (datakey) rest where "write_method method" "transit_datakey lib fill st ns mount rest body = (st', Inr resp)"
proof -
  define cfg where "cfg \<longleftrightarrow> path = ''config/keys''"
  define lst where "lst \<longleftrightarrow> path = ''keys'' \<or> path = ''keys/''"
  define is_get where "is_get \<longleftrightarrow> method = ''GET''"
  obtain operation rest where opr: "unwrap_or (split_once (CHR ''/'') path) (path, []) = (operation, rest)" by fastforce
  define rnd where "rnd \<longleftrightarrow> operation = ''random''"
  define hsh where "hsh \<longleftrightarrow> operation = ''hash''"
  define cry where "cry \<longleftrightarrow> operation \<in> {''encrypt'', ''decrypt'', ''rewrap'', ''hmac'', ''sign'', ''verify''}"
  define dat where "dat \<longleftrightarrow> operation = ''datakey''"
  define names where "names = (if method \<noteq> ''LIST'' then Inl unsupported
         else rbind (list_keys (map fst (transit_keys st)) [] False body) (\<lambda>names.
           if names = [] then Inl not_found
           else Inr (ok_data (json_object [(''keys'', JArr (map JStr names))]) False)))"
  have eq: "transit_handle lib fill st ns mount method path body now =
     (if cfg then
        if is_get then (st, Inr (ok_data (json_object [(''disable_upsert'', JBool (disable_upsert st))]) False))
        else if \<not> write_method method then (st, Inl unsupported)
        else
          sbind (st, reject_unknown body [''disable_upsert'']) (\<lambda>st _.
          sbind (st, optional_bool body ''disable_upsert'') (\<lambda>st flag.
          sbind (st, ok_or flag (bad ''disable_upsert is required'')) (\<lambda>st flag.
          (st\<lparr>disable_upsert := flag\<rparr>, Inr (empty_ok True)))))
      else if lst then (st, names)
      else
        case strip_prefix ''keys/'' path of
          Some rest \<Rightarrow> handle_key lib fill st method rest body now
        | None \<Rightarrow>
            (case strip_prefix ''export/'' path of
               Some rest \<Rightarrow> (st, transit_export st method rest)
             | None \<Rightarrow>
                 if \<not> write_method method then (st, Inl unsupported)
                 else if rnd then (st, transit_random lib fill rest body)
                 else if hsh then (st, transit_hash lib rest body)
                 else if cry then transit_crypto lib fill st ns mount operation rest body now
                 else if dat then transit_datakey lib fill st ns mount rest body
                 else (st, Inl (eng_error 404 ''unknown or unsupported transit operation''))))"
    unfolding transit_handle_def opr Let_def prod.case cfg_def lst_def is_get_def rnd_def hsh_def cry_def dat_def names_def
    by (rule refl)
  have names: "names = Inr resp \<Longrightarrow> \<not> mutated resp" unfolding names_def by (auto split: if_splits)
  have export: "transit_export st method r = Inr resp \<Longrightarrow> \<not> mutated resp" for r
    unfolding transit_export_def Let_def by (auto simp: if_Inl_Inr_iff)
  have random: "transit_random lib fill r body = Inr resp \<Longrightarrow> \<not> mutated resp" for r
    unfolding transit_random_def Let_def case_prod_beta by (auto simp only: rbind_Inr_iff if_Inl_Inr_iff sum.inject mutated_simps)
  have hash: "transit_hash lib r body = Inr resp \<Longrightarrow> \<not> mutated resp" for r
    unfolding transit_hash_def Let_def by (auto simp only: rbind_Inr_iff if_Inl_Inr_iff sum.inject mutated_simps)
  have path: "path = operation @ ''/'' @ rest \<or> path = operation \<and> rest = []"
    using opr by (cases "split_once (CHR ''/'') path") (auto simp: split_once_Some_iff)
  note a = assms [unfolded eq]
  consider (1) cfg | (2) "\<not> cfg" lst | (3) r where "\<not> cfg" "\<not> lst" "strip_prefix ''keys/'' path = Some r"
    | (4) r where "\<not> cfg" "\<not> lst" "strip_prefix ''keys/'' path = None" "strip_prefix ''export/'' path = Some r"
    | (5) "\<not> cfg" "\<not> lst" "strip_prefix ''keys/'' path = None" "strip_prefix ''export/'' path = None"
    by (cases "strip_prefix ''keys/'' path"; cases "strip_prefix ''export/'' path") blast+
  then show thesis
  proof cases
    case 1
    then show thesis using a readonly config
      by (cases is_get) (auto simp: sbind_pair_Inr_iff if_pair_Inl_iff split: if_splits)
  next
    case 2
    then show thesis using a names by (intro readonly) auto
  next
    case (3 r)
    then show thesis using a by (intro key [of r]) simp_all
  next
    case (4 r)
    then show thesis using a export by (intro readonly) auto
  next
    case 5
    note b = a [unfolded if_not_P [OF 5(1)] if_not_P [OF 5(2)] 5(3,4) option.case if_pair_Inl_iff]
    consider rnd | "\<not> rnd" hsh | "\<not> rnd" "\<not> hsh" cry | "\<not> rnd" "\<not> hsh" "\<not> cry" dat
      using b by (auto split: if_splits)
    then show thesis
    proof cases
      case 1
      then show thesis using b random by (intro readonly) auto
    next
      case 2
      then show thesis using b hash by (intro readonly) auto
    next
      case 3
      then show thesis using b path by (intro crypto [of operation rest]) (simp_all only: cry_def if_False if_True simp_thms)
    next
      case 4
      then show thesis using b by (intro datakey [of rest]) simp_all
    qed
  qed
qed

section \<open>The engine contract\<close>

definition transit_request :: "'x crypto_scheme \<Rightarrow> string \<Rightarrow> string \<Rightarrow> transit \<Rightarrow> random_request \<Rightarrow>
    transit \<times> (engine_error + engine_response)" where
  "transit_request lib ns mount st q =
     transit_handle lib (req_fill q) st ns mount (req_method q) (req_path q) (req_body q) (req_now q)"

lemma transit_ok_put: "transit_ok st \<Longrightarrow> transit_key_ok k \<Longrightarrow> transit_ok (put_key st name k)"
  by (simp add: transit_ok_def put_key_def list_all_binsert)

lemma transit_ok_get: "transit_ok st \<Longrightarrow> map_of (transit_keys st) name = Some k \<Longrightarrow> transit_key_ok k"
  unfolding transit_ok_def by (blast intro: list_all_map_of)

lemma put_key_lookup [simp]:
  "map_of (transit_keys (put_key st name k)) n = (if n = name then Some k else map_of (transit_keys st) n)"
  by (simp add: put_key_def)

lemma alive_iff [simp]: "alive k = Inr u \<longleftrightarrow> \<not> deleted k"
  by (simp add: alive_def)

text \<open>What a successful request does to a key: nothing, growth, creation or removal.\<close>

lemma transit_handle_effect:
  assumes ok: "transit_ok st" and h: "transit_handle lib fill st ns mount method path body now = (st', Inr resp)"
  obtains (config) flag where "st' = st\<lparr>disable_upsert := flag\<rparr>"
  | (put) name k where "st' = put_key st name k" "transit_key_ok k"
      "\<And>k0. map_of (transit_keys st) name = Some k0 \<Longrightarrow> key_grows k0 k"
  | (remove) name k where "st' = st\<lparr>transit_keys := bremove name (transit_keys st)\<rparr>" "map_of (transit_keys st) name = Some k"
      "deletion_allowed k" "method = ''DELETE''" "path = ''keys/'' @ name \<or> path = ''keys/'' @ name @ ''/''"
proof -
  from h show thesis
  proof (cases rule: transit_handle_success)
    case readonly
    then show thesis by (intro config [of "disable_upsert st"]) simp
  next
    case (config flag)
    then show thesis by (intro that(1) [of flag]) simp
  next
    case (key rest)
    from key(2) show thesis
    proof (cases rule: handle_key_success)
      case readonly
      then show thesis by (intro config [of "disable_upsert st"]) simp
    next
      case (create name k)
      then show thesis using key_new_ok [OF create(2)] by (intro put [of name k]) auto
    next
      case (remove name k)
      then show thesis using key(1) by (intro that(3) [of name k]) auto
    next
      case (operate name operation k k')
      then show thesis using key_operation_ok [OF operate(2) transit_ok_get [OF ok operate(1)]] by (intro put [of name k']) auto
    qed
  next
    case (crypto operation rest)
    from crypto(4) show thesis
    proof (rule transit_crypto_success)
      fix name algorithm st1 k k'
      assume st1: "st1 = st \<or> (operation = ''encrypt'' \<and> map_of (transit_keys st) name = None \<and>
         (\<exists>k. key_new lib fill body now = Inr k \<and> st1 = put_key st name k))"
        and k: "map_of (transit_keys st1) name = Some k"
        and hc: "handle_crypto lib fill k ns mount name operation algorithm body = (k', Inr resp)"
        and st': "st' = put_key st1 name k'"
      have "transit_key_ok k" using st1 k transit_ok_get [OF ok] by (auto dest: key_new_ok split: if_splits)
      then have g: "transit_key_ok k'" "key_grows k k'"
        using encrypt_steps_ok [OF conjunct1 [OF handle_crypto_steps [OF hc]]] by blast+
      have "st' = put_key st name k'" using st1 st' by (auto simp: put_key_def)
      then show thesis using g st1 k by (intro put [of name k']) auto
    qed
  next
    case (datakey rest)
    from datakey(2) show thesis
    proof (rule transit_datakey_success)
      fix name k k' pt data
      assume k: "map_of (transit_keys st) name = Some k"
        and e: "transit_encrypt lib fill k ns mount name body pt = (k', Inr data)" and st': "st' = put_key st name k'"
      have st: "encrypt_step lib ns mount name k k'" using e by (auto simp: encrypt_step_def)
      show thesis using encrypt_step_ok [OF st transit_ok_get [OF ok k]] k st' by (intro put [of name k']) auto
    qed
  qed
qed

interpretation transit_engine: secret_engine "transit_request lib ns mount" transit_ok transit_default
  for lib :: "'x crypto_scheme" and ns mount
proof
  show "transit_ok transit_default" by (simp add: transit_ok_def transit_default_def)
  show "transit_ok st'" if ok: "transit_ok st" and h: "transit_request lib ns mount st q = (st', Inr resp)" for st q st' resp
    using ok h unfolding transit_request_def
  proof (cases rule: transit_handle_effect)
    case (config flag)
    then show ?thesis using ok by (simp add: transit_ok_def)
  next
    case (put name k)
    then show ?thesis using ok transit_ok_put by blast
  next
    case (remove name k)
    then show ?thesis using ok by (simp add: transit_ok_def list_all_bremove)
  qed
qed

text \<open>
  C16: every state the encryption engine reaches by committed requests satisfies its invariant.
  The version numbers of a key are 1 to the latest without a gap and at most 10,000, the
  minimum decryption and encryption versions are consistent with each other and with the latest
  version, the type is a supported one, and no version has encrypted more than \<open>2 ^ 32\<close>
  messages, the limit for random 96-bit nonces.
\<close>

theorem transit_reachable_ok:
  "transit_ok (engine_run (transit_request lib ns mount) transit_default qs)"
  by (rule transit_engine.committed.reachable_ok)

lemma transit_commit_key:
  assumes ok: "transit_ok st" and k: "map_of (transit_keys st) name = Some k"
  obtains (kept) k' where "map_of (transit_keys (engine_commit (transit_request lib ns mount) st q)) name = Some k'" "key_grows k k'"
  | (lost) "map_of (transit_keys (engine_commit (transit_request lib ns mount) st q)) name = None"
      "deletion_allowed k" "req_method q = ''DELETE''" "req_path q = ''keys/'' @ name \<or> req_path q = ''keys/'' @ name @ ''/''"
proof (cases "engine_commit (transit_request lib ns mount) st q = st")
  case True
  then show thesis using k by (intro kept [of k]) simp_all
next
  case False
  then obtain st' resp where h: "transit_request lib ns mount st q = (st', Inr resp)"
    and c: "engine_commit (transit_request lib ns mount) st q = st'"
    by (cases "transit_request lib ns mount st q"; cases "snd (transit_request lib ns mount st q)")
      (auto simp: engine_commit_def split: if_splits)
  from ok h [unfolded transit_request_def] show thesis
  proof (cases rule: transit_handle_effect)
    case (config flag)
    then show thesis using k by (intro kept [of k]) (simp_all add: c)
  next
    case (put n k')
    then show thesis using k by (intro kept [of "if n = name then k' else k"]) (auto simp: c)
  next
    case (remove n k')
    then show thesis
    proof (cases "n = name")
      case True
      then show thesis using remove k by (intro lost) (auto simp: c)
    next
      case False
      then show thesis using remove k by (intro kept [of k]) (auto simp: c)
    qed
  qed
qed

definition removes_key :: "string \<Rightarrow> 'a engine_request_scheme \<Rightarrow> bool" where
  "removes_key name q =
     (req_method q = ''DELETE'' \<and> (req_path q = ''keys/'' @ name \<or> req_path q = ''keys/'' @ name @ ''/''))"

lemma transit_run_key:
  assumes "transit_ok st" and "map_of (transit_keys st) name = Some k" and "\<forall>q \<in> set qs. \<not> removes_key name q"
  shows "\<exists>k'. map_of (transit_keys (engine_run (transit_request lib ns mount) st qs)) name = Some k' \<and> key_grows k k'"
  using assms
proof (induction qs arbitrary: st k)
  case (Cons q qs)
  let ?st = "engine_commit (transit_request lib ns mount) st q"
  have ok: "transit_ok ?st" using Cons.prems(1) by (rule transit_engine.commit_ok)
  from Cons.prems(1,2) show ?case
  proof (cases rule: transit_commit_key [of st name k lib ns mount q])
    case (kept k')
    obtain k2 where "map_of (transit_keys (engine_run (transit_request lib ns mount) ?st qs)) name = Some k2" "key_grows k' k2"
      using Cons.IH [OF ok kept(1)] Cons.prems(3) by auto
    then show ?thesis using key_grows_trans [OF kept(2)] by auto
  next
    case lost
    then show ?thesis using Cons.prems(3) by (auto simp: removes_key_def)
  qed
qed auto

text \<open>
  C19: a key disappears only by an explicit deletion that its configuration allows. Whatever
  request is committed, a named key is still there afterwards, with its type and all its key
  material unchanged and its exportability not withdrawn, unless the request was a
  \<^verbatim>\<open>DELETE\<close> of that very key and \<open>deletion_allowed\<close> was set.
\<close>

theorem transit_deletion_guard:
  assumes "transit_ok st" and "map_of (transit_keys st) name = Some k"
    and "\<not> (deletion_allowed k \<and> removes_key name q)"
  shows "\<exists>k'. map_of (transit_keys (engine_commit (transit_request lib ns mount) st q)) name = Some k' \<and>
    kind k' = kind k \<and> (exportable k \<longrightarrow> exportable k') \<and>
    (\<forall>n v. map_of (key_versions k) n = Some v \<longrightarrow>
       (\<exists>v'. map_of (key_versions k') n = Some v' \<and> material v' = material v \<and> hmac_material v' = hmac_material v))"
  using assms(1,2)
proof (cases rule: transit_commit_key [of st name k lib ns mount q])
  case (kept k')
  then show ?thesis by (auto simp: key_grows_def)
next
  case lost
  then show ?thesis using assms(3) by (auto simp: removes_key_def)
qed

section \<open>Ciphertexts\<close>

definition base64_correct :: "'x crypto_scheme \<Rightarrow> bool" where
  "base64_correct lib = (\<forall>bytes. base64_decode lib (base64_encode lib bytes) = Some bytes)"

definition aead_correct :: "'x crypto_scheme \<Rightarrow> bool" where
  "aead_correct lib =
     (\<forall>alg key nonce aad plain sealed. aead_seal lib alg key nonce aad plain = Some sealed \<longrightarrow>
        aead_open lib alg key nonce aad sealed = Some plain \<and> length sealed = length plain + 16)"

definition signature_correct :: "'x crypto_scheme \<Rightarrow> bool" where
  "signature_correct lib =
     (\<forall>doc pub msg. ed25519_public lib doc = Some pub \<longrightarrow> ed25519_verify lib pub msg (ed25519_sign lib doc msg))"

definition entropy_sized :: "entropy \<Rightarrow> bool" where
  "entropy_sized fill = (\<forall>l n bytes. fill l n = Some bytes \<longrightarrow> length bytes = n)"

lemma parse_wrap_version:
  assumes b: "base64_correct lib" and n: "1 \<le> n" "n < u64_bound"
    and len: "length (base64_encode lib bytes) \<le> MAX_INPUT_BYTES * 4 div 3 + 4"
  shows "parse_wrapped lib (wrap_version lib n bytes) = Inr (n, bytes)"
proof -
  have d: "list_all is_ascii_digit (nat_to_dec n)" using nat_to_dec_digits by blast
  then have "CHR '':'' \<notin> set (nat_to_dec n)" by (auto simp: list_all_iff is_ascii_digit_def)
  then have "split_once (CHR '':'') (nat_to_dec n @ CHR '':'' # base64_encode lib bytes) = Some (nat_to_dec n, base64_encode lib bytes)"
    by (simp add: split_once_Some_iff)
  moreover have "strip_prefix ''vault:v'' (wrap_version lib n bytes) = Some (nat_to_dec n @ CHR '':'' # base64_encode lib bytes)"
    unfolding wrap_version_def by simp
  moreover have "transit_decode lib (base64_encode lib bytes) = Inr bytes"
    using b len by (simp add: transit_decode_def base64_correct_def)
  ultimately show ?thesis
    using d n parse_u64_nat_to_dec [of n] nat_to_dec_no_zero [of n] by (simp add: parse_wrapped_def)
qed

lemma decrypt_version_grown:
  assumes "key_grows k k'" and "map_of (key_versions k) n = Some v" and "\<not> deleted k'" and "min_decryption_version k' \<le> n"
  obtains v' where "decrypt_version k' n = Inr v'" "material v' = material v" "hmac_material v' = hmac_material v"
proof -
  obtain v' where "map_of (key_versions k') n = Some v'" "material v' = material v" "hmac_material v' = hmac_material v"
    using assms(1,2) by (auto simp: key_grows_def)
  then show thesis using assms(3,4) by (intro that [of v']) (simp_all add: decrypt_version_def alive_def)
qed

lemma transit_decrypt_encrypted:
  assumes laws: "base64_correct lib" "aead_correct lib" "entropy_sized fill"
    and ok: "transit_key_ok k" and e: "transit_encrypt lib fill k ns mount name body pt = (k1, Inr data)"
    and c: "json_get data ''ciphertext'' = Some (JStr c)" and len: "length c \<le> MAX_INPUT_BYTES"
    and grown: "key_grows k1 k2" and n: "json_get data ''key_version'' = Some (json_u64 n)"
    and alive: "\<not> deleted k2" "min_decryption_version k2 \<le> n"
    and body2: "json_get body2 ''ciphertext'' = Some (JStr c)" "json_get body2 ''associated_data'' = json_get body ''associated_data''"
  shows "transit_decrypt lib k2 ns mount name body2 = Inr pt"
  using e
proof (rule transit_encrypt_Inr)
  fix n' v mat nonce aad ct
  assume alg: "aead_algorithm (kind k) = Inr (kind k)" and v: "map_of (key_versions k) n' = Some v"
    and mat: "stored_material lib (material v) = Inr mat" and good: "aead_key_ok lib (kind k) mat"
    and nonce: "fill [3] 12 = Some nonce" and aad: "transit_aad lib ns mount name body = Inr aad"
    and ct: "aead_seal lib (kind k) mat nonce aad pt = Some ct"
    and k1: "k1 = k\<lparr>key_versions := binsert n' (v\<lparr>encryptions := encryptions v + 1\<rparr>) (key_versions k)\<rparr>"
    and data: "data = json_object [(''ciphertext'', JStr (wrap_version lib n' (nonce @ ct))), (''key_version'', json_u64 n')]"
  have n': "n' = n" using n by (simp add: data json_object_get)
  have c': "c = wrap_version lib n (nonce @ ct)" using c by (simp add: data json_object_get n')
  have nl: "length nonce = 12" using laws(3) nonce by (simp add: entropy_sized_def)
  have opened: "aead_open lib (kind k) mat nonce aad ct = Some pt" and cl: "length ct = length pt + 16"
    using laws(2) ct by (auto simp: aead_correct_def)
  have "1 \<le> n \<and> n \<le> 10000"
    using transit_key_versions(2) [OF ok, of n] v ok by (simp add: n' transit_key_ok_def)
  moreover have "length (base64_encode lib (nonce @ ct)) \<le> MAX_INPUT_BYTES * 4 div 3 + 4"
    using len by (simp add: c' wrap_version_def MAX_INPUT_BYTES_def)
  ultimately have p: "parse_wrapped lib c = Inr (n, nonce @ ct)"
    unfolding c' by (intro parse_wrap_version [OF laws(1)]) auto
  have v1: "map_of (key_versions k1) n = Some (v\<lparr>encryptions := encryptions v + 1\<rparr>)" by (simp add: k1 n')
  obtain v2 where v2: "decrypt_version k2 n = Inr v2" "material v2 = material v"
    using decrypt_version_grown [OF grown v1 alive] by auto
  have kd: "kind k2 = kind k" using grown by (simp add: key_grows_def k1)
  have aad2: "transit_aad lib ns mount name body2 = Inr aad" using aad body2(2) by (simp add: transit_aad_def)
  show ?thesis
    by (simp add: transit_decrypt_def kd alg string_param_def body2(1) p v2 mat good aad2 nl cl opened)
qed

lemma transit_handle_path:
  "transit_handle lib fill st ns mount ''POST'' (''encrypt/'' @ rest) body now = transit_crypto lib fill st ns mount ''encrypt'' rest body now"
  "transit_handle lib fill st ns mount ''POST'' (''decrypt/'' @ rest) body now = transit_crypto lib fill st ns mount ''decrypt'' rest body now"
  by (simp_all add: transit_handle_def write_method_def)

lemma transit_crypto_name:
  assumes "CHR ''/'' \<notin> set name"
  shows "unwrap_or (split_once (CHR ''/'') name) (name, []) = (name, [])"
  using assms by (metis split_once_None_iff unwrap_or_simps(1))

lemma handle_crypto_single:
  assumes "json_get body ''batch_input'' = None"
  shows "handle_crypto lib fill k ns mount name operation algorithm body =
    sbind (k, ok_or (crypto_allowed operation) unsupported) (\<lambda>k allowed.
    sbind (k, reject_unknown body allowed) (\<lambda>k _.
    crypto_single lib fill k ns mount name operation algorithm body))"
  unfolding handle_crypto_def assms by simp

lemma crypto_single_encrypt:
  assumes "crypto_single lib fill k ns mount name ''encrypt'' algorithm body = (k', Inr resp)"
  obtains pt data where "decode_field lib body ''plaintext'' = Inr pt"
    "transit_encrypt lib fill k ns mount name body pt = (k', Inr data)" "resp = ok_data data True"
proof -
  have "\<exists>pt data. decode_field lib body ''plaintext'' = Inr pt \<and> transit_encrypt lib fill k ns mount name body pt = (k', Inr data) \<and> resp = ok_data data True"
    using assms
    by (cases "reject_context body"; cases "decode_field lib body ''plaintext''";
        cases "transit_encrypt lib fill k ns mount name body (projr (decode_field lib body ''plaintext''))";
        cases "snd (transit_encrypt lib fill k ns mount name body (projr (decode_field lib body ''plaintext'')))")
      (auto simp: crypto_single_def split: if_splits)
  then show thesis using that by blast
qed

definition decrypt_body :: "json \<Rightarrow> string \<Rightarrow> json" where
  "decrypt_body body c =
     JObj ((case json_get body ''associated_data'' of None \<Rightarrow> [] | Some a \<Rightarrow> [(''associated_data'', a)])
           @ [(''ciphertext'', JStr c)])"

lemma decrypt_body_fields:
  "json_get (decrypt_body body c) ''ciphertext'' = Some (JStr c)"
  "json_get (decrypt_body body c) ''associated_data'' = json_get body ''associated_data''"
  "json_get (decrypt_body body c) ''batch_input'' = None"
  "json_get (decrypt_body body c) ''context'' = None" "json_get (decrypt_body body c) ''nonce'' = None"
  "json_get (decrypt_body body c) ''convergent_encryption'' = None"
  "crypto_allowed ''decrypt'' = Some allowed \<Longrightarrow> reject_unknown (decrypt_body body c) allowed = Inr ()"
  by (cases "json_get body ''associated_data''"; force simp: decrypt_body_def crypto_allowed_def reject_unknown_def)+

lemma transit_decrypt_request:
  assumes "valid_path name = Inr ()" and "CHR ''/'' \<notin> set name" and k: "map_of (transit_keys st) name = Some k" "\<not> deleted k"
    and d: "transit_decrypt lib k ns mount name (decrypt_body body c) = Inr pt"
  shows "snd (transit_handle lib fill st ns mount ''POST'' (''decrypt/'' @ name) (decrypt_body body c) now) =
    Inr (ok_data (json_object [(''plaintext'', JStr (base64_encode lib pt))]) False)"
proof -
  obtain allowed where a: "crypto_allowed ''decrypt'' = Some allowed" by (simp add: crypto_allowed_def)
  have "reject_context (decrypt_body body c) = Inr ()"
    by (simp add: reject_context_def decrypt_body_fields optional_bool_def)
  then have "handle_crypto lib fill k ns mount name ''decrypt'' [] (decrypt_body body c) =
      (k, Inr (ok_data (json_object [(''plaintext'', JStr (base64_encode lib pt))]) False))"
    using decrypt_body_fields(7) [OF a]
    by (simp add: handle_crypto_single [OF decrypt_body_fields(3)] a crypto_single_def d)
  then show ?thesis
    using assms k unfolding transit_handle_path by (simp add: transit_crypto_def transit_crypto_name alive_def)
qed

text \<open>
  C15: a ciphertext stays readable. If a request encrypted a plaintext under a key, then after
  any later sequence of committed requests that does not delete the key, including rotations,
  further encryptions and changes of configuration, a decryption request with that ciphertext
  and the same associated data returns exactly the plaintext, provided the key is not soft
  deleted and its minimum decryption version has not passed the version that was used. The
  hypotheses on the libraries are that base64 decoding inverts encoding, that opening inverts
  sealing and a tag has 16 bytes, and that the random source returns as many bytes as asked.
\<close>

theorem transit_ciphertext_survives:
  assumes laws: "base64_correct lib" "aead_correct lib" "entropy_sized fill"
    and ok: "transit_ok st" and name: "CHR ''/'' \<notin> set name"
    and enc: "transit_handle lib fill st ns mount ''POST'' (''encrypt/'' @ name) body now = (st1, Inr resp)"
    and single: "json_get body ''batch_input'' = None" and pt: "decode_field lib body ''plaintext'' = Inr pt"
    and data: "json_get (resp_body resp) ''data'' = Some data" "json_get data ''ciphertext'' = Some (JStr c)"
      "json_get data ''key_version'' = Some (json_u64 n)" and len: "length c \<le> MAX_INPUT_BYTES"
    and later: "\<forall>q \<in> set qs. \<not> removes_key name q"
    and final: "map_of (transit_keys (engine_run (transit_request lib ns mount) st1 qs)) name = Some k2"
      "\<not> deleted k2" "min_decryption_version k2 \<le> n"
  shows "snd (transit_handle lib fill' (engine_run (transit_request lib ns mount) st1 qs) ns mount ''POST''
      (''decrypt/'' @ name) (decrypt_body body c) now') =
    Inr (ok_data (json_object [(''plaintext'', JStr (base64_encode lib pt))]) False)"
proof -
  have v: "valid_path name = Inr ()"
    using enc unfolding transit_handle_path transit_crypto_def transit_crypto_name [OF name]
    by (cases "valid_path name") auto
  have ok1: "transit_ok st1"
    using transit_engine.handle_ok [OF ok, of lib ns mount "\<lparr>req_method = ''POST'', req_path = ''encrypt/'' @ name, req_body = body, req_now = now, req_fill = fill\<rparr>"]
      enc by (simp add: transit_request_def)
  from enc [unfolded transit_handle_path] show ?thesis
  proof (rule transit_crypto_success)
    fix name' algorithm st0 k k1
    assume na: "unwrap_or (split_once (CHR ''/'') name) (name, []) = (name', algorithm)"
      and st0: "st0 = st \<or> (''encrypt'' = ''encrypt'' \<and> map_of (transit_keys st) name' = None \<and>
         (\<exists>k. key_new lib fill body now = Inr k \<and> st0 = put_key st name' k))"
      and k: "map_of (transit_keys st0) name' = Some k"
      and hc: "handle_crypto lib fill k ns mount name' ''encrypt'' algorithm body = (k1, Inr resp)"
      and st1: "st1 = put_key st0 name' k1"
    have n: "name' = name" "algorithm = []" using na transit_crypto_name [OF name] by simp_all
    have kok: "transit_key_ok k" using st0 k transit_ok_get [OF ok] by (auto dest: key_new_ok split: if_splits)
    have "crypto_single lib fill k ns mount name ''encrypt'' [] body = (k1, Inr resp)"
      using hc unfolding n handle_crypto_single [OF single] by (auto simp: sbind_pair_Inr_iff)
    then obtain data' where e: "transit_encrypt lib fill k ns mount name body pt = (k1, Inr data')" and r: "resp = ok_data data' True"
      by (rule crypto_single_encrypt) (use pt in auto)
    have d: "data' = data" using data(1) by (simp add: r ok_data_def json_object_get)
    have k1: "map_of (transit_keys st1) name = Some k1" by (simp add: st1 n)
    have "key_grows k1 k2" using transit_run_key [OF ok1 k1 later, of lib ns mount] final(1) by auto
    then have "transit_decrypt lib k2 ns mount name (decrypt_body body c) = Inr pt"
      using e data(2,3) len final(2,3) unfolding d
      by (intro transit_decrypt_encrypted [OF laws kok]) (auto simp: decrypt_body_fields)
    then show ?thesis using transit_decrypt_request [OF v name final(1,2)] by blast
  qed
qed

text \<open>
  C17: decryption obeys the key's policy. A plaintext is only returned for a ciphertext of a
  version that exists and is not below the minimum decryption version, and never from a soft
  deleted key. Rewrapping goes through the same function.
\<close>

theorem transit_decrypt_policy:
  assumes "transit_key_ok k" and "transit_decrypt lib k ns mount name body = Inr pt"
  shows "\<exists>c n bytes. json_get body ''ciphertext'' = Some (JStr c) \<and> parse_wrapped lib c = Inr (n, bytes) \<and>
    \<not> deleted k \<and> min_decryption_version k \<le> n \<and> n \<le> latest_version k \<and> 28 \<le> length bytes"
proof -
  obtain c n bytes v where c: "string_param body ''ciphertext'' = Inr c" and p: "parse_wrapped lib c = Inr (n, bytes)"
    and v: "decrypt_version k n = Inr v" and len: "\<not> length bytes < 28"
    using assms(2) unfolding transit_decrypt_def case_prod_beta rbind_Inr_iff if_Inl_Inr_iff by (metis prod.collapse)
  have "json_get body ''ciphertext'' = Some (JStr c)" using c by (auto simp: string_param_def Option.bind_eq_Some_conv)
  moreover have "map_of (key_versions k) n = Some v" "\<not> deleted k" "min_decryption_version k \<le> n"
    using v by (auto simp: decrypt_version_def split: if_splits)
  moreover from this(1) have "n \<le> latest_version k" using transit_key_versions(2) [OF assms(1), of n] by simp
  ultimately show ?thesis using p len by fastforce
qed

text \<open>
  C18: key material leaves the engine only as the policy says. An export succeeds only for a key
  that was made exportable and is not soft deleted, as HMAC key or, for an encryption key, as
  encryption key, and every version it returns is at or above the minimum decryption version.
\<close>

theorem transit_export_policy:
  assumes "transit_export st method rest = Inr resp"
  shows "\<exists>k0 name k keys. map_of (transit_keys st) name = Some k \<and> exportable k \<and> \<not> deleted k \<and>
    (k0 = ''hmac-key'' \<or> k0 = ''encryption-key'' \<and> supports_encryption (kind k)) \<and>
    json_get (resp_body resp) ''data'' = Some (json_object [(''name'', JStr name), (''type'', JStr (kind k)), (''keys'', json_object keys)]) \<and>
    (\<forall>e \<in> set keys. \<exists>n v. map_of (key_versions k) n \<noteq> None \<and> (n, v) \<in> set (key_versions k) \<and> min_decryption_version k \<le> n \<and>
       e = (nat_to_dec n, JStr (if k0 = ''hmac-key'' then hmac_material v else material v)))"
proof -
  let ?parts = "split_on (CHR ''/'') rest"
  define k0 where "k0 = ?parts ! 0"
  define name where "name = ?parts ! 1"
  have "\<exists>k selected. map_of (transit_keys st) name = Some k \<and> (\<exists>u. alive k = Inr u) \<and> exportable k \<and> export_kind_ok k0 k \<and>
      (Inr (ok_data (json_object [(''name'', JStr name), (''type'', JStr (kind k)),
        (''keys'', json_object (map (\<lambda>(version, v). (nat_to_dec version, JStr (if k0 = ''hmac-key'' then hmac_material v else material v)))
                       (filter (\<lambda>(version, v). min_decryption_version k \<le> version
                          \<and> is_none_or selected (\<lambda>n. version = n)) (key_versions k))))]) False) :: engine_error + engine_response) = Inr resp"
    using assms unfolding transit_export_def Let_def if_Inl_Inr_iff rbind_Inr_iff ok_or_iff k0_def [symmetric] name_def [symmetric] not_not
    apply (elim exE conjE)
    apply (intro exI conjI)
        apply assumption+
    done
  then obtain k selected where k: "map_of (transit_keys st) name = Some k" "\<not> deleted k" "exportable k" "export_kind_ok k0 k"
    and r: "resp = ok_data (json_object [(''name'', JStr name), (''type'', JStr (kind k)),
        (''keys'', json_object (map (\<lambda>(version, v). (nat_to_dec version, JStr (if k0 = ''hmac-key'' then hmac_material v else material v)))
                       (filter (\<lambda>(version, v). min_decryption_version k \<le> version
                          \<and> is_none_or selected (\<lambda>n. version = n)) (key_versions k))))]) False"
    by auto
  show ?thesis
    by (rule exI [of _ k0], rule exI [of _ name], rule exI [of _ k], rule exI [of _ "map (\<lambda>(version, v). (nat_to_dec version, JStr (if k0 = ''hmac-key'' then hmac_material v else material v)))
                       (filter (\<lambda>(version, v). min_decryption_version k \<le> version
                          \<and> is_none_or selected (\<lambda>n. version = n)) (key_versions k))"])
      (use k in \<open>auto simp: r ok_data_def json_object_get export_kind_ok_def map_of_eq_None_iff split: prod.splits; force\<close>)
qed

text \<open>
  C21: every encryption is counted, once. A successful encryption uses a version that exists and
  is allowed for encryption, that version's counter was below \<open>2 ^ 32\<close> and is advanced by
  one, and neither another version nor any other field of the key changes; a failed one changes
  nothing.
\<close>

theorem transit_encryption_counted:
  "(\<forall>e. transit_encrypt lib fill k ns mount name body pt = (k', Inl e) \<longrightarrow> k' = k) \<and>
   (\<forall>data. transit_encrypt lib fill k ns mount name body pt = (k', Inr data) \<longrightarrow>
     (\<exists>n v. map_of (key_versions k) n = Some v \<and> 1 \<le> n \<and> min_encryption_version k \<le> n \<and> \<not> deleted k \<and>
        encryptions v < 2 ^ 32 \<and> json_get data ''key_version'' = Some (json_u64 n) \<and>
        k' = k\<lparr>key_versions := binsert n (v\<lparr>encryptions := encryptions v + 1\<rparr>) (key_versions k)\<rparr>))"
proof (intro conjI allI impI)
  show "k' = k" if "transit_encrypt lib fill k ns mount name body pt = (k', Inl e)" for e
    using that by (rule transit_encrypt_Inl)
  fix data
  assume "transit_encrypt lib fill k ns mount name body pt = (k', Inr data)"
  then show "\<exists>n v. map_of (key_versions k) n = Some v \<and> 1 \<le> n \<and> min_encryption_version k \<le> n \<and> \<not> deleted k \<and>
        encryptions v < 2 ^ 32 \<and> json_get data ''key_version'' = Some (json_u64 n) \<and>
        k' = k\<lparr>key_versions := binsert n (v\<lparr>encryptions := encryptions v + 1\<rparr>) (key_versions k)\<rparr>"
  proof (rule transit_encrypt_Inr)
    fix n v mat nonce aad ct
    assume n: "selected_version k body = Inr n" and v: "map_of (key_versions k) n = Some v"
      and lim: "encryptions v < MAX_ENCRYPTIONS_PER_VERSION"
      and k': "k' = k\<lparr>key_versions := binsert n (v\<lparr>encryptions := encryptions v + 1\<rparr>) (key_versions k)\<rparr>"
      and data: "data = json_object [(''ciphertext'', JStr (wrap_version lib n (nonce @ ct))), (''key_version'', json_u64 n)]"
    have "1 \<le> n" "min_encryption_version k \<le> n" "\<not> deleted k"
      using n by (auto simp: selected_version_def Let_def split: if_splits)
    then show ?thesis using v lim k' by (intro exI [of _ n] exI [of _ v]) (simp add: data json_object_get MAX_ENCRYPTIONS_PER_VERSION_def)
  qed
qed

section \<open>Batches\<close>

definition crypto_request :: "'x crypto_scheme \<Rightarrow> string \<Rightarrow> string \<Rightarrow> string \<Rightarrow> string \<Rightarrow> string \<Rightarrow> transit_key \<Rightarrow>
    entropy \<times> json \<Rightarrow> transit_key \<times> (engine_error + engine_response)" where
  "crypto_request lib ns mount name operation algorithm k q =
     handle_crypto lib (fst q) k ns mount name operation algorithm (snd q)"

definition plain_item :: "json \<Rightarrow> bool" where
  "plain_item item = (is_object item \<and> json_get item ''batch_input'' = None
     \<and> json_get item ''partial_failure_response_code'' = None)"

lemma batch_combine_no_batch:
  assumes "plain_item item" and "reject_unknown body allowed = Inr ()"
  shows "json_get (batch_combine body item) ''batch_input'' = None"
proof -
  obtain im where im: "item = JObj im" "map_of im ''batch_input'' = None"
    using assms(1) by (auto simp: plain_item_def is_object_iff)
  obtain m where m: "body = JObj m" using assms(2) by (auto simp: reject_unknown_def)
  have "''batch_input'' \<in> set batch_private" by (simp add: batch_private_def)
  then show ?thesis
    using im(2) by (simp add: m im(1) batch_combine_def map_of_fold_binsert map_of_fold_bremove)
qed

lemma batch_item_single:
  assumes "plain_item item" and "crypto_allowed operation = Some allowed" and "reject_unknown body allowed = Inr ()"
  shows "batch_item lib fill k ns mount name operation algorithm body allowed item =
    crypto_request lib ns mount name operation algorithm k (fill, batch_combine body item)"
  unfolding batch_item_def crypto_request_def fst_conv snd_conv
    handle_crypto_single [OF batch_combine_no_batch [OF assms(1,3)]] assms(2) ok_or_simps sbind_simps Let_def
  using assms(1) by (simp add: plain_item_def)

primrec batch_requests :: "entropy \<Rightarrow> json \<Rightarrow> nat \<Rightarrow> json list \<Rightarrow> (entropy \<times> json) list" where
  "batch_requests fill body i [] = []"
| "batch_requests fill body i (item # items) = ((\<lambda>l. fill (i # l)), batch_combine body item) # batch_requests fill body (i + 1) items"

lemma batch_loop_run:
  assumes "crypto_allowed operation = Some allowed" and "reject_unknown body allowed = Inr ()" and "list_all plain_item items"
  shows "fst (batch_loop lib fill k ns mount name operation algorithm body allowed items i acc) =
    engine_run (crypto_request lib ns mount name operation algorithm) k (batch_requests fill body i items)"
  using assms(3)
proof (induction items arbitrary: k i acc)
  case (Cons item items)
  let ?q = "((\<lambda>l. fill (i # l)), batch_combine body item)"
  have it: "batch_item lib (\<lambda>l. fill (i # l)) k ns mount name operation algorithm body allowed item =
      crypto_request lib ns mount name operation algorithm k ?q"
    by (rule batch_item_single [OF _ assms(1,2)]) (use Cons.prems in simp)
  obtain k2 r where r: "crypto_request lib ns mount name operation algorithm k ?q = (k2, r)" by fastforce
  obtain rs f m where acc: "acc = (rs, f, m)" by (metis prod_cases3)
  define key1 where "key1 = engine_commit (crypto_request lib ns mount name operation algorithm) k ?q"
  have "\<exists>acc'. batch_loop lib fill k ns mount name operation algorithm body allowed (item # items) i acc =
      batch_loop lib fill key1 ns mount name operation algorithm body allowed items (i + 1) acc'"
    by (cases r) (auto simp: acc it r key1_def engine_commit_def Let_def)
  then show ?case using Cons by (auto simp: key1_def)
qed simp

text \<open>
  C22: a batch is the sequence of its items. Handling a batch request leaves the key as handling
  the items one after the other as single requests would, each committed only when it succeeds,
  so a failed item leaves nothing behind and does not disturb the others; the answer has one
  result per item.
\<close>

theorem batch_equals_singles:
  assumes "handle_crypto lib fill k ns mount name operation algorithm body = (k', Inr resp)"
    and "json_get body ''batch_input'' = Some (JArr items)" and "list_all plain_item items"
  shows "k' = engine_run (crypto_request lib ns mount name operation algorithm) k (batch_requests fill body 0 items) \<and>
    (\<exists>results. resp_body resp = json_object [(''data'', json_object [(''batch_results'', JArr results)])] \<and> length results = length items)"
proof -
  obtain allowed where al: "crypto_allowed operation = Some allowed"
    using assms(1) by (cases "crypto_allowed operation") (simp_all add: handle_crypto_def)
  have ru: "reject_unknown body allowed = Inr ()"
    using assms(1) al by (cases "reject_unknown body allowed") (simp_all add: handle_crypto_def)
  obtain k2 rs f m where loop: "batch_loop lib fill k ns mount name operation algorithm body allowed items 0 ([], 0, False) = (k2, rs, f, m)"
    by (metis prod_cases4)
  have "k' = k2 \<and> resp_body resp = json_object [(''data'', json_object [(''batch_results'', JArr rs)])]"
    using assms(1,2) by (auto simp: handle_crypto_def al ru sbind_pair_Inr_iff if_pair_Inl_iff Let_def loop split: if_splits)
  moreover have "length rs = length items" using batch_loop_steps [OF loop] by simp
  moreover have "k2 = engine_run (crypto_request lib ns mount name operation algorithm) k (batch_requests fill body 0 items)"
    using batch_loop_run [OF al ru assms(3), of lib fill k ns mount name algorithm 0 "([], 0, False)"] loop by simp
  ultimately show ?thesis by blast
qed

section \<open>Signatures and message authentication\<close>



section \<open>Witnesses\<close>

definition zero_fill :: entropy where
  "zero_fill = (\<lambda>l n. Some (replicate n 0))"

definition sample_version :: key_version where
  "sample_version = \<lparr>material = ''m'', hmac_material = ''h'', kv_created_at = 5, encryptions = 0\<rparr>"

definition sample_key :: "string \<Rightarrow> transit_key" where
  "sample_key k = \<lparr>kind = k, latest_version = 1, min_decryption_version = 1, min_encryption_version = 0,
     deletion_allowed = False, exportable = True, deleted = False, key_versions = [(1, sample_version)]\<rparr>"

definition sample_transit :: transit where
  "sample_transit = \<lparr>transit_keys = [(''a'', sample_key ''aes256-gcm96''), (''s'', sample_key ''ed25519'')], disable_upsert = True\<rparr>"

definition sample_plain :: json where
  "sample_plain = JObj [(''plaintext'', JStr ''x'')]"

definition sample_used :: transit_key where
  "sample_used = (sample_key ''aes256-gcm96'')\<lparr>key_versions := [(1, sample_version\<lparr>encryptions := 1\<rparr>)]\<rparr>"

definition sample_ciphertext :: string where
  "sample_ciphertext = wrap_version sample_crypto 1 (replicate 12 0 @ [byte_of_char (CHR ''x'')] @ replicate 16 0)"

lemma sample_key_ok: "k \<in> {''aes256-gcm96'', ''ed25519''} \<Longrightarrow> transit_key_ok (sample_key k)"
  by (auto simp: transit_key_ok_def sample_key_def sample_version_def)

lemma sample_transit_ok: "transit_ok sample_transit"
  using sample_key_ok by (simp add: transit_ok_def sample_transit_def bmap_ok_def)

lemma sample_laws: "base64_correct sample_crypto" "aead_correct sample_crypto" "signature_correct sample_crypto"
  "entropy_sized zero_fill"
proof -
  have "byte_of_char (char_of_byte b) = b" for b
    using unat_byte_bound [of b] by (simp add: byte_of_char_def char_of_byte_def)
  then show "base64_correct sample_crypto" by (simp add: base64_correct_def sample_crypto_def comp_def)
qed (simp_all add: aead_correct_def signature_correct_def sample_crypto_def entropy_sized_def zero_fill_def)

lemma sample_crypto_simps:
  "base64_encode sample_crypto = map char_of_byte" "base64_decode sample_crypto s = Some (bytes_of_string s)"
  "aead_key_ok sample_crypto alg key" "aead_seal sample_crypto alg key nonce aad plain = Some (plain @ replicate 16 0)"
  "hmac_sign sample_crypto alg key msg = (if length msg = 8 then replicate 20 0 else msg)"
  "ed25519_public sample_crypto doc = Some doc" "ed25519_sign sample_crypto doc msg = msg"
  "aead_open sample_crypto alg key nonce aad sealed = Some (take (length sealed - 16) sealed)"
  by (simp_all add: sample_crypto_def)

lemma sample_encrypt:
  "transit_encrypt sample_crypto zero_fill (sample_key ''aes256-gcm96'') ns mount name sample_plain ([byte_of_char (CHR ''x'')]) =
    (sample_used, Inr (json_object [(''ciphertext'', JStr sample_ciphertext), (''key_version'', json_u64 1)]))"
  by (simp add: transit_encrypt_def aead_algorithm_def sample_key_def selected_version_def alive_def optional_u64_def
      sample_plain_def sample_version_def MAX_ENCRYPTIONS_PER_VERSION_def stored_material_def random_bytes_def zero_fill_def
      transit_aad_def sample_used_def sample_ciphertext_def sample_crypto_simps(2-7))

lemma sample_handle_crypto:
  "handle_crypto sample_crypto zero_fill (sample_key ''aes256-gcm96'') ns mount name ''encrypt'' [] sample_plain =
    (sample_used, Inr (ok_data (json_object [(''ciphertext'', JStr sample_ciphertext), (''key_version'', json_u64 1)]) True))"
proof -
  have "reject_context sample_plain = Inr ()" "decode_field sample_crypto sample_plain ''plaintext'' = Inr ([byte_of_char (CHR ''x'')])"
    "json_get sample_plain ''type'' = None" "json_get sample_plain ''batch_input'' = None"
    "reject_unknown sample_plain (the (crypto_allowed ''encrypt'')) = Inr ()"
    by (simp_all add: sample_plain_def reject_context_def optional_bool_def decode_field_def string_param_def transit_decode_def
      MAX_INPUT_BYTES_def crypto_allowed_def reject_unknown_def) (simp_all add: sample_crypto_def)
  then show ?thesis
    by (simp add: handle_crypto_single crypto_allowed_def crypto_single_def sample_encrypt)
qed

lemma sample_valid: "valid_path ''a'' = Inr ()"
  by code_simp

lemma sample_lookup: "map_of (transit_keys sample_transit) ''a'' = Some (sample_key ''aes256-gcm96'')"
  "''a'' \<in> fst ` set (transit_keys sample_transit)" "\<not> deleted (sample_key k)" "alive (sample_key k) = Inr ()"
  by (simp_all add: sample_transit_def sample_key_def alive_def)

lemma sample_encrypt_request:
  "transit_handle sample_crypto zero_fill sample_transit ns mount ''POST'' (''encrypt/'' @ ''a'') sample_plain 9 =
    (put_key sample_transit ''a'' sample_used,
     Inr (ok_data (json_object [(''ciphertext'', JStr sample_ciphertext), (''key_version'', json_u64 1)]) True))"
  unfolding transit_handle_path
  by (simp add: transit_crypto_def sample_valid sample_lookup)
    (simp add: sample_handle_crypto [simplified])

lemma sample_ciphertext_length: "length sample_ciphertext \<le> MAX_INPUT_BYTES"
  by (simp add: sample_ciphertext_def wrap_version_def nat_to_dec.simps [of "Suc 0"] MAX_INPUT_BYTES_def sample_crypto_def)

theorem transit_ciphertext_survives_witness:
  "snd (transit_handle sample_crypto zero_fill (put_key sample_transit ''a'' sample_used) ''ns'' ''transit/'' ''POST''
      (''decrypt/'' @ ''a'') (decrypt_body sample_plain sample_ciphertext) 11) =
    Inr (ok_data (json_object [(''plaintext'', JStr (base64_encode sample_crypto ([byte_of_char (CHR ''x'')])))]) False)"
proof -
  have "decode_field sample_crypto sample_plain ''plaintext'' = Inr ([byte_of_char (CHR ''x'')])"
    by (simp add: sample_plain_def decode_field_def string_param_def transit_decode_def MAX_INPUT_BYTES_def sample_crypto_def)
  moreover have "map_of (transit_keys (engine_run (transit_request sample_crypto ''ns'' ''transit/'')
      (put_key sample_transit ''a'' sample_used) [])) ''a'' = Some sample_used" by simp
  moreover have "json_get sample_plain ''batch_input'' = None" by (simp add: sample_plain_def)
  ultimately show ?thesis
    using transit_ciphertext_survives [OF sample_laws(1,2,4) sample_transit_ok _ sample_encrypt_request, where ns = "''ns''"
        and mount = "''transit/''" and qs = "[]" and n = 1 and fill' = zero_fill and now' = 11]
      sample_ciphertext_length
    by (simp add: ok_data_def [of _ True] json_object_get sample_used_def sample_key_def)
qed

theorem transit_deletion_guard_witness:
  "\<exists>k'. map_of (transit_keys (engine_commit (transit_request sample_crypto ''ns'' ''transit/'') sample_transit
     \<lparr>req_method = ''DELETE'', req_path = ''keys/a'', req_body = JObj [], req_now = 9, req_fill = zero_fill\<rparr>)) ''a'' = Some k' \<and>
     kind k' = ''aes256-gcm96'' \<and> exportable k'"
  using transit_deletion_guard [OF sample_transit_ok sample_lookup(1), of "\<lparr>req_method = ''DELETE'', req_path = ''keys/a'',
      req_body = JObj [], req_now = 9, req_fill = zero_fill\<rparr>" sample_crypto "''ns''" "''transit/''"]
  by (auto simp: sample_key_def)

lemma sample_parse: "parse_wrapped sample_crypto sample_ciphertext = Inr (1, replicate 12 0 @ [byte_of_char (CHR ''x'')] @ replicate 16 0)"
  unfolding sample_ciphertext_def
  by (rule parse_wrap_version [OF sample_laws(1)]) (simp_all add: sample_crypto_simps MAX_INPUT_BYTES_def)

lemma sample_decrypt:
  "transit_decrypt sample_crypto (sample_key ''aes256-gcm96'') ns mount name (JObj [(''ciphertext'', JStr sample_ciphertext)]) =
    Inr [byte_of_char (CHR ''x'')]"
  by (simp add: transit_decrypt_def aead_algorithm_def string_param_def sample_parse decrypt_version_def sample_key_def
      alive_def stored_material_def transit_aad_def sample_crypto_simps(2-8))

theorem transit_decrypt_policy_witness:
  "\<exists>n bytes. parse_wrapped sample_crypto sample_ciphertext = Inr (n, bytes) \<and>
     min_decryption_version (sample_key ''aes256-gcm96'') \<le> n \<and> n \<le> latest_version (sample_key ''aes256-gcm96'')"
  using transit_decrypt_policy [OF sample_key_ok sample_decrypt] by fastforce

theorem transit_export_policy_witness:
  "\<exists>name k. map_of (transit_keys sample_transit) name = Some k \<and> exportable k \<and> \<not> deleted k"
proof -
  have "\<exists>resp. transit_export sample_transit ''GET'' ''hmac-key/a'' = Inr resp"
    by (simp add: transit_export_def sample_lookup export_kind_ok_def sample_key_def sample_transit_def alive_def)
  then obtain resp where "transit_export sample_transit ''GET'' ''hmac-key/a'' = Inr resp" by blast
  from transit_export_policy [OF this] show ?thesis by blast
qed

theorem transit_encryption_counted_witness:
  "\<exists>n v. map_of (key_versions (sample_key ''aes256-gcm96'')) n = Some v \<and> encryptions v < 2 ^ 32 \<and>
     sample_used = (sample_key ''aes256-gcm96'')\<lparr>key_versions :=
       binsert n (v\<lparr>encryptions := encryptions v + 1\<rparr>) (key_versions (sample_key ''aes256-gcm96''))\<rparr>"
  using transit_encryption_counted [of sample_crypto zero_fill "sample_key ''aes256-gcm96''" "''ns''" "''transit/''" "''a''"
      sample_plain "[byte_of_char (CHR ''x'')]" sample_used] sample_encrypt [of "''ns''" "''transit/''" "''a''"]
  by blast

definition sample_batch :: json where
  "sample_batch = JObj [(''batch_input'', JArr [sample_plain, JObj []])]"

theorem batch_equals_singles_witness:
  "fst (handle_crypto sample_crypto zero_fill (sample_key ''aes256-gcm96'') ''ns'' ''transit/'' ''a'' ''encrypt'' [] sample_batch) =
    engine_run (crypto_request sample_crypto ''ns'' ''transit/'' ''a'' ''encrypt'' []) (sample_key ''aes256-gcm96'')
      (batch_requests zero_fill sample_batch 0 [sample_plain, JObj []])"
proof -
  have items: "json_get sample_batch ''batch_input'' = Some (JArr [sample_plain, JObj []])" "list_all plain_item [sample_plain, JObj []]"
    by (simp_all add: sample_batch_def plain_item_def sample_plain_def)
  have "reject_unknown sample_batch (the (crypto_allowed ''encrypt'')) = Inr ()"
    by (simp add: sample_batch_def reject_unknown_def crypto_allowed_def)
  moreover have "optional_u64 sample_batch ''partial_failure_response_code'' = Inr None"
    by (simp add: optional_u64_def sample_batch_def)
  ultimately have "\<exists>k' resp. handle_crypto sample_crypto zero_fill (sample_key ''aes256-gcm96'') ''ns'' ''transit/'' ''a'' ''encrypt'' [] sample_batch = (k', Inr resp)"
    unfolding handle_crypto_def items
    by (simp add: crypto_allowed_def MAX_BATCH_def Let_def case_prod_beta del: batch_loop.simps)
  then obtain k' resp where h: "handle_crypto sample_crypto zero_fill (sample_key ''aes256-gcm96'') ''ns'' ''transit/'' ''a'' ''encrypt'' [] sample_batch = (k', Inr resp)"
    by blast
  show ?thesis using batch_equals_singles [OF h items] unfolding h by simp
qed


end
