(* ===== verification/Engines_Correct.thy ===== *)
theory Engines_Correct
  imports Engines Kv_Correct Totp_Correct Transit_Correct
begin

text \<open>
  Correctness of the mount table: the union of the engines' contracts, the well-formedness of the
  table, the refinement of a map from namespaces and mounts to engines, isolation, and what the
  required capability says about a request.
\<close>

section \<open>Backends\<close>

definition backend_ok :: "backend \<Rightarrow> bool" where
  "backend_ok b =
     (case b of Kv1 m \<Rightarrow> kv1_ok m | Kv2 st \<Rightarrow> kv2_ok st | TransitEngine st \<Rightarrow> transit_ok st | TotpEngine keys \<Rightarrow> totp_ok keys)"

lemma backend_ok_simps [simp]:
  "backend_ok (Kv1 m) = kv1_ok m" "backend_ok (Kv2 st) = kv2_ok st"
  "backend_ok (TransitEngine tst) = transit_ok tst" "backend_ok (TotpEngine keys) = totp_ok keys"
  by (simp_all add: backend_ok_def)

definition backend_request :: "'x crypto_scheme \<Rightarrow> string \<Rightarrow> string \<Rightarrow> backend \<Rightarrow> random_request \<Rightarrow>
    backend \<times> (engine_error + engine_response)" where
  "backend_request lib ns mp b q =
     backend_handle lib (req_fill q) ns mp b (req_method q) (req_path q) (req_body q) (req_now q)"

lemma backend_ok_new: "new_backend name body = Inr b \<Longrightarrow> backend_ok b"
  using kv2_engine.init_ok transit_engine.init_ok totp_engine.init_ok kv1_engine.init_ok
  unfolding new_backend_def kv_backend_def Let_def
  by (auto split: if_splits)

interpretation backend_engine: secret_engine "backend_request lib ns mp" backend_ok "Kv1 []"
proof
  show "backend_ok (Kv1 [])" using kv1_engine.init_ok by simp
  show "backend_ok b'" if ok: "backend_ok b" and h: "backend_request lib ns mp b q = (b', Inr resp)" for b q b' resp
  proof (cases b)
    case (Kv1 m)
    then obtain m' where "kv1_request m (engine_request.truncate q) = (m', Inr resp)" "b' = Kv1 m'"
      using h by (auto simp: backend_request_def backend_handle_def map_prod_eq_iff kv1_request_def engine_request.defs)
    then show ?thesis using kv1_engine.handle_ok ok Kv1 by simp
  next
    case (Kv2 st)
    then obtain st' where "kv2_request st (engine_request.truncate q) = (st', Inr resp)" "b' = Kv2 st'"
      using h by (auto simp: backend_request_def backend_handle_def map_prod_eq_iff kv2_request_def engine_request.defs)
    then show ?thesis using kv2_engine.handle_ok ok Kv2 by simp
  next
    case (TransitEngine st)
    then obtain st' where t: "transit_request lib ns mp st q = (st', Inr resp)" "b' = TransitEngine st'"
      using h by (auto simp: backend_request_def backend_handle_def map_prod_eq_iff transit_request_def)
    then show ?thesis using transit_engine.handle_ok [OF _ t(1)] ok TransitEngine by simp
  next
    case (TotpEngine keys)
    then obtain keys' where t: "totp_request lib keys q = (keys', Inr resp)" "b' = TotpEngine keys'"
      using h by (auto simp: backend_request_def backend_handle_def map_prod_eq_iff totp_request_def)
    then show ?thesis using totp_engine.handle_ok [OF _ t(1)] ok TotpEngine by simp
  qed
qed

section \<open>Read-only requests\<close>

definition read_method :: "string \<Rightarrow> bool" where
  "read_method method = (\<not> write_method method \<and> method \<noteq> ''DELETE'' \<and> method \<noteq> ''PATCH'')"

lemma handle_v1_read:
  assumes "read_method method" "handle_v1 entries method path body = (entries', Inr resp)"
  shows "\<not> mutated resp"
proof -
  define listing where "listing \<longleftrightarrow> method = ''LIST'' \<or> method = ''SCAN''"
  define get where "get \<longleftrightarrow> method = ''GET''"
  have n: "\<not> (method = ''POST'' \<or> method = ''PUT'')" "method \<noteq> ''DELETE''"
    using assms(1) by (auto simp: read_method_def write_method_def)
  show ?thesis
    using assms(2) unfolding handle_v1_def write_method_def if_not_P [OF n(1)] if_not_P [OF n(2)]
    unfolding listing_def [symmetric] get_def [symmetric]
    by (auto simp: sbind_Inr_iff split: if_splits)
qed

lemma kv2_handle_read:
  assumes "read_method method" "kv2_handle st method path body now = (st', Inr resp)"
  shows "\<not> mutated resp"
  using assms by (cases rule: kv2_handle_cases [of st "method" path body now]) (auto simp: read_method_def)

lemma totp_handle_read:
  assumes "read_method method" "totp_handle lib fill keys method path body now = (keys', Inr resp)"
  shows "\<not> mutated resp"
  using assms by (cases rule: totp_handle_cases [of lib fill keys "method" path body now]) (auto simp: read_method_def)

lemma handle_key_read:
  assumes "read_method method" "handle_key lib fill st method rest body now = (st', Inr resp)"
  shows "\<not> mutated resp"
proof -
  have w: "\<not> write_method method" and d: "method \<noteq> ''DELETE''" using assms(1) by (simp_all add: read_method_def)
  define get where "get \<longleftrightarrow> method = ''GET''"
  show ?thesis
    using assms(2) w d
    unfolding handle_key_def get_def [symmetric]
    by (auto simp: sbind_Inr_iff split: if_splits prod.splits)
qed

lemma transit_export_read: "transit_export st method rest = Inr resp \<Longrightarrow> \<not> mutated resp"
  unfolding transit_export_def Let_def by (auto simp: result_simps split: if_splits)

lemma transit_handle_read:
  assumes "read_method method" "transit_handle lib fill st ns mp method path body now = (st', Inr resp)"
  shows "\<not> mutated resp"
proof -
  have w: "\<not> write_method method" using assms(1) by (simp add: read_method_def)
  define get where "get \<longleftrightarrow> method = ''GET''"
  define lst where "lst \<longleftrightarrow> method = ''LIST''"
  define c1 where "c1 \<longleftrightarrow> path = ''config/keys''"
  define c2 where "c2 \<longleftrightarrow> path = ''keys'' \<or> path = ''keys/''"
  define p1 where "p1 = strip_prefix ''keys/'' path"
  define p2 where "p2 = strip_prefix ''export/'' path"
  show ?thesis
    using assms(2) w handle_key_read [OF assms(1), of lib fill st _ body now st' resp] transit_export_read
    unfolding transit_handle_def get_def [symmetric] lst_def [symmetric] c1_def [symmetric] c2_def [symmetric]
      p1_def [symmetric] p2_def [symmetric]
    by (auto split: if_splits prod.splits option.splits)
qed

lemma backend_handle_read:
  assumes "read_method method" "backend_handle lib fill ns mp b method rel params now = (b', Inr resp)"
  shows "\<not> mutated resp"
  using assms
  by (auto simp: backend_handle_def map_prod_eq_iff split: backend.splits
      dest: handle_v1_read kv2_handle_read totp_handle_read transit_handle_read)

section \<open>The mount table\<close>

text \<open>
  Mount names are canonical paths with a closing slash, outside the reserved roots, and none is a
  prefix of another, so that every request path lies under one mount at most.
\<close>

definition mount_name_ok :: "string \<Rightarrow> bool" where
  "mount_name_ok name =
     (name \<noteq> [] \<and> last name = CHR ''/'' \<and> valid_path (butlast name) = Inr () \<and>
      hd (split_on (CHR ''/'') name) \<notin> set reserved_mounts)"

definition prefix_free :: "string list \<Rightarrow> bool" where
  "prefix_free names = list_all (\<lambda>a. list_all (\<lambda>b. a = b \<or> \<not> starts_with b a) names) names"

definition namespace_ok :: "namespace_state \<Rightarrow> bool" where
  "namespace_ok nst =
     (bmap_ok (mounts nst) \<and> prefix_free (map fst (mounts nst)) \<and>
      list_all (\<lambda>e. mount_name_ok (fst e) \<and> backend_ok (mount_backend (snd e))) (mounts nst))"

definition engine_state_ok :: "engine_state \<Rightarrow> bool" where
  "engine_state_ok st = (bmap_ok (namespaces st) \<and> list_all (\<lambda>e. namespace_ok (snd e)) (namespaces st))"

lemma prefix_free_iff: "prefix_free names \<longleftrightarrow> (\<forall>a \<in> set names. \<forall>b \<in> set names. prefix a b \<longrightarrow> a = b)"
  by (auto simp: prefix_free_def list_all_iff)

lemma namespace_ok_default: "namespace_ok namespace_default"
proof -
  have v: "valid_path ''secret'' = Inr ()" "valid_path ''transit'' = Inr ()" by code_simp+
  have o: "''secret/'' < ''transit/''" by code_simp
  from v o show ?thesis
    using kv2_engine.init_ok transit_engine.init_ok
    by (simp add: namespace_ok_def namespace_default_def bmap_ok_Cons prefix_free_iff mount_name_ok_def mount_new_def
        reserved_mounts_def)
qed

lemma namespace_of_ok: "engine_state_ok st \<Longrightarrow> namespace_ok (namespace_of st ns)"
  using namespace_ok_default
  by (cases "map_of (namespaces st) ns")
    (auto simp: namespace_of_def engine_state_ok_def intro: list_all_map_of)

lemma mounts_get_ok:
  assumes "namespace_ok nst" "map_of (mounts nst) name = Some mt"
  shows "mount_name_ok name" "backend_ok (mount_backend mt)"
  using assms map_of_SomeD [OF assms(2)] by (auto simp: namespace_ok_def list_all_iff)

text \<open>Routing: the mount a path lies under is the one that is found.\<close>

lemma find_mount_Some:
  assumes "find_mount nst path = Some (name, mt)" "namespace_ok nst"
  shows "map_of (mounts nst) name = Some mt" "path = name @ drop (length name) path"
proof -
  from assms(1) obtain i where "i < length (mounts nst)" "prefix (fst (mounts nst ! i)) path" "(name, mt) = mounts nst ! i"
    by (auto simp: find_mount_def find_Some_iff)
  then have "(name, mt) \<in> set (mounts nst)" "prefix name path"
    by (simp_all, metis fst_conv)
  then show "map_of (mounts nst) name = Some mt" "path = name @ drop (length name) path"
    using assms(2) by (auto simp: namespace_ok_def bmap_ok_get_iff prefix_def)
qed

lemma find_mount_unique:
  assumes "namespace_ok nst" "map_of (mounts nst) name = Some mt"
  shows "find_mount nst (name @ rel) = Some (name, mt)"
proof -
  have inn: "(name, mt) \<in> set (mounts nst)" using assms(2) by (rule map_of_SomeD)
  then have "find_mount nst (name @ rel) \<noteq> None"
    by (auto simp: find_mount_def find_None_iff)
  then obtain n2 mt2 where f: "find_mount nst (name @ rel) = Some (n2, mt2)" by fastforce
  from find_mount_Some [OF f assms(1)] have m2: "map_of (mounts nst) n2 = Some mt2"
    and p: "prefix n2 (name @ rel)" by (auto simp: prefix_def intro: exI [of _ "drop (length n2) (name @ rel)"])
  have "prefix n2 name \<or> prefix name n2"
    using p prefix_same_cases [of n2 "name @ rel" name] by auto
  then have "n2 = name"
    using assms(1) inn map_of_SomeD [OF m2] by (force simp: namespace_ok_def prefix_free_iff)
  then show ?thesis using f m2 assms(2) by simp
qed

lemma find_mount_none:
  assumes "namespace_ok nst" "\<And>name mt rel. map_of (mounts nst) name = Some mt \<Longrightarrow> path \<noteq> name @ rel"
  shows "find_mount nst path = None"
proof (rule ccontr)
  assume "find_mount nst path \<noteq> None"
  then obtain name mt where "find_mount nst path = Some (name, mt)" by fastforce
  from find_mount_Some [OF this assms(1)] assms(2) show False by metis
qed

lemma namespace_ok_put:
  assumes ok: "namespace_ok nst" and "map_of (mounts nst) name = Some mt" "backend_ok (mount_backend mt')"
  shows "namespace_ok (nst\<lparr>mounts := binsert name mt' (mounts nst)\<rparr>)"
proof -
  have inn: "name \<in> fst ` set (mounts nst)" using map_of_SomeD [OF assms(2)] by force
  have b: "bmap_ok (mounts nst)" using ok by (simp add: namespace_ok_def)
  have "map fst (binsert name mt' (mounts nst)) = map fst (mounts nst)" using map_fst_binsert [OF b inn] .
  then show ?thesis
    using ok mounts_get_ok [OF ok assms(2)] assms(3) by (simp add: namespace_ok_def list_all_binsert)
qed

lemma namespace_ok_remove: "namespace_ok nst \<Longrightarrow> namespace_ok (nst\<lparr>mounts := bremove name (mounts nst)\<rparr>)"
  by (simp add: namespace_ok_def prefix_free_iff list_all_bremove) fastforce

lemma namespace_ok_add:
  assumes ok: "namespace_ok nst" and free: "\<not> mount_conflict nst name" and "mount_name_ok name" "backend_ok (mount_backend mt)"
  shows "namespace_ok (nst\<lparr>mounts := binsert name mt (mounts nst)\<rparr>)"
proof -
  have "prefix_free (map fst (binsert name mt (mounts nst)))"
    using ok free by (auto simp: prefix_free_iff namespace_ok_def mount_conflict_def list_ex_iff)
  then show ?thesis using assms by (simp add: namespace_ok_def list_all_binsert)
qed

lemma mount_tune_success:
  assumes "mount_tune nst method name body = (nst', Inr resp)"
  obtains (readonly) "nst' = nst" "\<not> mutated resp"
  | (tune) mt desc where "map_of (mounts nst) name = Some mt" "write_method method" "mutated resp"
      "nst' = nst \<or> nst' = nst\<lparr>mounts := binsert name (mt\<lparr>mount_description := desc\<rparr>) (mounts nst)\<rparr>"
proof -
  define get where "get \<longleftrightarrow> method = ''GET''"
  show thesis
    using assms unfolding mount_tune_def get_def [symmetric]
    by (auto simp: sbind_Inr_iff split: if_splits option.splits intro: readonly tune)
qed

lemma mount_create_success:
  assumes "mount_create nst name body = (nst', Inr resp)"
  obtains kn backend description where "\<not> mount_conflict nst name" "new_backend kn body = Inr backend"
    "nst' = nst\<lparr>mounts := binsert name (mount_new backend description) (mounts nst)\<rparr>" "mutated resp"
proof -
  have "\<exists>kn backend description. \<not> mount_conflict nst name \<and> new_backend kn body = Inr backend \<and>
    nst' = nst\<lparr>mounts := binsert name (mount_new backend description) (mounts nst)\<rparr> \<and> mutated resp"
    using assms unfolding mount_create_def sbind_pair_Inr_iff if_pair_Inl_iff
      by (elim exE conjE) (intro exI conjI, assumption, assumption, auto)
  then show thesis using that by blast
qed

lemma handle_mounts_success:
  assumes "handle_mounts nst method requested body = (nst', Inr resp)"
  obtains (readonly) "nst' = nst" "\<not> mutated resp"
  | (tune) name mt desc where "map_of (mounts nst) name = Some mt" "write_method method" "mutated resp"
      "nst' = nst \<or> nst' = nst\<lparr>mounts := binsert name (mt\<lparr>mount_description := desc\<rparr>) (mounts nst)\<rparr>"
  | (create) name kn backend description where "\<not> mount_conflict nst name" "mount_name_ok name" "write_method method"
      "new_backend kn body = Inr backend"
      "nst' = nst\<lparr>mounts := binsert name (mount_new backend description) (mounts nst)\<rparr>" "mutated resp"
  | (remove) name where "method = ''DELETE''" "name = trim_end_matches requested (CHR ''/'') @ ''/''" "nst' = nst\<lparr>mounts := bremove name (mounts nst)\<rparr>"
      "mutated resp \<longleftrightarrow> bcontains (mounts nst) name"
proof -
  define r where "r = trim_end_matches requested (CHR ''/'')"
  define get where "get \<longleftrightarrow> method = ''GET''"
  define del where "del \<longleftrightarrow> method = ''DELETE''"
  note h = assms [unfolded handle_mounts_def Let_def, folded r_def get_def del_def]
  show thesis
  proof (cases "strip_suffix ''/tune'' r")
    case (Some mp)
    then have "mount_tune nst method (mp @ ''/'') body = (nst', Inr resp)" using h by (simp only: Some option.case)
    then show thesis by (cases rule: mount_tune_success) (auto intro: readonly tune)
  next
    case None
    then have v: "valid_path r = Inr ()" "hd (split_on (CHR ''/'') r) \<notin> set reserved_mounts"
      and h2: "(if get then
                (nst, ok_or (map_option (\<lambda>mt. ok_data (mount_descriptor mt) False) (map_of (mounts nst) (r @ ''/''))) not_found)
              else if del then
                (nst\<lparr>mounts := bremove (r @ ''/'') (mounts nst)\<rparr>, Inr (empty_ok (bcontains (mounts nst) (r @ ''/''))))
              else if \<not> write_method method then (nst, Inl unsupported)
              else mount_create nst (r @ ''/'') body) = (nst', Inr resp)"
      using h by (auto simp: sbind_Inr_iff split: if_splits)
    from v have n: "mount_name_ok (r @ ''/'')" by (simp add: mount_name_ok_def hd_split_on_append)
    consider "get" | "\<not> get" "del" | "write_method method" "mount_create nst (r @ ''/'') body = (nst', Inr resp)"
      using h2 by (auto split: if_splits)
    then show thesis
    proof cases
      case 1
      then show thesis using h2 by (auto intro: readonly)
    next
      case 2
      then show thesis using h2 by (intro remove [of "r @ ''/''"]) (auto simp: del_def r_def simp del: bcontains_iff)
    next
      case 3
      from 3(2) show thesis by (rule mount_create_success) (rule create [OF _ n 3(1)])
    qed
  qed
qed

lemma handle_mounts_ok:
  assumes "namespace_ok nst" "handle_mounts nst method requested body = (nst', Inr resp)"
  shows "namespace_ok nst'"
  using assms(2)
proof (cases rule: handle_mounts_success)
  case (tune name mt desc)
  then show ?thesis using assms(1) mounts_get_ok(2) [OF assms(1)] by (auto intro!: namespace_ok_put)
next
  case (create name kn backend description)
  then show ?thesis using namespace_ok_add [OF assms(1)] backend_ok_new by (simp add: mount_new_def)
next
  case (remove name)
  then show ?thesis using namespace_ok_remove [OF assms(1)] by simp
qed (use assms(1) in simp)

lemma candidate_handle_cases:
  obtains (listing) res where "candidate_handle lib fill nst ns method path params now = (nst, res)"
      "\<And>resp. res = Inr (Some resp) \<Longrightarrow> \<not> mutated resp" "path = ''sys/mounts'' \<or> path = ''sys/mounts/''"
  | (table) mp nst' res where "path = ''sys/mounts/'' @ mp" "handle_mounts nst method mp params = (nst', res)"
      "candidate_handle lib fill nst ns method path params now = (nst', map_sum id Some res)"
  | (unowned) "find_mount nst path = None" "candidate_handle lib fill nst ns method path params now = (nst, Inr None)"
  | (owned) name mt b' res where "strip_prefix ''sys/mounts/'' path = None" "path \<noteq> ''sys/mounts''" "find_mount nst path = Some (name, mt)"
      "backend_handle lib fill ns name (mount_backend mt) method (drop (length name) path) params now = (b', res)"
      "candidate_handle lib fill nst ns method path params now = (put_backend nst name mt b', map_sum id Some res)"
proof -
  have sb: "sbind (n, r) (\<lambda>n resp. (n, Inr (Some resp))) = (n, map_sum id Some r)" for n :: namespace_state and r
    by (cases r) simp_all
  have sb2: "sbind p (\<lambda>n resp. (n, Inr (Some resp))) = (fst p, map_sum id Some (snd p))"
    for p :: "namespace_state \<times> (engine_error + engine_response)" using sb [of "fst p" "snd p"] by simp
  consider "path = ''sys/mounts'' \<or> path = ''sys/mounts/''"
    | mp where "\<not> (path = ''sys/mounts'' \<or> path = ''sys/mounts/'')" "strip_prefix ''sys/mounts/'' path = Some mp"
    | "\<not> (path = ''sys/mounts'' \<or> path = ''sys/mounts/'')" "strip_prefix ''sys/mounts/'' path = None" "find_mount nst path = None"
    | name mt where "\<not> (path = ''sys/mounts'' \<or> path = ''sys/mounts/'')" "strip_prefix ''sys/mounts/'' path = None"
        "find_mount nst path = Some (name, mt)"
    by (metis option.exhaust surj_pair)
  then show thesis
  proof cases
    case 1
    then show thesis by (intro listing) (auto simp: candidate_handle_def split: if_splits)
  next
    case 2
    show thesis
    proof (cases "handle_mounts nst method mp params")
      case (Pair nst' res)
      show thesis
      proof (rule table [OF strip_prefix_Some_iff [THEN iffD1, OF 2(2)] Pair])
        show "candidate_handle lib fill nst ns method path params now = (nst', map_sum id Some res)"
          unfolding candidate_handle_def if_not_P [OF 2(1)] 2(2) option.case Pair sb by (rule refl)
      qed
    qed
  next
    case 3
    then show thesis by (intro unowned) (simp_all add: candidate_handle_def if_not_P [OF 3(1)])
  next
    case 4
    obtain b' res where b: "backend_handle lib fill ns name (mount_backend mt) method (drop (length name) path) params now = (b', res)"
      by fastforce
    show thesis
    proof (rule owned [OF 4(2) _ 4(3) b])
      show "path \<noteq> ''sys/mounts''" using 4(1) by blast
      show "candidate_handle lib fill nst ns method path params now = (put_backend nst name mt b', map_sum id Some res)"
        unfolding candidate_handle_def if_not_P [OF 4(1)] 4(2,3) option.case prod.case Let_def b sb by (rule refl)
    qed
  qed
qed

section \<open>Requests to the engines\<close>

definition request_path :: "string \<Rightarrow> string" where
  "request_path path = trim_start_matches (fst (unwrap_or (split_once (CHR ''?'') path) (path, []))) (CHR ''/'')"

definition request_query :: "string \<Rightarrow> string" where
  "request_query path = snd (unwrap_or (split_once (CHR ''?'') path) (path, []))"

lemma request_path_split: "trim_start_matches (hd (split_on (CHR ''?'') path)) (CHR ''/'') = request_path path"
proof -
  have "hd (split_on (CHR ''?'') path) = fst (unwrap_or (split_once (CHR ''?'') path) (path, []))"
  proof (cases "split_once (CHR ''?'') path")
    case None
    then show ?thesis using split_on_single [of "CHR ''?''" path] by (simp add: split_once_None_iff [symmetric])
  next
    case (Some p)
    obtain a b where p: "p = (a, b)" by fastforce
    then have "hd (split_on (CHR ''?'') path) = a"
      using Some split_once_Some_iff [of "CHR ''?''" path a b] by (auto simp: split_on_append_sep)
    then show ?thesis by (simp add: Some p)
  qed
  then show ?thesis by (simp add: request_path_def)
qed

lemma engine_handle_eq:
  assumes "request_params body (request_query path) = Inr params"
    and "candidate_handle lib fill (namespace_of st ns) ns (effective_method method params) (request_path path) params now
           = (candidate, res)"
  shows "engine_handle lib fill st ns method path body now =
     (case res of Inr (Some resp) \<Rightarrow> if mutated resp then st\<lparr>namespaces := binsert ns candidate (namespaces st)\<rparr> else st | _ \<Rightarrow> st,
      res)"
  using assms
  by (cases "unwrap_or (split_once (CHR ''?'') path) (path, [])")
    (auto simp: engine_handle_def request_path_def request_query_def split: sum.splits option.splits)

lemma engine_handle_bad_params:
  assumes "request_params body (request_query path) = Inl e"
  shows "engine_handle lib fill st ns method path body now = (st, Inl e)"
  using assms
  by (cases "unwrap_or (split_once (CHR ''?'') path) (path, [])")
    (auto simp: engine_handle_def request_query_def)

text \<open>A request either leaves the engines as they are or replaces its namespace by the candidate.\<close>

lemma engine_handle_effect:
  obtains (same) "fst (engine_handle lib fill st ns method path body now) = st"
  | (replace) params candidate resp where
      "candidate_handle lib fill (namespace_of st ns) ns (effective_method method params) (request_path path) params now
         = (candidate, Inr (Some resp))" "mutated resp"
      "fst (engine_handle lib fill st ns method path body now) = st\<lparr>namespaces := binsert ns candidate (namespaces st)\<rparr>"
proof (cases "request_params body (request_query path)")
  case (Inl e)
  then show thesis by (intro same) (simp add: engine_handle_bad_params)
next
  case (Inr params)
  obtain candidate res where c: "candidate_handle lib fill (namespace_of st ns) ns (effective_method method params)
      (request_path path) params now = (candidate, res)" by fastforce
  note e = engine_handle_eq [OF Inr c]
  show thesis
  proof (cases "\<exists>resp. res = Inr (Some resp) \<and> mutated resp")
    case True
    then show thesis using c e by (auto intro: replace)
  next
    case False
    then show thesis using e by (intro same) (auto split: sum.splits option.splits)
  qed
qed

lemma candidate_handle_ok:
  assumes ok: "namespace_ok nst" and c: "candidate_handle lib fill nst ns method path params now = (nst', Inr (Some resp))"
  shows "namespace_ok nst'"
proof (cases rule: candidate_handle_cases [of lib fill nst ns "method" path params now])
  case (listing res)
  then show ?thesis using c ok by simp
next
  case (table mp nst2 res)
  then have "handle_mounts nst method mp params = (nst', Inr resp)" using c by (cases res) auto
  then show ?thesis by (rule handle_mounts_ok [OF ok])
next
  case unowned
  then show ?thesis using c by simp
next
  case (owned name mt b' res)
  then have r: "res = Inr resp" "nst' = put_backend nst name mt b'" using c by (cases res; simp)+
  note m = find_mount_Some [OF owned(3) ok]
  let ?q = "\<lparr>req_method = method, req_path = drop (length name) path, req_body = params, req_now = now, req_fill = fill\<rparr>"
  have "backend_request lib ns name (mount_backend mt) ?q = (b', Inr resp)"
    using owned(4) r(1) by (simp add: backend_request_def)
  from backend_engine.handle_ok [OF mounts_get_ok(2) [OF ok m(1)] this]
  show ?thesis using namespace_ok_put [OF ok m(1)] by (simp add: r(2) put_backend_def)
qed

lemma engine_handle_ok:
  assumes "engine_state_ok st"
  shows "engine_state_ok (fst (engine_handle lib fill st ns method path body now))"
proof (cases rule: engine_handle_effect [of lib fill st ns "method" path body now])
  case same
  then show ?thesis using assms by simp
next
  case (replace params candidate resp)
  then have "namespace_ok candidate" using candidate_handle_ok [OF namespace_of_ok [OF assms]] by blast
  then show ?thesis using assms replace(3) by (simp add: engine_state_ok_def list_all_binsert)
qed

record namespaced_request = random_request +
  req_namespace :: string

definition engines_step :: "'x crypto_scheme \<Rightarrow> engine_state \<Rightarrow> namespaced_request \<Rightarrow> engine_state" where
  "engines_step lib st q =
     fst (engine_handle lib (req_fill q) st (req_namespace q) (req_method q) (req_path q) (req_body q) (req_now q))"

interpretation engines: invariant_steps "engines_step lib" engine_state_ok engine_state_default
proof
  show "engine_state_ok engine_state_default" by (simp add: engine_state_ok_def engine_state_default_def)
  show "engine_state_ok (engines_step lib st q)" if "engine_state_ok st" for st q
    using engine_handle_ok [OF that] by (simp add: engines_step_def)
qed

lemma mount_not_reserved:
  assumes "mount_name_ok name"
  shows "name @ rel \<noteq> ''sys/mounts''" "\<And>x. name @ rel \<noteq> ''sys/mounts/'' @ x"
proof -
  have c: "CHR ''/'' \<in> set name" using assms last_in_set [of name] by (auto simp: mount_name_ok_def)
  have n: "hd (split_on (CHR ''/'') (name @ rel)) \<noteq> ''sys''"
    using assms by (auto simp: hd_split_on_prefix [OF c] mount_name_ok_def reserved_mounts_def)
  then show "name @ rel \<noteq> ''sys/mounts''" by auto
  from n show "\<And>x. name @ rel \<noteq> ''sys/mounts/'' @ x" by auto
qed

text \<open>
  The engines as their users see them: one engine per namespace and mount. Namespaces nobody wrote
  to have the default mounts.
\<close>

definition mounts_view :: "engine_state \<Rightarrow> string \<times> string \<Rightarrow> backend option" where
  "mounts_view st = (\<lambda>(ns, name). map_option mount_backend (map_of (mounts (namespace_of st ns)) name))"

lemma namespace_of_put [simp]:
  "namespace_of (st\<lparr>namespaces := binsert ns nst (namespaces st)\<rparr>) ns' = (if ns' = ns then nst else namespace_of st ns')"
  by (simp add: namespace_of_def)

text \<open>What the engine of a mount is asked.\<close>

definition mounted_request :: "string \<Rightarrow> string \<Rightarrow> json \<Rightarrow> nat \<Rightarrow> entropy \<Rightarrow> random_request" where
  "mounted_request method rel params now fill =
     \<lparr>req_method = effective_method method params, req_path = rel, req_body = params, req_now = now, req_fill = fill\<rparr>"

text \<open>
  C23: The mount table refines a map from namespaces and mounts to engines. A request whose path
  lies under a mount is exactly one committed request to the engine at that mount, with the rest
  of the path and the merged parameters; the caller receives that engine's answer, and every other
  engine of every namespace is as before.
\<close>

theorem mount_refinement:
  assumes ok: "engine_state_ok st" and view: "mounts_view st (ns, name) = Some b"
    and path: "request_path path = name @ rel" and params: "request_params body (request_query path) = Inr params"
  shows "mounts_view (fst (engine_handle lib fill st ns method path body now)) =
           (mounts_view st)((ns, name) := Some (engine_commit (backend_request lib ns name) b (mounted_request method rel params now fill))) \<and>
         snd (engine_handle lib fill st ns method path body now) = 
           map_sum id Some (snd (backend_request lib ns name b (mounted_request method rel params now fill)))"
proof -
  let ?nst = "namespace_of st ns"
  note nok = namespace_of_ok [OF ok, of ns]
  obtain mt where mt: "map_of (mounts ?nst) name = Some mt" and b: "b = mount_backend mt"
    using view by (auto simp: mounts_view_def)
  note f = find_mount_unique [OF nok mt, of rel]
  note nr = mount_not_reserved [OF mounts_get_ok(1) [OF nok mt], of rel]
  obtain b' res where r: "backend_request lib ns name b (mounted_request method rel params now fill) = (b', res)" by fastforce
  have c: "candidate_handle lib fill ?nst ns (effective_method method params) (request_path path) params now
      = (put_backend ?nst name mt b', map_sum id Some res)"
  proof (cases rule: candidate_handle_cases [of lib fill ?nst ns "effective_method method params" "request_path path" params now])
    case (owned name2 mt2 b2 res2)
    then have "name2 = name" "mt2 = mt" using f path by auto
    then show ?thesis using owned r b path by (simp add: backend_request_def mounted_request_def)
  qed (use nr(1) nr(2) [of "[]"] nr(2) f path in auto)
  note e = engine_handle_eq [OF params c]
  show ?thesis
  proof (cases "\<exists>resp. res = Inr resp \<and> mutated resp")
    case True
    then obtain resp where resp: "res = Inr resp" "mutated resp" by blast
    then show ?thesis using r e
      by (auto simp: mounts_view_def engine_commit_def put_backend_def fun_eq_iff)
  next
    case False
    have "mounts_view st = (mounts_view st)((ns, name) := Some b)" using view by (auto simp: fun_eq_iff)
    then show ?thesis using r e False by (cases res) (auto simp: engine_commit_def)
  qed
qed

text \<open>
  C24: Isolation. Whatever a request does, an engine of another namespace, and an engine of the
  same namespace whose mount is not a prefix of the request's path, stays as it is, unless the
  request unmounts exactly that engine.
\<close>

theorem mount_isolation:
  assumes ok: "engine_state_ok st" and view: "mounts_view st (ns', name) = Some b"
    and other: "ns' \<noteq> ns \<or> \<not> prefix name (request_path path)"
    and kept: "\<not> (method = ''DELETE'' \<and> ns' = ns \<and>
      (\<exists>mp. request_path path = ''sys/mounts/'' @ mp \<and> name = trim_end_matches mp (CHR ''/'') @ ''/''))"
  shows "mounts_view (fst (engine_handle lib fill st ns method path body now)) (ns', name) = Some b"
proof (cases rule: engine_handle_effect [of lib fill st ns "method" path body now])
  case same
  then show ?thesis using view by simp
next
  case (replace params candidate resp)
  show ?thesis
  proof (cases "ns' = ns")
    case False
    then show ?thesis using view replace(3) by (simp add: mounts_view_def)
  next
    case True
    let ?nst = "namespace_of st ns"
    note nok = namespace_of_ok [OF ok, of ns]
    obtain mt where mt: "map_of (mounts ?nst) name = Some mt" and b: "b = mount_backend mt"
      using view True by (auto simp: mounts_view_def)
    have "map_option mount_backend (map_of (mounts candidate) name) = Some b"
    proof (cases rule: candidate_handle_cases [of lib fill ?nst ns "effective_method method params" "request_path path" params now])
      case (listing res)
      then show ?thesis using replace(1) mt b by simp
    next
      case (table mp nst' res)
      then have h: "handle_mounts ?nst (effective_method method params) mp params = (candidate, Inr resp)"
        using replace(1) by (cases res) auto
      then show ?thesis
      proof (cases rule: handle_mounts_success)
        case (remove n)
        then have "name \<noteq> n" using kept table(1) True by (auto simp: effective_method_def split: if_splits)
        then show ?thesis using remove mt b by simp
      next
        case (create n kn backend desc)
        then have "name \<noteq> n" using mt map_of_SomeD [OF mt] by (auto simp: mount_conflict_def list_ex_iff)
        then show ?thesis using create mt b by simp
      qed (use mt b in auto)
    next
      case unowned
      then show ?thesis using replace(1) by simp
    next
      case (owned n mt2 b' res)
      then have "prefix n (request_path path)"
        using find_mount_Some(2) [OF owned(3) nok] by (metis prefixI)
      then have "n \<noteq> name" using other True by auto
      then show ?thesis using owned(5) replace(1) mt b by (auto simp: put_backend_def)
    qed
    then show ?thesis using replace(3) True by (simp add: mounts_view_def)
  qed
qed

text \<open>
  C25: Every state of the engines that requests can lead to is well formed: mount names are
  canonical, outside the reserved roots and none is a prefix of another, and every engine
  satisfies its own invariant.
\<close>

theorem engines_reachable_ok: "engine_state_ok (run_steps (engines_step lib) engine_state_default qs)"
  by (rule engines.reachable_ok)

lemma effective_method_read: "read_method method \<Longrightarrow> read_method (effective_method method params)"
  by (simp add: effective_method_def read_method_def write_method_def)

text \<open>
  C26: The capability the engines demand is honest about reading: a request for which only
  \<^verbatim>\<open>read\<close> or \<^verbatim>\<open>list\<close> is asked changes nothing.
\<close>

theorem read_capability_safe:
  assumes "engine_state_ok st"
    and "required_capability st ns method path = Some ''read'' \<or> required_capability st ns method path = Some ''list''"
  shows "fst (engine_handle lib fill st ns method path body now) = st"
proof (cases rule: engine_handle_effect [of lib fill st ns "method" path body now])
  case (replace params candidate resp)
  let ?nst = "namespace_of st ns"
  note nok = namespace_of_ok [OF assms(1), of ns]
  obtain name mt where f: "find_mount ?nst (request_path path) = Some (name, mt)"
    and cap: "method_capability method = ''read'' \<or> method_capability method = ''list''"
    using assms(2) unfolding required_capability_def Let_def request_path_split
    by (cases "find_mount ?nst (request_path path)") (auto split: option.splits if_splits)
  have rd: "read_method method"
    using cap unfolding method_capability_def read_method_def write_method_def by (auto split: if_splits)
  note m = find_mount_Some [OF f nok]
  note nr = mount_not_reserved [OF mounts_get_ok(1) [OF nok m(1)], of "drop (length name) (request_path path)", folded m(2)]
  show ?thesis
  proof (cases rule: candidate_handle_cases [of lib fill ?nst ns "effective_method method params" "request_path path" params now])
    case (owned n2 mt2 b' res)
    then have "res = Inr resp" using replace(1) by (cases res) auto
    then have "\<not> mutated resp"
      using backend_handle_read [OF effective_method_read [OF rd]] owned(4) by blast
    then show ?thesis using replace(2) by simp
  qed (use nr(1) nr(2) [of "[]"] nr(2) f replace in auto)
qed

section \<open>The properties at concrete requests\<close>

abbreviation no_entropy :: entropy where
  "no_entropy \<equiv> (\<lambda>_ _. None)"

definition sample_write :: json where
  "sample_write = JObj [(''data'', JObj [(''x'', json_u64 1)])]"

lemma sample_engines_ok: "engine_state_ok engine_state_default"
  by (rule engines.initially)

lemma sample_params: "request_params sample_write (request_query ''secret/data/a'') = Inr sample_write"
  by (simp add: sample_write_def request_query_def request_params_def)

lemma sample_path: "request_path ''secret/data/a'' = ''secret/'' @ ''data/a''"
  by (simp add: request_path_def trim_start_matches_def)

lemma sample_views:
  "mounts_view engine_state_default (''ns'', ''secret/'') = Some (Kv2 kv2_default)"
  "mounts_view engine_state_default (''ns'', ''transit/'') = Some (TransitEngine transit_default)"
  by (simp_all add: mounts_view_def namespace_of_def engine_state_default_def namespace_default_def mount_new_def)

theorem mount_refinement_witness:
  "mounts_view (fst (engine_handle sample_crypto no_entropy engine_state_default ''ns'' ''POST'' ''secret/data/a'' sample_write 5)) =
     (mounts_view engine_state_default)((''ns'', ''secret/'') :=
       Some (engine_commit (backend_request sample_crypto ''ns'' ''secret/'') (Kv2 kv2_default)
         (mounted_request ''POST'' ''data/a'' sample_write 5 no_entropy))) \<and>
   engine_state_ok engine_state_default \<and> mounts_view engine_state_default (''ns'', ''secret/'') = Some (Kv2 kv2_default)"
  using mount_refinement [OF sample_engines_ok sample_views(1) sample_path sample_params, of sample_crypto no_entropy "''POST''" 5]
    sample_engines_ok sample_views(1) by blast

theorem mount_isolation_witness:
  "mounts_view (fst (engine_handle sample_crypto no_entropy engine_state_default ''ns'' ''POST'' ''secret/data/a'' sample_write 5))
     (''ns'', ''transit/'') = Some (TransitEngine transit_default)"
  by (rule mount_isolation [OF sample_engines_ok sample_views(2)]) (simp_all add: sample_path)

theorem read_capability_safe_witness:
  "required_capability engine_state_default ''ns'' ''GET'' ''secret/data/a'' = Some ''read'' \<and>
   fst (engine_handle sample_crypto no_entropy engine_state_default ''ns'' ''GET'' ''secret/data/a'' JNull 5) = engine_state_default"
proof -
  have "required_capability engine_state_default ''ns'' ''GET'' ''secret/data/a'' = Some ''read''" by code_simp
  then show ?thesis using read_capability_safe [OF sample_engines_ok, of "''ns''" "''GET''" "''secret/data/a''"] by simp
qed

end
