(* ===== verification/Auth_Base.thy ===== *)
theory Auth_Base
  imports Json Bytes
begin

text \<open>
  The helpers of \<^verbatim>\<open>crates/heptabao-server/src/auth.rs\<close>: errors and responses, random
  identifiers, names, namespaces and paths, and the readers of request fields. The record
  \<open>auth_lib\<close> adds to \<open>crypto\<close> the library functions that authentication uses: unpadded
  URL-safe base64, PBKDF2, ECDSA, and the parser and printer of \<^verbatim>\<open>serde_json\<close>. A parsed
  document is a \<open>raw_json\<close>, whose objects keep their members in document order, with
  repetitions.
\<close>

section \<open>Libraries\<close>

datatype raw_json =
    RNull
  | RBool bool
  | RNum jnumber
  | RStr string
  | RArr "raw_json list"
  | RObj "(string \<times> raw_json) list"

record auth_lib = crypto +
  base64url_encode :: "byte list \<Rightarrow> string"
  base64url_decode :: "string \<Rightarrow> byte list option"
  pbkdf2_derive :: "nat \<Rightarrow> byte list \<Rightarrow> byte list \<Rightarrow> byte list"
  pbkdf2_verify :: "nat \<Rightarrow> byte list \<Rightarrow> byte list \<Rightarrow> byte list \<Rightarrow> bool"
  ecdsa_p256_verify :: "byte list \<Rightarrow> byte list \<Rightarrow> byte list \<Rightarrow> bool"
  json_parse :: "byte list \<Rightarrow> raw_json option"
  json_parse_string :: "string \<Rightarrow> string option"
  json_print :: "json \<Rightarrow> string"

text \<open>
  \<^verbatim>\<open>StrictJson\<close>: the visitor that refuses a repeated member at any depth. \<open>raw_value\<close>
  is the conversion of \<^verbatim>\<open>serde_json::Value\<close> itself, in which the last member wins.
\<close>

fun strict_json :: "raw_json \<Rightarrow> json option"
  and strict_list :: "raw_json list \<Rightarrow> json list option"
  and strict_entries :: "(string \<times> raw_json) list \<Rightarrow> (string, json) bmap \<Rightarrow> (string, json) bmap option" where
  "strict_json RNull = Some JNull"
| "strict_json (RBool b) = Some (JBool b)"
| "strict_json (RNum n) = Some (JNum n)"
| "strict_json (RStr s) = Some (JStr s)"
| "strict_json (RArr xs) = map_option JArr (strict_list xs)"
| "strict_json (RObj es) = map_option JObj (strict_entries es [])"
| "strict_list [] = Some []"
| "strict_list (x # xs) =
     Option.bind (strict_json x) (\<lambda>v. map_option (\<lambda>vs. v # vs) (strict_list xs))"
| "strict_entries [] values = Some values"
| "strict_entries ((key, x) # es) values =
     (if bcontains values key then None
      else Option.bind (strict_json x) (\<lambda>v. strict_entries es (binsert key v values)))"

fun raw_value :: "raw_json \<Rightarrow> json"
  and raw_list :: "raw_json list \<Rightarrow> json list"
  and raw_entries :: "(string \<times> raw_json) list \<Rightarrow> (string, json) bmap \<Rightarrow> (string, json) bmap" where
  "raw_value RNull = JNull"
| "raw_value (RBool b) = JBool b"
| "raw_value (RNum n) = JNum n"
| "raw_value (RStr s) = JStr s"
| "raw_value (RArr xs) = JArr (raw_list xs)"
| "raw_value (RObj es) = JObj (raw_entries es [])"
| "raw_list [] = []"
| "raw_list (x # xs) = raw_value x # raw_list xs"
| "raw_entries [] values = values"
| "raw_entries ((key, x) # es) values = raw_entries es (binsert key (raw_value x) values)"

section \<open>Errors and responses\<close>

record auth_error =
  ae_status :: nat
  ae_message :: string

record auth_response =
  ar_status :: nat
  ar_body :: json
  ar_mutated :: bool

definition auth_err :: "nat \<Rightarrow> string \<Rightarrow> auth_error" where
  "auth_err status message = \<lparr>ae_status = status, ae_message = message\<rparr>"

definition auth_bad :: "string \<Rightarrow> auth_error" where
  "auth_bad message = auth_err 400 message"

definition denied :: auth_error where
  "denied = auth_err 403 ''permission denied''"

definition auth_data :: "json \<Rightarrow> bool \<Rightarrow> auth_response" where
  "auth_data data mut = \<lparr>ar_status = 200, ar_body = json_object [(''data'', data)], ar_mutated = mut\<rparr>"

definition auth_empty :: "bool \<Rightarrow> auth_response" where
  "auth_empty mut = \<lparr>ar_status = 204, ar_body = JNull, ar_mutated = mut\<rparr>"

lemma ar_mutated_simps [simp]:
  "ar_mutated (auth_data d b) = b" "ar_mutated (auth_empty b) = b"
  by (simp_all add: auth_data_def auth_empty_def)

definition method_not_allowed :: auth_error where
  "method_not_allowed = auth_err 405 ''method not allowed''"

abbreviation json_strings :: "string list \<Rightarrow> json" where
  "json_strings xs \<equiv> JArr (map JStr xs)"

abbreviation json_opt_u64 :: "nat option \<Rightarrow> json" where
  "json_opt_u64 v \<equiv> (case v of None \<Rightarrow> JNull | Some n \<Rightarrow> json_u64 n)"

section \<open>Identifiers\<close>

text \<open>The label names the place in the source that draws the bytes.\<close>

definition auth_random_bytes :: "entropy \<Rightarrow> nat \<Rightarrow> nat \<Rightarrow> auth_error + byte list" where
  "auth_random_bytes fill label len = ok_or (fill [label] len) (auth_err 500 ''secure randomness unavailable'')"

definition random_id :: "'x auth_lib_scheme \<Rightarrow> entropy \<Rightarrow> nat \<Rightarrow> string \<Rightarrow> auth_error + string" where
  "random_id lib fill label pre =
     rbind (auth_random_bytes fill label 32) (\<lambda>bytes. Inr (pre @ base64url_encode lib bytes))"

definition token_hash :: "'x auth_lib_scheme \<Rightarrow> string \<Rightarrow> string" where
  "token_hash lib v = base64url_encode lib (sha_digest lib ''sha2-256'' (bytes_of_string v))"

definition checked_expiry :: "nat \<Rightarrow> nat \<Rightarrow> auth_error + nat" where
  "checked_expiry now ttl = ok_or (checked_add64 now ttl) (auth_bad ''TTL overflows timestamp'')"

definition unlimited_zero :: "nat \<Rightarrow> nat option" where
  "unlimited_zero v = (if v = 0 then None else Some v)"

section \<open>Names and paths\<close>

definition valid_name :: "string \<Rightarrow> bool" where
  "valid_name name =
     (name \<noteq> [] \<and> length name \<le> 128 \<and> name \<noteq> ''.'' \<and> name \<noteq> ''..'' \<and>
      list_all (\<lambda>b. is_ascii_alphanumeric b \<or> b \<in> set ''_-.'') name)"

definition validate_namespace :: "string \<Rightarrow> auth_error + unit" where
  "validate_namespace namespace =
     (if namespace = [] then Inr ()
      else if 512 < length namespace \<or> list_ex (\<lambda>s. \<not> valid_name s) (split_on (CHR ''/'') namespace)
      then Inl (auth_bad ''invalid namespace'') else Inr ())"

definition validate_path :: "string \<Rightarrow> bool \<Rightarrow> auth_error + unit" where
  "validate_path path pattern =
     (if path = [] \<or> 2048 < length path \<or> starts_with path ''/'' \<or> contains_sub ''//'' path
         \<or> list_ex (\<lambda>b. byte_of b < 33 \<or> byte_of b = 127 \<or> byte_of b = 92 \<or> b = CHR ''%'') path
         \<or> list_ex (\<lambda>s. s = ''.'' \<or> s = ''..'') (split_on (CHR ''/'') path)
      then Inl (auth_bad ''invalid ACL path'')
      else if pattern then
        if contains_sub ''{{'' path \<or> contains_sub ''${'' path
           \<or> 1 < length (filter (\<lambda>c. c = CHR ''*'') path)
           \<or> (CHR ''*'' \<in> set path \<and> \<not> ends_with path ''*'')
           \<or> list_ex (\<lambda>s. CHR ''+'' \<in> set s \<and> s \<noteq> ''+'') (split_on (CHR ''/'') path)
        then Inl (auth_bad ''only whole-segment + and terminal * ACL wildcards are supported'')
        else Inr ()
      else if CHR ''*'' \<in> set path \<or> CHR ''+'' \<in> set path
      then Inl (auth_bad ''wildcards are not permitted in request paths'')
      else Inr ())"

section \<open>Request fields\<close>

definition string_field :: "json \<Rightarrow> string \<Rightarrow> auth_error + string" where
  "string_field body field =
     ok_or (Option.bind (json_get body field) as_str) (auth_bad ''required string field missing or invalid'')"

definition number_field :: "json \<Rightarrow> string \<Rightarrow> nat \<Rightarrow> auth_error + nat" where
  "number_field body field dflt =
     (case json_get body field of
        None \<Rightarrow> Inr dflt
      | Some v \<Rightarrow> ok_or (as_u64 v) (auth_bad ''expected nonnegative integer''))"

definition boolean_field :: "json \<Rightarrow> string \<Rightarrow> bool \<Rightarrow> auth_error + bool" where
  "boolean_field body field dflt =
     (case json_get body field of
        None \<Rightarrow> Inr dflt
      | Some v \<Rightarrow> ok_or (as_bool v) (auth_bad ''expected boolean''))"

definition duration_unit :: "string \<Rightarrow> nat option" where
  "duration_unit text =
     (if text = [] then None
      else if last text = CHR ''s'' then Some 1
      else if last text = CHR ''m'' then Some 60
      else if last text = CHR ''h'' then Some 3600
      else if last text = CHR ''d'' then Some 86400
      else None)"

definition duration_field :: "json \<Rightarrow> string \<Rightarrow> nat \<Rightarrow> auth_error + nat" where
  "duration_field body field dflt =
     (case json_get body field of
        None \<Rightarrow> Inr dflt
      | Some v \<Rightarrow>
          (case as_u64 v of
             Some seconds \<Rightarrow> Inr seconds
           | None \<Rightarrow>
               (case as_str v of
                  None \<Rightarrow> Inl (auth_bad ''invalid duration'')
                | Some txt \<Rightarrow>
                    (case parse_u64 txt of
                       Some seconds \<Rightarrow> Inr seconds
                     | None \<Rightarrow>
                         rbind (ok_or (duration_unit txt)
                                  (auth_bad ''duration must be whole seconds or integer s/m/h/d'')) (\<lambda>multiplier.
                         ok_or (Option.bind (parse_u64 (butlast txt)) (\<lambda>n. checked_mul64 n multiplier))
                           (auth_bad ''invalid duration''))))))"

definition auth_reject_unknown :: "json \<Rightarrow> string list \<Rightarrow> auth_error + unit" where
  "auth_reject_unknown body allowed =
     rbind (ok_or (as_object body) (auth_bad ''request body must be an object'')) (\<lambda>object.
       if list_ex (\<lambda>e. fst e \<notin> set allowed) object
       then Inl (auth_bad ''unsupported request field'') else Inr ())"

text \<open>
  \<^verbatim>\<open>str::trim\<close>: the white space of Unicode, here by its UTF-8 encodings.
\<close>

definition white_space :: "string list" where
  "white_space =
     map (map char_of)
       ([[9], [10], [11], [12], [13], [32], [194, 133], [194, 160], [225, 154, 128]] @
        map (\<lambda>b. [226, 128, b]) [128, 129, 130, 131, 132, 133, 134, 135, 136, 137, 138, 168, 169, 175 :: nat] @
        [[226, 129, 159], [227, 128, 128]])"

lemma white_space_nonempty: "[] \<notin> set white_space" "[] \<notin> rev ` set white_space"
  by (auto simp: white_space_def)

text \<open>Cut leading words of a list of words; a word that is empty would not be cut.\<close>

function trim_words :: "string list \<Rightarrow> string \<Rightarrow> string" where
  "trim_words ws s =
     (case find (\<lambda>w. w \<noteq> [] \<and> starts_with s w) ws of
        None \<Rightarrow> s
      | Some w \<Rightarrow> trim_words ws (drop (length w) s))"
  by pat_completeness auto
termination
proof (relation "measure (\<lambda>(ws, s). length s)")
  fix ws s w
  assume "find (\<lambda>w. w \<noteq> [] \<and> starts_with s w) ws = Some w"
  then have "w \<noteq> []" "prefix w s" by (auto simp: find_Some_iff)
  then show "((ws, drop (length w) s), (ws, s)) \<in> measure (\<lambda>(ws, s). length s)" by (auto simp: prefix_def)
qed simp

declare trim_words.simps [simp del]

definition str_trim :: "string \<Rightarrow> string" where
  "str_trim s = rev (trim_words (map rev white_space) (rev (trim_words white_space s)))"

definition comma_values :: "string \<Rightarrow> string list" where
  "comma_values v = map str_trim (split_on (CHR '','') v)"

definition string_values :: "auth_error \<Rightarrow> json list \<Rightarrow> auth_error + string list" where
  "string_values e vs = rcollect (\<lambda>v. ok_or (as_str v) e) vs"

definition policies_field :: "json \<Rightarrow> string \<Rightarrow> string list \<Rightarrow> bool \<Rightarrow> auth_error + string list" where
  "policies_field body field dflt add_default =
     rbind (case json_get body field of
              None \<Rightarrow> Inr dflt
            | Some (JStr v) \<Rightarrow> Inr (bset_of (filter (\<lambda>s. s \<noteq> []) (comma_values v)))
            | Some (JArr vs) \<Rightarrow>
                rbind (string_values (auth_bad ''policies must contain strings'') vs) (\<lambda>names. Inr (bset_of names))
            | Some _ \<Rightarrow> Inl (auth_bad ''policies must be an array or comma-separated string'')) (\<lambda>result.
     if list_ex (\<lambda>name. \<not> valid_name name) result then Inl (auth_bad ''invalid policy name'')
     else Inr (if add_default \<and> ''root'' \<notin> set result then bset_insert ''default'' result else result))"

definition claim_values :: "json \<Rightarrow> string \<Rightarrow> auth_error + string list" where
  "claim_values body name =
     rbind (case json_get body name of
              None \<Rightarrow> Inr []
            | Some (JStr v) \<Rightarrow> Inr (comma_values v)
            | Some (JArr vs) \<Rightarrow> string_values (auth_bad ''claim bindings must be strings'') vs
            | Some _ \<Rightarrow> Inl (auth_bad ''claim bindings must be a string or array'')) (\<lambda>values.
     if 64 < length values \<or> list_ex (\<lambda>v. v = [] \<or> 1024 < length v \<or> has_control v) values
     then Inl (auth_bad ''claim bindings exceed bounds or contain invalid strings'')
     else Inr (bset_of values))"

definition reject_alias_pair :: "json \<Rightarrow> string \<Rightarrow> string \<Rightarrow> auth_error + unit" where
  "reject_alias_pair body a b =
     (if json_get body a \<noteq> None \<and> json_get body b \<noteq> None then Inl (auth_bad ''conflicting aliases'') else Inr ())"

text \<open>Where two names of a field are accepted, the second is read when it is present.\<close>

definition alias_field :: "json \<Rightarrow> string \<Rightarrow> string \<Rightarrow> string" where
  "alias_field body field alternative = (if json_get body alternative \<noteq> None then alternative else field)"

definition route_capability :: "string \<Rightarrow> bool \<Rightarrow> auth_error + string" where
  "route_capability method collection =
     (if method = ''GET'' then Inr (if collection then ''list'' else ''read'')
      else if method = ''LIST'' then Inr ''list''
      else if method = ''POST'' \<or> method = ''PUT'' then Inr ''update''
      else if method = ''DELETE'' then Inr ''delete''
      else Inl method_not_allowed)"

definition post_method :: "string \<Rightarrow> bool" where
  "post_method method = (method = ''POST'' \<or> method = ''PUT'')"

end
