(* ===== verification/Acl.thy ===== *)
theory Acl
  imports Auth_Base
begin

text \<open>
  Access-control policies of \<^verbatim>\<open>crates/heptabao-server/src/auth.rs\<close>: rules, the matching of
  paths, the built-in default policy, and the parser of the policy language, in its HCL and JSON
  forms.
\<close>

definition CAPABILITIES :: "string list" where
  "CAPABILITIES = [''create'', ''read'', ''update'', ''delete'', ''list'', ''patch'', ''sudo'', ''deny'']"

record rule =
  rule_path :: string
  rule_capabilities :: "string list"

record policy =
  policy_source :: string
  policy_rules :: "rule list"

section \<open>Matching\<close>

text \<open>
  The loop over the segments of the pattern, next to those of the path. With a terminal star, the
  last segment of the pattern is a prefix of its counterpart and the rest of the path is free.
\<close>

fun match_parts :: "bool \<Rightarrow> string list \<Rightarrow> string list \<Rightarrow> bool" where
  "match_parts star [] actuals = True"
| "match_parts star (segment # segments) [] = False"
| "match_parts star (segment # segments) (actual # actuals) =
     (if star \<and> segments = [] then
        if segment = ''+'' then actual \<noteq> [] else starts_with actual segment
      else if segment = ''+'' then actual \<noteq> [] \<and> match_parts star segments actuals
      else segment = actual \<and> match_parts star segments actuals)"

definition path_matches :: "string \<Rightarrow> string \<Rightarrow> bool" where
  "path_matches pattern path =
     (let star = ends_with pattern ''*'';
          pattern_parts = split_on (CHR ''/'') (unwrap_or (strip_suffix ''*'' pattern) pattern);
          path_parts = split_on (CHR ''/'') path in
      if \<not> star \<and> length pattern_parts \<noteq> length path_parts then False
      else if length path_parts < length pattern_parts then False
      else match_parts star pattern_parts path_parts)"

section \<open>The default policy\<close>

definition default_grants :: "string \<Rightarrow> string \<Rightarrow> bool" where
  "default_grants path capability =
     (path = ''auth/token/lookup-self'' \<and> capability = ''read'' \<or>
      path = ''auth/token/renew-self'' \<and> capability = ''update'' \<or>
      path = ''auth/token/revoke-self'' \<and> capability = ''update'')"

abbreviation quote :: char where
  "quote \<equiv> CHR 0x22"

abbreviation newline :: char where
  "newline \<equiv> CHR 0x0A"

definition default_policy_source :: string where
  "default_policy_source =
     ''path '' @ [quote] @ ''auth/token/lookup-self'' @ [quote] @ '' { capabilities = ['' @ [quote] @ ''read'' @ [quote] @ ''] }'' @ [newline] @
     ''path '' @ [quote] @ ''auth/token/renew-self'' @ [quote] @ '' { capabilities = ['' @ [quote] @ ''update'' @ [quote] @ ''] }'' @ [newline] @
     ''path '' @ [quote] @ ''auth/token/revoke-self'' @ [quote] @ '' { capabilities = ['' @ [quote] @ ''update'' @ [quote] @ ''] }'' @ [newline]"

section \<open>Lexing\<close>

datatype lex = Word string | LString string | Symbol char

definition is_ascii_whitespace :: "char \<Rightarrow> bool" where
  "is_ascii_whitespace c = (byte_of c \<in> {9, 10, 12, 13, 32})"

definition is_word_char :: "char \<Rightarrow> bool" where
  "is_word_char c = (is_ascii_alphanumeric c \<or> c = CHR ''_'')"

text \<open>What follows a block comment whose opening has been read.\<close>

fun skip_block :: "string \<Rightarrow> string option" where
  "skip_block (a # b # s) = (if a = CHR ''*'' \<and> b = CHR ''/'' then Some s else skip_block (b # s))"
| "skip_block _ = None"

text \<open>The rest of a quoted string up to its closing quote, and what follows it.\<close>

primrec scan_string :: "string \<Rightarrow> bool \<Rightarrow> string \<Rightarrow> (string \<times> string) option" where
  "scan_string [] escaped read = None"
| "scan_string (c # s) escaped read =
     (if c = quote \<and> \<not> escaped then Some (read @ [c], s)
      else scan_string s (byte_of c = 92 \<and> \<not> escaped) (read @ [c]))"

lemma skip_block_length: "skip_block s = Some r \<Longrightarrow> length r < length s"
  by (induction s rule: skip_block.induct) (auto split: if_splits)

lemma scan_string_length: "scan_string s e acc = Some (w, r) \<Longrightarrow> length r < length s"
  by (induction s arbitrary: e acc) (auto split: if_splits dest: less_SucI)

function lex_hcl :: "(string \<Rightarrow> string option) \<Rightarrow> string \<Rightarrow> auth_error + lex list" where
  "lex_hcl unquote [] = Inr []"
| "lex_hcl unquote (c # s) =
     (if is_ascii_whitespace c then lex_hcl unquote s
      else if c = CHR ''#'' \<or> starts_with (c # s) ''//'' then
        lex_hcl unquote (dropWhile (\<lambda>d. d \<noteq> newline) s)
      else if starts_with (c # s) ''/*'' then
        (case skip_block (drop 1 s) of
           None \<Rightarrow> Inl (auth_bad ''unterminated HCL comment'')
         | Some rest \<Rightarrow> lex_hcl unquote rest)
      else if c \<in> set ''{}[]=,'' then rbind (lex_hcl unquote s) (\<lambda>result. Inr (Symbol c # result))
      else if c = quote then
        (case scan_string s False [c] of
           None \<Rightarrow> Inl (auth_bad ''unterminated HCL string'')
         | Some (literal, rest) \<Rightarrow>
             rbind (ok_or (unquote literal) (auth_bad ''invalid HCL string escape'')) (\<lambda>v.
             rbind (lex_hcl unquote rest) (\<lambda>result. Inr (LString v # result))))
      else if is_ascii_alphabetic c \<or> c = CHR ''_'' then
        rbind (lex_hcl unquote (dropWhile is_word_char s)) (\<lambda>result.
          Inr (Word (c # takeWhile is_word_char s) # result))
      else Inl (auth_bad ''unsupported character in HCL policy''))"
  by pat_completeness auto
termination
proof (relation "measure (\<lambda>(unquote, s). length s)")
  fix c :: char and s rest
  assume "skip_block (drop 1 s) = Some rest"
  then show "((unquote, rest), (unquote, c # s)) \<in> measure (\<lambda>(unquote, s). length s)" for unquote :: "string \<Rightarrow> string option"
    using skip_block_length [of "drop 1 s" rest] by simp
next
  fix c :: char and s x literal rest
  assume "scan_string s False [c] = Some x" "(literal, rest) = x"
  then show "((unquote, rest), (unquote, c # s)) \<in> measure (\<lambda>(unquote, s). length s)" for unquote :: "string \<Rightarrow> string option"
    using scan_string_length [of s False "[c]" literal rest] by simp
qed (simp_all add: le_imp_less_Suc length_dropWhile_le)

declare lex_hcl.simps(2) [simp del]

section \<open>Parsing\<close>

definition malformed_hcl :: auth_error where
  "malformed_hcl = auth_bad ''unsupported or malformed HCL policy''"

fun take_lex :: "lex list \<Rightarrow> lex \<Rightarrow> auth_error + lex list" where
  "take_lex [] wanted = Inl malformed_hcl"
| "take_lex (t # ts) wanted = (if t = wanted then Inr ts else Inl malformed_hcl)"

fun take_lex_string :: "lex list \<Rightarrow> auth_error + string \<times> lex list" where
  "take_lex_string (LString v # ts) = Inr (v, ts)"
| "take_lex_string _ = Inl (auth_bad ''quoted string required in HCL policy'')"

text \<open>The capabilities of a rule, read from the first one on; a trailing comma is allowed.\<close>

lemma take_lex_string_length: "take_lex_string ts = Inr p \<Longrightarrow> length (snd p) < length ts"
  by (cases ts rule: take_lex_string.cases) auto

function take_capabilities :: "lex list \<Rightarrow> string list \<Rightarrow> auth_error + string list \<times> lex list" where
  "take_capabilities ts caps =
     (case take_lex_string ts of
        Inl e \<Rightarrow> Inl e
      | Inr (v, ts) \<Rightarrow>
          if take 1 ts \<noteq> [Symbol (CHR '','')] then Inr (bset_insert v caps, ts)
          else if take 1 (drop 1 ts) = [Symbol (CHR '']'')] then Inr (bset_insert v caps, drop 1 ts)
          else take_capabilities (drop 1 ts) (bset_insert v caps))"
  by pat_completeness auto
termination
  by (relation "measure (\<lambda>(ts, caps). length ts)") (auto dest!: take_lex_string_length)

declare take_capabilities.simps [simp del]

definition take_capability_list :: "lex list \<Rightarrow> auth_error + string list \<times> lex list" where
  "take_capability_list ts =
     (if take 1 ts \<noteq> [Symbol (CHR '']'')] then take_capabilities ts [] else Inr ([], ts))"

definition make_rule :: "string \<Rightarrow> string list \<Rightarrow> auth_error + rule" where
  "make_rule path capabilities =
     rbind (validate_path path True) (\<lambda>_.
       if list_ex (\<lambda>capability. capability \<notin> set CAPABILITIES) capabilities
       then Inl (auth_bad ''unsupported ACL capability'')
       else Inr \<lparr>rule_path = path, rule_capabilities = capabilities\<rparr>)"

definition parse_hcl_rule :: "lex list \<Rightarrow> string list \<Rightarrow> auth_error + rule \<times> lex list" where
  "parse_hcl_rule ts seen =
     rbind (take_lex ts (Word ''path'')) (\<lambda>ts.
     rbind (take_lex_string ts) (\<lambda>(path, ts).
     if path \<in> set seen then Inl (auth_bad ''duplicate ACL path'')
     else
       rbind (take_lex ts (Symbol (CHR ''{''))) (\<lambda>ts.
       rbind (take_lex ts (Word ''capabilities'')) (\<lambda>ts.
       rbind (take_lex ts (Symbol (CHR ''=''))) (\<lambda>ts.
       rbind (take_lex ts (Symbol (CHR ''[''))) (\<lambda>ts.
       rbind (take_capability_list ts) (\<lambda>(caps, ts).
       rbind (take_lex ts (Symbol (CHR '']''))) (\<lambda>ts.
       rbind (take_lex ts (Symbol (CHR ''}''))) (\<lambda>ts.
       rbind (make_rule path caps) (\<lambda>r. Inr (r, ts)))))))))))"

lemma take_lex_length: "take_lex ts w = Inr r \<Longrightarrow> length r < length ts"
  by (cases "(ts, w)" rule: take_lex.cases) (auto split: if_splits)

lemma take_capabilities_length: "take_capabilities ts caps = Inr p \<Longrightarrow> length (snd p) < length ts"
proof (induction ts caps rule: take_capabilities.induct)
  case (1 ts caps)
  obtain v rest where r: "take_lex_string ts = Inr (v, rest)"
    using "1.prems" by (subst (asm) take_capabilities.simps) (auto split: sum.splits)
  have "length rest < length ts" using take_lex_string_length [OF r] by simp
  moreover have "length (snd p) \<le> length rest"
    using "1.prems" [unfolded take_capabilities.simps [of ts caps] r sum.case prod.case] "1.IH" [OF r refl]
    by (auto split: if_splits)
  ultimately show ?case by simp
qed

lemma take_capability_list_length: "take_capability_list ts = Inr p \<Longrightarrow> length (snd p) \<le> length ts"
  using take_capabilities_length [of ts "[]" p] by (auto simp: take_capability_list_def split: if_splits)

lemma parse_hcl_rule_length:
  assumes "parse_hcl_rule ts seen = Inr p"
  shows "length (snd p) < length ts"
  using assms unfolding parse_hcl_rule_def case_prod_beta rbind_Inr_iff if_Inl_Inr_iff
  apply (elim exE conjE)
  apply (drule take_lex_length)+
  apply (drule take_lex_string_length, drule take_capability_list_length)
  apply auto
  done

function parse_hcl_rules :: "lex list \<Rightarrow> string list \<Rightarrow> auth_error + rule list" where
  "parse_hcl_rules ts seen =
     (if ts = [] then Inr []
      else
        case parse_hcl_rule ts seen of
          Inl e \<Rightarrow> Inl e
        | Inr (r, rest) \<Rightarrow>
            rbind (parse_hcl_rules rest (bset_insert (rule_path r) seen)) (\<lambda>rules. Inr (r # rules)))"
  by pat_completeness auto
termination
  by (relation "measure (\<lambda>(ts, seen). length ts)") (auto dest: parse_hcl_rule_length)

declare parse_hcl_rules.simps [simp del]

primrec parse_json_rules :: "(string \<times> json) list \<Rightarrow> auth_error + rule list" where
  "parse_json_rules [] = Inr []"
| "parse_json_rules (e # es) =
     rbind (auth_reject_unknown (snd e) [''capabilities'']) (\<lambda>_.
     rbind (ok_or (Option.bind (json_get (snd e) ''capabilities'') as_array)
              (auth_bad ''capabilities array is required'')) (\<lambda>caps.
     rbind (string_values (auth_bad ''capability must be a string'') caps) (\<lambda>caps.
     rbind (make_rule (fst e) (bset_of caps)) (\<lambda>r.
     rbind (parse_json_rules es) (\<lambda>rules. Inr (r # rules))))))"

definition parse_strict_json :: "'x auth_lib_scheme \<Rightarrow> byte list \<Rightarrow> auth_error + json" where
  "parse_strict_json lib bytes =
     ok_or (Option.bind (json_parse lib bytes) strict_json) (auth_bad ''invalid JSON or duplicate object key'')"

definition parse_rules :: "'x auth_lib_scheme \<Rightarrow> string \<Rightarrow> auth_error + rule list" where
  "parse_rules lib trimmed =
     (if starts_with trimmed ''{'' then
        rbind (parse_strict_json lib (bytes_of_string trimmed)) (\<lambda>parsed.
        rbind (auth_reject_unknown parsed [''path'']) (\<lambda>_.
        rbind (ok_or (Option.bind (json_get parsed ''path'') as_object)
                 (auth_bad ''policy path object is required'')) parse_json_rules))
      else rbind (lex_hcl (json_parse_string lib) trimmed) (\<lambda>ts. parse_hcl_rules ts []))"

definition parse_policy :: "'x auth_lib_scheme \<Rightarrow> json \<Rightarrow> auth_error + policy" where
  "parse_policy lib input =
     (let source = unwrap_or (as_str input) (json_print lib input) in
      if 256 * 1024 < length source then Inl (auth_bad ''policy too large'')
      else
        rbind (parse_rules lib (str_trim source)) (\<lambda>rules.
        if 4096 < length rules then Inl (auth_bad ''too many policy rules'')
        else Inr \<lparr>policy_source = source, policy_rules = rules\<rparr>))"

end
