(* ===== verification/Auth_Tokens.thy ===== *)
theory Auth_Tokens
  imports Acl
begin

text \<open>
  The authentication state of \<^verbatim>\<open>crates/heptabao-server/src/auth.rs\<close> and its tokens:
  bootstrap, the liveness of a token and its ancestors, authentication of a request with the
  consumption of a use, authorization against policies, and the token routes (creation, lookup,
  renewal, revocation, tidying).
\<close>

section \<open>State\<close>

definition DEFAULT_TTL :: nat where
  "DEFAULT_TTL = 3600"

definition MAX_TTL :: nat where
  "MAX_TTL = 32 * 24 * 3600"

record jwt_key_record =
  jk_algorithm :: string
  jk_bytes :: "byte list"

record jwt_config =
  jc_issuer :: string
  jc_audiences :: "string list"
  jc_required_namespace :: "string option"
  jc_clock_skew_seconds :: nat
  jc_maximum_token_lifetime_seconds :: nat
  jc_keys :: "(string, jwt_key_record) bmap"

record jwt_role =
  jr_bound_groups :: "string list"
  jr_bound_subject :: "string option"
  jr_bound_audiences :: "string list"
  jr_policies :: "string list"
  jr_token_ttl :: nat
  jr_token_max_ttl :: nat
  jr_token_num_uses :: nat

record external_identity =
  ei_issuer :: string
  ei_subject :: string
  ei_namespace :: string
  ei_groups :: "string list"
  ei_last_seen :: nat

record jwt_mount_state =
  jm_config :: "jwt_config option"
  jm_roles :: "(string, jwt_role) bmap"
  jm_identities :: "(string, external_identity) bmap"
  jm_replay :: "(string, nat) bmap"
  jm_last_admission_time :: nat

record auth_mount =
  am_kind :: string
  am_description :: string

record token =
  tok_accessor :: string
  tok_namespace :: string
  tok_policies :: "string list"
  tok_root :: bool
  tok_parent :: "string option"
  tok_created_at :: nat
  tok_expires_at :: "nat option"
  tok_max_expires_at :: "nat option"
  tok_period :: nat
  tok_renewable :: bool
  tok_uses_remaining :: "nat option"
  tok_display_name :: string
  tok_auth_mount :: "string option"
  tok_auth_origin_known :: bool

record principal =
  pr_digest :: string
  pr_token :: token

record totp_enrollment =
  te_secret :: "byte list"
  te_period_seconds :: nat
  te_digits :: nat
  te_last_accepted_counter :: "nat option"

record user =
  usr_salt :: "byte list"
  usr_verifier :: "byte list"
  usr_rounds :: nat
  usr_policies :: "string list"
  usr_token_ttl :: nat
  usr_token_max_ttl :: nat
  usr_token_num_uses :: nat
  usr_mfa :: "totp_enrollment option"

record secret_id =
  sid_accessor :: string
  sid_expires_at :: "nat option"
  sid_uses_remaining :: "nat option"

record role =
  role_id :: string
  role_policies :: "string list"
  role_token_ttl :: nat
  role_token_max_ttl :: nat
  role_token_num_uses :: nat
  role_secret_id_ttl :: nat
  role_secret_id_num_uses :: nat
  role_secret_ids :: "(string, secret_id) bmap"

record auth_state =
  tokens :: "(string, token) bmap"
  policies :: "(string, (string, policy) bmap) bmap"
  users :: "(string, (string, user) bmap) bmap"
  roles :: "(string, (string, role) bmap) bmap"
  mounted_users :: "(string, (string, (string, user) bmap) bmap) bmap"
  mounted_roles :: "(string, (string, (string, role) bmap) bmap) bmap"
  auth_mounts :: "(string, (string, auth_mount) bmap) bmap"
  jwt_mounts :: "(string, (string, jwt_mount_state) bmap) bmap"

definition auth_state_empty :: auth_state where
  "auth_state_empty =
     \<lparr>tokens = [], policies = [], users = [], roles = [], mounted_users = [], mounted_roles = [],
      auth_mounts = [], jwt_mounts = []\<rparr>"

definition root_token :: "string \<Rightarrow> nat \<Rightarrow> token" where
  "root_token acc now =
     \<lparr>tok_accessor = acc, tok_namespace = [], tok_policies = [''root''], tok_root = True, tok_parent = None,
      tok_created_at = now, tok_expires_at = None, tok_max_expires_at = None, tok_period = 0,
      tok_renewable = False, tok_uses_remaining = None, tok_display_name = ''root'',
      tok_auth_mount = None, tok_auth_origin_known = True\<rparr>"

definition bootstrap :: "'x auth_lib_scheme \<Rightarrow> entropy \<Rightarrow> nat \<Rightarrow> auth_error + auth_state \<times> string" where
  "bootstrap lib fill now =
     rbind (random_id lib fill 0 ''a.'') (\<lambda>acc.
     rbind (random_id lib fill 1 ''hvs.'') (\<lambda>raw.
     Inr (auth_state_empty\<lparr>tokens := binsert (token_hash lib raw) (root_token acc now) []\<rparr>, raw)))"

section \<open>Live tokens\<close>

definition expired :: "token \<Rightarrow> nat \<Rightarrow> bool" where
  "expired tok now = is_some_and (tok_expires_at tok) (\<lambda>t. t \<le> now)"

text \<open>
  The walk up the ancestors. Every step adds a token to \<open>seen\<close> and stops at one that is there
  already, so that even a cycle of parents is refused.
\<close>

function ancestors_live :: "(string, token) bmap \<Rightarrow> nat \<Rightarrow> string list \<Rightarrow> string option \<Rightarrow> auth_error + unit" where
  "ancestors_live toks now seen parent =
     (case parent of
        None \<Rightarrow> Inr ()
      | Some parent_id \<Rightarrow>
          if parent_id \<in> set seen then Inl denied
          else
            case map_of toks parent_id of
              None \<Rightarrow> Inl denied
            | Some ancestor \<Rightarrow>
                if expired ancestor now \<or> tok_uses_remaining ancestor = Some 0 then Inl denied
                else ancestors_live toks now (bset_insert parent_id seen) (tok_parent ancestor))"
  by pat_completeness auto

text \<open>How many keys of a map are not in a set yet, the measure of the walks over tokens.\<close>

definition unseen :: "('k, 'v) bmap \<Rightarrow> 'k list \<Rightarrow> nat" where
  "unseen m seen = length (filter (\<lambda>k. k \<notin> set seen) (map fst m))"

lemma unseen_decreases:
  assumes "set seen \<subseteq> set seen'" "x \<in> fst ` set m" "x \<in> set seen'" "x \<notin> set seen"
  shows "unseen m seen' < unseen m seen"
proof -
  have "filter (\<lambda>k. k \<notin> set seen') (map fst m) =
      filter (\<lambda>k. k \<notin> set seen') (filter (\<lambda>k. k \<notin> set seen) (map fst m))"
    using assms(1) unfolding filter_filter by (intro filter_cong) auto
  moreover have "length (filter (\<lambda>k. k \<notin> set seen') (filter (\<lambda>k. k \<notin> set seen) (map fst m)))
      < length (filter (\<lambda>k. k \<notin> set seen) (map fst m))"
    using assms(2-4) by (intro length_filter_less [of x]) auto
  ultimately show ?thesis by (simp add: unseen_def)
qed

termination ancestors_live
  by (relation "measure (\<lambda>(toks, now, seen, parent). unseen toks seen)")
    (auto intro!: unseen_decreases dest: map_of_SomeD simp: image_iff)

declare ancestors_live.simps [simp del]

definition active_token :: "auth_state \<Rightarrow> string \<Rightarrow> nat \<Rightarrow> bool \<Rightarrow> auth_error + token" where
  "active_token st tid now consume_check =
     rbind (ok_or (map_of (tokens st) tid) denied) (\<lambda>tok.
     if expired tok now \<or> (consume_check \<and> tok_uses_remaining tok = Some 0) then Inl denied
     else rbind (ancestors_live (tokens st) now [tid] (tok_parent tok)) (\<lambda>_. Inr tok))"

text \<open>
  A request authenticates by its raw token and pays one use. The subtraction cannot wrap:
  \<open>active_token\<close> refused a token with no use left.
\<close>

definition authenticate ::
  "'x auth_lib_scheme \<Rightarrow> auth_state \<Rightarrow> string \<Rightarrow> nat \<Rightarrow> auth_state \<times> (auth_error + principal)" where
  "authenticate lib st raw now =
     (if 256 < length raw \<or> \<not> starts_with raw ''hvs.'' then (st, Inl denied)
      else
        let tid = token_hash lib raw in
        case active_token st tid now True of
          Inl e \<Rightarrow> (st, Inl e)
        | Inr _ \<Rightarrow>
            (case map_of (tokens st) tid of
               None \<Rightarrow> (st, Inl denied)
             | Some tok \<Rightarrow>
                 let tok = tok\<lparr>tok_uses_remaining := map_option (\<lambda>n. n - 1) (tok_uses_remaining tok)\<rparr> in
                 (st\<lparr>tokens := binsert tid tok (tokens st)\<rparr>, Inr \<lparr>pr_digest = tid, pr_token = tok\<rparr>)))"

definition check_principal :: "auth_state \<Rightarrow> principal \<Rightarrow> string \<Rightarrow> nat \<Rightarrow> auth_error + token" where
  "check_principal st pr namespace now =
     rbind (validate_namespace namespace) (\<lambda>_.
     rbind (active_token st (pr_digest pr) now False) (\<lambda>tok.
     if tok_accessor tok \<noteq> tok_accessor (pr_token pr) \<or> (\<not> tok_root tok \<and> tok_namespace tok \<noteq> namespace)
     then Inl denied else Inr tok))"

section \<open>Authorization\<close>

text \<open>The rules of one policy: a matching denial ends the search, a matching grant is remembered.\<close>

primrec check_rules :: "string \<Rightarrow> string \<Rightarrow> rule list \<Rightarrow> bool \<Rightarrow> auth_error + bool" where
  "check_rules path capability [] granted = Inr granted"
| "check_rules path capability (r # rs) granted =
     (if path_matches (rule_path r) path then
        if ''deny'' \<in> set (rule_capabilities r) then Inl denied
        else check_rules path capability rs (granted \<or> capability \<in> set (rule_capabilities r))
      else check_rules path capability rs granted)"

definition namespace_policy :: "auth_state \<Rightarrow> string \<Rightarrow> string \<Rightarrow> policy option" where
  "namespace_policy st namespace name =
     Option.bind (map_of (policies st) namespace) (\<lambda>entries. map_of entries name)"

primrec check_policies :: "auth_state \<Rightarrow> string \<Rightarrow> string \<Rightarrow> string \<Rightarrow> string list \<Rightarrow> bool \<Rightarrow> auth_error + bool" where
  "check_policies st namespace path capability [] granted = Inr granted"
| "check_policies st namespace path capability (name # names) granted =
     (case namespace_policy st namespace name of
        Some pol \<Rightarrow>
          rbind (check_rules path capability (policy_rules pol) granted)
            (check_policies st namespace path capability names)
      | None \<Rightarrow>
          check_policies st namespace path capability names
            (granted \<or> (name = ''default'' \<and> default_grants path capability)))"

definition authorize_request ::
  "auth_state \<Rightarrow> principal \<Rightarrow> string \<Rightarrow> string \<Rightarrow> string \<Rightarrow> nat \<Rightarrow> auth_error + unit" where
  "authorize_request st pr namespace path capability now =
     rbind (validate_path path False) (\<lambda>_.
     if capability \<notin> set CAPABILITIES \<or> capability = ''deny'' then Inl denied
     else
       rbind (check_principal st pr namespace now) (\<lambda>tok.
       if tok_root tok then Inr ()
       else
         rbind (check_policies st namespace path capability (tok_policies tok) False) (\<lambda>granted.
         if granted then Inr () else Inl denied)))"

definition permission ::
  "auth_state \<Rightarrow> principal option \<Rightarrow> string \<Rightarrow> string \<Rightarrow> string \<Rightarrow> nat \<Rightarrow> auth_error + principal" where
  "permission st pr namespace path cap now =
     rbind (ok_or pr denied) (\<lambda>pr.
     rbind (authorize_request st pr namespace path cap now) (\<lambda>_. Inr pr))"

section \<open>Issuing and revoking\<close>

definition issued_body :: "string \<Rightarrow> token \<Rightarrow> nat \<Rightarrow> json" where
  "issued_body raw tok now =
     json_object [(''auth'', json_object
       [(''client_token'', JStr raw), (''accessor'', JStr (tok_accessor tok)),
        (''policies'', json_strings (tok_policies tok)), (''token_policies'', json_strings (tok_policies tok)),
        (''metadata'', json_object []),
        (''lease_duration'',
          json_u64 (case tok_expires_at tok of None \<Rightarrow> 0 | Some expiry \<Rightarrow> saturating_sub64 expiry now)),
        (''renewable'', JBool (tok_renewable tok)), (''token_type'', JStr ''service''),
        (''orphan'', JBool (tok_parent tok = None)),
        (''num_uses'', json_u64 (unwrap_or (tok_uses_remaining tok) 0))])]"

definition prepare_issue ::
  "'x auth_lib_scheme \<Rightarrow> entropy \<Rightarrow> token \<Rightarrow> nat \<Rightarrow> auth_error + string \<times> token \<times> auth_response" where
  "prepare_issue lib fill tok now =
     rbind (random_id lib fill 1 ''hvs.'') (\<lambda>raw.
     Inr (token_hash lib raw, tok, \<lparr>ar_status = 200, ar_body = issued_body raw tok now, ar_mutated = True\<rparr>))"

definition put_token :: "auth_state \<Rightarrow> string \<Rightarrow> token \<Rightarrow> auth_state" where
  "put_token st tid tok = st\<lparr>tokens := binsert tid tok (tokens st)\<rparr>"

definition issue ::
  "'x auth_lib_scheme \<Rightarrow> entropy \<Rightarrow> auth_state \<Rightarrow> token \<Rightarrow> nat \<Rightarrow> auth_state \<times> (auth_error + auth_response)" where
  "issue lib fill st tok now =
     sbind (st, prepare_issue lib fill tok now) (\<lambda>st (tid, tok, resp). (put_token st tid tok, Inr resp))"

text \<open>
  Children of removed tokens are removed, until a round leaves the size of the set as it was,
  which it does when no child is new.
\<close>

definition children_of :: "(string, token) bmap \<Rightarrow> string list \<Rightarrow> string list" where
  "children_of toks removed =
     map fst (filter (\<lambda>e. is_some_and (tok_parent (snd e)) (\<lambda>p. p \<in> set removed)) toks)"

function revoke_closure :: "(string, token) bmap \<Rightarrow> string list \<Rightarrow> string list" where
  "revoke_closure toks removed =
     (let children = children_of toks removed in
      if list_all (\<lambda>c. c \<in> set removed) children then removed
      else revoke_closure toks (fold bset_insert children removed))"
  by pat_completeness auto
termination revoke_closure
proof (relation "measure (\<lambda>(toks, removed). unseen toks removed)")
  fix toks removed children
  assume c: "children = children_of toks removed" and "\<not> list_all (\<lambda>c. c \<in> set removed) children"
  then obtain x where x: "x \<in> set children" "x \<notin> set removed" by (auto simp: list_all_iff)
  then have "x \<in> fst ` set toks" by (auto simp: c children_of_def)
  then have "unseen toks (fold bset_insert children removed) < unseen toks removed"
    using x by (intro unseen_decreases [of _ _ x]) (auto simp: fold_bset_insert)
  then show "((toks, fold bset_insert children removed), (toks, removed)) \<in> measure (\<lambda>(toks, removed). unseen toks removed)"
    by simp
qed simp

declare revoke_closure.simps [simp del]

definition revoke :: "auth_state \<Rightarrow> string \<Rightarrow> auth_state" where
  "revoke st tid = st\<lparr>tokens := fold bremove (revoke_closure (tokens st) [tid]) (tokens st)\<rparr>"

section \<open>Token routes\<close>

definition token_info :: "token \<Rightarrow> nat \<Rightarrow> json" where
  "token_info tok now =
     json_object
       [(''accessor'', JStr (tok_accessor tok)), (''policies'', json_strings (tok_policies tok)),
        (''display_name'', JStr (tok_display_name tok)), (''creation_time'', json_u64 (tok_created_at tok)),
        (''ttl'', json_u64 (case tok_expires_at tok of None \<Rightarrow> 0 | Some t \<Rightarrow> saturating_sub64 t now)),
        (''expire_time_unix'', json_opt_u64 (tok_expires_at tok)),
        (''explicit_max_ttl'',
          json_u64 (case tok_max_expires_at tok of None \<Rightarrow> 0 | Some t \<Rightarrow> saturating_sub64 t (tok_created_at tok))),
        (''period'', json_u64 (tok_period tok)), (''num_uses'', json_u64 (unwrap_or (tok_uses_remaining tok) 0)),
        (''renewable'', JBool (tok_renewable tok)), (''orphan'', JBool (tok_parent tok = None)),
        (''type'', JStr ''service''), (''namespace'', JStr (tok_namespace tok))]"

definition target_token :: "'x auth_lib_scheme \<Rightarrow> auth_state \<Rightarrow> string \<Rightarrow> json \<Rightarrow> bool \<Rightarrow> auth_error + string" where
  "target_token lib st namespace body by_accessor =
     rbind (if by_accessor then
              rbind (string_field body ''accessor'') (\<lambda>wanted.
              ok_or (map_option fst (find (\<lambda>e. tok_namespace (snd e) = namespace \<and> tok_accessor (snd e) = wanted) (tokens st)))
                denied)
            else rbind (string_field body ''token'') (\<lambda>raw. Inr (token_hash lib raw))) (\<lambda>tid.
     if is_none_or (map_of (tokens st) tid) (\<lambda>tok. tok_namespace tok \<noteq> namespace) then Inl denied
     else Inr tid)"

definition subset :: "string list \<Rightarrow> string list \<Rightarrow> bool" where
  "subset a b = list_all (\<lambda>x. x \<in> set b) a"

text \<open>The lifetime of a new token: its expiry and the limit of its renewals.\<close>

definition created_lifetime ::
  "json \<Rightarrow> bool \<Rightarrow> nat \<Rightarrow> nat option \<Rightarrow> bool \<Rightarrow> nat \<Rightarrow> auth_error + nat option \<times> nat option" where
  "created_lifetime body root period parent_expires no_parent now =
     rbind (duration_field body ''ttl'' DEFAULT_TTL) (\<lambda>ttl.
     let ttl = (if 0 < period then period else if ttl = 0 \<and> \<not> root then DEFAULT_TTL else ttl) in
     if MAX_TTL < ttl then Inl (auth_bad ''TTL exceeds maximum'')
     else
       rbind (duration_field body ''explicit_max_ttl'' 0) (\<lambda>explicit_max.
       if MAX_TTL < explicit_max then Inl (auth_bad ''explicit maximum TTL exceeds service maximum'')
       else
         rbind (if 0 < explicit_max then rbind (checked_expiry now explicit_max) (\<lambda>e. Inr (Some e))
                else if period = 0 \<and> \<not> (root \<and> ttl = 0) then rbind (checked_expiry now MAX_TTL) (\<lambda>e. Inr (Some e))
                else Inr None) (\<lambda>max_expires_at.
         rbind (if root \<and> ttl = 0 then Inr None else rbind (checked_expiry now ttl) (\<lambda>e. Inr (Some e))) (\<lambda>expires_at.
         let expires_at =
               (case (expires_at, max_expires_at) of (Some e, Some m) \<Rightarrow> Some (min e m) | _ \<Rightarrow> expires_at);
             expires_at =
               (if no_parent then expires_at
                else case parent_expires of
                  None \<Rightarrow> expires_at
                | Some p \<Rightarrow> Some (case expires_at of None \<Rightarrow> p | Some e \<Rightarrow> min e p))
         in Inr (expires_at, max_expires_at)))))"

definition create_token ::
  "'x auth_lib_scheme \<Rightarrow> entropy \<Rightarrow> auth_state \<Rightarrow> principal \<Rightarrow> string \<Rightarrow> string \<Rightarrow> json \<Rightarrow> nat \<Rightarrow> bool \<Rightarrow>
   auth_state \<times> (auth_error + auth_response)" where
  "create_token lib fill st actor namespace path body now force_orphan =
     sbind (st,
       rbind (auth_reject_unknown body
         [''policies'', ''ttl'', ''explicit_max_ttl'', ''period'', ''num_uses'', ''renewable'', ''no_parent'',
          ''no_default_policy'', ''display_name'', ''type'']) (\<lambda>_.
       if is_some_and (json_get body ''type'') (\<lambda>v. as_str v \<noteq> Some ''service'')
       then Inl (auth_bad ''only service tokens are supported'')
       else
         rbind (check_principal st actor namespace now) (\<lambda>parent.
         if tok_uses_remaining parent \<noteq> None
         then Inl (auth_bad ''limited-use tokens cannot create child tokens'')
         else
           rbind (boolean_field body ''no_default_policy'' False) (\<lambda>no_default.
           rbind (policies_field body ''policies'' (tok_policies parent) (\<not> no_default)) (\<lambda>requested.
           if \<not> tok_root parent \<and> (\<not> subset requested (tok_policies parent) \<or> ''root'' \<in> set requested) then Inl denied
           else
             let root = (''root'' \<in> set requested) in
             if root \<and> (length requested \<noteq> 1 \<or> namespace \<noteq> [])
             then Inl (auth_bad ''root policy must be exclusive and in root namespace'')
             else
               rbind (if force_orphan then Inr True else boolean_field body ''no_parent'' False) (\<lambda>no_parent.
               rbind (duration_field body ''period'' 0) (\<lambda>period.
               rbind (if no_parent \<or> 0 < period then authorize_request st actor namespace path ''sudo'' now else Inr ()) (\<lambda>_.
               if MAX_TTL < period then Inl (auth_bad ''period exceeds maximum TTL'')
               else
                 rbind (created_lifetime body root period (tok_expires_at parent) no_parent now) (\<lambda>(expires_at, max_expires_at).
                 rbind (rtranspose (\<lambda>v. ok_or (as_str v) (auth_bad ''display name must be a string''))
                          (json_get body ''display_name'')) (\<lambda>display_name.
                 let display_name = unwrap_or display_name ''token'' in
                 if 128 < length display_name then Inl (auth_bad ''display name too long'')
                 else
                   rbind (random_id lib fill 0 ''a.'') (\<lambda>acc.
                   rbind (boolean_field body ''renewable'' True) (\<lambda>renewable.
                   rbind (number_field body ''num_uses'' 0) (\<lambda>num_uses.
                   Inr \<lparr>tok_accessor = acc, tok_namespace = namespace, tok_policies = requested, tok_root = root,
                        tok_parent = (if no_parent then None else Some (pr_digest actor)), tok_created_at = now,
                        tok_expires_at = expires_at, tok_max_expires_at = max_expires_at, tok_period = period,
                        tok_renewable = (renewable \<and> expires_at \<noteq> None),
                        tok_uses_remaining = unlimited_zero num_uses, tok_display_name = display_name,
                        tok_auth_mount = tok_auth_mount parent,
                        tok_auth_origin_known = (tok_root parent \<or> tok_auth_origin_known parent)\<rparr>)))))))))))))
       (\<lambda>st tok. issue lib fill st tok now)"

text \<open>
  The earliest expiry among the ancestors. The walk has no test for a cycle of its own; fuel
  stands for its steps, and \<open>None\<close> for running on. Renewal calls it after
  \<open>active_token\<close>, with fuel for every token.
\<close>

primrec ancestor_limit ::
  "nat \<Rightarrow> (string, token) bmap \<Rightarrow> string option \<Rightarrow> nat option \<Rightarrow> (auth_error + nat option) option" where
  "ancestor_limit 0 toks parent limit = None"
| "ancestor_limit (Suc fuel) toks parent limit =
     (case parent of
        None \<Rightarrow> Some (Inr limit)
      | Some parent_id \<Rightarrow>
          (case map_of toks parent_id of
             None \<Rightarrow> Some (Inl denied)
           | Some ancestor \<Rightarrow>
               ancestor_limit fuel toks (tok_parent ancestor)
                 (case tok_expires_at ancestor of
                    None \<Rightarrow> limit
                  | Some expiry \<Rightarrow> Some (case limit of None \<Rightarrow> expiry | Some l \<Rightarrow> min l expiry))))"

definition opt_min :: "nat \<Rightarrow> nat option \<Rightarrow> nat" where
  "opt_min n limit = (case limit of None \<Rightarrow> n | Some l \<Rightarrow> min n l)"

definition renewed_body :: "token \<Rightarrow> nat \<Rightarrow> nat \<Rightarrow> json" where
  "renewed_body tok expires_at now =
     json_object [(''auth'', json_object
       [(''accessor'', JStr (tok_accessor tok)), (''policies'', json_strings (tok_policies tok)),
        (''token_policies'', json_strings (tok_policies tok)), (''lease_duration'', json_u64 (expires_at - now)),
        (''renewable'', JBool True), (''token_type'', JStr ''service'')])]"

definition renew_target ::
  "'x auth_lib_scheme \<Rightarrow> auth_state \<Rightarrow> principal \<Rightarrow> string \<Rightarrow> string \<Rightarrow> json \<Rightarrow> auth_error + string" where
  "renew_target lib st actor namespace operation body =
     (if operation = ''renew-self'' then
        rbind (auth_reject_unknown body [''increment'']) (\<lambda>_. Inr (pr_digest actor))
      else
        rbind (auth_reject_unknown body
                 (if operation = ''renew'' then [''token'', ''increment''] else [''accessor'', ''increment''])) (\<lambda>_.
        target_token lib st namespace body (ends_with operation ''accessor'')))"

definition renewed_expiry :: "token \<Rightarrow> nat \<Rightarrow> nat option \<Rightarrow> nat \<Rightarrow> auth_error + nat" where
  "renewed_expiry tok increment limit now =
     (if \<not> tok_renewable tok then Inl (auth_bad ''token is not renewable'')
      else
        let ttl = (if 0 < tok_period tok then tok_period tok
                   else if increment = 0 then DEFAULT_TTL else min increment MAX_TTL) in
        rbind (checked_expiry now ttl) (\<lambda>proposed.
        let expires_at = opt_min (opt_min proposed (tok_max_expires_at tok)) limit in
        if expires_at \<le> now then Inl denied else Inr expires_at))"

definition token_renew ::
  "'x auth_lib_scheme \<Rightarrow> auth_state \<Rightarrow> principal \<Rightarrow> string \<Rightarrow> string \<Rightarrow> json \<Rightarrow> nat \<Rightarrow>
   auth_state \<times> (auth_error + auth_response)" where
  "token_renew lib st actor namespace operation body now =
     sbind (st, renew_target lib st actor namespace operation body) (\<lambda>st tid.
     sbind (st, active_token st tid now False) (\<lambda>st _.
     sbind (st, case ancestor_limit (Suc (length (tokens st))) (tokens st)
                       (Option.bind (map_of (tokens st) tid) tok_parent) None of
                  None \<Rightarrow> Inl (auth_err 0 ''the walk over the ancestors does not end'')
                | Some res \<Rightarrow> res) (\<lambda>st limit.
     sbind (st, duration_field body ''increment'' DEFAULT_TTL) (\<lambda>st increment.
     sbind (st, ok_or (map_of (tokens st) tid) denied) (\<lambda>st tok.
     sbind (st, renewed_expiry tok increment limit now) (\<lambda>st expires_at.
     (put_token st tid (tok\<lparr>tok_expires_at := Some expires_at\<rparr>),
      Inr \<lparr>ar_status = 200, ar_body = renewed_body tok expires_at now, ar_mutated = True\<rparr>)))))))"

definition token_method_ok :: "string \<Rightarrow> string \<Rightarrow> bool" where
  "token_method_ok operation method =
     (if operation = ''lookup-self'' \<or> operation = ''lookup'' \<or> operation = ''lookup-accessor''
      then method = ''GET'' \<or> method = ''POST''
      else if operation = ''accessors'' then method = ''LIST'' \<or> method = ''GET''
      else post_method method)"

definition token_capability :: "string \<Rightarrow> string" where
  "token_capability operation =
     (if operation = ''lookup-self'' \<or> operation = ''lookup'' \<or> operation = ''lookup-accessor'' then ''read''
      else if operation = ''accessors'' then ''list''
      else ''update'')"

text \<open>\<^verbatim>\<open>lookup\<close> and \<^verbatim>\<open>revoke\<close> name their target by token or by accessor.\<close>

definition named_target ::
  "'x auth_lib_scheme \<Rightarrow> auth_state \<Rightarrow> string \<Rightarrow> string \<Rightarrow> string \<Rightarrow> json \<Rightarrow> auth_error + string" where
  "named_target lib st namespace operation by_token body =
     rbind (auth_reject_unknown body (if operation = by_token then [''token''] else [''accessor''])) (\<lambda>_.
     target_token lib st namespace body (ends_with operation ''accessor''))"

definition token_tidy :: "auth_state \<Rightarrow> principal \<Rightarrow> string \<Rightarrow> string \<Rightarrow> json \<Rightarrow> nat \<Rightarrow>
    auth_state \<times> (auth_error + auth_response)" where
  "token_tidy st actor namespace path body now =
     sbind (st, auth_reject_unknown body []) (\<lambda>st _.
     sbind (st, authorize_request st actor namespace path ''sudo'' now) (\<lambda>st _.
     let stale = map fst (filter (\<lambda>e. tok_namespace (snd e) = namespace \<and>
                   (case active_token st (fst e) now True of Inl _ \<Rightarrow> True | Inr _ \<Rightarrow> False)) (tokens st)) in
     (st\<lparr>tokens := fold bremove stale (tokens st)\<rparr>,
      Inr (auth_data (json_object [(''removed_tokens'', json_u64 (length stale))]) (0 < length stale)))))"

definition token_accessors :: "auth_state \<Rightarrow> principal \<Rightarrow> string \<Rightarrow> string \<Rightarrow> nat \<Rightarrow> auth_error + auth_response" where
  "token_accessors st actor namespace path now =
     rbind (authorize_request st actor namespace path ''sudo'' now) (\<lambda>_.
     Inr (auth_data (json_object [(''keys'',
       json_strings (map (\<lambda>e. tok_accessor (snd e))
         (filter (\<lambda>e. tok_namespace (snd e) = namespace \<and> \<not> expired (snd e) now) (tokens st))))]) False))"

definition token_operation ::
  "'x auth_lib_scheme \<Rightarrow> entropy \<Rightarrow> auth_state \<Rightarrow> principal \<Rightarrow> string \<Rightarrow> string \<Rightarrow> string \<Rightarrow> json \<Rightarrow> nat \<Rightarrow>
   auth_state \<times> (auth_error + auth_response)" where
  "token_operation lib fill st actor namespace path operation body now =
     (if operation = ''create'' \<or> operation = ''create-orphan'' then
        create_token lib fill st actor namespace path body now (operation = ''create-orphan'')
      else if operation = ''lookup-self'' then
        (st, rbind (auth_reject_unknown body []) (\<lambda>_.
             rbind (ok_or (map_of (tokens st) (pr_digest actor)) denied) (\<lambda>tok.
             Inr (auth_data (token_info tok now) False))))
      else if operation = ''lookup'' \<or> operation = ''lookup-accessor'' then
        (st, rbind (named_target lib st namespace operation ''lookup'' body) (\<lambda>tid.
             rbind (active_token st tid now True) (\<lambda>tok.
             Inr (auth_data (token_info tok now) False))))
      else if operation = ''accessors'' then (st, token_accessors st actor namespace path now)
      else if operation = ''tidy'' then token_tidy st actor namespace path body now
      else if operation = ''revoke-self'' then
        sbind (st, auth_reject_unknown body []) (\<lambda>st _. (revoke st (pr_digest actor), Inr (auth_empty True)))
      else if operation = ''revoke'' \<or> operation = ''revoke-accessor'' then
        sbind (st, named_target lib st namespace operation ''revoke'' body) (\<lambda>st tid.
          (revoke st tid, Inr (auth_empty True)))
      else if operation = ''renew-self'' \<or> operation = ''renew'' \<or> operation = ''renew-accessor'' then
        token_renew lib st actor namespace operation body now
      else (st, Inl (auth_err 404 ''unsupported token operation'')))"

definition token_route ::
  "'x auth_lib_scheme \<Rightarrow> entropy \<Rightarrow> auth_state \<Rightarrow> principal option \<Rightarrow> string \<Rightarrow> string \<Rightarrow> string \<Rightarrow> json \<Rightarrow> nat \<Rightarrow>
   auth_state \<times> (auth_error + auth_response)" where
  "token_route lib fill st pr namespace method path body now =
     sbind (st, ok_or (strip_prefix ''auth/token/'' path) (auth_bad ''invalid token path'')) (\<lambda>st operation.
     if \<not> token_method_ok operation method then (st, Inl method_not_allowed)
     else
       sbind (st, permission st pr namespace path (token_capability operation) now) (\<lambda>st actor.
       token_operation lib fill st actor namespace path operation body now))"

end
