(* ===== verification/Auth_Methods.thy ===== *)
theory Auth_Methods
  imports Auth_Tokens Totp
begin

text \<open>
  The credentials of \<^verbatim>\<open>crates/heptabao-server/src/auth.rs\<close> that users and machines log in
  with: the policy route, passwords with an optional one-time code, and application roles with
  their secret identifiers.
\<close>

definition PASSWORD_ROUNDS :: nat where
  "PASSWORD_ROUNDS = 600000"

definition MFA_SEED_BYTES :: nat where
  "MFA_SEED_BYTES = 32"

definition MFA_PERIOD_SECONDS :: nat where
  "MFA_PERIOD_SECONDS = 30"

definition MFA_DIGITS :: nat where
  "MFA_DIGITS = 6"

definition MFA_DRIFT_STEPS :: nat where
  "MFA_DRIFT_STEPS = 1"

record auth_scope =
  scope_namespace :: string
  scope_mount :: string

section \<open>Policies\<close>

definition policy_capability :: "string \<Rightarrow> string \<Rightarrow> auth_error + string" where
  "policy_capability method name =
     (if method = ''GET'' then Inr (if name = [] then ''list'' else ''read'')
      else if method = ''LIST'' then Inr ''list''
      else if method = ''DELETE'' then Inr ''delete''
      else if post_method method then Inr ''update''
      else Inl method_not_allowed)"

definition policy_names :: "auth_state \<Rightarrow> string \<Rightarrow> string list" where
  "policy_names st namespace =
     (let keys = bset_insert ''default'' (map fst (unwrap_or (map_of (policies st) namespace) [])) in
      if namespace = [] then bset_insert ''root'' keys else keys)"

definition policy_change ::
  "'x auth_lib_scheme \<Rightarrow> auth_state \<Rightarrow> string \<Rightarrow> string \<Rightarrow> string \<Rightarrow> json \<Rightarrow> auth_state \<times> (auth_error + auth_response)" where
  "policy_change lib st namespace name capability body =
     (if capability = ''delete'' then
        if name = ''default'' then (st, Inl (auth_bad ''default policy cannot be deleted''))
        else
          (case map_of (policies st) namespace of
             None \<Rightarrow> (st, Inr (auth_empty True))
           | Some entries \<Rightarrow>
               (st\<lparr>policies := binsert namespace (bremove name entries) (policies st)\<rparr>, Inr (auth_empty True)))
      else if capability \<noteq> ''update'' then (st, Inl method_not_allowed)
      else
        sbind (st, auth_reject_unknown body [''policy'']) (\<lambda>st _.
        sbind (st, ok_or (json_get body ''policy'') (auth_bad ''policy is required'')) (\<lambda>st input.
        sbind (st, parse_policy lib input) (\<lambda>st pol.
        (st\<lparr>policies := binsert namespace
              (binsert name pol (unwrap_or (map_of (policies st) namespace) [])) (policies st)\<rparr>,
         Inr (auth_empty True))))))"

definition policy_route ::
  "'x auth_lib_scheme \<Rightarrow> auth_state \<Rightarrow> principal option \<Rightarrow> string \<Rightarrow> string \<Rightarrow> string \<Rightarrow> json \<Rightarrow> nat \<Rightarrow>
   auth_state \<times> (auth_error + auth_response)" where
  "policy_route lib st pr namespace method path body now =
     sbind (st, ok_or (or_else (strip_prefix ''sys/policies/acl'' path) (strip_prefix ''sys/policy'' path))
                  (auth_bad ''invalid policy route'')) (\<lambda>st suff.
     let name = unwrap_or (strip_prefix ''/'' suff) suff in
     sbind (st, policy_capability method name) (\<lambda>st capability.
     sbind (st, permission st pr namespace path capability now) (\<lambda>st actor.
     if name = [] then
       (st, if capability \<noteq> ''list'' then Inl (auth_bad ''policy name required'')
            else
              let keys = json_strings (policy_names st namespace) in
              Inr (auth_data (json_object [(''keys'', keys), (''policies'', keys)]) False))
     else if \<not> valid_name name then (st, Inl (auth_bad ''invalid policy name''))
     else if name = ''root'' then (st, Inl (auth_bad ''root policy cannot be read, changed, or deleted''))
     else if capability = ''read'' then
       (st, rbind (case namespace_policy st namespace name of
                     Some pol \<Rightarrow> Inr (policy_source pol)
                   | None \<Rightarrow> if name = ''default'' then Inr default_policy_source
                             else Inl (auth_err 404 ''policy not found'')) (\<lambda>source.
            Inr (auth_data (json_object
              [(''name'', JStr name), (''policy'', JStr source), (''rules'', JStr source)]) False)))
     else
       sbind (st, authorize_request st actor namespace path ''sudo'' now) (\<lambda>st _.
       policy_change lib st namespace name capability body))))"

section \<open>Users\<close>

definition users_at :: "auth_state \<Rightarrow> auth_scope \<Rightarrow> (string, user) bmap option" where
  "users_at st scope =
     (if scope_mount scope = ''userpass'' then map_of (users st) (scope_namespace scope)
      else Option.bind (map_of (mounted_users st) (scope_namespace scope)) (\<lambda>m. map_of m (scope_mount scope)))"

text \<open>\<^verbatim>\<open>users_at_mut\<close>: the map of the scope, made empty where there is none, changed in place.\<close>

definition update_users ::
  "auth_state \<Rightarrow> auth_scope \<Rightarrow> ((string, user) bmap \<Rightarrow> (string, user) bmap) \<Rightarrow> auth_state" where
  "update_users st scope change =
     (let entries = change (unwrap_or (users_at st scope) []) in
      if scope_mount scope = ''userpass''
      then st\<lparr>users := binsert (scope_namespace scope) entries (users st)\<rparr>
      else st\<lparr>mounted_users := binsert (scope_namespace scope)
             (binsert (scope_mount scope) entries
               (unwrap_or (map_of (mounted_users st) (scope_namespace scope)) [])) (mounted_users st)\<rparr>)"

definition roles_at :: "auth_state \<Rightarrow> auth_scope \<Rightarrow> (string, role) bmap option" where
  "roles_at st scope =
     (if scope_mount scope = ''approle'' then map_of (roles st) (scope_namespace scope)
      else Option.bind (map_of (mounted_roles st) (scope_namespace scope)) (\<lambda>m. map_of m (scope_mount scope)))"

definition update_roles ::
  "auth_state \<Rightarrow> auth_scope \<Rightarrow> ((string, role) bmap \<Rightarrow> (string, role) bmap) \<Rightarrow> auth_state" where
  "update_roles st scope change =
     (let entries = change (unwrap_or (roles_at st scope) []) in
      if scope_mount scope = ''approle''
      then st\<lparr>roles := binsert (scope_namespace scope) entries (roles st)\<rparr>
      else st\<lparr>mounted_roles := binsert (scope_namespace scope)
             (binsert (scope_mount scope) entries
               (unwrap_or (map_of (mounted_roles st) (scope_namespace scope)) [])) (mounted_roles st)\<rparr>)"

definition find_user :: "auth_state \<Rightarrow> auth_scope \<Rightarrow> string \<Rightarrow> user option" where
  "find_user st scope name = Option.bind (users_at st scope) (\<lambda>us. map_of us name)"

definition find_role :: "auth_state \<Rightarrow> auth_scope \<Rightarrow> string \<Rightarrow> role option" where
  "find_role st scope name = Option.bind (roles_at st scope) (\<lambda>rs. map_of rs name)"

definition validate_assignment :: "principal \<Rightarrow> string list \<Rightarrow> auth_error + unit" where
  "validate_assignment actor requested =
     (if ''root'' \<in> set requested \<or> (\<not> tok_root (pr_token actor) \<and> \<not> subset requested (tok_policies (pr_token actor)))
      then Inl denied else Inr ())"

definition normalize_ttl :: "nat \<Rightarrow> nat \<Rightarrow> auth_error + nat \<times> nat" where
  "normalize_ttl ttl max_ttl =
     (let ttl = (if ttl = 0 then DEFAULT_TTL else ttl);
          max_ttl = (if max_ttl = 0 then MAX_TTL else max_ttl) in
      if max_ttl < ttl \<or> MAX_TTL < max_ttl then Inl (auth_bad ''invalid token TTL limits'')
      else Inr (ttl, max_ttl))"

definition login_token ::
  "'x auth_lib_scheme \<Rightarrow> entropy \<Rightarrow> string \<Rightarrow> string list \<Rightarrow> nat \<Rightarrow> nat \<Rightarrow> nat \<Rightarrow> string \<Rightarrow> nat \<Rightarrow> auth_error + token" where
  "login_token lib fill namespace pols ttl max_ttl uses display_name now =
     (if ''root'' \<in> set pols then Inl denied
      else
        rbind (random_id lib fill 0 ''a.'') (\<lambda>acc.
        rbind (checked_expiry now ttl) (\<lambda>expires_at.
        rbind (checked_expiry now max_ttl) (\<lambda>max_expires_at.
        Inr \<lparr>tok_accessor = acc, tok_namespace = namespace, tok_policies = pols, tok_root = False, tok_parent = None,
             tok_created_at = now, tok_expires_at = Some expires_at, tok_max_expires_at = Some max_expires_at,
             tok_period = 0, tok_renewable = True, tok_uses_remaining = unlimited_zero uses,
             tok_display_name = display_name, tok_auth_mount = None, tok_auth_origin_known = True\<rparr>))))"

subsection \<open>One-time codes\<close>

text \<open>The buffer is a 32-bit word that shifts its oldest bits out.\<close>

primrec base32_no_padding_loop :: "byte list \<Rightarrow> nat \<Rightarrow> nat \<Rightarrow> string \<Rightarrow> nat \<times> nat \<times> string" where
  "base32_no_padding_loop [] buffer bits output = (buffer, bits, output)"
| "base32_no_padding_loop (byte # rest) buffer bits output =
     (let buffer = (buffer * 256 + unat byte) mod 2 ^ 32;
          (output, bits) = base32_emit buffer (bits + 8) output
      in base32_no_padding_loop rest buffer bits output)"

definition base32_no_padding :: "byte list \<Rightarrow> string" where
  "base32_no_padding bytes =
     (case base32_no_padding_loop bytes 0 0 [] of
        (buffer, bits, output) \<Rightarrow>
          if 0 < bits then output @ [BASE32 ! (buffer * 2 ^ (5 - bits) mod 32)] else output)"

primrec decimal_code :: "nat \<Rightarrow> nat \<Rightarrow> string" where
  "decimal_code 0 v = []"
| "decimal_code (Suc positions) v = decimal_code positions (v div 10) @ [digit_char (v mod 10)]"

definition mfa_code :: "'x auth_lib_scheme \<Rightarrow> byte list \<Rightarrow> nat \<Rightarrow> string" where
  "mfa_code lib secret counter =
     (let bytes = hmac_sign lib ''SHA256'' secret (be_bytes 8 counter);
          offset = unat (bytes ! (length bytes - 1)) mod 16;
          binary = (unat (bytes ! offset) mod 128) * 2 ^ 24 + unat (bytes ! (offset + 1)) * 2 ^ 16
                   + unat (bytes ! (offset + 2)) * 2 ^ 8 + unat (bytes ! (offset + 3))
      in decimal_code MFA_DIGITS (binary mod 1000000))"

text \<open>The candidates are tried in ascending order and the last match counts.\<close>

primrec mfa_match :: "'x auth_lib_scheme \<Rightarrow> totp_enrollment \<Rightarrow> string \<Rightarrow> nat list \<Rightarrow> nat option \<Rightarrow> nat option" where
  "mfa_match lib enrollment supplied [] accepted = accepted"
| "mfa_match lib enrollment supplied (counter # counters) accepted =
     mfa_match lib enrollment supplied counters
       (if is_some_and (te_last_accepted_counter enrollment) (\<lambda>l. counter \<le> l) then accepted
        else if hmac_sign lib ''SHA256'' (te_secret enrollment) (bytes_of_string supplied) =
                hmac_sign lib ''SHA256'' (te_secret enrollment)
                  (bytes_of_string (mfa_code lib (te_secret enrollment) counter))
        then Some (case accepted of None \<Rightarrow> counter | Some found \<Rightarrow> max found counter)
        else accepted)"

definition verify_totp :: "'x auth_lib_scheme \<Rightarrow> totp_enrollment \<Rightarrow> string \<Rightarrow> nat \<Rightarrow> auth_error + nat" where
  "verify_totp lib enrollment supplied now =
     (if length (te_secret enrollment) \<noteq> MFA_SEED_BYTES \<or> te_period_seconds enrollment \<noteq> MFA_PERIOD_SECONDS
         \<or> te_digits enrollment \<noteq> MFA_DIGITS \<or> length supplied \<noteq> MFA_DIGITS
         \<or> \<not> list_all is_ascii_digit supplied
      then Inl denied
      else
        let current = now div te_period_seconds enrollment;
            start = saturating_sub64 current MFA_DRIFT_STEPS;
            stop = saturating_add64 current MFA_DRIFT_STEPS
        in ok_or (mfa_match lib enrollment supplied [start..<Suc stop] None) denied)"

subsection \<open>The user routes\<close>

definition user_mfa ::
  "entropy \<Rightarrow> auth_state \<Rightarrow> principal \<Rightarrow> auth_scope \<Rightarrow> string \<Rightarrow> string \<Rightarrow> string \<Rightarrow> json \<Rightarrow> nat \<Rightarrow>
   auth_state \<times> (auth_error + auth_response)" where
  "user_mfa fill st actor scope name capability path body now =
     sbind (st, ok_or (find_user st scope name) (auth_err 404 ''user not found'')) (\<lambda>st usr.
     if capability = ''read'' then
       (st, rbind (auth_reject_unknown body []) (\<lambda>_.
            rbind (ok_or (usr_mfa usr) (auth_err 404 ''MFA enrollment not found'')) (\<lambda>enrollment.
            Inr (auth_data (json_object
              [(''enabled'', JBool True), (''type'', JStr ''totp''), (''algorithm'', JStr ''SHA256''),
               (''digits'', json_u64 (te_digits enrollment)), (''period'', json_u64 (te_period_seconds enrollment)),
               (''last_counter_present'', JBool (te_last_accepted_counter enrollment \<noteq> None))]) False))))
     else if capability = ''delete'' then
       sbind (st, auth_reject_unknown body []) (\<lambda>st _.
       sbind (st, authorize_request st actor (scope_namespace scope) path ''sudo'' now) (\<lambda>st _.
       (update_users st scope (binsert name (usr\<lparr>usr_mfa := None\<rparr>)), Inr (auth_empty (usr_mfa usr \<noteq> None)))))
     else if capability = ''update'' then
       sbind (st, auth_reject_unknown body [''regenerate'']) (\<lambda>st _.
       sbind (st, authorize_request st actor (scope_namespace scope) path ''sudo'' now) (\<lambda>st _.
       sbind (st, boolean_field body ''regenerate'' False) (\<lambda>st regenerate.
       if usr_mfa usr \<noteq> None \<and> \<not> regenerate
       then (st, Inl (auth_bad ''MFA is already enrolled; explicit regenerate=true is required''))
       else
         sbind (st, auth_random_bytes fill 6 MFA_SEED_BYTES) (\<lambda>st secret.
         (update_users st scope (binsert name (usr\<lparr>usr_mfa := Some
            \<lparr>te_secret = secret, te_period_seconds = MFA_PERIOD_SECONDS, te_digits = MFA_DIGITS,
             te_last_accepted_counter = None\<rparr>\<rparr>)),
          Inr (auth_data (json_object
            [(''enabled'', JBool True), (''type'', JStr ''totp''), (''algorithm'', JStr ''SHA256''),
             (''digits'', json_u64 MFA_DIGITS), (''period'', json_u64 MFA_PERIOD_SECONDS),
             (''secret_base32'', JStr (base32_no_padding secret))]) True))))))
     else (st, Inl method_not_allowed))"

definition user_default :: user where
  "user_default =
     \<lparr>usr_salt = [], usr_verifier = [], usr_rounds = PASSWORD_ROUNDS, usr_policies = [''default''],
      usr_token_ttl = DEFAULT_TTL, usr_token_max_ttl = MAX_TTL, usr_token_num_uses = 0, usr_mfa = None\<rparr>"

definition user_password ::
  "'x auth_lib_scheme \<Rightarrow> entropy \<Rightarrow> json \<Rightarrow> bool \<Rightarrow> user \<Rightarrow> auth_error + user" where
  "user_password lib fill body is_new usr =
     (case json_get body ''password'' of
        Some v \<Rightarrow>
          rbind (ok_or (as_str v) (auth_bad ''password must be a string'')) (\<lambda>password.
          if length password < 12 \<or> 1024 < length password
          then Inl (auth_bad ''password must be 12 to 1024 bytes'')
          else
            rbind (auth_random_bytes fill 5 32) (\<lambda>salt.
            Inr (usr\<lparr>usr_salt := salt, usr_rounds := PASSWORD_ROUNDS,
                 usr_verifier := pbkdf2_derive lib PASSWORD_ROUNDS salt (bytes_of_string password)\<rparr>)))
      | None \<Rightarrow> if is_new then Inl (auth_bad ''password is required for new user'') else Inr usr)"

definition user_update ::
  "'x auth_lib_scheme \<Rightarrow> entropy \<Rightarrow> principal \<Rightarrow> user option \<Rightarrow> string \<Rightarrow> json \<Rightarrow> auth_error + user" where
  "user_update lib fill actor existing subpath body =
     rbind (auth_reject_unknown body
       [''password'', ''policies'', ''token_policies'', ''ttl'', ''max_ttl'', ''token_ttl'', ''token_max_ttl'',
        ''token_num_uses'']) (\<lambda>_.
     if subpath = ''password'' \<and>
        (is_none_or (as_object body) (\<lambda>m. length m \<noteq> 1) \<or> json_get body ''password'' = None)
     then Inl (auth_bad ''password endpoint accepts only password'')
     else if subpath = ''policies'' \<and>
        is_some_and (as_object body) (\<lambda>m. list_ex (\<lambda>e. fst e \<noteq> ''policies'' \<and> fst e \<noteq> ''token_policies'') m)
     then Inl (auth_bad ''policies endpoint accepts only policy fields'')
     else
       rbind (user_password lib fill body (existing = None) (unwrap_or existing user_default)) (\<lambda>usr.
       rbind (reject_alias_pair body ''policies'' ''token_policies'') (\<lambda>_.
       rbind (reject_alias_pair body ''ttl'' ''token_ttl'') (\<lambda>_.
       rbind (reject_alias_pair body ''max_ttl'' ''token_max_ttl'') (\<lambda>_.
       rbind (policies_field body (alias_field body ''policies'' ''token_policies'') (usr_policies usr) True) (\<lambda>pols.
       rbind (validate_assignment actor pols) (\<lambda>_.
       rbind (duration_field body (alias_field body ''ttl'' ''token_ttl'') (usr_token_ttl usr)) (\<lambda>ttl.
       rbind (duration_field body (alias_field body ''max_ttl'' ''token_max_ttl'') (usr_token_max_ttl usr)) (\<lambda>max_ttl.
       rbind (normalize_ttl ttl max_ttl) (\<lambda>(ttl, max_ttl).
       rbind (number_field body ''token_num_uses'' (usr_token_num_uses usr)) (\<lambda>num_uses.
       Inr (usr\<lparr>usr_policies := pols, usr_token_ttl := ttl, usr_token_max_ttl := max_ttl,
            usr_token_num_uses := num_uses\<rparr>))))))))))))"

definition user_route ::
  "'x auth_lib_scheme \<Rightarrow> entropy \<Rightarrow> auth_state \<Rightarrow> principal option \<Rightarrow> auth_scope \<Rightarrow> string \<Rightarrow> string \<Rightarrow> json \<Rightarrow> nat \<Rightarrow>
   auth_state \<times> (auth_error + auth_response)" where
  "user_route lib fill st pr scope method path body now =
     sbind (st, ok_or (strip_prefix (''auth/'' @ scope_mount scope @ ''/users'') path) (auth_bad ''invalid user route''))
     (\<lambda>st suff.
     let suff = trim_start_matches suff (CHR ''/'');
         (name, subpath) = unwrap_or (split_once (CHR ''/'') suff) (suff, []) in
     sbind (st, route_capability method (suff = [])) (\<lambda>st capability.
     sbind (st, permission st pr (scope_namespace scope) path capability now) (\<lambda>st actor.
     if name = [] \<and> capability = ''list'' then
       (st, Inr (auth_data (json_object
          [(''keys'', json_strings (map fst (unwrap_or (users_at st scope) [])))]) False))
     else if \<not> valid_name name \<or> subpath \<notin> {[], ''password'', ''policies'', ''mfa''}
     then (st, Inl (auth_bad ''invalid user route''))
     else if subpath = ''mfa'' then user_mfa fill st actor scope name capability path body now
     else if capability = ''read'' \<and> subpath = [] then
       (st, rbind (ok_or (find_user st scope name) (auth_err 404 ''user not found'')) (\<lambda>usr.
            Inr (auth_data (json_object
              [(''policies'', json_strings (usr_policies usr)), (''token_policies'', json_strings (usr_policies usr)),
               (''token_ttl'', json_u64 (usr_token_ttl usr)), (''token_max_ttl'', json_u64 (usr_token_max_ttl usr)),
               (''token_num_uses'', json_u64 (usr_token_num_uses usr))]) False)))
     else if capability = ''delete'' \<and> subpath = [] then
       (update_users st scope (bremove name), Inr (auth_empty True))
     else if capability \<noteq> ''update'' then (st, Inl method_not_allowed)
     else
       sbind (st, user_update lib fill actor (find_user st scope name) subpath body) (\<lambda>st usr.
       (update_users st scope (binsert name usr), Inr (auth_empty True))))))"

text \<open>
  Logging in with a password. An account that does not exist is checked against a salt and a
  verifier of zeros before it is refused.
\<close>

definition password_verified :: "'x auth_lib_scheme \<Rightarrow> user option \<Rightarrow> string \<Rightarrow> auth_error + bool" where
  "password_verified lib usr password =
     (let (rounds, salt, verifier) =
            (case usr of
               Some u \<Rightarrow> (usr_rounds u, usr_salt u, usr_verifier u)
             | None \<Rightarrow> (PASSWORD_ROUNDS, replicate 32 0, replicate 32 0)) in
      if rounds = 0 then Inl denied
      else Inr (pbkdf2_verify lib rounds salt (bytes_of_string password) verifier))"

definition login_counter :: "'x auth_lib_scheme \<Rightarrow> user \<Rightarrow> json \<Rightarrow> nat \<Rightarrow> auth_error + nat option" where
  "login_counter lib usr body now =
     (case usr_mfa usr of
        Some enrollment \<Rightarrow>
          rbind (ok_or (Option.bind (json_get body ''totp_code'') as_str) denied) (\<lambda>code.
          rbind (verify_totp lib enrollment code now) (\<lambda>counter. Inr (Some counter)))
      | None \<Rightarrow>
          if json_get body ''totp_code'' \<noteq> None then Inl (auth_bad ''MFA is not configured for this user'')
          else Inr None)"

definition accept_counter :: "user \<Rightarrow> nat option \<Rightarrow> user" where
  "accept_counter usr counter =
     (case counter of
        None \<Rightarrow> usr
      | Some c \<Rightarrow> usr\<lparr>usr_mfa := map_option (\<lambda>e. e\<lparr>te_last_accepted_counter := Some c\<rparr>) (usr_mfa usr)\<rparr>)"

definition login_userpass ::
  "'x auth_lib_scheme \<Rightarrow> entropy \<Rightarrow> auth_state \<Rightarrow> auth_scope \<Rightarrow> string \<Rightarrow> string \<Rightarrow> json \<Rightarrow> nat \<Rightarrow>
   auth_state \<times> (auth_error + auth_response)" where
  "login_userpass lib fill st scope method name body now =
     sbind (st,
       if \<not> post_method method then Inl method_not_allowed
       else if \<not> valid_name name then Inl denied
       else
         rbind (auth_reject_unknown body [''password'', ''totp_code'']) (\<lambda>_.
         rbind (string_field body ''password'') (\<lambda>password.
         if 1024 < length password then Inl denied
         else
           rbind (password_verified lib (find_user st scope name) password) (\<lambda>verified.
           rbind (ok_or (opt_filter (\<lambda>_. verified) (find_user st scope name)) denied) (\<lambda>usr.
           rbind (login_counter lib usr body now) (\<lambda>counter.
           rbind (login_token lib fill (scope_namespace scope) (usr_policies usr) (usr_token_ttl usr)
                    (usr_token_max_ttl usr) (usr_token_num_uses usr) (''userpass-'' @ name) now) (\<lambda>tok.
           rbind (prepare_issue lib fill (tok\<lparr>tok_auth_mount := Some (scope_mount scope)\<rparr>) now) (\<lambda>issued.
           Inr (accept_counter usr counter, issued)))))))))
     (\<lambda>st (usr, tid, tok, resp). (put_token (update_users st scope (binsert name usr)) tid tok, Inr resp))"

section \<open>Application roles\<close>

definition stale_secret :: "secret_id \<Rightarrow> nat \<Rightarrow> bool" where
  "stale_secret secret now =
     (sid_uses_remaining secret = Some 0 \<or> is_some_and (sid_expires_at secret) (\<lambda>expiry. expiry \<le> now))"

primrec tidy_roles :: "nat \<Rightarrow> (string, role) bmap \<Rightarrow> (string, role) bmap \<times> nat" where
  "tidy_roles now [] = ([], 0)"
| "tidy_roles now (e # es) =
     (let stale = map fst (filter (\<lambda>s. stale_secret (snd s) now) (role_secret_ids (snd e)));
          r = (snd e)\<lparr>role_secret_ids := fold bremove stale (role_secret_ids (snd e))\<rparr>;
          (rest, removed) = tidy_roles now es
      in ((fst e, r) # rest, length stale + removed))"

definition tidy_secret_ids ::
  "auth_state \<Rightarrow> principal option \<Rightarrow> auth_scope \<Rightarrow> string \<Rightarrow> string \<Rightarrow> json \<Rightarrow> nat \<Rightarrow> auth_state \<times> (auth_error + auth_response)" where
  "tidy_secret_ids st pr scope method path body now =
     (if \<not> post_method method then (st, Inl method_not_allowed)
      else
        sbind (st, auth_reject_unknown body []) (\<lambda>st _.
        sbind (st, permission st pr (scope_namespace scope) path ''update'' now) (\<lambda>st actor.
        sbind (st, authorize_request st actor (scope_namespace scope) path ''sudo'' now) (\<lambda>st _.
        let removed = snd (tidy_roles now (unwrap_or (roles_at st scope) [])) in
        (update_roles st scope (\<lambda>rs. fst (tidy_roles now rs)),
         Inr (auth_data (json_object [(''removed_secret_ids'', json_u64 removed)]) (0 < removed)))))))"

definition role_default :: "string \<Rightarrow> role" where
  "role_default rid =
     \<lparr>role_id = rid, role_policies = [''default''], role_token_ttl = DEFAULT_TTL, role_token_max_ttl = MAX_TTL,
      role_token_num_uses = 0, role_secret_id_ttl = DEFAULT_TTL, role_secret_id_num_uses = 1, role_secret_ids = []\<rparr>"

definition role_update ::
  "'x auth_lib_scheme \<Rightarrow> entropy \<Rightarrow> principal \<Rightarrow> role option \<Rightarrow> json \<Rightarrow> auth_error + role" where
  "role_update lib fill actor existing body =
     rbind (auth_reject_unknown body
       [''bind_secret_id'', ''policies'', ''token_policies'', ''token_ttl'', ''token_max_ttl'', ''token_num_uses'',
        ''secret_id_ttl'', ''secret_id_num_uses'']) (\<lambda>_.
     rbind (boolean_field body ''bind_secret_id'' True) (\<lambda>bind_secret_id.
     if \<not> bind_secret_id then Inl (auth_bad ''AppRole requires secret_id binding'')
     else
       rbind (reject_alias_pair body ''policies'' ''token_policies'') (\<lambda>_.
       rbind (random_id lib fill 2 ''role.'') (\<lambda>rid.
       let r = unwrap_or existing (role_default rid) in
       rbind (policies_field body (alias_field body ''policies'' ''token_policies'') (role_policies r) True) (\<lambda>pols.
       rbind (validate_assignment actor pols) (\<lambda>_.
       rbind (duration_field body ''token_ttl'' (role_token_ttl r)) (\<lambda>ttl.
       rbind (duration_field body ''token_max_ttl'' (role_token_max_ttl r)) (\<lambda>max_ttl.
       rbind (normalize_ttl ttl max_ttl) (\<lambda>(ttl, max_ttl).
       rbind (number_field body ''token_num_uses'' (role_token_num_uses r)) (\<lambda>num_uses.
       rbind (duration_field body ''secret_id_ttl'' (role_secret_id_ttl r)) (\<lambda>secret_ttl.
       if MAX_TTL < secret_ttl then Inl (auth_bad ''secret_id TTL exceeds maximum'')
       else
         rbind (number_field body ''secret_id_num_uses'' (role_secret_id_num_uses r)) (\<lambda>secret_uses.
         Inr (r\<lparr>role_policies := pols, role_token_ttl := ttl, role_token_max_ttl := max_ttl,
              role_token_num_uses := num_uses, role_secret_id_ttl := secret_ttl,
              role_secret_id_num_uses := secret_uses\<rparr>)))))))))))))"

definition role_set_id :: "auth_state \<Rightarrow> auth_scope \<Rightarrow> string \<Rightarrow> role \<Rightarrow> json \<Rightarrow> auth_error + role" where
  "role_set_id st scope name r body =
     rbind (auth_reject_unknown body [''role_id'']) (\<lambda>_.
     rbind (string_field body ''role_id'') (\<lambda>v.
     if v = [] \<or> 256 < length v
        \<or> is_some_and (roles_at st scope) (\<lambda>rs. list_ex (\<lambda>e. fst e \<noteq> name \<and> role_id (snd e) = v) rs)
     then Inl (auth_bad ''invalid or duplicate role_id'')
     else Inr (r\<lparr>role_id := v\<rparr>)))"

definition new_secret_id ::
  "'x auth_lib_scheme \<Rightarrow> entropy \<Rightarrow> role \<Rightarrow> json \<Rightarrow> nat \<Rightarrow> auth_error + role \<times> auth_response" where
  "new_secret_id lib fill r body now =
     rbind (auth_reject_unknown body [''ttl'', ''num_uses'']) (\<lambda>_.
     rbind (duration_field body ''ttl'' (role_secret_id_ttl r)) (\<lambda>ttl.
     rbind (number_field body ''num_uses'' (role_secret_id_num_uses r)) (\<lambda>num_uses.
     if MAX_TTL < ttl
        \<or> (0 < role_secret_id_ttl r \<and> (ttl = 0 \<or> role_secret_id_ttl r < ttl))
        \<or> (0 < role_secret_id_num_uses r \<and> (num_uses = 0 \<or> role_secret_id_num_uses r < num_uses))
     then Inl (auth_bad ''secret_id constraints exceed role limits'')
     else
       rbind (random_id lib fill 3 ''secret.'') (\<lambda>raw.
       rbind (random_id lib fill 4 ''sa.'') (\<lambda>acc.
       rbind (if ttl = 0 then Inr None else rbind (checked_expiry now ttl) (\<lambda>e. Inr (Some e))) (\<lambda>expires_at.
       Inr (r\<lparr>role_secret_ids := binsert (token_hash lib raw)
               \<lparr>sid_accessor = acc, sid_expires_at = expires_at, sid_uses_remaining = unlimited_zero num_uses\<rparr>
               (role_secret_ids r)\<rparr>,
            auth_data (json_object
              [(''secret_id'', JStr raw), (''secret_id_accessor'', JStr acc), (''secret_id_ttl'', json_u64 ttl),
               (''secret_id_num_uses'', json_u64 num_uses)]) True)))))))"

definition secret_target :: "'x auth_lib_scheme \<Rightarrow> role \<Rightarrow> bool \<Rightarrow> json \<Rightarrow> auth_error + string \<times> secret_id" where
  "secret_target lib r by_accessor body =
     rbind (auth_reject_unknown body (if by_accessor then [''secret_id_accessor''] else [''secret_id''])) (\<lambda>_.
     rbind (if by_accessor then
              rbind (string_field body ''secret_id_accessor'') (\<lambda>wanted.
              ok_or (map_option fst (find (\<lambda>e. sid_accessor (snd e) = wanted) (role_secret_ids r)))
                (auth_err 404 ''secret_id not found''))
            else rbind (string_field body ''secret_id'') (\<lambda>raw. Inr (token_hash lib raw))) (\<lambda>sid.
     rbind (ok_or (map_of (role_secret_ids r) sid) (auth_err 404 ''secret_id not found'')) (\<lambda>secret.
     Inr (sid, secret))))"

definition role_operation ::
  "'x auth_lib_scheme \<Rightarrow> entropy \<Rightarrow> auth_state \<Rightarrow> auth_scope \<Rightarrow> string \<Rightarrow> role \<Rightarrow> string \<Rightarrow> string \<Rightarrow> json \<Rightarrow> nat \<Rightarrow>
   auth_state \<times> (auth_error + auth_response)" where
  "role_operation lib fill st scope name r operation capability body now =
     (if operation = ''role-id'' \<and> capability = ''read'' then
        (st, Inr (auth_data (json_object [(''role_id'', JStr (role_id r))]) False))
      else if operation = ''role-id'' \<and> capability = ''update'' then
        sbind (st, role_set_id st scope name r body) (\<lambda>st r.
        (update_roles st scope (binsert name r), Inr (auth_empty True)))
      else if operation = ''secret-id'' \<and> capability = ''list'' then
        (st, Inr (auth_data (json_object [(''keys'',
           json_strings (map (\<lambda>e. sid_accessor (snd e))
             (filter (\<lambda>e. \<not> stale_secret (snd e) now) (role_secret_ids r))))]) False))
      else if operation = ''secret-id'' \<and> capability = ''update'' then
        sbind (st, new_secret_id lib fill r body now) (\<lambda>st (r, resp).
        (update_roles st scope (binsert name r), Inr resp))
      else if operation \<in> {''secret-id/lookup'', ''secret-id-accessor/lookup'', ''secret-id/destroy'',
                           ''secret-id-accessor/destroy''} \<and> capability = ''update'' then
        sbind (st, secret_target lib r (starts_with operation ''secret-id-accessor/'') body) (\<lambda>st (sid, secret).
        if ends_with operation ''/lookup'' then
          (st, Inr (auth_data (json_object
             [(''secret_id_accessor'', JStr (sid_accessor secret)),
              (''secret_id_num_uses'', json_u64 (unwrap_or (sid_uses_remaining secret) 0)),
              (''expiration_time_unix'', json_opt_u64 (sid_expires_at secret))]) False))
        else
          (update_roles st scope (binsert name (r\<lparr>role_secret_ids := bremove sid (role_secret_ids r)\<rparr>)),
           Inr (auth_empty True)))
      else (st, Inl (auth_err 404 ''unsupported AppRole operation'')))"

definition role_info :: "role \<Rightarrow> json" where
  "role_info r =
     json_object
       [(''bind_secret_id'', JBool True), (''token_policies'', json_strings (role_policies r)),
        (''token_ttl'', json_u64 (role_token_ttl r)), (''token_max_ttl'', json_u64 (role_token_max_ttl r)),
        (''token_num_uses'', json_u64 (role_token_num_uses r)),
        (''secret_id_ttl'', json_u64 (role_secret_id_ttl r)),
        (''secret_id_num_uses'', json_u64 (role_secret_id_num_uses r))]"

definition role_route ::
  "'x auth_lib_scheme \<Rightarrow> entropy \<Rightarrow> auth_state \<Rightarrow> principal option \<Rightarrow> auth_scope \<Rightarrow> string \<Rightarrow> string \<Rightarrow> json \<Rightarrow> nat \<Rightarrow>
   auth_state \<times> (auth_error + auth_response)" where
  "role_route lib fill st pr scope method path body now =
     sbind (st, ok_or (strip_prefix (''auth/'' @ scope_mount scope @ ''/role'') path) (auth_bad ''invalid role route''))
     (\<lambda>st suff.
     let suff = trim_start_matches suff (CHR ''/'');
         (name, operation) = unwrap_or (split_once (CHR ''/'') suff) (suff, []) in
     sbind (st, route_capability method (suff = [] \<or> (operation = ''secret-id'' \<and> method = ''LIST''))) (\<lambda>st capability.
     sbind (st, permission st pr (scope_namespace scope) path capability now) (\<lambda>st actor.
     if name = [] \<and> capability = ''list'' then
       (st, Inr (auth_data (json_object
          [(''keys'', json_strings (map fst (unwrap_or (roles_at st scope) [])))]) False))
     else if \<not> valid_name name then (st, Inl (auth_bad ''invalid role name''))
     else if operation = [] then
       if capability = ''read'' then
         (st, rbind (ok_or (find_role st scope name) (auth_err 404 ''role not found'')) (\<lambda>r.
              Inr (auth_data (role_info r) False)))
       else if capability = ''delete'' then (update_roles st scope (bremove name), Inr (auth_empty True))
       else if capability \<noteq> ''update'' then (st, Inl method_not_allowed)
       else
         sbind (st, role_update lib fill actor (find_role st scope name) body) (\<lambda>st r.
         (update_roles st scope (binsert name r), Inr (auth_empty True)))
     else
       sbind (st, ok_or (find_role st scope name) (auth_err 404 ''role not found'')) (\<lambda>st r.
       role_operation lib fill st scope name r operation capability body now))))"

text \<open>Logging in with a role and a secret pays one use of the secret.\<close>

definition spend_secret :: "secret_id \<Rightarrow> secret_id" where
  "spend_secret secret = secret\<lparr>sid_uses_remaining := map_option (\<lambda>n. n - 1) (sid_uses_remaining secret)\<rparr>"

definition login_approle ::
  "'x auth_lib_scheme \<Rightarrow> entropy \<Rightarrow> auth_state \<Rightarrow> auth_scope \<Rightarrow> string \<Rightarrow> json \<Rightarrow> nat \<Rightarrow>
   auth_state \<times> (auth_error + auth_response)" where
  "login_approle lib fill st scope method body now =
     sbind (st,
       if \<not> post_method method then Inl method_not_allowed
       else
         rbind (auth_reject_unknown body [''role_id'', ''secret_id'']) (\<lambda>_.
         rbind (string_field body ''role_id'') (\<lambda>rid.
         rbind (string_field body ''secret_id'') (\<lambda>raw.
         if 256 < length rid \<or> 256 < length raw then Inl denied
         else
           rbind (ok_or (Option.bind (roles_at st scope) (find (\<lambda>e. role_id (snd e) = rid))) denied) (\<lambda>(name, r).
           rbind (ok_or (map_of (role_secret_ids r) (token_hash lib raw)) denied) (\<lambda>secret.
           if stale_secret secret now then Inl denied
           else
             rbind (login_token lib fill (scope_namespace scope) (role_policies r) (role_token_ttl r)
                      (role_token_max_ttl r) (role_token_num_uses r) (''approle-'' @ name) now) (\<lambda>tok.
             Inr (name,
                  r\<lparr>role_secret_ids := binsert (token_hash lib raw) (spend_secret secret) (role_secret_ids r)\<rparr>,
                  tok\<lparr>tok_auth_mount := Some (scope_mount scope)\<rparr>)))))))) (\<lambda>st (name, r, tok).
     sbind (issue lib fill st tok now) (\<lambda>st resp. (update_roles st scope (binsert name r), Inr resp)))"

end
