(* ===== verification/Federated.thy ===== *)
theory Federated
  imports Auth_Base
begin

text \<open>
  External identities, \<^verbatim>\<open>crates/heptabao-server/src/federated_auth.rs\<close>: the verification of
  signed tokens against a trust policy, channel-bound proofs of a second factor, and the replay
  ledger, whose file is a chain of authenticated frames. The file is its bytes; a write either
  reaches it whole, or fails after some of its bytes did. A document that is malformed after a
  repeated member is reported as invalid here.
\<close>

datatype fed_error =
    MalformedToken | DuplicateJsonKey | InvalidJson | MissingClaim | InvalidClaim | InvalidPolicy
  | InvalidKey | DuplicateKeyId | UnknownKeyId | AlgorithmDenied | SignatureInvalid | ClaimDenied
  | TokenTimeInvalid | ReplayDetected | ReplayRecordInvalid | InvalidMfaProof | WriterBusy | Tampered
  | CapacityExceeded | OutcomeUnknown | InvalidRoot | Io

definition MAX_TOKEN_BYTES :: nat where
  "MAX_TOKEN_BYTES = 32 * 1024"

definition MAX_JSON_BYTES :: nat where
  "MAX_JSON_BYTES = 12 * 1024"

definition MAX_KEY_BYTES :: nat where
  "MAX_KEY_BYTES = 16 * 1024"

definition MAX_STRING_BYTES :: nat where
  "MAX_STRING_BYTES = 1024"

definition MAX_GROUPS :: nat where
  "MAX_GROUPS = 512"

definition MAX_REPLAY_ENTRIES :: nat where
  "MAX_REPLAY_ENTRIES = 1000000"

section \<open>Trust\<close>

datatype jwt_algorithm = Ed25519 | Es256

definition header_name :: "jwt_algorithm \<Rightarrow> string" where
  "header_name alg = (case alg of Ed25519 \<Rightarrow> ''EdDSA'' | Es256 \<Rightarrow> ''ES256'')"

record verification_key =
  vk_key_id :: string
  vk_algorithm :: jwt_algorithm
  vk_bytes :: "byte list"

record trust_policy =
  tp_issuer :: string
  tp_audiences :: "string list"
  tp_required_namespace :: "string option"
  tp_clock_skew_seconds :: nat
  tp_maximum_token_lifetime_seconds :: nat

record jwt_verifier =
  jv_policy :: trust_policy
  jv_keys :: "(string, verification_key) bmap"

record verified_principal =
  vp_issuer :: string
  vp_subject :: string
  vp_audiences :: "string list"
  vp_namespace :: "string option"
  vp_groups :: "string list"
  vp_token_id :: string
  vp_issued_at :: nat
  vp_expires_at :: nat

definition checked_string :: "string \<Rightarrow> fed_error + string" where
  "checked_string v =
     (if v = [] \<or> MAX_STRING_BYTES < length v \<or> CHR 0x00 \<in> set v \<or> has_control v then Inl InvalidClaim else Inr v)"

definition verification_key_new :: "string \<Rightarrow> jwt_algorithm \<Rightarrow> byte list \<Rightarrow> fed_error + verification_key" where
  "verification_key_new key_id alg bytes =
     rbind (checked_string key_id) (\<lambda>key_id.
     let valid_encoding = (case alg of Ed25519 \<Rightarrow> length bytes = 32
                                     | Es256 \<Rightarrow> length bytes = 65 \<and> take 1 bytes = [4]) in
     if \<not> valid_encoding \<or> MAX_KEY_BYTES < length bytes then Inl InvalidKey
     else Inr \<lparr>vk_key_id = key_id, vk_algorithm = alg, vk_bytes = bytes\<rparr>)"

definition trust_policy_new ::
  "string \<Rightarrow> string list \<Rightarrow> string option \<Rightarrow> nat \<Rightarrow> nat \<Rightarrow> fed_error + trust_policy" where
  "trust_policy_new issuer audiences required_namespace skew lifetime =
     rbind (checked_string issuer) (\<lambda>issuer.
     if audiences = [] \<or> 64 < length audiences
        \<or> list_ex (\<lambda>a. case checked_string a of Inl _ \<Rightarrow> True | Inr _ \<Rightarrow> False) audiences
        \<or> 300 < skew \<or> \<not> (1 \<le> lifetime \<and> lifetime \<le> 86400)
     then Inl InvalidPolicy
     else
       rbind (rtranspose checked_string required_namespace) (\<lambda>required_namespace.
       Inr \<lparr>tp_issuer = issuer, tp_audiences = audiences, tp_required_namespace = required_namespace,
            tp_clock_skew_seconds = skew, tp_maximum_token_lifetime_seconds = lifetime\<rparr>))"

primrec keys_by_id ::
  "verification_key list \<Rightarrow> (string, verification_key) bmap \<Rightarrow> fed_error + (string, verification_key) bmap" where
  "keys_by_id [] by_id = Inr by_id"
| "keys_by_id (key # ks) by_id =
     (if bcontains by_id (vk_key_id key) then Inl DuplicateKeyId
      else keys_by_id ks (binsert (vk_key_id key) key by_id))"

definition jwt_verifier_new :: "trust_policy \<Rightarrow> verification_key list \<Rightarrow> fed_error + jwt_verifier" where
  "jwt_verifier_new pol ks =
     rbind (keys_by_id ks []) (\<lambda>by_id.
     if by_id = [] then Inl InvalidKey else Inr \<lparr>jv_policy = pol, jv_keys = by_id\<rparr>)"

section \<open>Claims\<close>

type_synonym claims = "(string, json) bmap"

primrec unique_entries :: "(string \<times> raw_json) list \<Rightarrow> claims \<Rightarrow> fed_error + claims" where
  "unique_entries [] values = Inr values"
| "unique_entries (e # es) values =
     (if bcontains values (fst e) then Inl DuplicateJsonKey
      else unique_entries es (binsert (fst e) (raw_value (snd e)) values))"

definition parse_unique_object :: "'x auth_lib_scheme \<Rightarrow> byte list \<Rightarrow> fed_error + claims" where
  "parse_unique_object lib bytes =
     (case json_parse lib bytes of
        Some (RObj es) \<Rightarrow> unique_entries es []
      | _ \<Rightarrow> Inl InvalidJson)"

definition decode_segment :: "'x auth_lib_scheme \<Rightarrow> string \<Rightarrow> fed_error + byte list" where
  "decode_segment lib v = ok_or (base64url_decode lib v) MalformedToken"

definition verify_signature :: "'x auth_lib_scheme \<Rightarrow> verification_key \<Rightarrow> byte list \<Rightarrow> byte list \<Rightarrow> fed_error + unit" where
  "verify_signature lib key message sig =
     guard_err (case vk_algorithm key of
                  Ed25519 \<Rightarrow> ed25519_verify lib (vk_bytes key) message sig
                | Es256 \<Rightarrow> ecdsa_p256_verify lib (vk_bytes key) message sig) SignatureInvalid"

text \<open>Each reader takes its member out of the object.\<close>

definition take_string :: "claims \<Rightarrow> string \<Rightarrow> claims \<times> (fed_error + string)" where
  "take_string values name =
     (bremove name values,
      case map_of values name of
        Some (JStr v) \<Rightarrow> checked_string v
      | Some _ \<Rightarrow> Inl InvalidClaim
      | None \<Rightarrow> Inl MissingClaim)"

definition take_optional_string :: "claims \<Rightarrow> string \<Rightarrow> claims \<times> (fed_error + string option)" where
  "take_optional_string values name =
     (bremove name values,
      case map_of values name of
        Some (JStr v) \<Rightarrow> rbind (checked_string v) (\<lambda>v. Inr (Some v))
      | Some JNull \<Rightarrow> Inr None
      | None \<Rightarrow> Inr None
      | Some _ \<Rightarrow> Inl InvalidClaim)"

definition take_u64 :: "claims \<Rightarrow> string \<Rightarrow> claims \<times> (fed_error + nat)" where
  "take_u64 values name =
     (bremove name values,
      case map_of values name of
        Some v \<Rightarrow> ok_or (as_u64 v) InvalidClaim
      | None \<Rightarrow> Inl MissingClaim)"

definition take_optional_u64 :: "claims \<Rightarrow> string \<Rightarrow> claims \<times> (fed_error + nat option)" where
  "take_optional_u64 values name =
     (bremove name values,
      case map_of values name of
        Some JNull \<Rightarrow> Inr None
      | None \<Rightarrow> Inr None
      | Some v \<Rightarrow> rbind (ok_or (as_u64 v) InvalidClaim) (\<lambda>n. Inr (Some n)))"

definition claim_strings :: "json list \<Rightarrow> fed_error + string list" where
  "claim_strings vs = rcollect (\<lambda>v. case v of JStr s \<Rightarrow> checked_string s | _ \<Rightarrow> Inl InvalidClaim) vs"

definition take_audiences :: "claims \<Rightarrow> claims \<times> (fed_error + string list)" where
  "take_audiences values =
     (bremove ''aud'' values,
      case map_of values ''aud'' of
        Some (JStr v) \<Rightarrow> rbind (checked_string v) (\<lambda>v. Inr [v])
      | Some (JArr vs) \<Rightarrow>
          rbind (claim_strings vs) (\<lambda>names.
          let audiences = bset_of names in
          if audiences = [] \<or> 64 < length audiences then Inl InvalidClaim else Inr audiences)
      | Some _ \<Rightarrow> Inl InvalidClaim
      | None \<Rightarrow> Inl MissingClaim)"

text \<open>The size is tested as the set grows, so its final size decides; every failure is the same.\<close>

definition take_string_set :: "claims \<Rightarrow> string \<Rightarrow> claims \<times> (fed_error + string list)" where
  "take_string_set values name =
     (bremove name values,
      case map_of values name of
        None \<Rightarrow> Inr []
      | Some JNull \<Rightarrow> Inr []
      | Some (JArr vs) \<Rightarrow>
          rbind (claim_strings vs) (\<lambda>names.
          if MAX_GROUPS < length (bset_of names) then Inl InvalidClaim else Inr (bset_of names))
      | Some _ \<Rightarrow> Inl InvalidClaim)"

section \<open>Verification\<close>

definition token_parts :: "string \<Rightarrow> fed_error + string \<times> string \<times> string" where
  "token_parts tok =
     (if tok = [] \<or> MAX_TOKEN_BYTES < length tok \<or> \<not> list_all (\<lambda>c. byte_of c < 128) tok then Inl MalformedToken
      else
        case split_on (CHR ''.'') tok of
          [header, body, sig] \<Rightarrow>
            if header = [] \<or> body = [] \<or> sig = [] then Inl MalformedToken else Inr (header, body, sig)
        | _ \<Rightarrow> Inl MalformedToken)"

definition verify_header :: "'x auth_lib_scheme \<Rightarrow> jwt_verifier \<Rightarrow> byte list \<Rightarrow> fed_error + verification_key" where
  "verify_header lib verifier header_bytes =
     rbind (parse_unique_object lib header_bytes) (\<lambda>header.
     snd (sbind (take_string header ''alg'') (\<lambda>header algorithm_name.
          sbind (take_string header ''kid'') (\<lambda>header key_id.
          sbind (take_optional_string header ''typ'') (\<lambda>header typ.
          (header,
           if is_some_and typ (\<lambda>t. t \<noteq> ''JWT'') then Inl MalformedToken
           else if header \<noteq> [] then Inl MalformedToken
           else
             rbind (ok_or (map_of (jv_keys verifier) key_id) UnknownKeyId) (\<lambda>key.
             if algorithm_name \<noteq> header_name (vk_algorithm key) then Inl AlgorithmDenied else Inr key)))))))"

definition read_claims :: "'x auth_lib_scheme \<Rightarrow> byte list \<Rightarrow> fed_error + verified_principal \<times> nat" where
  "read_claims lib claims_bytes =
     rbind (parse_unique_object lib claims_bytes) (\<lambda>cs.
     snd (sbind (take_string cs ''iss'') (\<lambda>cs issuer.
          sbind (take_string cs ''sub'') (\<lambda>cs subject.
          sbind (take_audiences cs) (\<lambda>cs audiences.
          sbind (take_u64 cs ''exp'') (\<lambda>cs expires_at.
          sbind (take_u64 cs ''iat'') (\<lambda>cs issued_at.
          sbind (take_optional_u64 cs ''nbf'') (\<lambda>cs not_before.
          sbind (take_string cs ''jti'') (\<lambda>cs token_id.
          sbind (take_optional_string cs ''heptabao_namespace'') (\<lambda>cs namespace.
          sbind (take_string_set cs ''groups'') (\<lambda>cs groups.
          (cs, Inr (\<lparr>vp_issuer = issuer, vp_subject = subject, vp_audiences = audiences, vp_namespace = namespace,
                     vp_groups = groups, vp_token_id = token_id, vp_issued_at = issued_at,
                     vp_expires_at = expires_at\<rparr>, unwrap_or not_before issued_at)))))))))))))"

definition disjoint :: "string list \<Rightarrow> string list \<Rightarrow> bool" where
  "disjoint a b = list_all (\<lambda>x. x \<notin> set b) a"

definition check_claims :: "trust_policy \<Rightarrow> verified_principal \<Rightarrow> nat \<Rightarrow> nat \<Rightarrow> fed_error + verified_principal" where
  "check_claims pol vp not_before now =
     (if vp_issuer vp \<noteq> tp_issuer pol \<or> disjoint (vp_audiences vp) (tp_audiences pol)
         \<or> is_some_and (tp_required_namespace pol) (\<lambda>required. vp_namespace vp \<noteq> Some required)
      then Inl ClaimDenied
      else
        let skew = tp_clock_skew_seconds pol in
        if saturating_add64 now skew < not_before \<or> saturating_add64 now skew < vp_issued_at vp
           \<or> vp_expires_at vp \<le> now \<or> vp_expires_at vp \<le> vp_issued_at vp \<or> vp_expires_at vp \<le> not_before
           \<or> tp_maximum_token_lifetime_seconds pol < vp_expires_at vp - vp_issued_at vp
        then Inl TokenTimeInvalid
        else Inr vp)"

definition jwt_verify ::
  "'x auth_lib_scheme \<Rightarrow> jwt_verifier \<Rightarrow> string \<Rightarrow> nat \<Rightarrow> fed_error + verified_principal" where
  "jwt_verify lib verifier tok now =
     rbind (token_parts tok) (\<lambda>(encoded_header, encoded_claims, encoded_signature).
     rbind (decode_segment lib encoded_header) (\<lambda>header_bytes.
     rbind (decode_segment lib encoded_claims) (\<lambda>claims_bytes.
     rbind (decode_segment lib encoded_signature) (\<lambda>signature_bytes.
     if MAX_JSON_BYTES < length header_bytes \<or> MAX_JSON_BYTES < length claims_bytes then Inl MalformedToken
     else
       rbind (verify_header lib verifier header_bytes) (\<lambda>key.
       rbind (verify_signature lib key (bytes_of_string (encoded_header @ ''.'' @ encoded_claims)) signature_bytes) (\<lambda>_.
       rbind (read_claims lib claims_bytes) (\<lambda>(vp, not_before).
       check_claims (jv_policy verifier) vp not_before now)))))))"

definition digest_bytes :: "'x auth_lib_scheme \<Rightarrow> byte list \<Rightarrow> byte list" where
  "digest_bytes lib bytes = sha_digest lib ''sha2-256'' bytes"

definition replay_identity :: "verified_principal \<Rightarrow> byte list" where
  "replay_identity vp =
     concat (map (\<lambda>v. bytes_of_string v @ [0])
       [vp_issuer vp, vp_subject vp, unwrap_or (vp_namespace vp) [], vp_token_id vp])"

definition replay_fingerprint :: "'x auth_lib_scheme \<Rightarrow> verified_principal \<Rightarrow> byte list" where
  "replay_fingerprint lib vp = digest_bytes lib (replay_identity vp)"

section \<open>Second factors\<close>

record mfa_proof =
  mp_subject :: string
  mp_factor_id :: string
  mp_issued_at :: nat
  mp_expires_at :: nat
  mp_nonce :: "byte list"
  mp_channel_binding :: "byte list"
  mp_tag :: "byte list"

record mfa_verifier =
  mv_secret :: "byte list"
  mv_clock_skew_seconds :: nat

definition encode_mfa_body ::
  "string \<Rightarrow> string \<Rightarrow> nat \<Rightarrow> nat \<Rightarrow> byte list \<Rightarrow> byte list \<Rightarrow> fed_error + byte list" where
  "encode_mfa_body subject factor_id issued_at expires_at nonce channel_binding =
     (if 2 ^ 16 \<le> length subject \<or> 2 ^ 16 \<le> length factor_id then Inl InvalidMfaProof
      else Inr (be_bytes 2 (length subject) @ bytes_of_string subject @ be_bytes 2 (length factor_id) @
                bytes_of_string factor_id @ be_bytes 8 issued_at @ be_bytes 8 expires_at @ nonce @ channel_binding))"

definition mfa_sign ::
  "'x auth_lib_scheme \<Rightarrow> string \<Rightarrow> string \<Rightarrow> nat \<Rightarrow> nat \<Rightarrow> byte list \<Rightarrow> byte list \<Rightarrow> byte list \<Rightarrow> fed_error + mfa_proof" where
  "mfa_sign lib subject factor_id issued_at expires_at nonce channel_binding secret =
     rbind (checked_string subject) (\<lambda>subject.
     rbind (checked_string factor_id) (\<lambda>factor_id.
     if secret = replicate 32 0 \<or> nonce = replicate 16 0 \<or> channel_binding = replicate 32 0
        \<or> expires_at \<le> issued_at \<or> 300 < expires_at - issued_at
     then Inl InvalidMfaProof
     else
       rbind (encode_mfa_body subject factor_id issued_at expires_at nonce channel_binding) (\<lambda>body.
       Inr \<lparr>mp_subject = subject, mp_factor_id = factor_id, mp_issued_at = issued_at, mp_expires_at = expires_at,
            mp_nonce = nonce, mp_channel_binding = channel_binding, mp_tag = hmac_sign lib ''SHA256'' secret body\<rparr>)))"

definition mfa_verifier_new :: "byte list \<Rightarrow> nat \<Rightarrow> fed_error + mfa_verifier" where
  "mfa_verifier_new secret skew =
     (if secret = replicate 32 0 \<or> 60 < skew then Inl InvalidPolicy
      else Inr \<lparr>mv_secret = secret, mv_clock_skew_seconds = skew\<rparr>)"

definition mfa_verify ::
  "'x auth_lib_scheme \<Rightarrow> mfa_verifier \<Rightarrow> mfa_proof \<Rightarrow> string \<Rightarrow> byte list \<Rightarrow> nat \<Rightarrow> fed_error + byte list" where
  "mfa_verify lib verifier proof expected_subject expected_channel now =
     (if mp_subject proof \<noteq> expected_subject \<or> mp_channel_binding proof \<noteq> expected_channel
         \<or> mp_nonce proof = replicate 16 0 \<or> expected_channel = replicate 32 0
         \<or> mp_expires_at proof \<le> mp_issued_at proof \<or> 300 < mp_expires_at proof - mp_issued_at proof
         \<or> saturating_add64 now (mv_clock_skew_seconds verifier) < mp_issued_at proof
         \<or> saturating_add64 (mp_expires_at proof) (mv_clock_skew_seconds verifier) < now
      then Inl InvalidMfaProof
      else
        rbind (encode_mfa_body (mp_subject proof) (mp_factor_id proof) (mp_issued_at proof) (mp_expires_at proof)
                 (mp_nonce proof) (mp_channel_binding proof)) (\<lambda>body.
        if hmac_sign lib ''SHA256'' (mv_secret verifier) body \<noteq> mp_tag proof then Inl InvalidMfaProof
        else Inr (digest_bytes lib (body @ mp_tag proof))))"

section \<open>The replay ledger\<close>

definition REPLAY_MAGIC :: "byte list" where
  "REPLAY_MAGIC = bytes_of_string ''HBRL1''"

definition REPLAY_BODY_BYTES :: nat where
  "REPLAY_BODY_BYTES = 5 + 8 + 32 + 8 + 32"

definition REPLAY_TAG_BYTES :: nat where
  "REPLAY_TAG_BYTES = 32"

definition REPLAY_FRAME_BYTES :: nat where
  "REPLAY_FRAME_BYTES = REPLAY_BODY_BYTES + REPLAY_TAG_BYTES"

record recovered_replay =
  rr_valid_bytes :: nat
  rr_last_sequence :: nat
  rr_previous_tag :: "byte list"
  rr_entries :: "(byte list, nat) bmap"

record replay_ledger =
  rl_file :: "byte list"
  rl_key :: "byte list"
  rl_next_sequence :: nat
  rl_previous_tag :: "byte list"
  rl_entries :: "(byte list, nat) bmap"

definition encode_replay_body :: "nat \<Rightarrow> byte list \<Rightarrow> nat \<Rightarrow> byte list \<Rightarrow> byte list" where
  "encode_replay_body sequence fingerprint expires_at previous_tag =
     REPLAY_MAGIC @ be_bytes 8 sequence @ fingerprint @ be_bytes 8 expires_at @ previous_tag"

text \<open>The loop over the frames, on the bytes that are left; \<open>offset\<close> counts those that were read.\<close>

function recover_frames ::
  "'x auth_lib_scheme \<Rightarrow> byte list \<Rightarrow> byte list \<Rightarrow> nat \<Rightarrow> nat \<Rightarrow> byte list \<Rightarrow> (byte list, nat) bmap \<Rightarrow>
   fed_error + recovered_replay" where
  "recover_frames lib key bytes offset expected_sequence previous_tag entries =
     (let stop = Inr \<lparr>rr_valid_bytes = offset, rr_last_sequence = expected_sequence - 1,
                     rr_previous_tag = previous_tag, rr_entries = entries\<rparr> in
      if length bytes < 4 then stop
      else if be_value (take 4 bytes) \<noteq> REPLAY_FRAME_BYTES then Inl Tampered
      else if length bytes - 4 < REPLAY_FRAME_BYTES then stop
      else
        let body = take REPLAY_BODY_BYTES (drop 4 bytes);
            tag = take REPLAY_TAG_BYTES (drop (4 + REPLAY_BODY_BYTES) bytes);
            fingerprint = take 32 (drop 13 body) in
        if hmac_sign lib ''SHA256'' key body \<noteq> tag then Inl Tampered
        else if take 5 body \<noteq> REPLAY_MAGIC then Inl Tampered
        else if be_value (take 8 (drop 5 body)) \<noteq> expected_sequence \<or> take 32 (drop 53 body) \<noteq> previous_tag
                \<or> fingerprint = replicate 32 0
        then Inl Tampered
        else if u64_bound \<le> expected_sequence + 1 then Inl CapacityExceeded
        else
          recover_frames lib key (drop (4 + REPLAY_FRAME_BYTES) bytes) (offset + 4 + REPLAY_FRAME_BYTES)
            (expected_sequence + 1) tag (binsert fingerprint (be_value (take 8 (drop 45 body))) entries))"
  by pat_completeness auto
termination
  by (relation "measure (\<lambda>(lib, key, bytes, _). length bytes)") auto

declare recover_frames.simps [simp del]

definition recover_replay :: "'x auth_lib_scheme \<Rightarrow> byte list \<Rightarrow> byte list \<Rightarrow> fed_error + recovered_replay" where
  "recover_replay lib key bytes = recover_frames lib key bytes 0 1 (replicate 32 0) []"

definition replay_open :: "'x auth_lib_scheme \<Rightarrow> byte list \<Rightarrow> byte list \<Rightarrow> fed_error + replay_ledger" where
  "replay_open lib file key =
     (if key = replicate 32 0 then Inl InvalidKey
      else
        rbind (recover_replay lib key file) (\<lambda>rec.
        rbind (ok_or (checked_add64 (rr_last_sequence rec) 1) CapacityExceeded) (\<lambda>next_sequence.
        Inr \<lparr>rl_file = take (rr_valid_bytes rec) file, rl_key = key, rl_next_sequence = next_sequence,
             rl_previous_tag = rr_previous_tag rec, rl_entries = rr_entries rec\<rparr>)))"

definition replay_frame :: "byte list \<Rightarrow> byte list \<Rightarrow> byte list" where
  "replay_frame body tag = be_bytes 4 REPLAY_FRAME_BYTES @ body @ tag"

text \<open>
  \<open>written\<close> is what becomes of the write: \<open>None\<close> when the frame is on disk, \<open>Some n\<close>
  when an error is reported after \<open>n\<close> of its bytes reached the file.
\<close>

definition record_once ::
  "'x auth_lib_scheme \<Rightarrow> nat option \<Rightarrow> replay_ledger \<Rightarrow> byte list \<Rightarrow> nat \<Rightarrow> nat \<Rightarrow> replay_ledger \<times> (fed_error + unit)" where
  "record_once lib written ledger fingerprint expires_at now =
     (if fingerprint = replicate 32 0 \<or> expires_at < now then (ledger, Inl ReplayRecordInvalid)
      else
        let ledger = ledger\<lparr>rl_entries := bretain (\<lambda>_ expiry. now \<le> expiry) (rl_entries ledger)\<rparr> in
        if is_some_and (map_of (rl_entries ledger) fingerprint) (\<lambda>expiry. now \<le> expiry)
        then (ledger, Inl ReplayDetected)
        else if MAX_REPLAY_ENTRIES \<le> length (rl_entries ledger) then (ledger, Inl CapacityExceeded)
        else
          let body = encode_replay_body (rl_next_sequence ledger) fingerprint expires_at (rl_previous_tag ledger);
              tag = hmac_sign lib ''SHA256'' (rl_key ledger) body;
              frame = replay_frame body tag in
          case written of
            Some n \<Rightarrow> (ledger\<lparr>rl_file := rl_file ledger @ take n frame\<rparr>, Inl OutcomeUnknown)
          | None \<Rightarrow>
              let ledger = ledger\<lparr>rl_file := rl_file ledger @ frame, rl_previous_tag := tag\<rparr> in
              (case checked_add64 (rl_next_sequence ledger) 1 of
                 None \<Rightarrow> (ledger, Inl CapacityExceeded)
               | Some next_sequence \<Rightarrow>
                   (ledger\<lparr>rl_next_sequence := next_sequence,
                           rl_entries := binsert fingerprint expires_at (rl_entries ledger)\<rparr>, Inr ())))"

definition jwt_verify_and_record ::
  "'x auth_lib_scheme \<Rightarrow> nat option \<Rightarrow> jwt_verifier \<Rightarrow> replay_ledger \<Rightarrow> string \<Rightarrow> nat \<Rightarrow>
   replay_ledger \<times> (fed_error + verified_principal)" where
  "jwt_verify_and_record lib written verifier ledger tok now =
     sbind (ledger, jwt_verify lib verifier tok now) (\<lambda>ledger vp.
     sbind (record_once lib written ledger (replay_fingerprint lib vp) (vp_expires_at vp) now) (\<lambda>ledger _.
     (ledger, Inr vp)))"

definition mfa_verify_and_record ::
  "'x auth_lib_scheme \<Rightarrow> nat option \<Rightarrow> mfa_verifier \<Rightarrow> replay_ledger \<Rightarrow> mfa_proof \<Rightarrow> string \<Rightarrow> byte list \<Rightarrow> nat \<Rightarrow>
   replay_ledger \<times> (fed_error + unit)" where
  "mfa_verify_and_record lib written verifier ledger proof expected_subject expected_channel now =
     sbind (ledger, mfa_verify lib verifier proof expected_subject expected_channel now) (\<lambda>ledger fingerprint.
     record_once lib written ledger fingerprint (mp_expires_at proof) now)"

end
