(* ===== verification/Auth.thy ===== *)
theory Auth
  imports Auth_Methods Federated
begin

text \<open>
  The rest of \<^verbatim>\<open>crates/heptabao-server/src/auth.rs\<close>: logging in with a signed external
  token, the table of authentication mounts, and \<open>auth_handle\<close>, the entry point of the service.
\<close>

definition MAX_EXTERNAL_REPLAY_ENTRIES :: nat where
  "MAX_EXTERNAL_REPLAY_ENTRIES = 32000"

section \<open>External tokens\<close>

primrec config_keys :: "(string, jwt_key_record) bmap \<Rightarrow> auth_error + verification_key list" where
  "config_keys [] = Inr []"
| "config_keys (e # es) =
     rbind (if jk_algorithm (snd e) = ''EdDSA'' then Inr Ed25519
            else if jk_algorithm (snd e) = ''ES256'' then Inr Es256
            else Inl (auth_bad ''unsupported JWT algorithm'')) (\<lambda>alg.
     rbind (map_err (\<lambda>_. auth_bad ''invalid JWT verification key'')
              (verification_key_new (fst e) alg (jk_bytes (snd e)))) (\<lambda>key.
     rbind (config_keys es) (\<lambda>ks. Inr (key # ks))))"

definition config_verifier :: "jwt_config \<Rightarrow> auth_error + jwt_verifier" where
  "config_verifier config =
     rbind (map_err (\<lambda>_. auth_bad ''invalid JWT trust policy'')
              (trust_policy_new (jc_issuer config) (jc_audiences config)
                 (opt_filter (\<lambda>v. v \<noteq> []) (jc_required_namespace config))
                 (jc_clock_skew_seconds config) (jc_maximum_token_lifetime_seconds config))) (\<lambda>pol.
     rbind (config_keys (jc_keys config)) (\<lambda>ks.
     map_err (\<lambda>_. auth_bad ''invalid JWT verifier configuration'') (jwt_verifier_new pol ks)))"

definition jwt_mount_default :: jwt_mount_state where
  "jwt_mount_default =
     \<lparr>jm_config = None, jm_roles = [], jm_identities = [], jm_replay = [], jm_last_admission_time = 0\<rparr>"

definition jwt_at :: "auth_state \<Rightarrow> auth_scope \<Rightarrow> jwt_mount_state option" where
  "jwt_at st scope =
     Option.bind (map_of (jwt_mounts st) (scope_namespace scope)) (\<lambda>m. map_of m (scope_mount scope))"

definition jwt_state :: "auth_state \<Rightarrow> auth_scope \<Rightarrow> jwt_mount_state" where
  "jwt_state st scope = unwrap_or (jwt_at st scope) jwt_mount_default"

definition put_jwt :: "auth_state \<Rightarrow> auth_scope \<Rightarrow> jwt_mount_state \<Rightarrow> auth_state" where
  "put_jwt st scope jm =
     st\<lparr>jwt_mounts := binsert (scope_namespace scope)
          (binsert (scope_mount scope) jm (unwrap_or (map_of (jwt_mounts st) (scope_namespace scope)) []))
          (jwt_mounts st)\<rparr>"

text \<open>
  An assertion is admitted once while it is unexpired. Records that have expired are dropped, and
  the watermark refuses a clock that runs back behind the last admission.
\<close>

definition admit_external_replay ::
  "'x auth_lib_scheme \<Rightarrow> auth_state \<Rightarrow> auth_scope \<Rightarrow> byte list \<Rightarrow> nat \<Rightarrow> nat \<Rightarrow> auth_state \<times> (auth_error + unit)" where
  "admit_external_replay lib st scope fingerprint expires_at now =
     (let jm = jwt_state st scope;
          st = put_jwt st scope jm in
      if expires_at \<le> now \<or> now < jm_last_admission_time jm then (st, Inl denied)
      else
        let key = base64url_encode lib fingerprint in
        if is_some_and (map_of (jm_replay jm) key) (\<lambda>expiry. now < expiry) then (st, Inl denied)
        else if MAX_EXTERNAL_REPLAY_ENTRIES \<le> length (filter (\<lambda>e. now < snd e) (jm_replay jm))
        then (st, Inl (auth_err 503 ''external replay registry capacity exhausted''))
        else
          (put_jwt st scope
             (jm\<lparr>jm_replay := binsert key expires_at (bretain (\<lambda>_ expiry. now < expiry) (jm_replay jm)),
                 jm_last_admission_time := now\<rparr>), Inr ()))"

definition jwt_role_admits :: "jwt_role \<Rightarrow> verified_principal \<Rightarrow> string \<Rightarrow> bool" where
  "jwt_role_admits r vp namespace =
     (unwrap_or (vp_namespace vp) [] = namespace \<and> subset (jr_bound_groups r) (vp_groups vp) \<and>
      \<not> is_some_and (jr_bound_subject r) (\<lambda>subject. subject \<noteq> vp_subject vp) \<and>
      \<not> (jr_bound_audiences r \<noteq> [] \<and> disjoint (jr_bound_audiences r) (vp_audiences vp)) \<and>
      ''root'' \<notin> set (jr_policies r))"

definition jwt_login_token ::
  "'x auth_lib_scheme \<Rightarrow> entropy \<Rightarrow> auth_scope \<Rightarrow> jwt_role \<Rightarrow> verified_principal \<Rightarrow> nat \<Rightarrow> auth_error + token" where
  "jwt_login_token lib fill scope r vp now =
     (let remaining = saturating_sub64 (vp_expires_at vp) now in
      if remaining = 0 then Inl denied
      else
        let ttl = max (min (jr_token_ttl r) remaining) 1;
            max_ttl = max (min (jr_token_max_ttl r) remaining) ttl in
        rbind (random_id lib fill 0 ''a.'') (\<lambda>acc.
        rbind (checked_expiry now ttl) (\<lambda>expires_at.
        rbind (checked_expiry now max_ttl) (\<lambda>max_expires_at.
        Inr \<lparr>tok_accessor = acc, tok_namespace = scope_namespace scope, tok_policies = jr_policies r,
             tok_root = False, tok_parent = None, tok_created_at = now, tok_expires_at = Some expires_at,
             tok_max_expires_at = Some max_expires_at, tok_period = 0, tok_renewable = True,
             tok_uses_remaining = unlimited_zero (jr_token_num_uses r),
             tok_display_name = ''jwt-'' @ take 16 (token_hash lib (vp_subject vp)),
             tok_auth_mount = Some (scope_mount scope), tok_auth_origin_known = True\<rparr>))))"

definition jwt_login ::
  "'x auth_lib_scheme \<Rightarrow> entropy \<Rightarrow> auth_state \<Rightarrow> auth_scope \<Rightarrow> string \<Rightarrow> json \<Rightarrow> nat \<Rightarrow>
   auth_state \<times> (auth_error + auth_response)" where
  "jwt_login lib fill st scope method body now =
     sbind (st,
       if \<not> post_method method then Inl method_not_allowed
       else
         rbind (auth_reject_unknown body [''role'', ''jwt'']) (\<lambda>_.
         rbind (string_field body ''role'') (\<lambda>role_name.
         if \<not> valid_name role_name then Inl (auth_bad ''invalid JWT role name'')
         else
           rbind (string_field body ''jwt'') (\<lambda>jwt.
           rbind (ok_or (Option.bind (jwt_at st scope) jm_config) (auth_err 503 ''JWT auth is not configured'')) (\<lambda>config.
           rbind (ok_or (Option.bind (jwt_at st scope) (\<lambda>jm. map_of (jm_roles jm) role_name)) denied) (\<lambda>r.
           rbind (config_verifier config) (\<lambda>verifier.
           rbind (map_err (\<lambda>_. denied) (jwt_verify lib verifier jwt now)) (\<lambda>vp.
           if \<not> jwt_role_admits r vp (scope_namespace scope) then Inl denied
           else
             rbind (jwt_login_token lib fill scope r vp now) (\<lambda>tok.
             rbind (prepare_issue lib fill tok now) (\<lambda>issued.
             Inr (vp, issued)))))))))))
     (\<lambda>st (vp, tid, tok, resp).
       sbind (admit_external_replay lib st scope (replay_fingerprint lib vp) (vp_expires_at vp) now) (\<lambda>st _.
       let jm = jwt_state st scope;
           identity = \<lparr>ei_issuer = vp_issuer vp, ei_subject = vp_subject vp, ei_namespace = scope_namespace scope,
                       ei_groups = vp_groups vp, ei_last_seen = now\<rparr>;
           identity_key = token_hash lib (vp_issuer vp @ [CHR 0x00] @ vp_subject vp) in
       (put_token (put_jwt st scope (jm\<lparr>jm_identities := binsert identity_key identity (jm_identities jm)\<rparr>)) tid tok,
        Inr resp)))"

text \<open>The keys of a configuration, in request order.\<close>

primrec jwt_config_keys ::
  "'x auth_lib_scheme \<Rightarrow> json list \<Rightarrow> (string, jwt_key_record) bmap \<Rightarrow> auth_error + (string, jwt_key_record) bmap" where
  "jwt_config_keys lib [] ks = Inr ks"
| "jwt_config_keys lib (v # vs) ks =
     rbind (auth_reject_unknown v [''kid'', ''algorithm'', ''key_base64'']) (\<lambda>_.
     rbind (string_field v ''kid'') (\<lambda>kid.
     if kid = [] \<or> 1024 < length kid \<or> has_control kid \<or> bcontains ks kid
     then Inl (auth_bad ''invalid or duplicate JWT key id'')
     else
       rbind (string_field v ''algorithm'') (\<lambda>alg.
       if alg \<noteq> ''EdDSA'' \<and> alg \<noteq> ''ES256'' then Inl (auth_bad ''unsupported JWT algorithm'')
       else
         rbind (string_field v ''key_base64'') (\<lambda>encoded.
         rbind (ok_or (base64url_decode lib encoded) (auth_bad ''invalid JWT key encoding'')) (\<lambda>bytes.
         if bytes = [] \<or> 16 * 1024 < length bytes then Inl (auth_bad ''JWT key is outside bounds'')
         else jwt_config_keys lib vs (binsert kid \<lparr>jk_algorithm = alg, jk_bytes = bytes\<rparr> ks))))))"

definition jwt_new_config :: "'x auth_lib_scheme \<Rightarrow> string \<Rightarrow> json \<Rightarrow> auth_error + jwt_config" where
  "jwt_new_config lib namespace body =
     rbind (auth_reject_unknown body
       [''issuer'', ''audiences'', ''required_namespace'', ''clock_skew_seconds'',
        ''maximum_token_lifetime_seconds'', ''keys'']) (\<lambda>_.
     rbind (string_field body ''issuer'') (\<lambda>issuer.
     rbind (claim_values body ''audiences'') (\<lambda>audiences.
     rbind (rtranspose (\<lambda>v. ok_or (as_str v) (auth_bad ''required_namespace must be a string''))
              (json_get body ''required_namespace'')) (\<lambda>required_namespace.
     if is_some_and required_namespace (\<lambda>v. v \<noteq> namespace)
     then Inl (auth_bad ''required_namespace must equal the configured auth namespace'')
     else
       rbind (number_field body ''clock_skew_seconds'' 30) (\<lambda>skew.
       rbind (number_field body ''maximum_token_lifetime_seconds'' 3600) (\<lambda>lifetime.
       rbind (ok_or (Option.bind (json_get body ''keys'') as_array) (auth_bad ''JWT keys must be an array'')) (\<lambda>key_values.
       if key_values = [] \<or> 64 < length key_values then Inl (auth_bad ''JWT key count is outside bounds'')
       else
         rbind (jwt_config_keys lib key_values []) (\<lambda>ks.
         let config = \<lparr>jc_issuer = issuer, jc_audiences = audiences, jc_required_namespace = required_namespace,
                       jc_clock_skew_seconds = skew, jc_maximum_token_lifetime_seconds = lifetime, jc_keys = ks\<rparr> in
         rbind (config_verifier config) (\<lambda>_. Inr config)))))))))"

definition sudo_permission ::
  "auth_state \<Rightarrow> principal option \<Rightarrow> string \<Rightarrow> string \<Rightarrow> nat \<Rightarrow> auth_error + principal" where
  "sudo_permission st pr namespace path now =
     rbind (permission st pr namespace path ''update'' now) (\<lambda>actor.
     rbind (authorize_request st actor namespace path ''sudo'' now) (\<lambda>_. Inr actor))"

definition jwt_config_info :: "jwt_config \<Rightarrow> json" where
  "jwt_config_info config =
     json_object
       [(''issuer'', JStr (jc_issuer config)), (''audiences'', json_strings (jc_audiences config)),
        (''required_namespace'', case jc_required_namespace config of None \<Rightarrow> JNull | Some v \<Rightarrow> JStr v),
        (''clock_skew_seconds'', json_u64 (jc_clock_skew_seconds config)),
        (''maximum_token_lifetime_seconds'', json_u64 (jc_maximum_token_lifetime_seconds config)),
        (''keys'', JArr (map (\<lambda>e. json_object [(''kid'', JStr (fst e)), (''algorithm'', JStr (jk_algorithm (snd e)))])
                   (jc_keys config)))]"

definition jwt_config_route ::
  "'x auth_lib_scheme \<Rightarrow> auth_state \<Rightarrow> principal option \<Rightarrow> auth_scope \<Rightarrow> string \<Rightarrow> json \<Rightarrow> nat \<Rightarrow>
   auth_state \<times> (auth_error + auth_response)" where
  "jwt_config_route lib st pr scope method body now =
     (let path = ''auth/'' @ scope_mount scope @ ''/config'' in
      if method = ''GET'' then
        (st, rbind (permission st pr (scope_namespace scope) path ''read'' now) (\<lambda>_.
             rbind (auth_reject_unknown body []) (\<lambda>_.
             rbind (ok_or (Option.bind (jwt_at st scope) jm_config) (auth_err 404 ''JWT auth is not configured''))
               (\<lambda>config. Inr (auth_data (jwt_config_info config) False)))))
      else if post_method method then
        sbind (st, sudo_permission st pr (scope_namespace scope) path now) (\<lambda>st _.
        sbind (st, jwt_new_config lib (scope_namespace scope) body) (\<lambda>st config.
        (put_jwt st scope ((jwt_state st scope)\<lparr>jm_config := Some config\<rparr>),
         Inr (auth_empty (Option.bind (jwt_at st scope) jm_config \<noteq> Some config)))))
      else (st, Inl method_not_allowed))"

definition jwt_role_info :: "jwt_role \<Rightarrow> json" where
  "jwt_role_info r =
     json_object
       [(''bound_groups'', json_strings (jr_bound_groups r)),
        (''bound_subject'', case jr_bound_subject r of None \<Rightarrow> JNull | Some v \<Rightarrow> JStr v),
        (''bound_audiences'', json_strings (jr_bound_audiences r)), (''policies'', json_strings (jr_policies r)),
        (''token_ttl'', json_u64 (jr_token_ttl r)), (''token_max_ttl'', json_u64 (jr_token_max_ttl r)),
        (''token_num_uses'', json_u64 (jr_token_num_uses r))]"

definition jwt_new_role :: "principal \<Rightarrow> json \<Rightarrow> auth_error + jwt_role" where
  "jwt_new_role actor body =
     rbind (auth_reject_unknown body
       [''bound_groups'', ''bound_subject'', ''bound_audiences'', ''policies'', ''token_policies'', ''token_ttl'',
        ''token_max_ttl'', ''token_num_uses'']) (\<lambda>_.
     rbind (claim_values body ''bound_groups'') (\<lambda>groups.
     rbind (claim_values body ''bound_audiences'') (\<lambda>audiences.
     rbind (rtranspose (\<lambda>v. ok_or (opt_filter (\<lambda>s. s \<noteq> [] \<and> length s \<le> 1024 \<and> \<not> has_control s) (as_str v))
                               (auth_bad ''invalid bound subject'')) (json_get body ''bound_subject'')) (\<lambda>subject.
     rbind (reject_alias_pair body ''policies'' ''token_policies'') (\<lambda>_.
     rbind (policies_field body (alias_field body ''policies'' ''token_policies'') [] True) (\<lambda>pols.
     rbind (validate_assignment actor pols) (\<lambda>_.
     rbind (duration_field body ''token_ttl'' DEFAULT_TTL) (\<lambda>ttl.
     rbind (duration_field body ''token_max_ttl'' ttl) (\<lambda>max_ttl.
     rbind (number_field body ''token_num_uses'' 0) (\<lambda>num_uses.
     if ttl = 0 \<or> MAX_TTL < ttl \<or> max_ttl < ttl \<or> MAX_TTL < max_ttl
     then Inl (auth_bad ''JWT role token TTL is outside bounds'')
     else Inr \<lparr>jr_bound_groups = groups, jr_bound_subject = subject, jr_bound_audiences = audiences, jr_policies = pols,
               jr_token_ttl = ttl, jr_token_max_ttl = max_ttl, jr_token_num_uses = num_uses\<rparr>))))))))))"

definition jwt_role_route ::
  "auth_state \<Rightarrow> principal option \<Rightarrow> auth_scope \<Rightarrow> string \<Rightarrow> string \<Rightarrow> json \<Rightarrow> nat \<Rightarrow> auth_state \<times> (auth_error + auth_response)" where
  "jwt_role_route st pr scope method name body now =
     (let path = ''auth/'' @ scope_mount scope @ ''/role/'' @ name in
      if method = ''GET'' then
        (st, rbind (permission st pr (scope_namespace scope) path ''read'' now) (\<lambda>_.
             rbind (auth_reject_unknown body []) (\<lambda>_.
             rbind (ok_or (Option.bind (jwt_at st scope) (\<lambda>jm. map_of (jm_roles jm) name))
                      (auth_err 404 ''JWT role not found'')) (\<lambda>r.
             Inr (auth_data (jwt_role_info r) False)))))
      else if post_method method then
        sbind (st, sudo_permission st pr (scope_namespace scope) path now) (\<lambda>st actor.
        sbind (st, jwt_new_role actor body) (\<lambda>st r.
        let jm = jwt_state st scope in
        (put_jwt st scope (jm\<lparr>jm_roles := binsert name r (jm_roles jm)\<rparr>),
         Inr (auth_empty (map_of (jm_roles jm) name \<noteq> Some r)))))
      else if method = ''DELETE'' then
        sbind (st, sudo_permission st pr (scope_namespace scope) path now) (\<lambda>st _.
        sbind (st, auth_reject_unknown body []) (\<lambda>st _.
        let jm = jwt_state st scope in
        (put_jwt st scope (jm\<lparr>jm_roles := bremove name (jm_roles jm)\<rparr>),
         if bcontains (jm_roles jm) name then Inr (auth_empty True)
         else Inl (auth_err 404 ''JWT role not found''))))
      else (st, Inl method_not_allowed))"

definition jwt_route ::
  "'x auth_lib_scheme \<Rightarrow> entropy \<Rightarrow> auth_state \<Rightarrow> principal option \<Rightarrow> auth_scope \<Rightarrow> string \<Rightarrow> string \<Rightarrow> json \<Rightarrow> nat \<Rightarrow>
   auth_state \<times> (auth_error + auth_response)" where
  "jwt_route lib fill st pr scope method path body now =
     (let base = ''auth/'' @ scope_mount scope in
      if path = base @ ''/config'' then jwt_config_route lib st pr scope method body now
      else if path = base @ ''/login'' then jwt_login lib fill st scope method body now
      else if path = base @ ''/role'' then
        (st, if method \<noteq> ''GET'' \<and> method \<noteq> ''LIST'' then Inl method_not_allowed
             else
               rbind (permission st pr (scope_namespace scope) path ''list'' now) (\<lambda>_.
               rbind (auth_reject_unknown body []) (\<lambda>_.
               Inr (auth_data (json_object [(''keys'',
                 json_strings (case jwt_at st scope of None \<Rightarrow> [] | Some jm \<Rightarrow> map fst (jm_roles jm)))]) False))))
      else
        case strip_prefix (base @ ''/role/'') path of
          Some name \<Rightarrow>
            if \<not> valid_name name then (st, Inl (auth_bad ''invalid JWT role name''))
            else jwt_role_route st pr scope method name body now
        | None \<Rightarrow> (st, Inl (auth_err 404 ''JWT auth path is not implemented'')))"

section \<open>Authentication mounts\<close>

definition auth_mount_new :: "string \<Rightarrow> string \<Rightarrow> auth_mount" where
  "auth_mount_new k description = \<lparr>am_kind = k, am_description = description\<rparr>"

definition auth_mount_descriptor :: "auth_mount \<Rightarrow> json" where
  "auth_mount_descriptor am =
     json_object
       [(''type'', JStr (am_kind am)), (''description'', JStr (am_description am)), (''local'', JBool False),
        (''seal_wrap'', JBool False), (''options'', json_object []),
        (''config'', json_object [(''default_lease_ttl'', json_u64 0), (''max_lease_ttl'', json_u64 0),
                                  (''force_no_cache'', JBool False)])]"

definition legacy_auth_mounts :: "(string, auth_mount) bmap" where
  "legacy_auth_mounts =
     fold (\<lambda>(k, v). binsert k v)
       [(''token'', auth_mount_new ''token'' ''token based credentials''),
        (''userpass'', auth_mount_new ''userpass'' ''username and password credentials''),
        (''approle'', auth_mount_new ''approle'' ''machine role credentials'')] []"

definition effective_auth_mounts :: "auth_state \<Rightarrow> string \<Rightarrow> (string, auth_mount) bmap" where
  "effective_auth_mounts st namespace = unwrap_or (map_of (auth_mounts st) namespace) legacy_auth_mounts"

definition mount_tokens :: "auth_state \<Rightarrow> auth_scope \<Rightarrow> string list" where
  "mount_tokens st scope =
     map fst (filter (\<lambda>e. tok_namespace (snd e) = scope_namespace scope \<and> \<not> tok_root (snd e) \<and>
       (tok_auth_mount (snd e) = Some (scope_mount scope) \<or>
        (\<not> tok_auth_origin_known (snd e) \<and> (scope_mount scope = ''userpass'' \<or> scope_mount scope = ''approle''))))
       (tokens st))"

text \<open>Disabling a mount drops its credentials and revokes the tokens that came through it.\<close>

definition disable_auth_mount :: "auth_state \<Rightarrow> auth_scope \<Rightarrow> auth_state" where
  "disable_auth_mount st scope =
     (let st = update_users st scope (\<lambda>_. []);
          st = update_roles st scope (\<lambda>_. []);
          st = (case map_of (jwt_mounts st) (scope_namespace scope) of
                  None \<Rightarrow> st
                | Some ms \<Rightarrow> st\<lparr>jwt_mounts := binsert (scope_namespace scope) (bremove (scope_mount scope) ms) (jwt_mounts st)\<rparr>)
      in fold (\<lambda>tid st. revoke st tid) (mount_tokens st scope) st)"

definition auth_mount_create ::
  "auth_state \<Rightarrow> string \<Rightarrow> string \<Rightarrow> json \<Rightarrow> auth_state \<times> (auth_error + auth_response)" where
  "auth_mount_create st namespace mount body =
     sbind (st, auth_reject_unknown body [''type'', ''description'']) (\<lambda>st _.
     sbind (st, ok_or (Option.bind (json_get body ''type'') as_str) (auth_bad ''auth mount type is required'')) (\<lambda>st k.
     if k \<noteq> ''userpass'' \<and> k \<noteq> ''approle'' \<and> k \<noteq> ''jwt''
     then (st, Inl (auth_err 501 ''auth method type is not implemented''))
     else
       sbind (st, rtranspose (\<lambda>v. ok_or (as_str v) (auth_bad ''description must be a string''))
                    (json_get body ''description'')) (\<lambda>st description.
       let description = unwrap_or description [] in
       if 512 < length description \<or> has_control description
       then (st, Inl (auth_bad ''invalid auth mount description''))
       else
         let entries = effective_auth_mounts st namespace in
         if mount = ''token'' \<or> is_some_and (map_of entries mount) (\<lambda>old. am_kind old \<noteq> k)
         then (st, Inl (auth_bad ''auth mount is already in use by another method''))
         else if list_ex (\<lambda>e. fst e \<noteq> mount \<and>
                   (starts_with (fst e) (mount @ ''/'') \<or> starts_with mount (fst e @ ''/''))) entries
         then (st, Inl (auth_bad ''auth mount paths cannot overlap''))
         else
           let next = auth_mount_new k description in
           (st\<lparr>auth_mounts := binsert namespace (binsert mount next entries) (auth_mounts st)\<rparr>,
            Inr (auth_empty (map_of entries mount \<noteq> Some next))))))"

definition auth_mount_delete ::
  "auth_state \<Rightarrow> string \<Rightarrow> string \<Rightarrow> json \<Rightarrow> auth_state \<times> (auth_error + auth_response)" where
  "auth_mount_delete st namespace mount body =
     sbind (st, auth_reject_unknown body []) (\<lambda>st _.
     if mount = ''token'' then (st, Inl (auth_bad ''the built-in token auth method cannot be disabled''))
     else
       let entries = effective_auth_mounts st namespace;
           st = st\<lparr>auth_mounts := binsert namespace (bremove mount entries) (auth_mounts st)\<rparr> in
       if bcontains entries mount
       then (disable_auth_mount st \<lparr>scope_namespace = namespace, scope_mount = mount\<rparr>, Inr (auth_empty True))
       else (st, Inl (auth_err 404 ''auth mount not found'')))"

definition auth_mount_route ::
  "auth_state \<Rightarrow> principal option \<Rightarrow> string \<Rightarrow> string \<Rightarrow> string \<Rightarrow> json \<Rightarrow> nat \<Rightarrow> auth_state \<times> (auth_error + auth_response)" where
  "auth_mount_route st pr namespace method path body now =
     sbind (st, ok_or (strip_prefix ''sys/auth'' path) (auth_bad ''invalid auth mount path'')) (\<lambda>st suff.
     if suff = [] \<or> suff = ''/'' then
       (st, if method \<noteq> ''GET'' \<and> method \<noteq> ''LIST'' then Inl method_not_allowed
            else
              rbind (permission st pr namespace ''sys/auth'' ''read'' now) (\<lambda>_.
              rbind (auth_reject_unknown body []) (\<lambda>_.
              Inr (auth_data (json_object (map (\<lambda>e. (fst e @ ''/'', auth_mount_descriptor (snd e)))
                (effective_auth_mounts st namespace))) False))))
     else
       let mount = trim_end_matches (trim_start_matches suff (CHR ''/'')) (CHR ''/'') in
       if mount = [] \<or> 256 < length mount \<or> \<not> list_all valid_name (split_on (CHR ''/'') mount)
       then (st, Inl (auth_bad ''auth mount path must contain canonical segments''))
       else
         let route = ''sys/auth/'' @ mount in
         if method = ''GET'' then
           (st, rbind (permission st pr namespace route ''read'' now) (\<lambda>_.
                rbind (auth_reject_unknown body []) (\<lambda>_.
                rbind (ok_or (map_of (effective_auth_mounts st namespace) mount) (auth_err 404 ''auth mount not found''))
                  (\<lambda>am. Inr (auth_data (auth_mount_descriptor am) False)))))
         else if post_method method then
           sbind (st, sudo_permission st pr namespace route now) (\<lambda>st _. auth_mount_create st namespace mount body)
         else if method = ''DELETE'' then
           sbind (st, sudo_permission st pr namespace route now) (\<lambda>st _. auth_mount_delete st namespace mount body)
         else (st, Inl method_not_allowed))"

section \<open>Dispatch\<close>

definition find_auth_mount :: "(string, auth_mount) bmap \<Rightarrow> string \<Rightarrow> (string \<times> auth_mount \<times> string) option" where
  "find_auth_mount entries auth_path =
     map_option (\<lambda>e. (fst e, snd e, drop (length (fst e) + 1) auth_path))
       (find (\<lambda>e. starts_with auth_path (fst e @ ''/'')) entries)"

definition credential_route ::
  "'x auth_lib_scheme \<Rightarrow> entropy \<Rightarrow> auth_state \<Rightarrow> principal option \<Rightarrow> string \<Rightarrow> string \<Rightarrow> string \<Rightarrow> string \<Rightarrow> json \<Rightarrow> nat \<Rightarrow>
   auth_state \<times> (auth_error + auth_response)" where
  "credential_route lib fill st pr namespace method path auth_path body now =
     sbind (st, ok_or (find_auth_mount (effective_auth_mounts st namespace) auth_path) (auth_err 404 ''auth mount not found''))
     (\<lambda>st (mount, entry, suff).
     let scope = \<lparr>scope_namespace = namespace, scope_mount = mount\<rparr>; k = am_kind entry in
     if k = ''token'' \<and> mount = ''token'' then token_route lib fill st pr namespace method path body now
     else if k = ''userpass'' \<and> starts_with suff ''login/'' then
       login_userpass lib fill st scope method (drop 6 suff) body now
     else if k = ''userpass'' \<and> (suff = ''users'' \<or> starts_with suff ''users/'') then
       user_route lib fill st pr scope method path body now
     else if k = ''approle'' \<and> suff = ''login'' then login_approle lib fill st scope method body now
     else if k = ''approle'' \<and> suff = ''tidy/secret-id'' then tidy_secret_ids st pr scope method path body now
     else if k = ''approle'' \<and> (suff = ''role'' \<or> starts_with suff ''role/'') then
       role_route lib fill st pr scope method path body now
     else if k = ''jwt'' then jwt_route lib fill st pr scope method path body now
     else (st, Inl (auth_err 404 ''unsupported auth route'')))"

definition auth_handle ::
  "'x auth_lib_scheme \<Rightarrow> entropy \<Rightarrow> auth_state \<Rightarrow> principal option \<Rightarrow> string \<Rightarrow> string \<Rightarrow> string \<Rightarrow> json \<Rightarrow> nat \<Rightarrow>
   auth_state \<times> (auth_error + auth_response option)" where
  "auth_handle lib fill st pr namespace method path body now =
     sbind (st, validate_namespace namespace) (\<lambda>st _.
     sbind (st, validate_path path False) (\<lambda>st _.
     if path = ''sys/auth'' \<or> starts_with path ''sys/auth/'' then
       sbind (auth_mount_route st pr namespace method path body now) (\<lambda>st resp. (st, Inr (Some resp)))
     else
       case strip_prefix ''auth/'' path of
         Some auth_path \<Rightarrow>
           sbind (credential_route lib fill st pr namespace method path auth_path body now) (\<lambda>st resp. (st, Inr (Some resp)))
       | None \<Rightarrow>
           if path = ''sys/policies/acl'' \<or> starts_with path ''sys/policies/acl/'' \<or> path = ''sys/policy''
              \<or> starts_with path ''sys/policy/''
           then sbind (policy_route lib st pr namespace method path body now) (\<lambda>st resp. (st, Inr (Some resp)))
           else (st, Inr None)))"

end
