(* ===== verification/Acl_Correct.thy ===== *)
theory Acl_Correct
  imports Auth
begin

text \<open>
  The language of the path patterns of access rules.
\<close>

section \<open>Paths\<close>

lemma match_parts_exact:
  assumes "''+'' \<notin> set ps" "length ps = length xs"
  shows "match_parts False ps xs \<longleftrightarrow> ps = xs"
  using assms by (induction "False" ps xs rule: match_parts.induct) auto

lemma split_on_prefix:
  "prefix p s \<longleftrightarrow>
     (\<exists>q rest. split_on c s = butlast (split_on c p) @ q # rest \<and> prefix (last (split_on c p)) q)"
proof (induction p arbitrary: s)
  case Nil
  then show ?case by (cases "split_on c s") auto
next
  case (Cons x p)
  obtain w ws where p: "split_on c p = w # ws" by (cases "split_on c p") auto
  show ?case
  proof (cases s)
    case Nil
    show ?thesis using p by (cases ws) (auto simp: Nil)
  next
    case s: (Cons y t)
    obtain v vs where t: "split_on c t = v # vs" by (cases "split_on c t") auto
    show ?thesis
    proof (cases "x = y")
      case False
      then show ?thesis using p t s by (cases ws) auto
    next
      case True
      then show ?thesis using Cons.IH [of t] p t s by (cases ws) auto
    qed
  qed
qed

lemma match_parts_star:
  assumes "''+'' \<notin> set ps" "ps \<noteq> []"
  shows "match_parts True ps xs \<longleftrightarrow> (\<exists>q rest. xs = butlast ps @ q # rest \<and> prefix (last ps) q)"
  using assms by (induction "True" ps xs rule: match_parts.induct) auto

lemma path_matches_star:
  assumes "''+'' \<notin> set (split_on (CHR ''/'') p)"
  shows "path_matches (p @ ''*'') path \<longleftrightarrow> prefix p path"
proof -
  let ?ps = "split_on (CHR ''/'') p" and ?xs = "split_on (CHR ''/'') path"
  have m: "match_parts True ?ps ?xs \<longleftrightarrow> prefix p path"
    using match_parts_star [OF assms split_on_not_Nil] split_on_prefix [of p path "CHR ''/''"] by simp
  have l: "length ?ps \<le> length ?xs" if "prefix p path"
    using split_on_prefix [of p path "CHR ''/''"] that by auto
  have s: "strip_suffix ''*'' (p @ ''*'') = Some p" by (simp only: strip_suffix_Some_iff)
  have e: "ends_with (p @ ''*'') ''*'' = True" by (simp add: suffix_def)
  have "path_matches (p @ ''*'') path \<longleftrightarrow> \<not> length ?xs < length ?ps \<and> match_parts True ?ps ?xs"
    unfolding path_matches_def Let_def s unwrap_or_simps e by simp
  then show ?thesis using m l by auto
qed

lemma path_matches_exact:
  assumes "''+'' \<notin> set (split_on (CHR ''/'') p)" "\<not> ends_with p ''*''"
  shows "path_matches p path \<longleftrightarrow> path = p"
proof -
  have s: "strip_suffix ''*'' p = None" using assms(2) by (cases "strip_suffix ''*'' p") (auto simp: suffix_def)
  have e: "ends_with p ''*'' = False" using assms(2) by simp
  show ?thesis
    unfolding path_matches_def Let_def s unwrap_or_simps e
    using match_parts_exact [OF assms(1)] by (auto simp: split_on_inj)
qed

definition segment_matches :: "string \<Rightarrow> string \<Rightarrow> bool" where
  "segment_matches seg actual = (if seg = ''+'' then actual \<noteq> [] else seg = actual)"

lemma match_parts_all2:
  "length ps = length xs \<Longrightarrow> match_parts False ps xs \<longleftrightarrow> list_all2 segment_matches ps xs"
  by (induction "False" ps xs rule: match_parts.induct) (auto simp: segment_matches_def)

lemma match_parts_star_all2:
  assumes "ps \<noteq> []"
  shows "match_parts True ps xs \<longleftrightarrow>
    (\<exists>front q rest. xs = front @ q # rest \<and> list_all2 segment_matches (butlast ps) front \<and>
       (if last ps = ''+'' then q \<noteq> [] else prefix (last ps) q))"
  using assms
proof (induction "True" ps xs rule: match_parts.induct)
  case (3 segment segments actual actuals)
  show ?case
  proof (cases "segments = []")
    case False
    have "(\<exists>front q rest. actual # actuals = front @ q # rest \<and>
          list_all2 segment_matches (butlast (segment # segments)) front \<and>
          (if last (segment # segments) = ''+'' then q \<noteq> [] else prefix (last (segment # segments)) q)) \<longleftrightarrow>
        segment_matches segment actual \<and>
        (\<exists>front q rest. actuals = front @ q # rest \<and> list_all2 segment_matches (butlast segments) front \<and>
          (if last segments = ''+'' then q \<noteq> [] else prefix (last segments) q))"
      using False by (auto simp: list_all2_Cons1 Cons_eq_append_conv)
    then show ?thesis using 3 False by (auto simp: segment_matches_def)
  qed (auto simp: Cons_eq_append_conv)
qed auto

text \<open>
  C33: The language of access rules. A pattern without a star matches a path segment by segment,
  \<^verbatim>\<open>+\<close> standing for any one nonempty segment. With a terminal star, the segments before
  the last one match so, the last one is a prefix of its counterpart (or any nonempty segment,
  for \<^verbatim>\<open>+\<close>), and whatever follows is free.
\<close>

theorem path_matches_language:
  "path_matches pattern path \<longleftrightarrow>
     (case strip_suffix ''*'' pattern of
        None \<Rightarrow> list_all2 segment_matches (split_on (CHR ''/'') pattern) (split_on (CHR ''/'') path)
      | Some p \<Rightarrow>
          let ps = split_on (CHR ''/'') p in
          \<exists>front q rest. split_on (CHR ''/'') path = front @ q # rest \<and> list_all2 segment_matches (butlast ps) front \<and>
            (if last ps = ''+'' then q \<noteq> [] else prefix (last ps) q))"
proof (cases "strip_suffix ''*'' pattern")
  case None
  then have e: "ends_with pattern ''*'' = False" by (auto simp: suffix_def) (metis option.distinct(1) strip_suffix_Some_iff)
  let ?ps = "split_on (CHR ''/'') pattern" and ?xs = "split_on (CHR ''/'') path"
  have "path_matches pattern path \<longleftrightarrow> length ?ps = length ?xs \<and> match_parts False ?ps ?xs"
    unfolding path_matches_def Let_def None unwrap_or_simps e by auto
  then show ?thesis
    unfolding None option.case using match_parts_all2 [of ?ps ?xs] list_all2_lengthD [of segment_matches ?ps ?xs] by blast
next
  case (Some p)
  have e: "ends_with pattern ''*'' = True" using strip_suffix_Some_iff [THEN iffD1, OF Some] by (simp add: suffix_def)
  let ?ps = "split_on (CHR ''/'') p" and ?xs = "split_on (CHR ''/'') path"
  have pm: "path_matches pattern path \<longleftrightarrow> \<not> length ?xs < length ?ps \<and> match_parts True ?ps ?xs"
    unfolding path_matches_def Let_def Some unwrap_or_simps e by simp
  have "\<not> length ?xs < length ?ps" if "match_parts True ?ps ?xs"
    using that unfolding match_parts_star_all2 [OF split_on_not_Nil]
    by (auto dest!: list_all2_lengthD)
  then show ?thesis unfolding pm Some option.case Let_def using match_parts_star_all2 [OF split_on_not_Nil] by blast
qed

end
