(* ===== verification/Auth_Correct.thy ===== *)
theory Auth_Correct
  imports Acl_Correct
begin

text \<open>
  Correctness of authorization and of the token table: what an authorization decision means, when a
  token is live, what revocation removes, how far a renewal reaches, and what a created token may
  have.
\<close>

section \<open>Authorization\<close>

text \<open>The rules that speak about a path, among the policies of a token.\<close>

definition applicable :: "auth_state \<Rightarrow> string \<Rightarrow> string list \<Rightarrow> string \<Rightarrow> rule \<Rightarrow> bool" where
  "applicable st ns names path r \<longleftrightarrow>
     (\<exists>name \<in> set names. \<exists>pol. namespace_policy st ns name = Some pol \<and> r \<in> set (policy_rules pol) \<and>
        path_matches (rule_path r) path)"

lemma check_rules_iff:
  "check_rules path cap rs granted =
     (if \<exists>r \<in> set rs. path_matches (rule_path r) path \<and> ''deny'' \<in> set (rule_capabilities r) then Inl denied
      else Inr (granted \<or> (\<exists>r \<in> set rs. path_matches (rule_path r) path \<and> cap \<in> set (rule_capabilities r))))"
  by (induction rs arbitrary: granted) auto

lemma applicable_Nil [simp]: "\<not> applicable st ns [] path r"
  by (simp add: applicable_def)

lemma applicable_Cons:
  "applicable st ns (name # names) path r \<longleftrightarrow>
     (\<exists>pol. namespace_policy st ns name = Some pol \<and> r \<in> set (policy_rules pol) \<and> path_matches (rule_path r) path) \<or>
     applicable st ns names path r"
  by (auto simp: applicable_def)

lemma check_policies_iff:
  "check_policies st ns path cap names granted =
     (if \<exists>r. applicable st ns names path r \<and> ''deny'' \<in> set (rule_capabilities r) then Inl denied
      else Inr (granted \<or> (\<exists>r. applicable st ns names path r \<and> cap \<in> set (rule_capabilities r)) \<or>
             (''default'' \<in> set names \<and> namespace_policy st ns ''default'' = None \<and> default_grants path cap)))"
proof (induction names arbitrary: granted)
  case (Cons name names)
  show ?case
  proof (cases "namespace_policy st ns name")
    case None
    then show ?thesis using Cons by (auto simp: applicable_Cons)
  next
    case (Some pol)
    then show ?thesis
      by (simp add: check_rules_iff Cons applicable_Cons) (use Some in auto)
  qed
qed simp

text \<open>
  C27: The authorization decision. A request is allowed exactly if its path is canonical, the
  capability is one that can be asked for, and the token behind the principal is live, has the
  principal's accessor and belongs to the namespace, or to a root token anywhere; and unless the
  token is root, no applicable rule of any of its policies denies, and some applicable rule, or the
  built-in default policy where the namespace does not redefine it, grants the capability. The
  order of policies and rules does not matter.
\<close>

theorem authorize_iff:
  "authorize_request st pr ns path cap now = Inr () \<longleftrightarrow>
     validate_path path False = Inr () \<and> cap \<in> set CAPABILITIES - {''deny''} \<and>
     (\<exists>tok. active_token st (pr_digest pr) now False = Inr tok \<and> validate_namespace ns = Inr () \<and>
        tok_accessor tok = tok_accessor (pr_token pr) \<and> (tok_root tok \<or> tok_namespace tok = ns) \<and>
        (tok_root tok \<or>
         (\<nexists>r. applicable st ns (tok_policies tok) path r \<and> ''deny'' \<in> set (rule_capabilities r)) \<and>
         ((\<exists>r. applicable st ns (tok_policies tok) path r \<and> cap \<in> set (rule_capabilities r)) \<or>
          (''default'' \<in> set (tok_policies tok) \<and> namespace_policy st ns ''default'' = None \<and> default_grants path cap))))"
  unfolding authorize_request_def check_principal_def
  by (auto simp: check_policies_iff if_Inl_Inr_iff)

section \<open>Live tokens\<close>

text \<open>\<open>ancestor toks k a\<close>: token \<open>a\<close> is a proper ancestor of token \<open>k\<close>.\<close>

inductive ancestor :: "(string, token) bmap \<Rightarrow> string \<Rightarrow> string \<Rightarrow> bool" for toks where
  parent: "map_of toks k = Some tok \<Longrightarrow> tok_parent tok = Some a \<Longrightarrow> ancestor toks k a"
| up: "map_of toks k = Some tok \<Longrightarrow> tok_parent tok = Some b \<Longrightarrow> ancestor toks b a \<Longrightarrow> ancestor toks k a"

inductive_cases ancestorE: "ancestor toks k a"

lemma ancestor_iff:
  "map_of toks k = Some tok \<Longrightarrow>
     ancestor toks k a \<longleftrightarrow> (\<exists>p. tok_parent tok = Some p \<and> (p = a \<or> ancestor toks p a))"
  by (auto elim: ancestorE intro: ancestor.intros)





lemma active_token_lookup: "active_token st tid now consume = Inr tok \<Longrightarrow> map_of (tokens st) tid = Some tok"
  by (auto simp: active_token_def split: if_splits)

section \<open>Revocation\<close>

lemma children_of_iff:
  assumes "bmap_ok toks"
  shows "k \<in> set (children_of toks removed) \<longleftrightarrow>
    (\<exists>tok p. map_of toks k = Some tok \<and> tok_parent tok = Some p \<and> p \<in> set removed)"
proof -
  have "is_some_and x (\<lambda>p. p \<in> set removed) \<longleftrightarrow> (\<exists>p. x = Some p \<and> p \<in> set removed)" for x by (cases x) auto
  then show ?thesis using bmap_ok_get_iff [OF assms] by (force simp: children_of_def)
qed

lemma revoke_closure_sound:
  assumes "bmap_ok toks" "k \<in> set (revoke_closure toks removed)"
  shows "k \<in> set removed \<or> (\<exists>r \<in> set removed. ancestor toks k r)"
  using assms
proof (induction toks removed rule: revoke_closure.induct)
  case (1 toks removed)
  let ?next = "fold bset_insert (children_of toks removed) removed"
  show ?case
  proof (cases "list_all (\<lambda>c. c \<in> set removed) (children_of toks removed)")
    case True
    then show ?thesis using "1.prems"(2) by (simp add: revoke_closure.simps [of toks removed])
  next
    case False
    then have "k \<in> set (revoke_closure toks ?next)" using "1.prems"(2) by (simp add: revoke_closure.simps [of toks removed] Let_def)
    from "1.IH" [OF refl False "1.prems"(1) this]
    have "k \<in> set ?next \<or> (\<exists>r \<in> set ?next. ancestor toks k r)" .
    moreover have "r \<in> set removed \<or> (\<exists>p \<in> set removed. ancestor toks r p)" if "r \<in> set ?next" for r
      using that children_of_iff [OF "1.prems"(1)] by (auto simp: fold_bset_insert intro: ancestor.parent)
    moreover have "ancestor toks k p" if "ancestor toks k r" "ancestor toks r p" for r p
      using that by (induction rule: ancestor.induct) (auto intro: ancestor.intros)
    ultimately show ?thesis by blast
  qed
qed

lemma revoke_closure_closed:
  assumes "bmap_ok toks"
  shows "set removed \<subseteq> set (revoke_closure toks removed) \<and>
    set (children_of toks (revoke_closure toks removed)) \<subseteq> set (revoke_closure toks removed)"
  using assms
proof (induction toks removed rule: revoke_closure.induct)
  case (1 toks removed)
  show ?case
  proof (cases "list_all (\<lambda>c. c \<in> set removed) (children_of toks removed)")
    case True
    then show ?thesis by (auto simp: revoke_closure.simps [of toks removed] list_all_iff)
  next
    case False
    then have "revoke_closure toks removed = revoke_closure toks (fold bset_insert (children_of toks removed) removed)"
      by (simp add: revoke_closure.simps [of toks removed] Let_def)
    then show ?thesis using "1.IH" [OF refl False "1.prems"] by (auto simp: fold_bset_insert)
  qed
qed

lemma revoke_closure_complete:
  assumes "bmap_ok toks" "ancestor toks k r" "r \<in> set (revoke_closure toks removed)"
  shows "k \<in> set (revoke_closure toks removed)"
  using assms(2,3)
proof (induction rule: ancestor.induct)
  case (parent k tok a)
  then show ?case using revoke_closure_closed [OF assms(1)] children_of_iff [OF assms(1)] by blast
next
  case (up k tok b a)
  then show ?case using revoke_closure_closed [OF assms(1)] children_of_iff [OF assms(1)] by blast
qed

text \<open>
  C31: Revocation. Revoking a token removes it and all its descendants, however deep, and leaves
  every other token exactly as it was; the loop that collects the descendants ends.
\<close>

theorem revoke_descendants:
  assumes "bmap_ok (tokens st)"
  shows "map_of (tokens (revoke st tid)) k =
    (if k = tid \<or> ancestor (tokens st) k tid then None else map_of (tokens st) k)"
proof -
  have "k \<in> set (revoke_closure (tokens st) [tid]) \<longleftrightarrow> k = tid \<or> ancestor (tokens st) k tid"
    using revoke_closure_sound [OF assms, of k "[tid]"] revoke_closure_complete [OF assms, of k tid "[tid]"]
      revoke_closure_closed [OF assms, of "[tid]"] by auto
  then show ?thesis by (simp add: revoke_def map_of_fold_bremove)
qed

lemma bmap_ok_fold_bremove: "bmap_ok m \<Longrightarrow> bmap_ok (fold bremove ks m)"
  by (induction ks arbitrary: m) simp_all

section \<open>Renewal\<close>

lemma ancestor_limit_bound:
  assumes "ancestor_limit fuel toks parent limit = Some (Inr l)"
  shows "(\<forall>m. limit = Some m \<longrightarrow> (\<exists>n. l = Some n \<and> n \<le> m)) \<and>
    (\<forall>p q tok e. parent = Some p \<longrightarrow> (q = p \<or> ancestor toks p q) \<longrightarrow> map_of toks q = Some tok \<longrightarrow>
       tok_expires_at tok = Some e \<longrightarrow> (\<exists>n. l = Some n \<and> n \<le> e))"
  using assms
proof (induction fuel arbitrary: parent limit)
  case (Suc fuel)
  show ?case
  proof (cases parent)
    case None
    then show ?thesis using Suc.prems by auto
  next
    case (Some p)
    then obtain tok where tok: "map_of toks p = Some tok" using Suc.prems by (auto split: option.splits)
    let ?lim = "case tok_expires_at tok of None \<Rightarrow> limit | Some expiry \<Rightarrow> Some (case limit of None \<Rightarrow> expiry | Some l \<Rightarrow> min l expiry)"
    have r: "ancestor_limit fuel toks (tok_parent tok) ?lim = Some (Inr l)" using Suc.prems Some tok by simp
    note ih = Suc.IH [OF r]
    have lim: "\<exists>n. l = Some n \<and> n \<le> e" if "tok_expires_at tok = Some e" for e
      using ih that by (cases limit) (auto simp: min_le_iff_disj intro: order_trans)
    have lim2: "\<exists>n. l = Some n \<and> n \<le> m" if "limit = Some m" for m
      using ih that by (cases "tok_expires_at tok") (auto intro: order_trans)
    have "\<exists>n. l = Some n \<and> n \<le> e"
      if q: "q = p \<or> ancestor toks p q" "map_of toks q = Some t" "tok_expires_at t = Some e" for q t e
    proof (cases "q = p")
      case True
      then show ?thesis using lim q tok by simp
    next
      case False
      then obtain r where "tok_parent tok = Some r" "q = r \<or> ancestor toks r q" using q(1) ancestor_iff [OF tok] by blast
      then show ?thesis using ih q(2,3) by blast
    qed
    then show ?thesis using lim2 Some by blast
  qed
qed simp

text \<open>After a live token was found, the walk over its ancestors ends within the fuel.\<close>

lemma ancestor_limit_ends:
  assumes "ancestors_live toks now seen parent = Inr ()" and "unseen toks seen < fuel"
  shows "\<exists>l. ancestor_limit fuel toks parent limit = Some (Inr l)"
  using assms
proof (induction toks now seen parent arbitrary: fuel limit rule: ancestors_live.induct)
  case (1 toks now seen parent)
  obtain f where f: "fuel = Suc f" using "1.prems"(2) by (cases fuel) auto
  show ?case
  proof (cases parent)
    case None
    then show ?thesis by (simp add: f)
  next
    case (Some p)
    have "ancestors_live toks now seen (Some p) = Inr ()" using "1.prems"(1) Some by simp
    then obtain tok where p: "p \<notin> set seen" and tok: "map_of toks p = Some tok" "\<not> (expired tok now \<or> tok_uses_remaining tok = Some 0)"
      and rest: "ancestors_live toks now (bset_insert p seen) (tok_parent tok) = Inr ()"
      by (subst (asm) ancestors_live.simps) (auto split: if_splits option.splits)
    have "unseen toks (bset_insert p seen) < unseen toks seen"
      using p map_of_SomeD [OF tok(1)] by (intro unseen_decreases [of _ _ p]) force+
    then have "unseen toks (bset_insert p seen) < f" using "1.prems"(2) f by simp
    from "1.IH" [OF Some p tok rest this] show ?thesis using Some tok f by simp
  qed
qed

lemma unseen_le: "unseen toks seen \<le> length toks"
  by (simp add: unseen_def)

lemma client_error_simps [simp]: "ae_status (auth_bad m) = 400" "ae_status denied = 403" "ae_status (auth_err n m) = n"
  by (simp_all add: auth_bad_def denied_def auth_err_def)

lemma renew_target_error: "renew_target lib st actor ns operation body = Inl e \<Longrightarrow> ae_status e \<in> {400, 403}"
  by (auto simp: renew_target_def target_token_def auth_reject_unknown_def string_field_def rbind_Inl_iff ok_or_def
      split: if_splits option.splits)

lemma active_token_error: "active_token st tid now c = Inl e \<Longrightarrow> e = denied"
proof -
  have "ancestors_live toks now seen parent = Inl e \<Longrightarrow> e = denied" for toks seen parent
    by (induction toks now seen parent rule: ancestors_live.induct)
      (subst (asm) (2) ancestors_live.simps, auto split: if_splits option.splits)
  then show "active_token st tid now c = Inl e \<Longrightarrow> e = denied"
    by (auto simp: active_token_def rbind_Inl_iff split: if_splits)
qed

lemma duration_field_error: "duration_field body field d = Inl e \<Longrightarrow> ae_status e = 400"
  by (auto simp: duration_field_def rbind_Inl_iff ok_or_def split: option.splits)

lemma renewed_expiry_spec:
  "case renewed_expiry tok increment limit now of
     Inl e \<Rightarrow> ae_status e \<in> {400, 403}
   | Inr x \<Rightarrow> tok_renewable tok \<and> now < x \<and> x \<le> now + max (tok_period tok) MAX_TTL \<and>
       (\<forall>m. tok_max_expires_at tok = Some m \<longrightarrow> x \<le> m) \<and> (\<forall>l. limit = Some l \<longrightarrow> x \<le> l)"
proof -
  define ttl where "ttl = (if 0 < tok_period tok then tok_period tok else if increment = 0 then DEFAULT_TTL else min increment MAX_TTL)"
  have ttl: "ttl \<le> max (tok_period tok) MAX_TTL"
    by (auto simp: ttl_def DEFAULT_TTL_def MAX_TTL_def)
  have b: "opt_min (opt_min (now + ttl) m) l \<le> now + max (tok_period tok) MAX_TTL" for m l
    using ttl by (auto simp: opt_min_def split: option.splits)
  have c: "opt_min (opt_min n (Some m)) l \<le> m" "opt_min n (Some m) \<le> m" for n m l
    by (auto simp: opt_min_def split: option.splits)
  show ?thesis
    unfolding renewed_expiry_def Let_def ttl_def [symmetric] checked_expiry_def checked_add64_def
    using b c by (auto simp: not_le)
qed

lemma token_renew_spec:
  "case token_renew lib st actor ns operation body now of
     (st', Inr resp) \<Rightarrow>
       \<exists>tid tok e. active_token st tid now False = Inr tok \<and> tok_renewable tok \<and>
         st' = put_token st tid (tok\<lparr>tok_expires_at := Some e\<rparr>) \<and> now < e \<and> e \<le> now + max (tok_period tok) MAX_TTL \<and>
         (\<forall>m. tok_max_expires_at tok = Some m \<longrightarrow> e \<le> m) \<and>
         (\<forall>a anc x. ancestor (tokens st) tid a \<and> map_of (tokens st) a = Some anc \<and> tok_expires_at anc = Some x \<longrightarrow> e \<le> x)
   | (st', Inl e) \<Rightarrow> st' = st \<and> ae_status e \<in> {400, 403}"
proof (cases "renew_target lib st actor ns operation body")
  case (Inl e)
  then show ?thesis using renew_target_error [OF Inl] by (simp add: token_renew_def)
next
  case tid: (Inr tid)
  show ?thesis
  proof (cases "active_token st tid now False")
    case (Inl e)
    then show ?thesis using tid active_token_error [OF Inl] by (simp add: token_renew_def)
  next
    case act: (Inr tok)
    then have tok: "map_of (tokens st) tid = Some tok" and anc: "ancestors_live (tokens st) now [tid] (tok_parent tok) = Inr ()"
      by (auto simp: active_token_def split: if_splits)
    obtain l where l: "ancestor_limit (Suc (length (tokens st))) (tokens st) (tok_parent tok) None = Some (Inr l)"
      using ancestor_limit_ends [OF anc, of "Suc (length (tokens st))" None] unseen_le [of "tokens st" "[tid]"] by auto
    show ?thesis
    proof (cases "duration_field body ''increment'' DEFAULT_TTL")
      case (Inl e)
      then show ?thesis using tid act tok l duration_field_error [OF Inl] by (simp add: token_renew_def del: ancestor_limit.simps)
    next
      case inc: (Inr increment)
      note eq = tid act tok l inc
      show ?thesis
      proof (cases "renewed_expiry tok increment l now")
        case (Inl e)
        then show ?thesis using eq renewed_expiry_spec [where tok = tok and increment = increment and limit = l and now = now]
          by (simp add: token_renew_def del: ancestor_limit.simps)
      next
        case (Inr e)
        have "e \<le> x" if "ancestor (tokens st) tid a" "map_of (tokens st) a = Some an" "tok_expires_at an = Some x" for a an x
          using ancestor_limit_bound [OF l] that ancestor_iff [OF tok] renewed_expiry_spec [where tok = tok and increment = increment and limit = l and now = now] Inr
          by (auto intro: order_trans) (metis order_trans)+
        moreover have "token_renew lib st actor ns operation body now =
            (put_token st tid (tok\<lparr>tok_expires_at := Some e\<rparr>),
             Inr \<lparr>ar_status = 200, ar_body = renewed_body tok e now, ar_mutated = True\<rparr>)"
          using eq Inr by (simp add: token_renew_def del: ancestor_limit.simps)
        ultimately show ?thesis
          using act renewed_expiry_spec [where tok = tok and increment = increment and limit = l and now = now] Inr
          by (simp only: prod.case sum.case) (intro exI [of _ tid] exI [of _ tok] exI [of _ e], auto)
      qed
    qed
  qed
qed

text \<open>
  C32: Renewal. A renewal always ends. If it succeeds, one token that is live and renewable gets a
  new expiry, in the future, at most its period or the longest lifetime from now, and not beyond
  its own limit or the expiry of any ancestor; nothing else changes. If it fails, nothing changes,
  and the client is told why.
\<close>

theorem renew_bounded:
  "case token_renew lib st actor ns operation body now of
     (st', Inr resp) \<Rightarrow>
       \<exists>tid tok e. active_token st tid now False = Inr tok \<and> tok_renewable tok \<and>
         st' = put_token st tid (tok\<lparr>tok_expires_at := Some e\<rparr>) \<and> now < e \<and> e \<le> now + max (tok_period tok) MAX_TTL \<and>
         (\<forall>m. tok_max_expires_at tok = Some m \<longrightarrow> e \<le> m) \<and>
         (\<forall>a anc x. ancestor (tokens st) tid a \<and> map_of (tokens st) a = Some anc \<and> tok_expires_at anc = Some x \<longrightarrow> e \<le> x)
   | (st', Inl e) \<Rightarrow> st' = st \<and> ae_status e \<in> {400, 403}"
  by (rule token_renew_spec)

section \<open>Token creation\<close>

lemma created_lifetime_Inr:
  assumes "created_lifetime body root period parent_expires no_parent now = Inr (e, m)"
  shows "(e = None \<longrightarrow> root \<and> (no_parent \<or> parent_expires = None))
    \<and> (\<forall>x. e = Some x \<longrightarrow> x \<le> now + MAX_TTL \<or> (root \<and> \<not> no_parent \<and> parent_expires = Some x))
    \<and> (\<forall>p. \<not> no_parent \<and> parent_expires = Some p \<longrightarrow> (\<exists>x. e = Some x \<and> x \<le> p))"
proof -
  obtain ttl0 explicit_max e0 where
    ttl: "(if 0 < period then period else if ttl0 = 0 \<and> \<not> root then DEFAULT_TTL else ttl0) \<le> MAX_TTL"
    and e0: "(if root \<and> (if 0 < period then period else if ttl0 = 0 \<and> \<not> root then DEFAULT_TTL else ttl0) = 0 then Inr None
        else rbind (checked_expiry now (if 0 < period then period else if ttl0 = 0 \<and> \<not> root then DEFAULT_TTL else ttl0)) (\<lambda>e. Inr (Some e))) = Inr e0"
    and e: "e = (if no_parent then (case (e0, m) of (Some e, Some m) \<Rightarrow> Some (min e m) | _ \<Rightarrow> e0)
        else case parent_expires of
          None \<Rightarrow> (case (e0, m) of (Some e, Some m) \<Rightarrow> Some (min e m) | _ \<Rightarrow> e0)
        | Some p \<Rightarrow> Some (case (case (e0, m) of (Some e, Some m) \<Rightarrow> Some (min e m) | _ \<Rightarrow> e0) of None \<Rightarrow> p | Some e \<Rightarrow> min e p))"
    using assms unfolding created_lifetime_def Let_def rbind_Inr_iff if_Inl_Inr_iff not_less sum.inject prod.inject
    apply (elim exE conjE)
    subgoal premises p for a b c d
      using p by (intro p(1)) (auto)
    done
  define ttl where "ttl = (if 0 < period then period else if ttl0 = 0 \<and> \<not> root then DEFAULT_TTL else ttl0)"
  have e0': "e0 = None \<and> root \<or> e0 = Some (now + ttl)"
    using e0 unfolding ttl_def [symmetric] by (auto simp: checked_expiry_def split: if_splits)
  define e1 where "e1 = (case (e0, m) of (Some e, Some m) \<Rightarrow> Some (min e m) | _ \<Rightarrow> e0)"
  have e1: "e1 = None \<and> root \<or> (\<exists>y. e1 = Some y \<and> y \<le> now + MAX_TTL)"
    using e0' ttl [folded ttl_def] by (auto simp: e1_def split: option.splits)
  show ?thesis using e1 unfolding e e1_def [symmetric] by (auto split: option.splits)
qed

lemma issue_Inr:
  assumes "issue lib fill st tok now = (st', Inr resp)"
  obtains tid where "st' = put_token st tid tok" "ar_mutated resp"
  using assms unfolding issue_def prepare_issue_def by (auto simp: sbind_pair_Inr_iff)

lemma subset_iff: "subset a b \<longleftrightarrow> set a \<subseteq> set b"
  by (auto simp: subset_def list_all_iff)

lemma create_token_Inr:
  assumes "create_token lib fill st actor ns path body now orphan = (st', Inr resp)"
  obtains parent requested no_parent period e m tok tid where
    "check_principal st actor ns now = Inr parent" "tok_uses_remaining parent = None"
    "tok_root parent \<or> set requested \<subseteq> set (tok_policies parent) \<and> ''root'' \<notin> set requested"
    "\<not> (''root'' \<in> set requested \<and> (length requested \<noteq> 1 \<or> ns \<noteq> []))"
    "no_parent \<or> 0 < period \<Longrightarrow> authorize_request st actor ns path ''sudo'' now = Inr ()"
    "period \<le> MAX_TTL"
    "created_lifetime body (''root'' \<in> set requested) period (tok_expires_at parent) no_parent now = Inr (e, m)"
    "tok_namespace tok = ns" "tok_policies tok = requested" "tok_root tok \<longleftrightarrow> ''root'' \<in> set requested"
    "tok_parent tok = (if no_parent then None else Some (pr_digest actor))"
    "tok_expires_at tok = e" "tok_max_expires_at tok = m" "tok_period tok = period"
    "st' = put_token st tid tok" "orphan \<Longrightarrow> no_parent"
proof -
  obtain tok parent requested no_parent period em acc renewable num_uses display and u :: unit where
    p: "check_principal st actor ns now = Inr parent" "\<not> tok_uses_remaining parent \<noteq> None"
    "\<not> (\<not> tok_root parent \<and> (\<not> subset requested (tok_policies parent) \<or> ''root'' \<in> set requested))"
    "\<not> (''root'' \<in> set requested \<and> (length requested \<noteq> 1 \<or> ns \<noteq> []))"
    "(if orphan then Inr True else boolean_field body ''no_parent'' False) = Inr no_parent"
    "(if no_parent \<or> 0 < period then authorize_request st actor ns path ''sudo'' now else Inr ()) = Inr u"
    "\<not> MAX_TTL < period"
    "created_lifetime body (''root'' \<in> set requested) period (tok_expires_at parent) no_parent now = Inr em"
    and t: "\<lparr>tok_accessor = acc, tok_namespace = ns, tok_policies = requested, tok_root = (''root'' \<in> set requested),
                        tok_parent = (if no_parent then None else Some (pr_digest actor)), tok_created_at = now,
                        tok_expires_at = fst em, tok_max_expires_at = snd em, tok_period = period,
                        tok_renewable = (renewable \<and> fst em \<noteq> None),
                        tok_uses_remaining = unlimited_zero num_uses, tok_display_name = display,
                        tok_auth_mount = tok_auth_mount parent,
                        tok_auth_origin_known = (tok_root parent \<or> tok_auth_origin_known parent)\<rparr> = tok"
    and i: "issue lib fill st tok now = (st', Inr resp)"
    using assms unfolding create_token_def Let_def case_prod_beta sbind_pair_Inr_iff rbind_Inr_iff if_Inl_Inr_iff sum.inject
    apply (elim exE conjE)
    subgoal premises q
      apply (rule q(1))
               apply (rule q)+
      done
    done
  from i obtain tid where tid: "st' = put_token st tid tok" by (rule issue_Inr)
  show thesis
    by (rule that [of parent requested no_parent period "fst em" "snd em" tok tid])
      (use p t tid in \<open>auto simp: subset_iff split: if_splits\<close>)
qed

end
