(* ===== verification/Auth_Safety.thy ===== *)
theory Auth_Safety
  imports Auth_Correct Engine_Spec
begin

text \<open>
  What each authentication route does to the token table, and that no route makes a root token
  except for a root token.
\<close>

section \<open>What a request does to the tokens\<close>

lemma tokens_frame [simp]:
  "tokens (update_users st scope f) = tokens st"
  "tokens (update_roles st scope g) = tokens st"
  "tokens (put_jwt st scope jm) = tokens st"
  "tokens (put_token st tid tok) = binsert tid tok (tokens st)"
  by (simp_all add: update_users_def update_roles_def put_jwt_def put_token_def Let_def)

definition only_removes :: "(string, token) bmap \<Rightarrow> (string, token) bmap \<Rightarrow> bool" where
  "only_removes toks toks' \<longleftrightarrow> (\<forall>k. map_of toks' k = None \<or> map_of toks' k = map_of toks k)"

lemma only_removes_refl [simp]: "only_removes toks toks"
  by (simp add: only_removes_def)

lemma only_removes_fold: "only_removes toks (fold bremove ks toks)"
  by (simp add: only_removes_def map_of_fold_bremove)

lemma only_removes_trans: "only_removes a b \<Longrightarrow> only_removes b c \<Longrightarrow> only_removes a c"
  unfolding only_removes_def by metis

lemma revoke_only_removes: "only_removes (tokens st) (tokens (revoke st tid))"
  by (simp add: revoke_def only_removes_fold)

lemma token_tidy_removes:
  "token_tidy st actor ns path body now = (st', res) \<Longrightarrow> only_removes (tokens st) (tokens st')"
  unfolding token_tidy_def Let_def
  by (auto simp: sbind_def only_removes_fold split: sum.splits)

lemma token_renew_effect:
  assumes "token_renew lib st actor ns operation body now = (st', Inr resp)"
  obtains tid tok e where "active_token st tid now False = Inr tok"
    "st' = put_token st tid (tok\<lparr>tok_expires_at := Some e\<rparr>)"
  using token_renew_spec [where lib = lib and st = st and actor = actor and ns = ns and operation = operation
      and body = body and now = now] assms by auto

lemma token_operation_effect:
  assumes "token_operation lib fill st actor ns path operation body now = (st', Inr resp)"
  obtains (removed) "only_removes (tokens st) (tokens st')"
  | (created) orphan where "create_token lib fill st actor ns path body now orphan = (st', Inr resp)"
  | (renewed) tid tok e where "map_of (tokens st) tid = Some tok" "st' = put_token st tid (tok\<lparr>tok_expires_at := Some e\<rparr>)"
proof -
  define c1 where "c1 \<longleftrightarrow> operation = ''create'' \<or> operation = ''create-orphan''"
  define c2 where "c2 \<longleftrightarrow> operation = ''lookup-self''"
  define c3 where "c3 \<longleftrightarrow> operation = ''lookup'' \<or> operation = ''lookup-accessor''"
  define c4 where "c4 \<longleftrightarrow> operation = ''accessors''"
  define c5 where "c5 \<longleftrightarrow> operation = ''tidy''"
  define c6 where "c6 \<longleftrightarrow> operation = ''revoke-self''"
  define c7 where "c7 \<longleftrightarrow> operation = ''revoke'' \<or> operation = ''revoke-accessor''"
  define c8 where "c8 \<longleftrightarrow> operation = ''renew-self'' \<or> operation = ''renew'' \<or> operation = ''renew-accessor''"
  note a = assms [unfolded token_operation_def, folded c1_def c2_def c3_def c4_def c5_def c6_def c7_def c8_def]
  consider "create_token lib fill st actor ns path body now (operation = ''create-orphan'') = (st', Inr resp)"
    | "st' = st" | "token_tidy st actor ns path body now = (st', Inr resp)" | tid where "st' = revoke st tid"
    | "token_renew lib st actor ns operation body now = (st', Inr resp)"
    using a by (auto simp: sbind_pair_Inr_iff split: if_splits)
  then show thesis
  proof cases
    case 5
    then show thesis by (rule token_renew_effect) (rule renewed [OF active_token_lookup])
  qed (auto intro: created removed token_tidy_removes revoke_only_removes)
qed

lemma permission_Inr: "permission st pr ns path cap now = Inr actor \<longleftrightarrow>
    pr = Some actor \<and> authorize_request st actor ns path cap now = Inr ()"
  by (auto simp: permission_def)

lemma token_route_effect:
  assumes "token_route lib fill st pr ns method path body now = (st', Inr resp)"
  obtains (removed) "only_removes (tokens st) (tokens st')"
  | (created) actor orphan where "pr = Some actor" "create_token lib fill st actor ns path body now orphan = (st', Inr resp)"
  | (renewed) tid tok e where "map_of (tokens st) tid = Some tok" "st' = put_token st tid (tok\<lparr>tok_expires_at := Some e\<rparr>)"
proof -
  obtain actor operation where "pr = Some actor" "token_operation lib fill st actor ns path operation body now = (st', Inr resp)"
    using assms unfolding token_route_def sbind_pair_Inr_iff if_pair_Inl_iff permission_Inr by blast
  from this(2) show thesis
    by (cases rule: token_operation_effect) (use \<open>pr = Some actor\<close> in \<open>auto intro: removed created renewed\<close>)
qed

lemma prepare_issue_Inr: "prepare_issue lib fill tok now = Inr x \<Longrightarrow> fst (snd x) = tok"
  by (auto simp: prepare_issue_def)

text \<open>A token that a login issues: not root, without a parent.\<close>

definition login_issued :: "string \<Rightarrow> token \<Rightarrow> bool" where
  "login_issued ns tok \<longleftrightarrow> tok_namespace tok = ns \<and> \<not> tok_root tok \<and> ''root'' \<notin> set (tok_policies tok) \<and> tok_parent tok = None"

lemma login_token_issued:
  "login_token lib fill ns pols ttl max_ttl uses display now = Inr tok \<Longrightarrow> login_issued ns (tok\<lparr>tok_auth_mount := m\<rparr>)"
  by (auto simp: login_token_def login_issued_def split: if_splits)

lemma login_userpass_effect:
  assumes "login_userpass lib fill st scope method name body now = (st', Inr resp)"
  obtains tid tok where "tokens st' = binsert tid tok (tokens st)" "login_issued (scope_namespace scope) tok"
  using assms unfolding login_userpass_def case_prod_beta sbind_pair_Inr_iff if_pair_Inl_iff if_Inl_Inr_iff rbind_Inr_iff
  apply (elim exE conjE)
  subgoal premises p
    apply (rule p(1))
    using p by (auto dest!: prepare_issue_Inr login_token_issued)
  done

lemma login_approle_Inr:
  assumes "login_approle lib fill st scope method body now = (st', Inr resp)"
  obtains rid raw name r secret tok where "string_field body ''role_id'' = Inr rid" "string_field body ''secret_id'' = Inr raw"
    "Option.bind (roles_at st scope) (find (\<lambda>e. role_id (snd e) = rid)) = Some (name, r)"
    "map_of (role_secret_ids r) (token_hash lib raw) = Some secret" "\<not> stale_secret secret now"
    "login_token lib fill (scope_namespace scope) (role_policies r) (role_token_ttl r) (role_token_max_ttl r)
       (role_token_num_uses r) (''approle-'' @ name) now = Inr tok"
    "snd (issue lib fill st (tok\<lparr>tok_auth_mount := Some (scope_mount scope)\<rparr>) now) = Inr resp"
    "st' = update_roles (fst (issue lib fill st (tok\<lparr>tok_auth_mount := Some (scope_mount scope)\<rparr>) now)) scope
       (binsert name (r\<lparr>role_secret_ids := binsert (token_hash lib raw) (spend_secret secret) (role_secret_ids r)\<rparr>))"
  using assms unfolding login_approle_def case_prod_beta sbind_pair_Inr_iff if_pair_Inl_iff if_Inl_Inr_iff rbind_Inr_iff
  apply (elim exE conjE)
  subgoal premises p
    apply (rule p(1))
    using p by (auto simp: sbind_Inr_iff)
  done

lemma login_approle_effect:
  assumes "login_approle lib fill st scope method body now = (st', Inr resp)"
  obtains tid tok where "tokens st' = binsert tid tok (tokens st)" "login_issued (scope_namespace scope) tok"
proof (rule login_approle_Inr [OF assms])
  fix rid raw name r secret and tok :: token
  let ?tok = "tok\<lparr>tok_auth_mount := Some (scope_mount scope)\<rparr>"
  assume tok: "login_token lib fill (scope_namespace scope) (role_policies r) (role_token_ttl r) (role_token_max_ttl r)
       (role_token_num_uses r) (''approle-'' @ name) now = Inr tok"
    and i: "snd (issue lib fill st ?tok now) = Inr resp"
    and st': "st' = update_roles (fst (issue lib fill st ?tok now)) scope
       (binsert name (r\<lparr>role_secret_ids := binsert (token_hash lib raw) (spend_secret secret) (role_secret_ids r)\<rparr>))"
  from i obtain tid where "fst (issue lib fill st ?tok now) = put_token st tid ?tok"
    by (metis issue_Inr prod.collapse)
  then show thesis using that login_token_issued [OF tok] st' by simp
qed

lemma admit_frame: "tokens (fst (admit_external_replay lib st scope fp e now)) = tokens st"
  by (simp add: admit_external_replay_def Let_def)

lemma jwt_login_token_issued:
  assumes "jwt_role_admits r vp (scope_namespace scope)" "jwt_login_token lib fill scope r vp now = Inr tok"
  shows "login_issued (scope_namespace scope) tok"
  using assms by (auto simp: jwt_login_token_def login_issued_def jwt_role_admits_def Let_def split: if_splits)

lemma jwt_login_Inr:
  assumes "jwt_login lib fill st scope method body now = (st', Inr resp)"
  obtains jwt config r verifier vp tok tid resp' st1 jm where
    "string_field body ''jwt'' = Inr jwt" "Option.bind (jwt_at st scope) jm_config = Some config"
    "config_verifier config = Inr verifier" "jwt_verify lib verifier jwt now = Inr vp"
    "jwt_role_admits r vp (scope_namespace scope)" "jwt_login_token lib fill scope r vp now = Inr tok"
    "admit_external_replay lib st scope (replay_fingerprint lib vp) (vp_expires_at vp) now = (st1, Inr ())"
    "st' = put_token (put_jwt st1 scope ((jwt_state st1 scope)\<lparr>jm_identities := jm\<rparr>)) tid tok"
  using assms unfolding jwt_login_def case_prod_beta sbind_pair_Inr_iff if_pair_Inl_iff if_Inl_Inr_iff rbind_Inr_iff
  apply (elim exE conjE)
  subgoal premises p
    apply (rule p(1))
    using p by (auto simp: sbind_Inr_iff Let_def dest!: prepare_issue_Inr intro: prod_eqI)
  done

lemma jwt_login_effect:
  assumes "jwt_login lib fill st scope method body now = (st', Inr resp)"
  obtains tid tok where "tokens st' = binsert tid tok (tokens st)" "login_issued (scope_namespace scope) tok"
proof -
  from assms obtain r vp tok tid st1 f where
    tok: "jwt_role_admits r vp (scope_namespace scope)" "jwt_login_token lib fill scope r vp now = Inr tok"
    and a: "admit_external_replay lib st scope (replay_fingerprint lib vp) (vp_expires_at vp) now = (st1, Inr ())"
    and st': "st' = put_token (put_jwt st1 scope f) tid tok"
    by (rule jwt_login_Inr) blast
  have "tokens st1 = tokens st" using a admit_frame by (metis fst_conv)
  then show thesis using that jwt_login_token_issued [OF tok] st' by simp
qed

lemma revoke_fold_removes: "only_removes (tokens st) (tokens (fold (\<lambda>tid st. revoke st tid) ids st))"
proof (induction ids arbitrary: st)
  case (Cons i ids)
  then show ?case using only_removes_trans [OF revoke_only_removes [of st i]] by simp
qed simp

lemma disable_auth_mount_removes: "only_removes (tokens st) (tokens (disable_auth_mount st scope))"
proof -
  obtain s ids where "disable_auth_mount st scope = fold (\<lambda>tid st. revoke st tid) ids s" "tokens s = tokens st"
    unfolding disable_auth_mount_def Let_def by (fastforce split: option.splits)
  then show ?thesis using revoke_fold_removes [of s ids] by simp
qed

lemma auth_mount_route_removes:
  assumes "auth_mount_route st pr ns method path body now = (st', Inr resp)"
  shows "only_removes (tokens st) (tokens st')"
proof -
  have c: "auth_mount_create s ns m body = (s', Inr r) \<Longrightarrow> tokens s' = tokens s" for s m s' r
    unfolding auth_mount_create_def sbind_pair_Inr_iff if_pair_Inl_iff Let_def by auto
  have d: "auth_mount_delete s ns m body = (s', Inr r) \<Longrightarrow> only_removes (tokens s) (tokens s')" for s m s' r
    unfolding auth_mount_delete_def sbind_pair_Inr_iff if_pair_Inl_iff Let_def
    using disable_auth_mount_removes [of "s\<lparr>auth_mounts := binsert ns (bremove m (effective_auth_mounts s ns)) (auth_mounts s)\<rparr>"
        "\<lparr>scope_namespace = ns, scope_mount = m\<rparr>"]
    by (auto split: if_splits)
  from assms obtain suff where s: "strip_prefix ''sys/auth'' path = Some suff"
    by (cases "strip_prefix ''sys/auth'' path") (auto simp: auth_mount_route_def)
  define mount where "mount = trim_end_matches (trim_start_matches suff (CHR ''/'')) (CHR ''/'')"
  define c1 where "c1 \<longleftrightarrow> suff = [] \<or> suff = ''/''"
  define c2 where "c2 \<longleftrightarrow> mount = [] \<or> 256 < length mount \<or> \<not> list_all valid_name (split_on (CHR ''/'') mount)"
  define c3 where "c3 \<longleftrightarrow> method = ''GET''"
  define c4 where "c4 \<longleftrightarrow> post_method method"
  define c5 where "c5 \<longleftrightarrow> method = ''DELETE''"
  show ?thesis
    using assms [unfolded auth_mount_route_def s ok_or_simps sbind_simps Let_def, folded mount_def, folded c1_def c2_def c3_def c4_def c5_def]
    by (auto simp: sbind_pair_Inr_iff dest: c d split: if_split_asm)
qed

lemma policy_route_frame:
  assumes "policy_route lib st pr ns method path body now = (st', Inr resp)"
  shows "tokens st' = tokens st"
proof -
  have c: "policy_change lib s ns name cap body = (s', Inr r) \<Longrightarrow> tokens s' = tokens s" for s name cap s' r
    unfolding policy_change_def sbind_pair_Inr_iff if_pair_Inl_iff by (auto split: if_splits option.splits simp: sbind_pair_Inr_iff)
  show ?thesis
    using assms c unfolding policy_route_def Let_def sbind_pair_Inr_iff if_pair_Inl_iff
    by (auto simp: sbind_pair_Inr_iff split: if_splits)
qed

lemma user_route_frame:
  assumes "user_route lib fill st pr scope method path body now = (st', Inr resp)"
  shows "tokens st' = tokens st"
proof -
  have c: "user_mfa fill s actor scope name cap path body now = (s', Inr r) \<Longrightarrow> tokens s' = tokens s" for s actor name cap s' r
    unfolding user_mfa_def sbind_pair_Inr_iff if_pair_Inl_iff by (auto split: if_splits simp: sbind_pair_Inr_iff)
  show ?thesis
    using assms c unfolding user_route_def Let_def case_prod_beta sbind_pair_Inr_iff if_pair_Inl_iff
    by (auto simp: sbind_pair_Inr_iff split: if_splits)
qed

lemma role_route_frame:
  assumes "role_route lib fill st pr scope method path body now = (st', Inr resp)"
  shows "tokens st' = tokens st"
proof -
  have c: "role_operation lib fill s scope name r0 op cap body now = (s', Inr r) \<Longrightarrow> tokens s' = tokens s" for s name r0 op cap s' r
  proof -
    define c1 where "c1 \<longleftrightarrow> op = ''role-id'' \<and> cap = ''read''"
    define c2 where "c2 \<longleftrightarrow> op = ''role-id'' \<and> cap = ''update''"
    define c3 where "c3 \<longleftrightarrow> op = ''secret-id'' \<and> cap = ''list''"
    define c4 where "c4 \<longleftrightarrow> op = ''secret-id'' \<and> cap = ''update''"
    define c5 where "c5 \<longleftrightarrow> op \<in> {''secret-id/lookup'', ''secret-id-accessor/lookup'', ''secret-id/destroy'',
                           ''secret-id-accessor/destroy''} \<and> cap = ''update''"
    show "role_operation lib fill s scope name r0 op cap body now = (s', Inr r) \<Longrightarrow> tokens s' = tokens s"
      unfolding role_operation_def case_prod_beta c1_def [symmetric] c2_def [symmetric] c3_def [symmetric] c4_def [symmetric] c5_def [symmetric]
      by (auto simp: sbind_pair_Inr_iff split: if_splits)
  qed
  show ?thesis
    using assms c unfolding role_route_def Let_def case_prod_beta sbind_pair_Inr_iff if_pair_Inl_iff
    by (auto simp: sbind_pair_Inr_iff split: if_splits)
qed

lemma tidy_secret_ids_frame:
  "tidy_secret_ids st pr scope method path body now = (st', Inr resp) \<Longrightarrow> tokens st' = tokens st"
  unfolding tidy_secret_ids_def Let_def sbind_pair_Inr_iff if_pair_Inl_iff by auto

lemma jwt_config_route_frame:
  "jwt_config_route lib st pr scope method body now = (st', Inr resp) \<Longrightarrow> tokens st' = tokens st"
  unfolding jwt_config_route_def Let_def by (auto simp: sbind_pair_Inr_iff split: if_splits)

lemma jwt_role_route_frame:
  "jwt_role_route st pr scope method name body now = (st', Inr resp) \<Longrightarrow> tokens st' = tokens st"
  unfolding jwt_role_route_def Let_def by (auto simp: sbind_pair_Inr_iff split: if_splits)

lemma jwt_route_effect:
  assumes "jwt_route lib fill st pr scope method path body now = (st', Inr resp)"
  obtains (frame) "tokens st' = tokens st" | (login) "jwt_login lib fill st scope method body now = (st', Inr resp)"
proof -
  define c1 where "c1 \<longleftrightarrow> path = (''auth/'' @ scope_mount scope) @ ''/config''"
  define c2 where "c2 \<longleftrightarrow> path = (''auth/'' @ scope_mount scope) @ ''/login''"
  define c3 where "c3 \<longleftrightarrow> path = (''auth/'' @ scope_mount scope) @ ''/role''"
  define p where "p = strip_prefix ((''auth/'' @ scope_mount scope) @ ''/role/'') path"
  show thesis
    using assms frame login jwt_config_route_frame [of lib st pr scope "method" body now st' resp]
      jwt_role_route_frame [of st pr scope "method" _ body now st' resp]
    unfolding jwt_route_def Let_def c1_def [symmetric] c2_def [symmetric] c3_def [symmetric] p_def [symmetric]
    by (auto split: if_splits option.splits)
qed

lemma credential_route_effect:
  assumes "credential_route lib fill st pr ns method path auth_path body now = (st', Inr resp)"
  obtains (removed) "only_removes (tokens st) (tokens st')"
  | (login) tid tok where "tokens st' = binsert tid tok (tokens st)" "login_issued ns tok"
  | (created) actor orphan where "pr = Some actor" "create_token lib fill st actor ns path body now orphan = (st', Inr resp)"
  | (renewed) tid tok e where "map_of (tokens st) tid = Some tok" "st' = put_token st tid (tok\<lparr>tok_expires_at := Some e\<rparr>)"
proof -
  obtain mount entry suff where f: "find_auth_mount (effective_auth_mounts st ns) auth_path = Some (mount, entry, suff)"
    using assms by (auto simp: credential_route_def sbind_pair_Inr_iff)
  let ?scope = "\<lparr>scope_namespace = ns, scope_mount = mount\<rparr>"
  define c1 where "c1 \<longleftrightarrow> am_kind entry = ''token'' \<and> mount = ''token''"
  define c2 where "c2 \<longleftrightarrow> am_kind entry = ''userpass'' \<and> starts_with suff ''login/''"
  define c3 where "c3 \<longleftrightarrow> am_kind entry = ''userpass'' \<and> (suff = ''users'' \<or> starts_with suff ''users/'')"
  define c4 where "c4 \<longleftrightarrow> am_kind entry = ''approle'' \<and> suff = ''login''"
  define c5 where "c5 \<longleftrightarrow> am_kind entry = ''approle'' \<and> suff = ''tidy/secret-id''"
  define c6 where "c6 \<longleftrightarrow> am_kind entry = ''approle'' \<and> (suff = ''role'' \<or> starts_with suff ''role/'')"
  define c7 where "c7 \<longleftrightarrow> am_kind entry = ''jwt''"
  note a = assms [unfolded credential_route_def Let_def f ok_or_simps sbind_simps prod.case,
      folded c1_def c2_def c3_def c4_def c5_def c6_def c7_def]
  consider (token) "token_route lib fill st pr ns method path body now = (st', Inr resp)"
    | (userpass) "login_userpass lib fill st ?scope method (drop 6 suff) body now = (st', Inr resp)"
    | (frame) "tokens st' = tokens st"
    | (approle) "login_approle lib fill st ?scope method body now = (st', Inr resp)"
    | (jwt) "jwt_route lib fill st pr ?scope method path body now = (st', Inr resp)"
    using a user_route_frame [of lib fill st pr ?scope "method" path body now st' resp]
      role_route_frame [of lib fill st pr ?scope "method" path body now st' resp]
      tidy_secret_ids_frame [of st pr ?scope "method" path body now st' resp]
    by (auto split: if_splits)
  then show thesis
  proof cases
    case token
    then show thesis by (rule token_route_effect) (auto intro: removed created renewed)
  next
    case userpass
    then show thesis by (rule login_userpass_effect) (auto intro: login)
  next
    case frame
    then show thesis by (intro removed) simp
  next
    case approle
    then show thesis by (rule login_approle_effect) (auto intro: login)
  next
    case jwt
    then show thesis
    proof (cases rule: jwt_route_effect)
      case frame
      then show thesis by (intro removed) simp
    next
      case login: login
      then show thesis by (rule jwt_login_effect) (auto intro: that(2))
    qed
  qed
qed

lemma auth_handle_effect:
  assumes "auth_handle lib fill st pr ns method path body now = (st', Inr (Some resp))"
  obtains (removed) "only_removes (tokens st) (tokens st')"
  | (login) tid tok where "tokens st' = binsert tid tok (tokens st)" "login_issued ns tok"
  | (created) actor orphan where "pr = Some actor" "create_token lib fill st actor ns path body now orphan = (st', Inr resp)"
  | (renewed) tid tok e where "map_of (tokens st) tid = Some tok" "st' = put_token st tid (tok\<lparr>tok_expires_at := Some e\<rparr>)"
proof -
  define c1 where "c1 \<longleftrightarrow> path = ''sys/auth'' \<or> starts_with path ''sys/auth/''"
  define p where "p = strip_prefix ''auth/'' path"
  define c2 where "c2 \<longleftrightarrow> path = ''sys/policies/acl'' \<or> starts_with path ''sys/policies/acl/'' \<or> path = ''sys/policy''
              \<or> starts_with path ''sys/policy/''"
  note a = assms [unfolded auth_handle_def, folded c1_def p_def c2_def]
  consider (mounts) "auth_mount_route st pr ns method path body now = (st', Inr resp)"
    | (credentials) auth_path where "credential_route lib fill st pr ns method path auth_path body now = (st', Inr resp)"
    | (policy) "policy_route lib st pr ns method path body now = (st', Inr resp)"
    using a unfolding sbind_pair_Inr_iff sbind_result_iff by (auto simp: sbind_result_iff split: if_split_asm option.split_asm)
  then show thesis
  proof cases
    case mounts
    then show thesis by (intro removed auth_mount_route_removes)
  next
    case credentials
    then show thesis by (rule credential_route_effect) (auto intro: removed login created renewed)
  next
    case policy
    then show thesis using policy_route_frame [OF policy] by (intro removed) simp
  qed
qed

text \<open>
  C29: No escalation to root. Whatever request the authentication routes serve, a token that is root
  afterwards and was not root before was made by a live root token, in the root namespace: neither
  logins, roles, renewals nor children of other tokens can produce one.
\<close>

theorem root_only_from_root:
  assumes "auth_handle lib fill st pr ns method path body now = (st', Inr (Some resp))"
    and "map_of (tokens st') k = Some tok" "tok_root tok"
    and "\<nexists>old. map_of (tokens st) k = Some old \<and> tok_root old"
  shows "\<exists>actor parent. pr = Some actor \<and> active_token st (pr_digest actor) now False = Inr parent \<and> tok_root parent \<and> ns = []"
  using assms(1)
proof (cases rule: auth_handle_effect)
  case removed
  then show ?thesis using assms(2-4) by (auto simp: only_removes_def) (metis option.distinct(1))
next
  case (login tid t)
  then show ?thesis using assms(2-4) by (auto simp: login_issued_def split: if_splits)
next
  case (renewed tid t e)
  then show ?thesis using assms(2-4) by (auto split: if_splits)
next
  case (created actor orphan)
  from created(2) show ?thesis
  proof (rule create_token_Inr)
    fix parent requested no_parent period e m t tid
    assume p: "check_principal st actor ns now = Inr parent"
      "tok_root parent \<or> set requested \<subseteq> set (tok_policies parent) \<and> ''root'' \<notin> set requested"
      "\<not> (''root'' \<in> set requested \<and> (length requested \<noteq> 1 \<or> ns \<noteq> []))"
      "tok_root t \<longleftrightarrow> ''root'' \<in> set requested" "st' = put_token st tid t"
    have "k = tid" using assms(2-4) p(5) by (auto split: if_splits)
    then have "tok_root t" using assms(2,3) p(5) by simp
    moreover have "active_token st (pr_digest actor) now False = Inr parent"
      using p(1) by (auto simp: check_principal_def split: if_splits)
    ultimately show ?thesis using p created(1) by auto
  qed
qed

section \<open>A sample state\<close>

definition sample_lib :: auth_lib where
  "sample_lib = crypto.extend sample_crypto
     \<lparr>base64url_encode = map char_of_byte, base64url_decode = (\<lambda>s. Some (bytes_of_string s)),
      pbkdf2_derive = (\<lambda>rounds salt password. salt @ password), pbkdf2_verify = (\<lambda>rounds salt password v. v = salt @ password),
      ecdsa_p256_verify = (\<lambda>key msg sig. msg = sig), json_parse = (\<lambda>bs. None), json_parse_string = (\<lambda>s. None),
      json_print = (\<lambda>j. [])\<rparr>"

definition sample_fill :: entropy where
  "sample_fill labels n = Some (replicate n 65)"

definition sample_actor :: principal where
  "sample_actor = \<lparr>pr_digest = ''k'', pr_token = root_token ''a.1'' 5\<rparr>"

definition sample_auth :: auth_state where
  "sample_auth = auth_state_empty\<lparr>tokens := [(''k'', root_token ''a.1'' 5)]\<rparr>"

lemma sample_create_path: "validate_path ''auth/token/create'' False = Inr ()" "validate_namespace [] = Inr ()"
  by code_simp+

lemma sample_token_mount: "find_auth_mount legacy_auth_mounts ''token/create'' = Some (''token'', auth_mount_new ''token'' ''token based credentials'', ''create'')"
  by code_simp

lemma sample_create_strip: "strip_prefix ''auth/token/'' ''auth/token/create'' = Some ''create''" "strip_prefix ''auth/'' ''auth/token/create'' = Some ''token/create''"
  by code_simp+

lemma sample_active: "active_token sample_auth ''k'' 10 False = Inr (root_token ''a.1'' 5)"
  by (simp add: active_token_def sample_auth_def expired_def root_token_def ancestors_live.simps)

lemma sample_authorized: "check_principal sample_auth sample_actor [] 10 = Inr (root_token ''a.1'' 5)"
  "authorize_request sample_auth sample_actor [] ''auth/token/create'' ''update'' 10 = Inr ()"
  by (simp_all add: check_principal_def authorize_request_def sample_create_path sample_actor_def sample_active)
     (simp_all add: root_token_def CAPABILITIES_def)

lemma sample_random: "random_id sample_lib sample_fill label pre = Inr (pre @ replicate 32 (char_of_byte 65))"
  by (simp add: random_id_def auth_random_bytes_def sample_lib_def sample_fill_def crypto.defs)

lemma sample_hash: "token_hash sample_lib (''hvs.'' @ xs) \<noteq> ''k''"
  by (simp add: token_hash_def sample_lib_def sample_crypto_def crypto.defs)

lemma sample_created:
  obtains tid tok resp where
    "create_token sample_lib sample_fill sample_auth sample_actor [] ''auth/token/create'' (JObj []) 10 False =
       (put_token sample_auth tid tok, Inr resp)" "tid \<noteq> ''k''" "tok_root tok"
proof -
  have v: "valid_name ''root''" by code_simp
  have h: "token_hash sample_lib (CHR ''h'' # CHR ''v'' # CHR ''s'' # CHR ''.'' # xs) \<noteq> ''k''" for xs
    using sample_hash [of xs] by simp
  show thesis
    by (rule that [OF _ h]) (simp add: create_token_def sample_authorized auth_reject_unknown_def json_get_def
        boolean_field_def policies_field_def duration_field_def created_lifetime_def root_token_def v number_field_def
        checked_expiry_def checked_add64_def MAX_TTL_def DEFAULT_TTL_def sample_random issue_def prepare_issue_def,
        simp)
qed

lemma sample_handled:
  obtains tid tok resp where
    "auth_handle sample_lib sample_fill sample_auth (Some sample_actor) [] ''POST'' ''auth/token/create'' (JObj []) 10 =
       (put_token sample_auth tid tok, Inr (Some resp))" "tid \<noteq> ''k''" "tok_root tok"
proof -
  obtain tid tok resp where c:
    "create_token sample_lib sample_fill sample_auth sample_actor [] ''auth/token/create'' (JObj []) 10 False =
       (put_token sample_auth tid tok, Inr resp)" "tid \<noteq> ''k''" "tok_root tok" by (rule sample_created)
  have e: "effective_auth_mounts sample_auth [] = legacy_auth_mounts"
    by (simp add: effective_auth_mounts_def sample_auth_def auth_state_empty_def)
  have s: "starts_with ''auth/token/create'' ''sys/auth/'' = False" by code_simp
  have "token_route sample_lib sample_fill sample_auth (Some sample_actor) [] ''POST'' ''auth/token/create'' (JObj []) 10 =
      (put_token sample_auth tid tok, Inr resp)"
    unfolding token_route_def sample_create_strip ok_or_simps sbind_simps
    by (simp add: token_method_ok_def post_method_def token_capability_def permission_def sample_authorized token_operation_def c)
  then have "credential_route sample_lib sample_fill sample_auth (Some sample_actor) [] ''POST'' ''auth/token/create''
      ''token/create'' (JObj []) 10 = (put_token sample_auth tid tok, Inr resp)"
    by (simp add: credential_route_def e sample_token_mount auth_mount_new_def)
  then have "auth_handle sample_lib sample_fill sample_auth (Some sample_actor) [] ''POST'' ''auth/token/create'' (JObj []) 10 =
       (put_token sample_auth tid tok, Inr (Some resp))"
    unfolding auth_handle_def sample_create_path sbind_simps sample_create_strip s option.case by simp
  then show thesis using c by (intro that)
qed

theorem root_only_from_root_witness:
  "\<exists>st' resp k tok.
     auth_handle sample_lib sample_fill sample_auth (Some sample_actor) [] ''POST'' ''auth/token/create'' (JObj []) 10 =
       (st', Inr (Some resp)) \<and> map_of (tokens st') k = Some tok \<and> tok_root tok \<and> map_of (tokens sample_auth) k = None \<and>
     (\<exists>actor parent. Some sample_actor = Some actor \<and> active_token sample_auth (pr_digest actor) 10 False = Inr parent \<and>
        tok_root parent)"
proof -
  obtain tid tok resp where h:
    "auth_handle sample_lib sample_fill sample_auth (Some sample_actor) [] ''POST'' ''auth/token/create'' (JObj []) 10 =
       (put_token sample_auth tid tok, Inr (Some resp))" "tid \<noteq> ''k''" "tok_root tok" by (rule sample_handled)
  have "map_of (tokens sample_auth) tid = None" using h(2) by (simp add: sample_auth_def)
  moreover have "map_of (tokens (put_token sample_auth tid tok)) tid = Some tok" by simp
  ultimately show ?thesis using root_only_from_root [OF h(1), of tid tok] h by auto
qed

text \<open>
  C30: What a created token may have. A token is created below a live token with unlimited uses, in
  the namespace of the request. Its policies are among those of its parent unless the parent is
  root, and only a root token makes a root token. An orphan or a periodic token needs the
  \<^verbatim>\<open>sudo\<close> capability on the path. Only a root token can be without expiry; every other
  token ends within the longest lifetime, and a child never outlives its parent.
\<close>

theorem create_token_bounded:
  assumes "create_token lib fill st actor ns path body now orphan = (st', Inr resp)"
  shows "\<exists>parent tid tok. check_principal st actor ns now = Inr parent \<and> st' = put_token st tid tok \<and>
    tok_uses_remaining parent = None \<and> tok_namespace tok = ns \<and>
    (tok_root parent \<or> \<not> tok_root tok \<and> set (tok_policies tok) \<subseteq> set (tok_policies parent)) \<and>
    (tok_root tok \<longrightarrow> tok_policies tok = [''root''] \<and> ns = []) \<and>
    (orphan \<or> tok_parent tok = None \<or> 0 < tok_period tok \<longrightarrow> authorize_request st actor ns path ''sudo'' now = Inr ()) \<and>
    (orphan \<longrightarrow> tok_parent tok = None) \<and> (tok_parent tok = None \<or> tok_parent tok = Some (pr_digest actor)) \<and>
    (tok_root tok \<or> (\<exists>e. tok_expires_at tok = Some e \<and> e \<le> now + MAX_TTL)) \<and>
    (\<forall>p. tok_parent tok \<noteq> None \<and> tok_expires_at parent = Some p \<longrightarrow> (\<exists>e. tok_expires_at tok = Some e \<and> e \<le> p))"
  using assms
proof (rule create_token_Inr)
  fix parent requested no_parent period e m t tid
  assume p: "check_principal st actor ns now = Inr parent" "tok_uses_remaining parent = None"
    "tok_root parent \<or> set requested \<subseteq> set (tok_policies parent) \<and> ''root'' \<notin> set requested"
    "\<not> (''root'' \<in> set requested \<and> (length requested \<noteq> 1 \<or> ns \<noteq> []))"
    "no_parent \<or> 0 < period \<Longrightarrow> authorize_request st actor ns path ''sudo'' now = Inr ()"
    "created_lifetime body (''root'' \<in> set requested) period (tok_expires_at parent) no_parent now = Inr (e, m)"
    "tok_namespace t = ns" "tok_policies t = requested" "tok_root t \<longleftrightarrow> ''root'' \<in> set requested"
    "tok_parent t = (if no_parent then None else Some (pr_digest actor))"
    "tok_expires_at t = e" "tok_period t = period" "st' = put_token st tid t" "orphan \<Longrightarrow> no_parent"
  note l = created_lifetime_Inr [OF p(6)]
  have "requested = [''root'']" if "''root'' \<in> set requested"
    using p(4) that by (cases requested) auto
  moreover have "orphan \<or> tok_parent t = None \<or> 0 < tok_period t \<longrightarrow> authorize_request st actor ns path ''sudo'' now = Inr ()"
    using p(5,10,12,14) by (auto split: if_splits)
  moreover have "tok_root t \<or> (\<exists>e. tok_expires_at t = Some e \<and> e \<le> now + MAX_TTL)"
    using l p(9,11) by (cases e) auto
  moreover have "\<forall>x. tok_parent t \<noteq> None \<and> tok_expires_at parent = Some x \<longrightarrow> (\<exists>e. tok_expires_at t = Some e \<and> e \<le> x)"
    using l p(10,11) by (auto split: if_splits)
  ultimately show ?thesis using p(1-4,7-10,13,14) 
    by (rule_tac x = parent in exI, rule_tac x = tid in exI, rule_tac x = t in exI) (simp, blast)
qed

theorem create_token_bounded_witness:
  "\<exists>st' resp. create_token sample_lib sample_fill sample_auth sample_actor [] ''auth/token/create'' (JObj []) 10 False =
     (st', Inr resp) \<and> (\<exists>parent tid tok. check_principal sample_auth sample_actor [] 10 = Inr parent \<and>
       st' = put_token sample_auth tid tok \<and> tok_namespace tok = [])"
proof -
  obtain tid tok resp where
    c: "create_token sample_lib sample_fill sample_auth sample_actor [] ''auth/token/create'' (JObj []) 10 False =
       (put_token sample_auth tid tok, Inr resp)" by (rule sample_created)
  show ?thesis using create_token_bounded [OF c] c by blast
qed

definition sample_child :: "string \<Rightarrow> token" where
  "sample_child parent = (root_token ''a.2'' 5)\<lparr>tok_policies := [''default''], tok_root := False, tok_parent := Some parent,
     tok_expires_at := Some 100, tok_max_expires_at := Some 5000, tok_renewable := True\<rparr>"

definition sample_family :: auth_state where
  "sample_family = auth_state_empty\<lparr>tokens :=
     [(''a'', root_token ''a.1'' 5), (''b'', sample_child ''a''), (''c'', sample_child ''b'')]\<rparr>"

lemma sample_family_tokens:
  "map_of (tokens sample_family) ''a'' = Some (root_token ''a.1'' 5)"
  "map_of (tokens sample_family) ''b'' = Some (sample_child ''a'')"
  "map_of (tokens sample_family) ''c'' = Some (sample_child ''b'')"
  by (simp_all add: sample_family_def)

theorem revoke_descendants_witness:
  "bmap_ok (tokens sample_family) \<and> map_of (tokens (revoke sample_family ''b'')) ''c'' = None \<and>
   map_of (tokens (revoke sample_family ''b'')) ''a'' = Some (root_token ''a.1'' 5)"
proof -
  have ok: "bmap_ok (tokens sample_family)" by code_simp
  have "ancestor (tokens sample_family) ''c'' ''b''"
    by (rule ancestor.intros(1) [OF sample_family_tokens(3)]) (simp add: sample_child_def)
  moreover have "\<not> ancestor (tokens sample_family) ''a'' ''b''"
    by (simp add: ancestor_iff [OF sample_family_tokens(1)] root_token_def)
  ultimately show ?thesis
    using ok revoke_descendants [OF ok, of "''b''" "''c''"] revoke_descendants [OF ok, of "''b''" "''a''"]
    by (simp add: sample_family_tokens)
qed

theorem renew_bounded_witness:
  "\<exists>st' resp tid tok e.
     token_renew sample_lib sample_family \<lparr>pr_digest = ''b'', pr_token = sample_child ''a''\<rparr> [] ''renew-self'' (JObj []) 10 =
       (st', Inr resp) \<and> st' = put_token sample_family tid (tok\<lparr>tok_expires_at := Some e\<rparr>) \<and> tok_renewable tok \<and> 10 < e"
proof -
  have "active_token sample_family ''b'' 10 False = Inr (sample_child ''a'')"
    by (simp add: active_token_def sample_family_tokens sample_child_def expired_def root_token_def
        ancestors_live.simps [of _ _ "[''b'']"] ancestors_live.simps [of _ _ _ None])
  moreover have "ancestor_limit (Suc (length (tokens sample_family))) (tokens sample_family) (Some ''a'') None = Some (Inr None)"
    by (simp add: sample_family_def root_token_def)
  ultimately obtain st' resp where r:
    "token_renew sample_lib sample_family \<lparr>pr_digest = ''b'', pr_token = sample_child ''a''\<rparr> [] ''renew-self'' (JObj []) 10 =
       (st', Inr resp)"
    by (simp add: token_renew_def renew_target_def auth_reject_unknown_def sample_family_tokens duration_field_def json_get_def
        renewed_expiry_def sample_child_def root_token_def checked_expiry_def checked_add64_def MAX_TTL_def DEFAULT_TTL_def opt_min_def)
  then show ?thesis
    using renew_bounded [where lib = sample_lib and st = sample_family and actor = "\<lparr>pr_digest = ''b'', pr_token = sample_child ''a''\<rparr>"
        and ns = "[]" and operation = "''renew-self''" and body = "JObj []" and now = 10]
    by auto
qed

end
