(* ===== verification/Durable_Codec.thy ===== *)
theory Durable_Codec
  imports Bytes "HOL-Library.Product_Lexorder"
begin

text \<open>
  The durable service of \<^verbatim>\<open>crates/heptabao-durable-service/src/lib.rs\<close>: its data, the
  checks on names and records, and the encodings of the three files it keeps. The record
  \<open>durable_lib\<close> holds SHA-256 and the barrier, the trait that encrypts what is written: a
  call of \<^verbatim>\<open>seal\<close> takes as an argument its index, so that sealing the same bytes twice
  need not give the same result. A \<^verbatim>\<open>Cursor\<close> is modelled by the bytes it has not read yet.
  An array \<^verbatim>\<open>[u8; 32]\<close> is a list of 32 bytes.
\<close>

section \<open>Data\<close>

definition SNAPSHOT_MAGIC :: "byte list" where
  "SNAPSHOT_MAGIC = bytes_of_string ''HBS2''"

definition SNAPSHOT_PLAINTEXT_MAGIC :: "byte list" where
  "SNAPSHOT_PLAINTEXT_MAGIC = bytes_of_string ''HBP2''"

definition JOURNAL_MAGIC :: "byte list" where
  "JOURNAL_MAGIC = bytes_of_string ''HBJ2''"

definition LEDGER_MAGIC :: "byte list" where
  "LEDGER_MAGIC = bytes_of_string ''HBL2''"

definition LEDGER_PLAINTEXT_MAGIC :: "byte list" where
  "LEDGER_PLAINTEXT_MAGIC = bytes_of_string ''HBC2''"

definition BACKUP_MAGIC :: "byte list" where
  "BACKUP_MAGIC = bytes_of_string ''HBB2''"

definition BACKUP_VERSION :: nat where
  "BACKUP_VERSION = 1"

definition MAX_FILE_BYTES :: nat where
  "MAX_FILE_BYTES = 64 * 1024 * 1024"

definition MAX_BACKUP_BYTES :: nat where
  "MAX_BACKUP_BYTES = MAX_FILE_BYTES * 2 + 2 * 1024 * 1024"

definition DURABLE_STRING_BYTES :: nat where
  "DURABLE_STRING_BYTES = 4 * 1024"

definition MAX_SECRET_BYTES :: nat where
  "MAX_SECRET_BYTES = 1024 * 1024"

definition MAX_RECORDS :: nat where
  "MAX_RECORDS = 1000000"

record durable_lib =
  lib_sha256 :: "byte list \<Rightarrow> byte list"
  lib_seal :: "nat \<Rightarrow> byte list \<Rightarrow> byte list \<Rightarrow> byte list option"
  lib_open :: "byte list \<Rightarrow> byte list \<Rightarrow> byte list option"

datatype service_error =
    InvalidRoot
  | RootNotEmpty
  | WriterLocked
  | UnsupportedProfile
  | LegacySchema
  | RecoveryRequired
  | JournalCapacityExhausted
  | InvalidIdentifier
  | InvalidNamespace
  | InvalidResource
  | InvalidSecret
  | InvalidAuthorizationDigest
  | RequestBindingConflict
  | RequestCapacityExhausted
  | BackupRollbackRejected
  | GenerationOverflow
  | OutcomeUnknown string
  | CorruptState
  | BarrierFailure
  | ServiceIo

datatype request_key = RequestKey (rk_principal: string) (rk_namespace: string) (rk_request_id: string)

text \<open>The order derived by \<^verbatim>\<open>#[derive(Ord)]\<close>: by the fields in their order.\<close>

instantiation request_key :: linorder
begin

definition less_eq_request_key :: "request_key \<Rightarrow> request_key \<Rightarrow> bool" where
  "less_eq_request_key a b =
     ((rk_principal a, rk_namespace a, rk_request_id a) \<le> (rk_principal b, rk_namespace b, rk_request_id b))"

definition less_request_key :: "request_key \<Rightarrow> request_key \<Rightarrow> bool" where
  "less_request_key a b =
     ((rk_principal a, rk_namespace a, rk_request_id a) < (rk_principal b, rk_namespace b, rk_request_id b))"

instance
proof
  fix a b c :: request_key
  show "a < b \<longleftrightarrow> a \<le> b \<and> \<not> b \<le> a" by (simp add: less_eq_request_key_def less_request_key_def less_le_not_le)
  show "a \<le> a" by (simp add: less_eq_request_key_def)
  show "a \<le> b \<Longrightarrow> b \<le> c \<Longrightarrow> a \<le> c" unfolding less_eq_request_key_def by (rule order_trans)
  show "a \<le> b \<Longrightarrow> b \<le> a \<Longrightarrow> a = b"
    unfolding less_eq_request_key_def by (drule (1) antisym) (simp add: request_key.expand)
  show "a \<le> b \<or> b \<le> a" unfolding less_eq_request_key_def by (rule linear)
qed

end

datatype mutation_kind = Put | Delete

record binding =
  bd_key :: request_key
  bd_resource :: string
  bd_kind :: mutation_kind
  bd_authorization_digest :: "byte list"
  bd_value_digest :: "byte list"

record commit_marker =
  cm_key :: request_key
  cm_binding_digest :: "byte list"
  cm_recovery_reference :: string
  cm_generation :: nat

record ledger_record =
  lr_binding_digest :: "byte list"
  lr_recovery_reference :: string
  lr_generation :: nat

record checkpoint_marker =
  cp_generation :: nat
  cp_retained_requests :: nat
  cp_last_commit :: "commit_marker option"
  cp_ledger_digest :: "byte list"

type_synonym ledger = "(request_key, ledger_record) bmap"

record snapshot =
  sn_generation :: nat
  sn_entries :: "(string \<times> string, byte list) bmap"
  sn_last_commit :: "commit_marker option"

datatype journal_event = Intent commit_marker | Commit commit_marker | Abort commit_marker | Checkpoint checkpoint_marker

section \<open>Checks\<close>

definition secret_new :: "byte list \<Rightarrow> service_error + byte list" where
  "secret_new bytes = (if bytes = [] \<or> MAX_SECRET_BYTES < length bytes then Inl InvalidSecret else Inr bytes)"

definition validate_capacity :: "nat \<Rightarrow> service_error + unit" where
  "validate_capacity capacity =
     (if capacity = 0 \<or> MAX_RECORDS < capacity then Inl RequestCapacityExhausted else Inr ())"

definition validate_identifier :: "string \<Rightarrow> service_error + unit" where
  "validate_identifier v =
     (if v = [] \<or> 256 < length v \<or> \<not> list_all (\<lambda>b. is_ascii_alphanumeric b \<or> b \<in> set ''-_.:'') v
      then Inl InvalidIdentifier else Inr ())"

definition validate_segmented_path :: "string \<Rightarrow> nat \<Rightarrow> bool" where
  "validate_segmented_path v maximum =
     (\<not> (v = [] \<or> maximum < length v \<or> starts_with v ''/'' \<or> ends_with v ''/'' \<or> \<not> is_ascii v) \<and>
      list_all (\<lambda>segment. \<not> (segment = [] \<or> segment = ''.'' \<or> segment = ''..'' \<or>
          \<not> list_all (\<lambda>b. is_ascii_alphanumeric b \<or> b \<in> set ''-_.'') segment)) (split_on (CHR ''/'') v))"

definition validate_durable_namespace :: "string \<Rightarrow> service_error + unit" where
  "validate_durable_namespace v = (if validate_segmented_path v 1024 then Inr () else Inl InvalidNamespace)"

definition validate_resource :: "string \<Rightarrow> service_error + unit" where
  "validate_resource v = (if validate_segmented_path v DURABLE_STRING_BYTES then Inr () else Inl InvalidResource)"

definition validate_request_key :: "request_key \<Rightarrow> service_error + unit" where
  "validate_request_key key =
     rbind (validate_identifier (rk_principal key)) (\<lambda>_.
     rbind (validate_durable_namespace (rk_namespace key)) (\<lambda>_.
     validate_identifier (rk_request_id key)))"

definition zero_digest :: "byte list" where
  "zero_digest = replicate 32 0"

definition validate_ledger_record :: "ledger_record \<Rightarrow> service_error + unit" where
  "validate_ledger_record r =
     (if lr_binding_digest r = zero_digest \<or> lr_generation r = 0 \<or> length (lr_recovery_reference r) \<noteq> 32
         \<or> \<not> list_all is_ascii_hexdigit (lr_recovery_reference r)
      then Inl CorruptState else Inr ())"

definition validate_marker :: "commit_marker \<Rightarrow> service_error + unit" where
  "validate_marker marker =
     rbind (validate_request_key (cm_key marker)) (\<lambda>_.
     if cm_binding_digest marker = zero_digest \<or> length (cm_recovery_reference marker) \<noteq> 32
        \<or> \<not> list_all is_ascii_hexdigit (cm_recovery_reference marker) \<or> cm_generation marker = 0
     then Inl CorruptState else Inr ())"

section \<open>Digests\<close>

definition digest32 :: "'x durable_lib_scheme \<Rightarrow> string \<Rightarrow> byte list \<Rightarrow> byte list" where
  "digest32 lib domain bytes =
     lib_sha256 lib (le_bytes 8 (length domain) @ bytes_of_string domain @ le_bytes 8 (length bytes) @ bytes)"

fun xor_differences :: "byte list \<Rightarrow> byte list \<Rightarrow> byte \<Rightarrow> byte" where
  "xor_differences (a # left) (b # right) difference = xor_differences left right (or difference (xor a b))"
| "xor_differences _ _ difference = difference"

definition constant_time_eq :: "byte list \<Rightarrow> byte list \<Rightarrow> bool" where
  "constant_time_eq left right = (length left = length right \<and> xor_differences left right 0 = 0)"

definition context_with_u64 :: "string \<Rightarrow> nat \<Rightarrow> byte list" where
  "context_with_u64 domain v = bytes_of_string domain @ le_bytes 8 v"

definition snapshot_context :: "nat \<Rightarrow> byte list" where
  "snapshot_context generation = context_with_u64 ''heptabao.durable-service.snapshot.v2'' generation"

definition journal_context :: "nat \<Rightarrow> byte list" where
  "journal_context sequence = context_with_u64 ''heptabao.durable-service.journal.v2'' sequence"

definition ledger_context :: "nat \<Rightarrow> byte list" where
  "ledger_context generation = context_with_u64 ''heptabao.durable-service.ledger.v2'' generation"

definition hex_pair :: "byte \<Rightarrow> string" where
  "hex_pair b = [''0123456789abcdef'' ! (unat b div 16), ''0123456789abcdef'' ! (unat b mod 16)]"

definition recovery_reference :: "'x durable_lib_scheme \<Rightarrow> byte list \<Rightarrow> nat \<Rightarrow> nat \<Rightarrow> string" where
  "recovery_reference lib binding_digest generation intent_sequence =
     concat (map hex_pair (take 16 (digest32 lib ''heptabao.durable-service.recovery.v2''
       (binding_digest @ le_bytes 8 generation @ le_bytes 8 intent_sequence))))"

section \<open>Encoding\<close>

definition write_u16 :: "nat \<Rightarrow> byte list" where
  "write_u16 v = le_bytes 2 v"

definition write_u32 :: "nat \<Rightarrow> byte list" where
  "write_u32 v = le_bytes 4 v"

definition write_u64 :: "nat \<Rightarrow> byte list" where
  "write_u64 v = le_bytes 8 v"

definition write_bytes :: "byte list \<Rightarrow> service_error + byte list" where
  "write_bytes v = (if 2 ^ 32 \<le> length v then Inl CorruptState else Inr (write_u32 (length v) @ v))"

definition encode_string :: "string \<Rightarrow> byte list" where
  "encode_string v = le_bytes 4 (min (length v) (2 ^ 32 - 1)) @ bytes_of_string v"

definition encode_string_checked :: "string \<Rightarrow> service_error + byte list" where
  "encode_string_checked v =
     (if DURABLE_STRING_BYTES * 2 < length v then Inl CorruptState else write_bytes (bytes_of_string v))"

definition binding_digest :: "'x durable_lib_scheme \<Rightarrow> binding \<Rightarrow> byte list" where
  "binding_digest lib b =
     digest32 lib ''heptabao.durable-service.binding.v1''
       (encode_string (rk_principal (bd_key b)) @ encode_string (rk_namespace (bd_key b)) @
        encode_string (rk_request_id (bd_key b)) @ encode_string (bd_resource b) @
        [case bd_kind b of Put \<Rightarrow> 1 | Delete \<Rightarrow> 2] @ bd_authorization_digest b @ bd_value_digest b)"

definition storage_key :: "binding \<Rightarrow> string \<times> string" where
  "storage_key b = (rk_namespace (bd_key b), bd_resource b)"

definition encode_request_key :: "request_key \<Rightarrow> service_error + byte list" where
  "encode_request_key key =
     rbind (encode_string_checked (rk_principal key)) (\<lambda>a.
     rbind (encode_string_checked (rk_namespace key)) (\<lambda>b.
     rbind (encode_string_checked (rk_request_id key)) (\<lambda>c.
     Inr (a @ b @ c))))"

definition encode_marker :: "commit_marker \<Rightarrow> service_error + byte list" where
  "encode_marker marker =
     rbind (encode_request_key (cm_key marker)) (\<lambda>key.
     rbind (encode_string_checked (cm_recovery_reference marker)) (\<lambda>ref.
     Inr (key @ cm_binding_digest marker @ ref @ write_u64 (cm_generation marker))))"

definition encode_last_commit :: "commit_marker option \<Rightarrow> service_error + byte list" where
  "encode_last_commit last_commit =
     (case last_commit of
        Some marker \<Rightarrow> rbind (encode_marker marker) (\<lambda>bytes. Inr (1 # bytes))
      | None \<Rightarrow> Inr [0])"

definition encode_entry :: "(string \<times> string) \<times> byte list \<Rightarrow> service_error + byte list" where
  "encode_entry e =
     rbind (encode_string_checked (fst (fst e))) (\<lambda>namespace.
     rbind (encode_string_checked (snd (fst e))) (\<lambda>resource.
     rbind (write_bytes (snd e)) (\<lambda>v.
     Inr (namespace @ resource @ v))))"

definition encode_snapshot :: "snapshot \<Rightarrow> service_error + byte list" where
  "encode_snapshot snap =
     rbind (encode_last_commit (sn_last_commit snap)) (\<lambda>last.
     if 2 ^ 32 \<le> length (sn_entries snap) then Inl CorruptState
     else
       rbind (rcollect encode_entry (sn_entries snap)) (\<lambda>entries.
       Inr (SNAPSHOT_PLAINTEXT_MAGIC @ write_u64 (sn_generation snap) @ last @
            write_u32 (length (sn_entries snap)) @ concat entries)))"

definition encode_journal_event :: "journal_event \<Rightarrow> service_error + byte list" where
  "encode_journal_event event =
     (case event of
        Intent marker \<Rightarrow> rbind (encode_marker marker) (\<lambda>bytes. Inr (1 # bytes))
      | Commit marker \<Rightarrow> rbind (encode_marker marker) (\<lambda>bytes. Inr (2 # bytes))
      | Abort marker \<Rightarrow> rbind (encode_marker marker) (\<lambda>bytes. Inr (3 # bytes))
      | Checkpoint cp \<Rightarrow>
          rbind (encode_last_commit (cp_last_commit cp)) (\<lambda>last.
          Inr (4 # write_u64 (cp_generation cp) @ write_u64 (cp_retained_requests cp) @ last @ cp_ledger_digest cp)))"

definition encode_ledger_entry :: "request_key \<times> ledger_record \<Rightarrow> service_error + byte list" where
  "encode_ledger_entry e =
     rbind (encode_request_key (fst e)) (\<lambda>key.
     rbind (encode_string_checked (lr_recovery_reference (snd e))) (\<lambda>ref.
     Inr (key @ lr_binding_digest (snd e) @ ref @ write_u64 (lr_generation (snd e)))))"

definition encode_ledger :: "ledger \<Rightarrow> service_error + byte list" where
  "encode_ledger ledger =
     (if 2 ^ 32 \<le> length ledger then Inl CorruptState
      else
        rbind (rcollect encode_ledger_entry ledger) (\<lambda>entries.
        Inr (LEDGER_PLAINTEXT_MAGIC @ write_u32 (length ledger) @ concat entries)))"

section \<open>Decoding\<close>

type_synonym cursor = "byte list"

definition read_exact :: "nat \<Rightarrow> cursor \<Rightarrow> service_error + byte list \<times> cursor" where
  "read_exact n cur = (if length cur < n then Inl CorruptState else Inr (take n cur, drop n cur))"

definition read_u8 :: "cursor \<Rightarrow> service_error + nat \<times> cursor" where
  "read_u8 cur = rbind (read_exact 1 cur) (\<lambda>(bytes, cur). Inr (le_value bytes, cur))"

definition read_u16 :: "cursor \<Rightarrow> service_error + nat \<times> cursor" where
  "read_u16 cur = rbind (read_exact 2 cur) (\<lambda>(bytes, cur). Inr (le_value bytes, cur))"

definition read_u32 :: "cursor \<Rightarrow> service_error + nat \<times> cursor" where
  "read_u32 cur = rbind (read_exact 4 cur) (\<lambda>(bytes, cur). Inr (le_value bytes, cur))"

definition read_u64 :: "cursor \<Rightarrow> service_error + nat \<times> cursor" where
  "read_u64 cur = rbind (read_exact 8 cur) (\<lambda>(bytes, cur). Inr (le_value bytes, cur))"

definition read_array_32 :: "cursor \<Rightarrow> service_error + byte list \<times> cursor" where
  "read_array_32 cur = read_exact 32 cur"

definition read_bytes :: "nat \<Rightarrow> cursor \<Rightarrow> service_error + byte list \<times> cursor" where
  "read_bytes maximum cur =
     rbind (read_u32 cur) (\<lambda>(n, cur).
     if maximum < n then Inl CorruptState else read_exact n cur)"

definition read_string :: "nat \<Rightarrow> cursor \<Rightarrow> service_error + string \<times> cursor" where
  "read_string maximum cur =
     rbind (read_bytes maximum cur) (\<lambda>(bytes, cur).
     let v = map char_of_byte bytes in
     if utf8_valid v then Inr (v, cur) else Inl CorruptState)"

definition cursor_finish :: "cursor \<Rightarrow> service_error + unit" where
  "cursor_finish cur = (if cur = [] then Inr () else Inl CorruptState)"

definition decode_request_key :: "cursor \<Rightarrow> service_error + request_key \<times> cursor" where
  "decode_request_key cur =
     rbind (read_string 256 cur) (\<lambda>(principal, cur).
     rbind (read_string 1024 cur) (\<lambda>(namespace, cur).
     rbind (read_string 256 cur) (\<lambda>(request_id, cur).
     let key = RequestKey principal namespace request_id in
     rbind (validate_request_key key) (\<lambda>_. Inr (key, cur)))))"

definition decode_marker :: "cursor \<Rightarrow> service_error + commit_marker \<times> cursor" where
  "decode_marker cur =
     rbind (decode_request_key cur) (\<lambda>(key, cur).
     rbind (read_array_32 cur) (\<lambda>(digest, cur).
     rbind (read_string 128 cur) (\<lambda>(ref, cur).
     rbind (read_u64 cur) (\<lambda>(generation, cur).
     let marker = \<lparr>cm_key = key, cm_binding_digest = digest, cm_recovery_reference = ref, cm_generation = generation\<rparr> in
     rbind (validate_marker marker) (\<lambda>_. Inr (marker, cur))))))"

definition decode_last_commit :: "cursor \<Rightarrow> service_error + commit_marker option \<times> cursor" where
  "decode_last_commit cur =
     rbind (read_u8 cur) (\<lambda>(tag, cur).
     if tag = 0 then Inr (None, cur)
     else if tag = 1 then rbind (decode_marker cur) (\<lambda>(marker, cur). Inr (Some marker, cur))
     else Inl CorruptState)"

primrec decode_entries ::
  "nat \<Rightarrow> (string \<times> string, byte list) bmap \<Rightarrow> cursor \<Rightarrow>
   service_error + (string \<times> string, byte list) bmap \<times> cursor" where
  "decode_entries 0 entries cur = Inr (entries, cur)"
| "decode_entries (Suc n) entries cur =
     rbind (read_string 1024 cur) (\<lambda>(namespace, cur).
     rbind (read_string DURABLE_STRING_BYTES cur) (\<lambda>(resource, cur).
     rbind (validate_durable_namespace namespace) (\<lambda>_.
     rbind (validate_resource resource) (\<lambda>_.
     rbind (read_bytes MAX_SECRET_BYTES cur) (\<lambda>(v, cur).
     if v = [] then Inl CorruptState
     else if bcontains entries (namespace, resource) then Inl CorruptState
     else decode_entries n (binsert (namespace, resource) v entries) cur)))))"

definition decode_snapshot :: "byte list \<Rightarrow> service_error + snapshot" where
  "decode_snapshot bytes =
     (if length bytes < 4 \<or> take 4 bytes \<noteq> SNAPSHOT_PLAINTEXT_MAGIC then Inl CorruptState
      else
        rbind (read_u64 (drop 4 bytes)) (\<lambda>(generation, cur).
        rbind (decode_last_commit cur) (\<lambda>(last, cur).
        rbind (read_u32 cur) (\<lambda>(count, cur).
        if MAX_RECORDS < count then Inl CorruptState
        else
          rbind (decode_entries count [] cur) (\<lambda>(entries, cur).
          rbind (cursor_finish cur) (\<lambda>_.
          Inr \<lparr>sn_generation = generation, sn_entries = entries, sn_last_commit = last\<rparr>))))))"

definition decode_journal_event :: "byte list \<Rightarrow> service_error + journal_event" where
  "decode_journal_event bytes =
     rbind (read_u8 bytes) (\<lambda>(k, cur).
     rbind (if k = 1 then rbind (decode_marker cur) (\<lambda>(marker, cur). Inr (Intent marker, cur))
            else if k = 2 then rbind (decode_marker cur) (\<lambda>(marker, cur). Inr (Commit marker, cur))
            else if k = 3 then rbind (decode_marker cur) (\<lambda>(marker, cur). Inr (Abort marker, cur))
            else if k = 4 then
              rbind (read_u64 cur) (\<lambda>(generation, cur).
              rbind (read_u64 cur) (\<lambda>(retained, cur).
              rbind (decode_last_commit cur) (\<lambda>(last, cur).
              rbind (read_array_32 cur) (\<lambda>(digest, cur).
              Inr (Checkpoint \<lparr>cp_generation = generation, cp_retained_requests = retained, cp_last_commit = last,
                               cp_ledger_digest = digest\<rparr>, cur)))))
            else Inl CorruptState) (\<lambda>(event, cur).
     rbind (cursor_finish cur) (\<lambda>_. Inr event)))"

primrec decode_ledger_entries :: "nat \<Rightarrow> ledger \<Rightarrow> cursor \<Rightarrow> service_error + ledger \<times> cursor" where
  "decode_ledger_entries 0 ledger cur = Inr (ledger, cur)"
| "decode_ledger_entries (Suc n) ledger cur =
     rbind (decode_request_key cur) (\<lambda>(key, cur).
     rbind (read_array_32 cur) (\<lambda>(digest, cur).
     rbind (read_string 128 cur) (\<lambda>(ref, cur).
     rbind (read_u64 cur) (\<lambda>(generation, cur).
     if bcontains ledger key then Inl CorruptState
     else decode_ledger_entries n
       (binsert key \<lparr>lr_binding_digest = digest, lr_recovery_reference = ref, lr_generation = generation\<rparr> ledger) cur))))"

definition decode_ledger :: "byte list \<Rightarrow> service_error + ledger" where
  "decode_ledger bytes =
     (if length bytes < 4 \<or> take 4 bytes \<noteq> LEDGER_PLAINTEXT_MAGIC then Inl CorruptState
      else
        rbind (read_u32 (drop 4 bytes)) (\<lambda>(count, cur).
        if MAX_RECORDS < count then Inl CorruptState
        else
          rbind (decode_ledger_entries count [] cur) (\<lambda>(ledger, cur).
          rbind (cursor_finish cur) (\<lambda>_. Inr ledger))))"

end
