(* ===== verification/Durable.thy ===== *)
theory Durable
  imports Durable_Codec
begin

text \<open>
  The operations of the durable service of
  \<^verbatim>\<open>crates/heptabao-durable-service/src/lib.rs\<close> on its three files. The directory is a
  function from files to contents. Every write takes the outcome of its system calls as an
  argument: \<open>IoFailed k\<close> is a failure, or a crash of the machine, that leaves the first
  \<open>k\<close> bytes of an appended record in the file, and leaves a replaced file as it was if
  \<open>k = 0\<close> and replaced otherwise, since the replacement is a rename. An operation returns the
  directory and the service together with its result.
\<close>

section \<open>Frames\<close>

definition sealed_snapshot :: "'x durable_lib_scheme \<Rightarrow> nat \<Rightarrow> snapshot \<Rightarrow> service_error + byte list" where
  "sealed_snapshot lib n snap =
     rbind (encode_snapshot snap) (\<lambda>plaintext.
     rbind (ok_or (lib_seal lib n (snapshot_context (sn_generation snap)) plaintext) BarrierFailure) (\<lambda>protected.
     rbind (write_bytes protected) (\<lambda>body.
     let encoded = SNAPSHOT_MAGIC @ write_u64 (sn_generation snap) @ body in
     Inr (encoded @ digest32 lib ''heptabao.durable-service.snapshot-frame.v2'' encoded))))"

text \<open>The generation and the sealed bytes of a frame, once its magic and checksum are right.\<close>

definition open_frame ::
  "'x durable_lib_scheme \<Rightarrow> byte list \<Rightarrow> string \<Rightarrow> byte list \<Rightarrow> service_error + nat \<times> byte list" where
  "open_frame lib magic domain encoded =
     (if length encoded < 4 + 8 + 4 + 32 \<or> take 4 encoded \<noteq> magic then Inl CorruptState
      else
        let frame_len = length encoded - 32 in
        if \<not> constant_time_eq (digest32 lib domain (take frame_len encoded)) (drop frame_len encoded)
        then Inl CorruptState
        else
          rbind (read_u64 (drop 4 (take frame_len encoded))) (\<lambda>(generation, cur).
          rbind (read_bytes MAX_FILE_BYTES cur) (\<lambda>(protected, cur).
          rbind (cursor_finish cur) (\<lambda>_. Inr (generation, protected)))))"

definition decode_snapshot_frame :: "'x durable_lib_scheme \<Rightarrow> byte list \<Rightarrow> service_error + snapshot" where
  "decode_snapshot_frame lib encoded =
     (if starts_with encoded (bytes_of_string ''HBS1'') then Inl LegacySchema
      else
        rbind (open_frame lib SNAPSHOT_MAGIC ''heptabao.durable-service.snapshot-frame.v2'' encoded)
          (\<lambda>(generation, protected).
        rbind (ok_or (lib_open lib (snapshot_context generation) protected) BarrierFailure) (\<lambda>plaintext.
        rbind (decode_snapshot plaintext) (\<lambda>snap.
        if sn_generation snap \<noteq> generation then Inl CorruptState else Inr snap))))"

definition sealed_ledger :: "'x durable_lib_scheme \<Rightarrow> nat \<Rightarrow> nat \<Rightarrow> ledger \<Rightarrow> service_error + byte list" where
  "sealed_ledger lib n generation ledger =
     rbind (encode_ledger ledger) (\<lambda>plaintext.
     rbind (ok_or (lib_seal lib n (ledger_context generation) plaintext) BarrierFailure) (\<lambda>protected.
     rbind (write_bytes protected) (\<lambda>body.
     let encoded = LEDGER_MAGIC @ write_u64 generation @ body in
     Inr (encoded @ digest32 lib ''heptabao.durable-service.ledger-frame.v2'' encoded))))"

definition decode_ledger_frame :: "'x durable_lib_scheme \<Rightarrow> byte list \<Rightarrow> service_error + nat \<times> ledger" where
  "decode_ledger_frame lib encoded =
     rbind (open_frame lib LEDGER_MAGIC ''heptabao.durable-service.ledger-frame.v2'' encoded) (\<lambda>(generation, protected).
     rbind (ok_or (lib_open lib (ledger_context generation) protected) BarrierFailure) (\<lambda>plaintext.
     rbind (decode_ledger plaintext) (\<lambda>ledger. Inr (generation, ledger))))"

definition sealed_journal_record :: "'x durable_lib_scheme \<Rightarrow> nat \<Rightarrow> nat \<Rightarrow> journal_event \<Rightarrow> service_error + byte list" where
  "sealed_journal_record lib n sequence event =
     rbind (encode_journal_event event) (\<lambda>plaintext.
     rbind (ok_or (lib_seal lib n (journal_context sequence) plaintext) BarrierFailure) (\<lambda>protected.
     rbind (write_bytes protected) (\<lambda>body.
     let payload = write_u64 sequence @ body;
         frame = payload @ digest32 lib ''heptabao.durable-service.journal-frame.v2'' payload in
     if 2 ^ 32 \<le> length frame then Inl CorruptState
     else Inr (write_u32 (length frame) @ frame))))"

definition decode_frame :: "'x durable_lib_scheme \<Rightarrow> nat \<Rightarrow> byte list \<Rightarrow> service_error + journal_event" where
  "decode_frame lib expected_sequence frame =
     (let payload = take (length frame - 32) frame in
      if \<not> constant_time_eq (digest32 lib ''heptabao.durable-service.journal-frame.v2'' payload)
            (drop (length frame - 32) frame)
      then Inl CorruptState
      else
        rbind (read_u64 payload) (\<lambda>(sequence, cur).
        if sequence \<noteq> expected_sequence then Inl CorruptState
        else
          rbind (read_bytes MAX_FILE_BYTES cur) (\<lambda>(protected, cur).
          rbind (cursor_finish cur) (\<lambda>_.
          rbind (ok_or (lib_open lib (journal_context sequence) protected) BarrierFailure) (\<lambda>plaintext.
          decode_journal_event plaintext)))))"

text \<open>
  The loop over the frames of the journal: the next sequence number, the events so far, and the
  bytes verified so far. An incomplete last frame ends the loop without an error.
\<close>

function decode_frames ::
  "'x durable_lib_scheme \<Rightarrow> nat \<Rightarrow> journal_event list \<Rightarrow> nat \<Rightarrow> cursor \<Rightarrow>
   service_error + nat \<times> journal_event list \<times> nat \<times> bool" where
  "decode_frames lib expected_sequence events verified_bytes cur =
     (if cur = [] then Inr (expected_sequence - 1, events, verified_bytes, False)
      else if length cur < 4 then Inr (expected_sequence - 1, events, verified_bytes, True)
      else
        let frame_len = le_value (take 4 cur); cur = drop 4 cur in
        if frame_len < 8 + 4 + 32 \<or> MAX_FILE_BYTES < frame_len then Inl CorruptState
        else if length cur < frame_len then Inr (expected_sequence - 1, events, verified_bytes, True)
        else
          rbind (decode_frame lib expected_sequence (take frame_len cur)) (\<lambda>event.
          rbind (ok_or (checked_add64 expected_sequence 1) GenerationOverflow) (\<lambda>next_sequence.
          if MAX_RECORDS < length events + 1 then Inl CorruptState
          else decode_frames lib next_sequence (events @ [event]) (verified_bytes + 4 + frame_len) (drop frame_len cur))))"
  by pat_completeness auto
termination
  by (relation "measure (\<lambda>(lib, e, evs, v, cur). length cur)") auto

declare decode_frames.simps [simp del]

definition decode_journal_frames ::
  "'x durable_lib_scheme \<Rightarrow> byte list \<Rightarrow> service_error + nat \<times> journal_event list \<times> nat \<times> bool" where
  "decode_journal_frames lib encoded =
     (if \<not> starts_with encoded JOURNAL_MAGIC then Inl CorruptState
      else decode_frames lib 1 [] 4 (drop 4 encoded))"

section \<open>Committed state\<close>

primrec check_ledger_records ::
  "nat \<Rightarrow> ledger \<Rightarrow> nat list \<Rightarrow> string list \<Rightarrow> service_error + nat list" where
  "check_ledger_records generation [] generations references = Inr generations"
| "check_ledger_records generation (e # ledger) generations references =
     rbind (validate_request_key (fst e)) (\<lambda>_.
     rbind (validate_ledger_record (snd e)) (\<lambda>_.
     let g = lr_generation (snd e); ref = lr_recovery_reference (snd e) in
     if generation < g \<or> g \<in> set generations \<or> ref \<in> set references then Inl CorruptState
     else check_ledger_records generation ledger (bset_insert g generations) (bset_insert ref references)))"

definition validate_ledger_generation :: "ledger \<Rightarrow> nat \<Rightarrow> service_error + unit" where
  "validate_ledger_generation ledger generation =
     (if length ledger \<noteq> generation then Inl CorruptState
      else
        rbind (check_ledger_records generation ledger [] []) (\<lambda>generations.
        if generations \<noteq> [1..<generation + 1] then Inl CorruptState else Inr ()))"

definition marker_from_ledger :: "request_key \<Rightarrow> ledger_record \<Rightarrow> service_error + commit_marker" where
  "marker_from_ledger key r =
     rbind (validate_ledger_record r) (\<lambda>_.
     let marker = \<lparr>cm_key = key, cm_binding_digest = lr_binding_digest r,
                   cm_recovery_reference = lr_recovery_reference r, cm_generation = lr_generation r\<rparr> in
     rbind (validate_marker marker) (\<lambda>_. Inr marker))"

definition record_of_marker :: "commit_marker \<Rightarrow> ledger_record" where
  "record_of_marker marker =
     \<lparr>lr_binding_digest = cm_binding_digest marker, lr_recovery_reference = cm_recovery_reference marker,
      lr_generation = cm_generation marker\<rparr>"

text \<open>The marker of the record of the newest generation must be the snapshot's or checkpoint's own.\<close>

definition check_frontier :: "ledger \<Rightarrow> nat \<Rightarrow> commit_marker option \<Rightarrow> service_error + unit" where
  "check_frontier ledger generation last_commit =
     rbind (ok_or (find (\<lambda>e. lr_generation (snd e) = generation) ledger) CorruptState) (\<lambda>e.
     rbind (marker_from_ledger (fst e) (snd e)) (\<lambda>marker.
     if last_commit \<noteq> Some marker then Inl CorruptState else Inr ()))"

definition validate_committed_state :: "snapshot \<Rightarrow> nat \<Rightarrow> ledger \<Rightarrow> service_error + unit" where
  "validate_committed_state snap ledger_generation ledger =
     (if sn_generation snap \<noteq> ledger_generation then Inl CorruptState
      else
        rbind (validate_ledger_generation ledger ledger_generation) (\<lambda>_.
        if ledger_generation = 0 then
          if sn_last_commit snap \<noteq> None \<or> ledger \<noteq> [] then Inl CorruptState else Inr ()
        else check_frontier ledger ledger_generation (sn_last_commit snap)))"

definition ledger_prefix :: "ledger \<Rightarrow> nat \<Rightarrow> service_error + ledger" where
  "ledger_prefix ledger generation =
     (let pre = filter (\<lambda>e. lr_generation (snd e) \<le> generation) ledger in
      rbind (validate_ledger_generation pre generation) (\<lambda>_. Inr pre))"

definition checkpoint_marker_of :: "'x durable_lib_scheme \<Rightarrow> snapshot \<Rightarrow> ledger \<Rightarrow> service_error + checkpoint_marker" where
  "checkpoint_marker_of lib snap ledger =
     rbind (validate_committed_state snap (sn_generation snap) ledger) (\<lambda>_.
     rbind (encode_ledger ledger) (\<lambda>encoded.
     Inr \<lparr>cp_generation = sn_generation snap, cp_retained_requests = length ledger, cp_last_commit = sn_last_commit snap,
          cp_ledger_digest = digest32 lib ''heptabao.durable-service.checkpoint-ledger.v1'' encoded\<rparr>))"

definition validate_checkpoint :: "'x durable_lib_scheme \<Rightarrow> checkpoint_marker \<Rightarrow> ledger \<Rightarrow> service_error + unit" where
  "validate_checkpoint lib cp pre =
     (if cp_retained_requests cp \<noteq> cp_generation cp \<or> cp_retained_requests cp \<noteq> length pre then Inl CorruptState
      else
        rbind (validate_ledger_generation pre (cp_generation cp)) (\<lambda>_.
        rbind (encode_ledger pre) (\<lambda>encoded.
        if \<not> constant_time_eq (cp_ledger_digest cp)
              (digest32 lib ''heptabao.durable-service.checkpoint-ledger.v1'' encoded)
        then Inl CorruptState
        else if cp_generation cp = 0 then
          if cp_last_commit cp \<noteq> None then Inl CorruptState else Inr ()
        else check_frontier pre (cp_generation cp) (cp_last_commit cp))))"

section \<open>The directory\<close>

datatype durable_file = State_File | Journal_File | Ledger_File

type_synonym disk = "durable_file \<Rightarrow> byte list option"

datatype directory_guard_error =
    RootMustBeAbsolute
  | UnsupportedPlatform
  | UnsafeRoot
  | RootIdentityChanged
  | DescriptorPathUnavailable
  | WriterBusy
  | InvalidLeafName
  | GuardIo

definition map_guard_error :: "directory_guard_error \<Rightarrow> service_error" where
  "map_guard_error e =
     (case e of
        WriterBusy \<Rightarrow> WriterLocked
      | UnsupportedPlatform \<Rightarrow> UnsupportedProfile
      | DescriptorPathUnavailable \<Rightarrow> UnsupportedProfile
      | GuardIo \<Rightarrow> ServiceIo
      | _ \<Rightarrow> InvalidRoot)"

definition read_bounded :: "disk \<Rightarrow> durable_file \<Rightarrow> service_error + byte list" where
  "read_bounded disk file =
     rbind (ok_or (disk file) ServiceIo) (\<lambda>bytes.
     if MAX_FILE_BYTES < length bytes then Inl CorruptState else Inr bytes)"

definition atomic_write :: "io_result \<Rightarrow> durable_file \<Rightarrow> byte list \<Rightarrow> disk \<Rightarrow> disk \<times> (service_error + unit)" where
  "atomic_write io target bytes disk =
     (if MAX_FILE_BYTES < length bytes then (disk, Inl CorruptState)
      else case io of
        IoDone \<Rightarrow> (disk(target := Some bytes), Inr ())
      | IoFailed k \<Rightarrow> (if k = 0 then disk else disk(target := Some bytes), Inl ServiceIo))"

definition append_journal_frame :: "io_result \<Rightarrow> byte list \<Rightarrow> disk \<Rightarrow> disk \<times> (service_error + unit)" where
  "append_journal_frame io frame disk =
     (case disk Journal_File of
        None \<Rightarrow> (disk, Inl ServiceIo)
      | Some bytes \<Rightarrow>
          (case io of
             IoDone \<Rightarrow> (disk(Journal_File := Some (bytes @ frame)), Inr ())
           | IoFailed k \<Rightarrow> (disk(Journal_File := Some (bytes @ take k frame)), Inl ServiceIo)))"

definition initialize_journal :: "io_result \<Rightarrow> disk \<Rightarrow> disk \<times> (service_error + unit)" where
  "initialize_journal io disk =
     (case disk Journal_File of
        Some _ \<Rightarrow> (disk, Inl ServiceIo)
      | None \<Rightarrow>
          (case io of
             IoDone \<Rightarrow> (disk(Journal_File := Some JOURNAL_MAGIC), Inr ())
           | IoFailed k \<Rightarrow> (disk(Journal_File := Some (take k JOURNAL_MAGIC)), Inl ServiceIo)))"

text \<open>\<^verbatim>\<open>set_len\<close>, which only ever shortens the journal here.\<close>

definition truncate_journal :: "io_result \<Rightarrow> nat \<Rightarrow> disk \<Rightarrow> disk \<times> (service_error + unit)" where
  "truncate_journal io n disk =
     (case disk Journal_File of
        None \<Rightarrow> (disk, Inl ServiceIo)
      | Some bytes \<Rightarrow>
          (case io of
             IoDone \<Rightarrow> (disk(Journal_File := Some (take n bytes)), Inr ())
           | IoFailed k \<Rightarrow> (if k = 0 then disk else disk(Journal_File := Some (take n bytes)), Inl ServiceIo)))"

section \<open>The service\<close>

datatype failpoint = NoFailpoint | AfterIntent | AfterSnapshotPublication | AfterCommitJournal

datatype mutation_outcome = Committed nat string | Duplicate nat string

datatype reconciliation_status = StatusCommitted nat | StatusAborted | StatusUnknown

record durable_service =
  ds_snapshot :: snapshot
  ds_ledger :: ledger
  ds_reconciliation :: "(string, reconciliation_status) bmap"
  ds_journal_sequence :: nat
  ds_journal_bytes :: nat
  ds_journal_limit :: nat
  ds_max_retained_requests :: nat
  ds_unresolved :: bool

type_synonym world = "disk \<times> durable_service"

text \<open>A write of the directory by a method of the service.\<close>

definition on_disk :: "(disk \<Rightarrow> disk \<times> (service_error + unit)) \<Rightarrow> world \<Rightarrow> world \<times> (service_error + unit)" where
  "on_disk write w = (case write (fst w) of (disk, r) \<Rightarrow> ((disk, snd w), r))"

definition on_service :: "(durable_service \<Rightarrow> durable_service) \<Rightarrow> world \<Rightarrow> world" where
  "on_service change w = (fst w, change (snd w))"

definition append_frame :: "io_result \<Rightarrow> byte list \<Rightarrow> world \<Rightarrow> world \<times> (service_error + unit)" where
  "append_frame io frame w =
     (let svc = snd w in
      sbind (w,
        rbind (ok_or (checked_add64 (ds_journal_sequence svc) 1) GenerationOverflow) (\<lambda>next_sequence.
        rbind (ok_or (checked_add64 (ds_journal_bytes svc) (length frame)) JournalCapacityExhausted) (\<lambda>size.
        if ds_journal_limit svc < size \<or> MAX_RECORDS < next_sequence then Inl JournalCapacityExhausted
        else Inr (next_sequence, size)))) (\<lambda>w (next_sequence, size).
      sbind (on_disk (append_journal_frame io frame) w) (\<lambda>w _.
      (on_service (\<lambda>svc. svc\<lparr>ds_journal_sequence := next_sequence, ds_journal_bytes := size\<rparr>) w, Inr ()))))"

definition append_event ::
  "'x durable_lib_scheme \<Rightarrow> nat \<Rightarrow> io_result \<Rightarrow> journal_event \<Rightarrow> world \<Rightarrow> world \<times> (service_error + unit)" where
  "append_event lib n io event w =
     sbind (w,
       rbind (ok_or (checked_add64 (ds_journal_sequence (snd w)) 1) GenerationOverflow) (\<lambda>sequence.
       sealed_journal_record lib n sequence event)) (\<lambda>w frame.
     append_frame io frame w)"

definition create_new ::
  "'x durable_lib_scheme \<Rightarrow> nat \<Rightarrow> (nat \<Rightarrow> io_result) \<Rightarrow> directory_guard_error + unit \<Rightarrow> nat \<Rightarrow> disk \<Rightarrow>
   disk \<times> (service_error + durable_service)" where
  "create_new lib n io guard capacity disk =
     (let snap = \<lparr>sn_generation = 0, sn_entries = [], sn_last_commit = None\<rparr> in
      sbind (disk,
        rbind (validate_capacity capacity) (\<lambda>_.
        if list_ex (\<lambda>f. disk f \<noteq> None) [State_File, Journal_File, Ledger_File] then Inl RootNotEmpty
        else
          rbind (map_err map_guard_error guard) (\<lambda>_.
          sealed_snapshot lib n snap))) (\<lambda>disk snapshot_bytes.
      sbind (atomic_write (io 0) State_File snapshot_bytes disk) (\<lambda>disk _.
      sbind (initialize_journal (io 1) disk) (\<lambda>disk _.
      sbind (disk, sealed_ledger lib (n + 1) 0 []) (\<lambda>disk ledger_bytes.
      sbind (atomic_write (io 2) Ledger_File ledger_bytes disk) (\<lambda>disk _.
      (disk, Inr \<lparr>ds_snapshot = snap, ds_ledger = [], ds_reconciliation = [], ds_journal_sequence = 0,
                  ds_journal_bytes = length JOURNAL_MAGIC, ds_journal_limit = MAX_FILE_BYTES,
                  ds_max_retained_requests = capacity, ds_unresolved = False\<rparr>)))))))"

section \<open>Mutations\<close>

text \<open>
  The mutation of \<^verbatim>\<open>execute\<close> up to its first write: what it will write, the new snapshot and
  ledger, and the marker.
\<close>

record mutation_plan =
  mp_marker :: commit_marker
  mp_snapshot :: snapshot
  mp_ledger :: ledger
  mp_snapshot_bytes :: "byte list"
  mp_ledger_bytes :: "byte list"
  mp_intent :: "byte list"
  mp_commit :: "byte list"

definition changed_entries ::
  "binding \<Rightarrow> byte list option \<Rightarrow> (string \<times> string, byte list) bmap \<Rightarrow>
   service_error + (string \<times> string, byte list) bmap" where
  "changed_entries b v entries =
     (case bd_kind b of
        Put \<Rightarrow> rbind (ok_or v InvalidSecret) (\<lambda>v. Inr (binsert (storage_key b) v entries))
      | Delete \<Rightarrow> Inr (bremove (storage_key b) entries))"

definition plan_mutation ::
  "'x durable_lib_scheme \<Rightarrow> nat \<Rightarrow> durable_service \<Rightarrow> binding \<Rightarrow> byte list option \<Rightarrow> service_error + mutation_plan" where
  "plan_mutation lib n svc b v =
     (let digest = binding_digest lib b in
      if length (ds_ledger svc) \<ge> ds_max_retained_requests svc then Inl RequestCapacityExhausted
      else
        rbind (ok_or (checked_add64 (sn_generation (ds_snapshot svc)) 1) GenerationOverflow) (\<lambda>generation.
        rbind (ok_or (checked_add64 (ds_journal_sequence svc) 1) GenerationOverflow) (\<lambda>intent_sequence.
        rbind (ok_or (checked_add64 intent_sequence 1) GenerationOverflow) (\<lambda>terminal_sequence.
        let marker = \<lparr>cm_key = bd_key b, cm_binding_digest = digest,
                      cm_recovery_reference = recovery_reference lib digest generation intent_sequence,
                      cm_generation = generation\<rparr> in
        rbind (changed_entries b v (sn_entries (ds_snapshot svc))) (\<lambda>entries.
        let snap = \<lparr>sn_generation = generation, sn_entries = entries, sn_last_commit = Some marker\<rparr>;
            ledger = binsert (bd_key b) (record_of_marker marker) (ds_ledger svc) in
        rbind (sealed_snapshot lib n snap) (\<lambda>snapshot_bytes.
        rbind (sealed_ledger lib (n + 1) generation ledger) (\<lambda>ledger_bytes.
        rbind (sealed_journal_record lib (n + 2) intent_sequence (Intent marker)) (\<lambda>intent.
        rbind (sealed_journal_record lib (n + 3) terminal_sequence (Commit marker)) (\<lambda>commit.
        if MAX_FILE_BYTES < length snapshot_bytes \<or> MAX_FILE_BYTES < length ledger_bytes
        then Inl RequestCapacityExhausted
        else if MAX_RECORDS < terminal_sequence
          \<or> ds_journal_limit svc < ds_journal_bytes svc + length intent + length commit
        then Inl JournalCapacityExhausted
        else Inr \<lparr>mp_marker = marker, mp_snapshot = snap, mp_ledger = ledger, mp_snapshot_bytes = snapshot_bytes,
                  mp_ledger_bytes = ledger_bytes, mp_intent = intent, mp_commit = commit\<rparr>)))))))))"

text \<open>The writes, in their order; the failpoint stops after one of them.\<close>

definition publish_mutation ::
  "(nat \<Rightarrow> io_result) \<Rightarrow> failpoint \<Rightarrow> mutation_plan \<Rightarrow> world \<Rightarrow> world \<times> (service_error + unit)" where
  "publish_mutation io fp plan w =
     sbind (append_frame (io 0) (mp_intent plan) w) (\<lambda>w _.
     if fp = AfterIntent then (w, Inl RecoveryRequired)
     else
       sbind (on_disk (atomic_write (io 1) State_File (mp_snapshot_bytes plan)) w) (\<lambda>w _.
       let w = on_service (\<lambda>svc. svc\<lparr>ds_snapshot := mp_snapshot plan\<rparr>) w in
       if fp = AfterSnapshotPublication then (w, Inl RecoveryRequired)
       else
         sbind (append_frame (io 2) (mp_commit plan) w) (\<lambda>w _.
         if fp = AfterCommitJournal then (w, Inl RecoveryRequired)
         else
           sbind (on_disk (atomic_write (io 3) Ledger_File (mp_ledger_bytes plan)) w) (\<lambda>w _.
           (on_service (\<lambda>svc. svc\<lparr>ds_ledger := mp_ledger plan\<rparr>) w, Inr ())))))"

definition execute ::
  "'x durable_lib_scheme \<Rightarrow> nat \<Rightarrow> (nat \<Rightarrow> io_result) \<Rightarrow> directory_guard_error + unit \<Rightarrow> failpoint \<Rightarrow> binding \<Rightarrow>
   byte list option \<Rightarrow> world \<Rightarrow> world \<times> (service_error + mutation_outcome)" where
  "execute lib n io guard fp b v w =
     (let svc = snd w in
      if ds_unresolved svc then (w, Inl RecoveryRequired)
      else
        sbind (w, map_err map_guard_error guard) (\<lambda>w _.
        case map_of (ds_ledger svc) (bd_key b) of
          Some existing \<Rightarrow>
            (w, if lr_binding_digest existing \<noteq> binding_digest lib b then Inl RequestBindingConflict
                else Inr (Duplicate (lr_generation existing) (lr_recovery_reference existing)))
        | None \<Rightarrow>
            sbind (w, plan_mutation lib n svc b v) (\<lambda>w plan.
            let ref = cm_recovery_reference (mp_marker plan); generation = cm_generation (mp_marker plan) in
            case publish_mutation io fp plan (on_service (\<lambda>svc. svc\<lparr>ds_unresolved := True\<rparr>) w) of
              (w, Inl _) \<Rightarrow> (w, Inl (OutcomeUnknown ref))
            | (w, Inr _) \<Rightarrow>
                (on_service (\<lambda>svc. svc\<lparr>ds_reconciliation := binsert ref (StatusCommitted generation) (ds_reconciliation svc),
                                       ds_unresolved := False\<rparr>) w,
                 Inr (Committed generation ref)))))"

record put_request =
  pq_principal :: string
  pq_namespace :: string
  pq_request_id :: string
  pq_resource :: string
  pq_authorization_digest :: "byte list"
  pq_value :: "byte list"

record delete_request =
  dq_principal :: string
  dq_namespace :: string
  dq_request_id :: string
  dq_resource :: string
  dq_authorization_digest :: "byte list"

definition validate_request ::
  "string \<Rightarrow> string \<Rightarrow> string \<Rightarrow> string \<Rightarrow> byte list \<Rightarrow> service_error + unit" where
  "validate_request who namespace request_id resource authorization_digest =
     rbind (validate_identifier who) (\<lambda>_.
     rbind (validate_durable_namespace namespace) (\<lambda>_.
     rbind (validate_identifier request_id) (\<lambda>_.
     rbind (validate_resource resource) (\<lambda>_.
     if authorization_digest = zero_digest then Inl InvalidAuthorizationDigest else Inr ()))))"

definition put_binding :: "'x durable_lib_scheme \<Rightarrow> put_request \<Rightarrow> binding" where
  "put_binding lib req =
     \<lparr>bd_key = RequestKey (pq_principal req) (pq_namespace req) (pq_request_id req), bd_resource = pq_resource req,
      bd_kind = Put, bd_authorization_digest = pq_authorization_digest req,
      bd_value_digest = digest32 lib ''heptabao.durable-service.value.v1'' (pq_value req)\<rparr>"

definition put_with_failpoint ::
  "'x durable_lib_scheme \<Rightarrow> nat \<Rightarrow> (nat \<Rightarrow> io_result) \<Rightarrow> directory_guard_error + unit \<Rightarrow> failpoint \<Rightarrow> put_request \<Rightarrow>
   world \<Rightarrow> world \<times> (service_error + mutation_outcome)" where
  "put_with_failpoint lib n io guard fp req w =
     sbind (w, validate_request (pq_principal req) (pq_namespace req) (pq_request_id req) (pq_resource req)
                 (pq_authorization_digest req)) (\<lambda>w _.
     execute lib n io guard fp (put_binding lib req) (Some (pq_value req)) w)"

definition delete_binding :: "'x durable_lib_scheme \<Rightarrow> delete_request \<Rightarrow> binding" where
  "delete_binding lib req =
     \<lparr>bd_key = RequestKey (dq_principal req) (dq_namespace req) (dq_request_id req), bd_resource = dq_resource req,
      bd_kind = Delete, bd_authorization_digest = dq_authorization_digest req,
      bd_value_digest = digest32 lib ''heptabao.durable-service.delete.v1'' (bytes_of_string ''delete'')\<rparr>"

definition delete_with_failpoint ::
  "'x durable_lib_scheme \<Rightarrow> nat \<Rightarrow> (nat \<Rightarrow> io_result) \<Rightarrow> directory_guard_error + unit \<Rightarrow> failpoint \<Rightarrow> delete_request \<Rightarrow>
   world \<Rightarrow> world \<times> (service_error + mutation_outcome)" where
  "delete_with_failpoint lib n io guard fp req w =
     sbind (w, validate_request (dq_principal req) (dq_namespace req) (dq_request_id req) (dq_resource req)
                 (dq_authorization_digest req)) (\<lambda>w _.
     execute lib n io guard fp (delete_binding lib req) None w)"

section \<open>Reading\<close>

definition durable_get :: "durable_service \<Rightarrow> string \<Rightarrow> string \<Rightarrow> service_error + byte list option" where
  "durable_get svc namespace resource =
     rbind (validate_durable_namespace namespace) (\<lambda>_.
     rbind (validate_resource resource) (\<lambda>_.
     if ds_unresolved svc then Inl RecoveryRequired
     else Inr (map_of (sn_entries (ds_snapshot svc)) (namespace, resource))))"

definition child_name :: "string \<Rightarrow> string \<Rightarrow> string option" where
  "child_name pre resource =
     Option.bind (strip_prefix pre resource) (\<lambda>suff.
     case split_once (CHR ''/'') suff of
       Some (child, _) \<Rightarrow> Some (child @ ''/'')
     | None \<Rightarrow> if suff = [] then None else Some suff)"

definition durable_list :: "durable_service \<Rightarrow> string \<Rightarrow> string \<Rightarrow> service_error + string list" where
  "durable_list svc namespace pre =
     rbind (validate_durable_namespace namespace) (\<lambda>_.
     let pre = unwrap_or (strip_suffix ''/'' pre) pre in
     rbind (if pre = [] then Inr () else validate_resource pre) (\<lambda>_.
     if ds_unresolved svc then Inl RecoveryRequired
     else
       let pre = (if pre = [] then [] else pre @ ''/'') in
       Inr (bset_of (List.map_filter (\<lambda>e. if fst (fst e) = namespace then child_name pre (snd (fst e)) else None)
         (sn_entries (ds_snapshot svc))))))"

definition reconcile :: "durable_service \<Rightarrow> string \<Rightarrow> reconciliation_status" where
  "reconcile svc ref = unwrap_or (map_of (ds_reconciliation svc) ref) StatusUnknown"

section \<open>Recovery\<close>

record recovery =
  rc_pending :: "commit_marker option"
  rc_committed :: "(request_key, commit_marker) bmap"
  rc_last_commit :: "commit_marker option"
  rc_generation :: nat
  rc_references :: "string list"
  rc_saw_checkpoint :: bool
  rc_reconciliation :: "(string, reconciliation_status) bmap"

definition recovery_start :: "(string, reconciliation_status) bmap \<Rightarrow> recovery" where
  "recovery_start reconciliation =
     \<lparr>rc_pending = None, rc_committed = [], rc_last_commit = None, rc_generation = 0, rc_references = [],
      rc_saw_checkpoint = False, rc_reconciliation = reconciliation\<rparr>"

primrec adopt_checkpoint :: "ledger \<Rightarrow> recovery \<Rightarrow> service_error + recovery" where
  "adopt_checkpoint [] rc = Inr rc"
| "adopt_checkpoint (e # pre) rc =
     rbind (marker_from_ledger (fst e) (snd e)) (\<lambda>marker.
     if cm_recovery_reference marker \<in> set (rc_references rc) then Inl CorruptState
     else adopt_checkpoint pre
       (rc\<lparr>rc_references := bset_insert (cm_recovery_reference marker) (rc_references rc),
           rc_committed := binsert (fst e) marker (rc_committed rc)\<rparr>))"

definition recover_event ::
  "'x durable_lib_scheme \<Rightarrow> ledger \<Rightarrow> nat \<Rightarrow> journal_event \<Rightarrow> recovery \<Rightarrow> service_error + recovery" where
  "recover_event lib ledger offset event rc =
     (case event of
        Checkpoint cp \<Rightarrow>
          if offset \<noteq> 0 \<or> rc_saw_checkpoint rc \<or> rc_pending rc \<noteq> None \<or> rc_committed rc \<noteq> [] then Inl CorruptState
          else
            rbind (ledger_prefix ledger (cp_generation cp)) (\<lambda>pre.
            rbind (validate_checkpoint lib cp pre) (\<lambda>_.
            adopt_checkpoint pre
              (rc\<lparr>rc_saw_checkpoint := True, rc_generation := cp_generation cp, rc_last_commit := cp_last_commit cp\<rparr>)))
      | Intent marker \<Rightarrow>
          rbind (validate_marker marker) (\<lambda>_.
          rbind (ok_or (checked_add64 offset 1) GenerationOverflow) (\<lambda>sequence.
          if rc_pending rc \<noteq> None \<or> bcontains (rc_committed rc) (cm_key marker) then Inl CorruptState
          else
            rbind (ok_or (checked_add64 (rc_generation rc) 1) GenerationOverflow) (\<lambda>next_generation.
            if cm_generation marker \<noteq> next_generation
               \<or> cm_recovery_reference marker \<noteq>
                   recovery_reference lib (cm_binding_digest marker) (cm_generation marker) sequence
               \<or> cm_recovery_reference marker \<in> set (rc_references rc)
            then Inl CorruptState
            else Inr (rc\<lparr>rc_references := bset_insert (cm_recovery_reference marker) (rc_references rc),
                         rc_pending := Some marker\<rparr>))))
      | Commit marker \<Rightarrow>
          if rc_pending rc \<noteq> Some marker then Inl CorruptState
          else Inr (rc\<lparr>rc_pending := None, rc_generation := cm_generation marker, rc_last_commit := Some marker,
                       rc_committed := binsert (cm_key marker) marker (rc_committed rc)\<rparr>)
      | Abort marker \<Rightarrow>
          if rc_pending rc \<noteq> Some marker then Inl CorruptState
          else Inr (rc\<lparr>rc_pending := None,
                       rc_reconciliation := binsert (cm_recovery_reference marker) StatusAborted (rc_reconciliation rc)\<rparr>))"

primrec recover_events ::
  "'x durable_lib_scheme \<Rightarrow> ledger \<Rightarrow> nat \<Rightarrow> journal_event list \<Rightarrow> recovery \<Rightarrow> service_error + recovery" where
  "recover_events lib ledger offset [] rc = Inr rc"
| "recover_events lib ledger offset (event # events) rc =
     rbind (recover_event lib ledger offset event rc) (recover_events lib ledger (Suc offset) events)"

definition published_pending :: "snapshot \<Rightarrow> recovery \<Rightarrow> bool" where
  "published_pending snap rc =
     is_some_and (rc_pending rc) (\<lambda>marker. sn_generation snap = cm_generation marker \<and> sn_last_commit snap = Some marker)"

primrec check_committed :: "nat \<Rightarrow> ledger \<Rightarrow> (request_key, commit_marker) bmap \<Rightarrow> service_error + unit" where
  "check_committed ledger_generation ledger [] = Inr ()"
| "check_committed ledger_generation ledger (e # committed) =
     rbind (if cm_generation (snd e) \<le> ledger_generation then
              rbind (ok_or (map_of ledger (fst e)) CorruptState) (\<lambda>r.
              if record_of_marker (snd e) \<noteq> r then Inl CorruptState else Inr ())
            else if bcontains ledger (fst e) then Inl CorruptState else Inr ()) (\<lambda>_.
     check_committed ledger_generation ledger committed)"

definition check_recovery ::
  "durable_service \<Rightarrow> nat \<Rightarrow> recovery \<Rightarrow> service_error + unit" where
  "check_recovery svc ledger_generation rc =
     (let snap = ds_snapshot svc; published = published_pending snap rc in
      if length (rc_committed rc) \<noteq> rc_generation rc then Inl CorruptState
      else if \<not> published \<and> (sn_generation snap \<noteq> rc_generation rc \<or> sn_last_commit snap \<noteq> rc_last_commit rc)
      then Inl CorruptState
      else if sn_generation snap = 0 \<and> (sn_entries snap \<noteq> [] \<or> sn_last_commit snap \<noteq> None) then Inl CorruptState
      else if rc_generation rc < ledger_generation \<or> saturating_add64 ledger_generation 1 < rc_generation rc
      then Inl CorruptState
      else
        rbind (check_committed ledger_generation (ds_ledger svc) (rc_committed rc)) (\<lambda>_.
        if list_ex (\<lambda>e. \<not> bcontains (rc_committed rc) (fst e)) (ds_ledger svc) then Inl CorruptState
        else if ds_max_retained_requests svc < length (rc_committed rc) + (if published then 1 else 0)
        then Inl RequestCapacityExhausted
        else Inr ()))"

text \<open>The pending mutation is committed if its snapshot was published, and aborted otherwise.\<close>

definition settle_pending ::
  "'x durable_lib_scheme \<Rightarrow> nat \<Rightarrow> io_result \<Rightarrow> recovery \<Rightarrow> world \<Rightarrow> world \<times> (service_error + recovery)" where
  "settle_pending lib n io rc w =
     (case rc_pending rc of
        None \<Rightarrow> (w, Inr rc)
      | Some marker \<Rightarrow>
          if published_pending (ds_snapshot (snd w)) rc then
            sbind (append_event lib n io (Commit marker) w) (\<lambda>w _.
            (w, Inr (rc\<lparr>rc_committed := binsert (cm_key marker) marker (rc_committed rc)\<rparr>)))
          else
            sbind (append_event lib n io (Abort marker) w) (\<lambda>w _.
            (w, Inr (rc\<lparr>rc_reconciliation := binsert (cm_recovery_reference marker) StatusAborted (rc_reconciliation rc)\<rparr>))))"

definition recovered_ledger :: "(request_key, commit_marker) bmap \<Rightarrow> ledger" where
  "recovered_ledger committed = bmap_vals record_of_marker committed"

definition recovered_reconciliation ::
  "(request_key, commit_marker) bmap \<Rightarrow> (string, reconciliation_status) bmap \<Rightarrow> (string, reconciliation_status) bmap" where
  "recovered_reconciliation committed reconciliation =
     fold (\<lambda>e. binsert (cm_recovery_reference (snd e)) (StatusCommitted (cm_generation (snd e)))) committed reconciliation"

definition recover ::
  "'x durable_lib_scheme \<Rightarrow> nat \<Rightarrow> (nat \<Rightarrow> io_result) \<Rightarrow> journal_event list \<Rightarrow> nat \<Rightarrow> bool \<Rightarrow> world \<Rightarrow>
   world \<times> (service_error + unit)" where
  "recover lib n io events ledger_generation incomplete_tail w =
     (let svc = snd w in
      sbind (w,
        rbind (validate_ledger_generation (ds_ledger svc) ledger_generation) (\<lambda>_.
        rbind (recover_events lib (ds_ledger svc) 0 events (recovery_start (ds_reconciliation svc))) (\<lambda>rc.
        rbind (check_recovery svc ledger_generation rc) (\<lambda>_. Inr rc)))) (\<lambda>w rc.
      sbind (if incomplete_tail then on_disk (truncate_journal (io 0) (ds_journal_bytes (snd w))) w else (w, Inr ())) (\<lambda>w _.
      sbind (settle_pending lib n (io 1) rc w) (\<lambda>w rc.
      let w = on_service (\<lambda>svc. svc\<lparr>ds_reconciliation := recovered_reconciliation (rc_committed rc) (rc_reconciliation rc),
                                    ds_ledger := recovered_ledger (rc_committed rc)\<rparr>) w in
      sbind (w, sealed_ledger lib (n + 1) (sn_generation (ds_snapshot (snd w))) (ds_ledger (snd w))) (\<lambda>w bytes.
      sbind (on_disk (atomic_write (io 2) Ledger_File bytes) w) (\<lambda>w _.
      (on_service (\<lambda>svc. svc\<lparr>ds_unresolved := False\<rparr>) w, Inr ())))))))"

definition reopen ::
  "'x durable_lib_scheme \<Rightarrow> nat \<Rightarrow> (nat \<Rightarrow> io_result) \<Rightarrow> directory_guard_error + unit \<Rightarrow> nat \<Rightarrow> disk \<Rightarrow>
   disk \<times> (service_error + durable_service)" where
  "reopen lib n io guard capacity disk =
     sbind (disk,
       rbind (validate_capacity capacity) (\<lambda>_.
       rbind (map_err map_guard_error guard) (\<lambda>_.
       rbind (read_bounded disk State_File) (\<lambda>state_bytes.
       rbind (decode_snapshot_frame lib state_bytes) (\<lambda>snap.
       rbind (read_bounded disk Journal_File) (\<lambda>journal.
       rbind (decode_journal_frames lib journal) (\<lambda>(sequence, events, verified, incomplete_tail).
       rbind (read_bounded disk Ledger_File) (\<lambda>ledger_bytes.
       rbind (decode_ledger_frame lib ledger_bytes) (\<lambda>(ledger_generation, ledger).
       Inr (events, ledger_generation, incomplete_tail,
            \<lparr>ds_snapshot = snap, ds_ledger = ledger, ds_reconciliation = [], ds_journal_sequence = sequence,
             ds_journal_bytes = verified, ds_journal_limit = MAX_FILE_BYTES, ds_max_retained_requests = capacity,
             ds_unresolved = False\<rparr>)))))))))) (\<lambda>disk (events, ledger_generation, incomplete_tail, svc).
     case recover lib n io events ledger_generation incomplete_tail (disk, svc) of
       (w, Inl e) \<Rightarrow> (fst w, Inl e)
     | (w, Inr _) \<Rightarrow> (fst w, Inr (snd w)))"

section \<open>Compaction and backup\<close>

record compaction_outcome =
  co_generation :: nat
  co_retained_requests :: nat
  co_journal_bytes_before :: nat
  co_journal_bytes_after :: nat

record restore_outcome =
  ro_previous_generation :: nat
  ro_restored_generation :: nat
  ro_retained_requests :: nat

record backup_components =
  bk_snapshot_bytes :: "byte list"
  bk_journal_bytes :: "byte list"
  bk_ledger_bytes :: "byte list"
  bk_snapshot :: snapshot
  bk_ledger :: ledger
  bk_journal_sequence :: nat

text \<open>A journal that holds one checkpoint and nothing else.\<close>

definition checkpoint_journal :: "'x durable_lib_scheme \<Rightarrow> nat \<Rightarrow> durable_service \<Rightarrow> service_error + byte list" where
  "checkpoint_journal lib n svc =
     rbind (checkpoint_marker_of lib (ds_snapshot svc) (ds_ledger svc)) (\<lambda>cp.
     rbind (sealed_journal_record lib n 1 (Checkpoint cp)) (\<lambda>frame.
     Inr (JOURNAL_MAGIC @ frame)))"

definition durable_compact ::
  "'x durable_lib_scheme \<Rightarrow> nat \<Rightarrow> io_result \<Rightarrow> directory_guard_error + unit \<Rightarrow> world \<Rightarrow>
   world \<times> (service_error + compaction_outcome)" where
  "durable_compact lib n io guard w =
     (let svc = snd w in
      if ds_unresolved svc then (w, Inl RecoveryRequired)
      else
        sbind (w,
          rbind (map_err map_guard_error guard) (\<lambda>_.
          rbind (validate_committed_state (ds_snapshot svc) (sn_generation (ds_snapshot svc)) (ds_ledger svc)) (\<lambda>_.
          rbind (checkpoint_journal lib n svc) (\<lambda>journal.
          if ds_journal_limit svc < length journal then Inl JournalCapacityExhausted else Inr journal)))) (\<lambda>w journal.
        sbind (on_disk (atomic_write io Journal_File journal) (on_service (\<lambda>svc. svc\<lparr>ds_unresolved := True\<rparr>) w)) (\<lambda>w _.
        (on_service (\<lambda>svc. svc\<lparr>ds_journal_sequence := 1, ds_journal_bytes := length journal, ds_unresolved := False\<rparr>) w,
         Inr \<lparr>co_generation = sn_generation (ds_snapshot svc), co_retained_requests = length (ds_ledger svc),
              co_journal_bytes_before = ds_journal_bytes svc, co_journal_bytes_after = length journal\<rparr>))))"

definition encode_backup ::
  "'x durable_lib_scheme \<Rightarrow> nat \<Rightarrow> byte list \<Rightarrow> byte list \<Rightarrow> byte list \<Rightarrow> service_error + byte list" where
  "encode_backup lib generation state_bytes journal ledger_bytes =
     (if MAX_FILE_BYTES < length state_bytes \<or> MAX_FILE_BYTES < length journal \<or> MAX_FILE_BYTES < length ledger_bytes
      then Inl CorruptState
      else
        rbind (write_bytes state_bytes) (\<lambda>a.
        rbind (write_bytes journal) (\<lambda>b.
        rbind (write_bytes ledger_bytes) (\<lambda>c.
        let encoded = BACKUP_MAGIC @ write_u16 BACKUP_VERSION @ write_u16 0 @ write_u64 generation @ a @ b @ c in
        if MAX_BACKUP_BYTES < length encoded + 32 then Inl CorruptState
        else Inr (encoded @ digest32 lib ''heptabao.durable-service.backup.v1'' encoded)))))"

definition export_backup ::
  "'x durable_lib_scheme \<Rightarrow> nat \<Rightarrow> directory_guard_error + unit \<Rightarrow> durable_service \<Rightarrow> service_error + byte list" where
  "export_backup lib n guard svc =
     (if ds_unresolved svc then Inl RecoveryRequired
      else
        rbind (map_err map_guard_error guard) (\<lambda>_.
        rbind (validate_committed_state (ds_snapshot svc) (sn_generation (ds_snapshot svc)) (ds_ledger svc)) (\<lambda>_.
        rbind (sealed_snapshot lib n (ds_snapshot svc)) (\<lambda>state_bytes.
        rbind (sealed_ledger lib (n + 1) (sn_generation (ds_snapshot svc)) (ds_ledger svc)) (\<lambda>ledger_bytes.
        rbind (checkpoint_journal lib (n + 2) svc) (\<lambda>journal.
        encode_backup lib (sn_generation (ds_snapshot svc)) state_bytes journal ledger_bytes))))))"

definition read_backup ::
  "'x durable_lib_scheme \<Rightarrow> byte list \<Rightarrow> service_error + nat \<times> byte list \<times> byte list \<times> byte list" where
  "read_backup lib encoded =
     (if length encoded < 4 + 2 + 2 + 8 + 4 * 3 + 32 \<or> MAX_BACKUP_BYTES < length encoded then Inl CorruptState
      else
        let payload_len = length encoded - 32 in
        if \<not> constant_time_eq (digest32 lib ''heptabao.durable-service.backup.v1'' (take payload_len encoded))
              (drop payload_len encoded)
        then Inl CorruptState
        else
          rbind (read_exact 4 (take payload_len encoded)) (\<lambda>(magic, cur).
          if magic \<noteq> BACKUP_MAGIC then Inl CorruptState
          else
            rbind (read_u16 cur) (\<lambda>(version, cur).
            if version \<noteq> BACKUP_VERSION then Inl CorruptState
            else
              rbind (read_u16 cur) (\<lambda>(flags, cur).
              if flags \<noteq> 0 then Inl CorruptState
              else
                rbind (read_u64 cur) (\<lambda>(generation, cur).
                rbind (read_bytes MAX_FILE_BYTES cur) (\<lambda>(state_bytes, cur).
                rbind (read_bytes MAX_FILE_BYTES cur) (\<lambda>(journal, cur).
                rbind (read_bytes MAX_FILE_BYTES cur) (\<lambda>(ledger_bytes, cur).
                rbind (cursor_finish cur) (\<lambda>_.
                Inr (generation, state_bytes, journal, ledger_bytes))))))))))"

definition decode_backup :: "'x durable_lib_scheme \<Rightarrow> byte list \<Rightarrow> nat \<Rightarrow> service_error + backup_components" where
  "decode_backup lib encoded capacity =
     rbind (read_backup lib encoded) (\<lambda>(generation, state_bytes, journal, ledger_bytes).
     rbind (decode_snapshot_frame lib state_bytes) (\<lambda>snap.
     rbind (decode_ledger_frame lib ledger_bytes) (\<lambda>(ledger_generation, ledger).
     rbind (decode_journal_frames lib journal) (\<lambda>(sequence, events, verified, incomplete_tail).
     if incomplete_tail \<or> verified \<noteq> length journal \<or> sequence \<noteq> 1 \<or> length events \<noteq> 1
        \<or> generation \<noteq> sn_generation snap \<or> generation \<noteq> ledger_generation \<or> capacity < length ledger
     then Inl CorruptState
     else
       rbind (validate_committed_state snap ledger_generation ledger) (\<lambda>_.
       rbind (case hd events of
                Checkpoint cp \<Rightarrow>
                  rbind (validate_checkpoint lib cp ledger) (\<lambda>_.
                  if cp_generation cp \<noteq> generation then Inl CorruptState else Inr ())
              | _ \<Rightarrow> Inl CorruptState) (\<lambda>_.
       Inr \<lparr>bk_snapshot_bytes = state_bytes, bk_journal_bytes = journal, bk_ledger_bytes = ledger_bytes,
            bk_snapshot = snap, bk_ledger = ledger, bk_journal_sequence = sequence\<rparr>))))))"

primrec rebuild_reconciliation ::
  "ledger \<Rightarrow> (string, reconciliation_status) bmap \<Rightarrow> service_error + (string, reconciliation_status) bmap" where
  "rebuild_reconciliation [] reconciliation = Inr reconciliation"
| "rebuild_reconciliation (e # ledger) reconciliation =
     rbind (validate_ledger_record (snd e)) (\<lambda>_.
     rebuild_reconciliation ledger
       (binsert (lr_recovery_reference (snd e)) (StatusCommitted (lr_generation (snd e))) reconciliation))"

definition restore_backup ::
  "'x durable_lib_scheme \<Rightarrow> (nat \<Rightarrow> io_result) \<Rightarrow> directory_guard_error + unit \<Rightarrow> byte list \<Rightarrow> bool \<Rightarrow> world \<Rightarrow>
   world \<times> (service_error + restore_outcome)" where
  "restore_backup lib io guard backup allow_rollback w =
     (let svc = snd w in
      if ds_unresolved svc then (w, Inl RecoveryRequired)
      else
        sbind (w,
          rbind (map_err map_guard_error guard) (\<lambda>_.
          rbind (decode_backup lib backup (ds_max_retained_requests svc)) (\<lambda>restored.
          if sn_generation (bk_snapshot restored) < sn_generation (ds_snapshot svc) \<and> \<not> allow_rollback
          then Inl BackupRollbackRejected else Inr restored))) (\<lambda>w restored.
        sbind (on_disk (atomic_write (io 0) State_File (bk_snapshot_bytes restored))
                 (on_service (\<lambda>svc. svc\<lparr>ds_unresolved := True\<rparr>) w)) (\<lambda>w _.
        sbind (on_disk (atomic_write (io 1) Ledger_File (bk_ledger_bytes restored)) w) (\<lambda>w _.
        sbind (on_disk (atomic_write (io 2) Journal_File (bk_journal_bytes restored)) w) (\<lambda>w _.
        sbind (on_service (\<lambda>svc. svc\<lparr>ds_snapshot := bk_snapshot restored, ds_ledger := bk_ledger restored,
                                     ds_journal_sequence := bk_journal_sequence restored,
                                     ds_journal_bytes := length (bk_journal_bytes restored)\<rparr>) w,
               rebuild_reconciliation (bk_ledger restored) []) (\<lambda>w reconciliation.
        (on_service (\<lambda>svc. svc\<lparr>ds_reconciliation := reconciliation, ds_unresolved := False\<rparr>) w,
         Inr \<lparr>ro_previous_generation = sn_generation (ds_snapshot svc),
              ro_restored_generation = sn_generation (bk_snapshot restored),
              ro_retained_requests = length (bk_ledger restored)\<rparr>)))))))"

end
