(* ===== verification/Durable_Codec_Correct.thy ===== *)
theory Durable_Codec_Correct
  imports Durable_Codec
begin

text \<open>
  The encodings of the durable service read back: integers, strings, request keys and commit
  markers, then whole snapshots, ledgers and journal events.  The predicates \<open>marker_ok\<close>,
  \<open>snapshot_ok\<close>, \<open>ledger_ok\<close> and \<open>event_ok\<close> say what the service's own values satisfy; on them
  every encoder succeeds and every decoder inverts it.
\<close>

section \<open>Reading back\<close>

lemma xor_differences_zero: "length a = length b \<Longrightarrow> xor_differences a b d = 0 \<longleftrightarrow> d = 0 \<and> a = b"
proof (induction a b d rule: xor_differences.induct)
  case (1 x left y right d)
  have "or d (xor x y) = 0 \<longleftrightarrow> d = 0 \<and> x = y"
    by (simp add: or_eq_0_iff byte_xor_eq_0_iff)
  then show ?case using 1 by auto
qed auto

lemma constant_time_eq_iff [simp]: "constant_time_eq a b \<longleftrightarrow> a = b"
  unfolding constant_time_eq_def using xor_differences_zero [of a b 0] by auto

lemma read_exact_append [simp]: "length a = n \<Longrightarrow> read_exact n (a @ rest) = Inr (a, rest)"
  by (simp add: read_exact_def)

lemma le_value_single [simp]: "le_value [b] = unat b"
  by (simp add: le_value_def be_value_def)

lemma read_u8_Cons [simp]: "read_u8 (b # rest) = Inr (unat b, rest)"
  by (simp add: read_u8_def read_exact_def)

lemma read_u16_write [simp]: "v < 2 ^ 16 \<Longrightarrow> read_u16 (write_u16 v @ rest) = Inr (v, rest)"
  by (simp add: read_u16_def write_u16_def le_value_le_bytes)

lemma read_u32_write [simp]: "v < 2 ^ 32 \<Longrightarrow> read_u32 (write_u32 v @ rest) = Inr (v, rest)"
  by (simp add: read_u32_def write_u32_def le_value_le_bytes)

lemma read_u64_write [simp]: "v < u64_bound \<Longrightarrow> read_u64 (write_u64 v @ rest) = Inr (v, rest)"
  by (simp add: read_u64_def write_u64_def le_value_le_bytes)

lemma length_writes [simp]: "length (write_u16 v) = 2" "length (write_u32 v) = 4" "length (write_u64 v) = 8"
  by (simp_all add: write_u16_def write_u32_def write_u64_def)

lemma writes_not_Nil [simp]: "write_u16 v \<noteq> []" "write_u32 v \<noteq> []" "write_u64 v \<noteq> []"
  using length_writes [of v] by (metis list.size(3) zero_neq_numeral)+

lemma write_bytes_Inr_iff: "write_bytes v = Inr e \<longleftrightarrow> length v < 2 ^ 32 \<and> e = write_u32 (length v) @ v"
  by (auto simp: write_bytes_def)

lemma read_bytes_write:
  "write_bytes v = Inr e \<Longrightarrow> length v \<le> maximum \<Longrightarrow> read_bytes maximum (e @ rest) = Inr (v, rest)"
  by (auto simp: write_bytes_Inr_iff read_bytes_def)

lemma read_string_write:
  "encode_string_checked s = Inr e \<Longrightarrow> length s \<le> maximum \<Longrightarrow> utf8_valid s \<Longrightarrow>
     read_string maximum (e @ rest) = Inr (s, rest)"
  unfolding encode_string_checked_def read_string_def
  by (auto simp: read_bytes_write [where v = "bytes_of_string s"] comp_def split: if_splits)

lemma encode_string_checked_ok: "length s \<le> 8192 \<Longrightarrow> \<exists>e. encode_string_checked s = Inr e"
  by (simp add: encode_string_checked_def write_bytes_def DURABLE_STRING_BYTES_def)

lemma length_encode_string: "encode_string_checked s = Inr e \<Longrightarrow> length e = 4 + length s"
  by (auto simp: encode_string_checked_def write_bytes_Inr_iff split: if_splits)

section \<open>Names\<close>

lemma alphanumeric_ascii: "is_ascii_alphanumeric c \<Longrightarrow> byte_of c < 128"
  by (auto simp: is_ascii_alphanumeric_def is_ascii_alphabetic_def is_ascii_lowercase_def is_ascii_uppercase_def
      is_ascii_digit_def)

lemma utf8_is_ascii: "is_ascii s \<Longrightarrow> utf8_valid s"
  by (induction s) (auto simp: is_ascii_def)

lemma identifier_ok:
  assumes "validate_identifier v = Inr u"
  shows "length v \<le> 256" "utf8_valid v"
proof -
  have v: "list_all (\<lambda>b. is_ascii_alphanumeric b \<or> b \<in> set ''-_.:'') v" "length v \<le> 256"
    using assms unfolding validate_identifier_def by (simp_all split: if_split_asm)
  have "byte_of b < 128" if "is_ascii_alphanumeric b \<or> b \<in> set ''-_.:''" for b
    using that alphanumeric_ascii by auto
  then have "is_ascii v" unfolding is_ascii_def by (rule list.pred_mono_strong [OF v(1)])
  then show "length v \<le> 256" "utf8_valid v" using v(2) by (simp_all add: utf8_is_ascii)
qed

lemma segmented_path_ok: "validate_segmented_path v n \<Longrightarrow> length v \<le> n \<and> utf8_valid v"
  by (auto simp: validate_segmented_path_def intro: utf8_is_ascii)

lemma namespace_ok:
  assumes "validate_durable_namespace v = Inr u"
  shows "length v \<le> 1024" "utf8_valid v"
  using assms segmented_path_ok by (auto simp: validate_durable_namespace_def split: if_splits)

lemma resource_ok:
  assumes "validate_resource v = Inr u"
  shows "length v \<le> 4096" "utf8_valid v"
  using assms segmented_path_ok [of v DURABLE_STRING_BYTES]
  by (auto simp: validate_resource_def DURABLE_STRING_BYTES_def split: if_splits)

lemma reference_ok: "length s = 32 \<Longrightarrow> list_all is_ascii_hexdigit s \<Longrightarrow> utf8_valid s"
  by (rule utf8_is_ascii) (auto simp: is_ascii_def list_all_iff is_ascii_hexdigit_def is_ascii_digit_def)

section \<open>Keys and markers\<close>

lemma request_key_ok:
  "validate_request_key key = Inr u \<Longrightarrow>
     validate_identifier (rk_principal key) = Inr () \<and> validate_durable_namespace (rk_namespace key) = Inr () \<and>
     validate_identifier (rk_request_id key) = Inr ()"
  by (auto simp: validate_request_key_def)

lemma encode_request_key_ok: "validate_request_key key = Inr u \<Longrightarrow> \<exists>e. encode_request_key key = Inr e"
  unfolding encode_request_key_def
  using encode_string_checked_ok [of "rk_principal key"] encode_string_checked_ok [of "rk_namespace key"]
    encode_string_checked_ok [of "rk_request_id key"] request_key_ok [of key u]
    identifier_ok [of "rk_principal key"] identifier_ok [of "rk_request_id key"] namespace_ok [of "rk_namespace key"]
  by fastforce

lemma decode_request_key_encoded:
  assumes "encode_request_key key = Inr e" "validate_request_key key = Inr ()"
  shows "decode_request_key (e @ rest) = Inr (key, rest)"
proof -
  obtain a b c where e: "encode_string_checked (rk_principal key) = Inr a" "encode_string_checked (rk_namespace key) = Inr b"
    "encode_string_checked (rk_request_id key) = Inr c" "e = a @ b @ c"
    using assms(1) by (auto simp: encode_request_key_def)
  note v = request_key_ok [OF assms(2)]
  show ?thesis
    using e v assms(2) identifier_ok [of "rk_principal key"] identifier_ok [of "rk_request_id key"] namespace_ok [of "rk_namespace key"]
    by (cases key) (simp add: decode_request_key_def read_string_write)
qed

definition marker_ok :: "commit_marker \<Rightarrow> bool" where
  "marker_ok m \<longleftrightarrow> validate_marker m = Inr () \<and> length (cm_binding_digest m) = 32 \<and> cm_generation m < u64_bound"

lemma marker_okD:
  assumes "marker_ok m"
  shows "validate_request_key (cm_key m) = Inr ()" "length (cm_recovery_reference m) = 32"
    "utf8_valid (cm_recovery_reference m)" "0 < cm_generation m" "cm_binding_digest m \<noteq> zero_digest"
    "list_all is_ascii_hexdigit (cm_recovery_reference m)"
  using assms reference_ok by (auto simp: marker_ok_def validate_marker_def split: if_splits)

lemma encode_marker_ok: "marker_ok m \<Longrightarrow> \<exists>e. encode_marker m = Inr e"
  unfolding encode_marker_def
  using encode_request_key_ok [of "cm_key m"] encode_string_checked_ok [of "cm_recovery_reference m"] marker_okD [of m]
  by fastforce

lemma decode_marker_encoded:
  assumes "encode_marker m = Inr e" "marker_ok m"
  shows "decode_marker (e @ rest) = Inr (m, rest)"
proof -
  obtain a b where e: "encode_request_key (cm_key m) = Inr a" "encode_string_checked (cm_recovery_reference m) = Inr b"
    "e = a @ cm_binding_digest m @ b @ write_u64 (cm_generation m)"
    using assms(1) by (auto simp: encode_marker_def)
  have m: "validate_marker m = Inr ()" "length (cm_binding_digest m) = 32" "cm_generation m < u64_bound"
    using assms(2) by (auto simp: marker_ok_def)
  have k: "decode_request_key (a @ r) = Inr (cm_key m, r)" for r
    using decode_request_key_encoded [OF e(1) marker_okD(1) [OF assms(2)]] .
  have s: "read_string 128 (b @ r) = Inr (cm_recovery_reference m, r)" for r
    using read_string_write [OF e(2)] marker_okD [OF assms(2)] by simp
  have r: "\<lparr>cm_key = cm_key m, cm_binding_digest = cm_binding_digest m, cm_recovery_reference = cm_recovery_reference m,
      cm_generation = cm_generation m\<rparr> = m" by simp
  show ?thesis using m by (simp add: decode_marker_def e(3) k s read_array_32_def Let_def r)
qed

lemma encode_last_commit_ok: "pred_option marker_ok lc \<Longrightarrow> \<exists>e. encode_last_commit lc = Inr e"
  using encode_marker_ok by (auto simp: encode_last_commit_def split: option.splits)

lemma decode_last_commit_encoded:
  assumes "encode_last_commit lc = Inr e" "pred_option marker_ok lc"
  shows "decode_last_commit (e @ rest) = Inr (lc, rest)"
  using assms decode_marker_encoded
  by (auto simp: encode_last_commit_def decode_last_commit_def split: option.splits)

section \<open>Files\<close>

definition entry_ok :: "(string \<times> string) \<times> byte list \<Rightarrow> bool" where
  "entry_ok e \<longleftrightarrow> validate_durable_namespace (fst (fst e)) = Inr () \<and> validate_resource (snd (fst e)) = Inr () \<and>
     snd e \<noteq> [] \<and> length (snd e) \<le> MAX_SECRET_BYTES"

definition snapshot_ok :: "snapshot \<Rightarrow> bool" where
  "snapshot_ok snap \<longleftrightarrow> bmap_ok (sn_entries snap) \<and> list_all entry_ok (sn_entries snap) \<and>
     length (sn_entries snap) \<le> MAX_RECORDS \<and> pred_option marker_ok (sn_last_commit snap) \<and>
     sn_generation snap < u64_bound"

definition record_ok :: "request_key \<times> ledger_record \<Rightarrow> bool" where
  "record_ok e \<longleftrightarrow> validate_request_key (fst e) = Inr () \<and> validate_ledger_record (snd e) = Inr () \<and>
     length (lr_binding_digest (snd e)) = 32 \<and> lr_generation (snd e) < u64_bound"

definition ledger_ok :: "ledger \<Rightarrow> bool" where
  "ledger_ok ledger \<longleftrightarrow> bmap_ok ledger \<and> list_all record_ok ledger \<and> length ledger \<le> MAX_RECORDS"

definition checkpoint_ok :: "checkpoint_marker \<Rightarrow> bool" where
  "checkpoint_ok cp \<longleftrightarrow> cp_generation cp < u64_bound \<and> cp_retained_requests cp < u64_bound \<and>
     pred_option marker_ok (cp_last_commit cp) \<and> length (cp_ledger_digest cp) = 32"

fun event_ok :: "journal_event \<Rightarrow> bool" where
  "event_ok (Intent m) = marker_ok m"
| "event_ok (Commit m) = marker_ok m"
| "event_ok (Abort m) = marker_ok m"
| "event_ok (Checkpoint cp) = checkpoint_ok cp"

lemma rcollect_ok: "(\<And>x. x \<in> set xs \<Longrightarrow> \<exists>y. f x = Inr y) \<Longrightarrow> \<exists>ys. rcollect f xs = Inr ys"
  by (induction xs) fastforce+

lemma encode_entry_ok: "entry_ok e \<Longrightarrow> \<exists>b. encode_entry e = Inr b"
  unfolding encode_entry_def entry_ok_def
  using encode_string_checked_ok [of "fst (fst e)"] encode_string_checked_ok [of "snd (fst e)"]
    namespace_ok [of "fst (fst e)"] resource_ok [of "snd (fst e)"]
  by (fastforce simp: write_bytes_def MAX_SECRET_BYTES_def)

lemma decode_entry_step:
  assumes "encode_entry e = Inr b" "entry_ok e" "\<not> bcontains entries (fst e)"
  shows "decode_entries (Suc n) entries (b @ rest) = decode_entries n (binsert (fst e) (snd e) entries) rest"
proof -
  obtain x y z where b: "encode_string_checked (fst (fst e)) = Inr x" "encode_string_checked (snd (fst e)) = Inr y"
    "write_bytes (snd e) = Inr z" "b = x @ y @ z"
    using assms(1) by (auto simp: encode_entry_def)
  have o: "validate_durable_namespace (fst (fst e)) = Inr ()" "validate_resource (snd (fst e)) = Inr ()" "snd e \<noteq> []"
    "length (snd e) \<le> MAX_SECRET_BYTES" using assms(2) by (auto simp: entry_ok_def)
  have "read_string 1024 (x @ r) = Inr (fst (fst e), r)" "read_string DURABLE_STRING_BYTES (y @ r) = Inr (snd (fst e), r)" for r
    using read_string_write [OF b(1)] read_string_write [OF b(2)] namespace_ok [OF o(1)] resource_ok [OF o(2)]
    by (simp_all add: DURABLE_STRING_BYTES_def)
  moreover have "read_bytes MAX_SECRET_BYTES (z @ r) = Inr (snd e, r)" for r
    using read_bytes_write [OF b(3) o(4)] .
  ultimately show ?thesis using assms(3) o by (simp add: b(4))
qed

lemma bmap_ok_append_Cons:
  "bmap_ok (m @ e # m') \<Longrightarrow> (\<forall>x \<in> set m. fst x < fst e) \<and> \<not> bcontains m (fst e) \<and> bmap_ok ((m @ [e]) @ m')"
  by (auto simp: bmap_ok_def bcontains_iff strict_sorted_iff sorted_wrt_append less_le image_iff)

lemma decode_entries_encoded:
  assumes "rcollect encode_entry es = Inr bs" "bmap_ok (acc @ es)" "list_all entry_ok es"
  shows "decode_entries (length es) acc (concat bs @ rest) = Inr (acc @ es, rest)"
  using assms
proof (induction es arbitrary: acc bs)
  case (Cons e es)
  obtain b bs' where b: "encode_entry e = Inr b" "rcollect encode_entry es = Inr bs'" "bs = b # bs'"
    using Cons.prems(1) by auto
  note s = bmap_ok_append_Cons [OF Cons.prems(2)]
  have "decode_entries (length (e # es)) acc (concat bs @ rest) = decode_entries (length es) (binsert (fst e) (snd e) acc) (concat bs' @ rest)"
    using decode_entry_step [OF b(1)] Cons.prems(3) s by (simp add: b(3))
  also have "binsert (fst e) (snd e) acc = acc @ [e]" using s by (simp add: binsert_last)
  finally show ?case using Cons.IH [OF b(2), of "acc @ [e]"] Cons.prems(3) s by simp
qed simp

lemma encode_snapshot_ok: "snapshot_ok snap \<Longrightarrow> \<exists>b. encode_snapshot snap = Inr b"
  unfolding encode_snapshot_def snapshot_ok_def
  using encode_last_commit_ok [of "sn_last_commit snap"] rcollect_ok [of "sn_entries snap" encode_entry] encode_entry_ok
  by (fastforce simp: MAX_RECORDS_def list_all_iff)

lemma decode_snapshot_encoded:
  assumes "encode_snapshot snap = Inr b" "snapshot_ok snap"
  shows "decode_snapshot b = Inr snap"
proof -
  obtain last bs where b: "encode_last_commit (sn_last_commit snap) = Inr last" "rcollect encode_entry (sn_entries snap) = Inr bs"
    "b = SNAPSHOT_PLAINTEXT_MAGIC @ write_u64 (sn_generation snap) @ last @ write_u32 (length (sn_entries snap)) @ concat bs"
    using assms(1) by (auto simp: encode_snapshot_def split: if_splits)
  have o: "bmap_ok (sn_entries snap)" "list_all entry_ok (sn_entries snap)" "length (sn_entries snap) \<le> MAX_RECORDS"
    "pred_option marker_ok (sn_last_commit snap)" "sn_generation snap < u64_bound"
    using assms(2) by (auto simp: snapshot_ok_def)
  have l: "decode_last_commit (last @ r) = Inr (sn_last_commit snap, r)" for r
    using decode_last_commit_encoded [OF b(1) o(4)] .
  have e: "decode_entries (length (sn_entries snap)) [] (concat bs) = Inr (sn_entries snap, [])"
    using decode_entries_encoded [OF b(2), of "[]" "[]"] o by simp
  have m: "length SNAPSHOT_PLAINTEXT_MAGIC = 4" by (simp add: SNAPSHOT_PLAINTEXT_MAGIC_def)
  have c: "length (sn_entries snap) < 2 ^ 32" using o(3) by (simp add: MAX_RECORDS_def)
  show ?thesis
    using o(3,5) c by (simp add: decode_snapshot_def b(3) m l e cursor_finish_def)
qed

lemma encode_ledger_entry_ok: "record_ok e \<Longrightarrow> \<exists>b. encode_ledger_entry e = Inr b"
  unfolding encode_ledger_entry_def record_ok_def
  using encode_request_key_ok [of "fst e"] encode_string_checked_ok [of "lr_recovery_reference (snd e)"]
  by (fastforce simp: validate_ledger_record_def split: if_splits)

lemma decode_ledger_entry_step:
  assumes "encode_ledger_entry e = Inr b" "record_ok e" "\<not> bcontains ledger (fst e)"
  shows "decode_ledger_entries (Suc n) ledger (b @ rest) = decode_ledger_entries n (binsert (fst e) (snd e) ledger) rest"
proof -
  obtain x y where b: "encode_request_key (fst e) = Inr x" "encode_string_checked (lr_recovery_reference (snd e)) = Inr y"
    "b = x @ lr_binding_digest (snd e) @ y @ write_u64 (lr_generation (snd e))"
    using assms(1) by (auto simp: encode_ledger_entry_def)
  have o: "validate_request_key (fst e) = Inr ()" "validate_ledger_record (snd e) = Inr ()"
    "length (lr_binding_digest (snd e)) = 32" "lr_generation (snd e) < u64_bound"
    using assms(2) by (auto simp: record_ok_def)
  have k: "decode_request_key (x @ r) = Inr (fst e, r)" for r
    using decode_request_key_encoded [OF b(1) o(1)] .
  have s: "read_string 128 (y @ r) = Inr (lr_recovery_reference (snd e), r)" for r
    using read_string_write [OF b(2)] o(2) reference_ok by (simp add: validate_ledger_record_def split: if_splits)
  have r: "\<lparr>lr_binding_digest = lr_binding_digest (snd e), lr_recovery_reference = lr_recovery_reference (snd e),
      lr_generation = lr_generation (snd e)\<rparr> = snd e" by simp
  show ?thesis using assms(3) o by (simp add: b(3) k s read_array_32_def r)
qed

lemma decode_ledger_entries_encoded:
  assumes "rcollect encode_ledger_entry es = Inr bs" "bmap_ok (acc @ es)" "list_all record_ok es"
  shows "decode_ledger_entries (length es) acc (concat bs @ rest) = Inr (acc @ es, rest)"
  using assms
proof (induction es arbitrary: acc bs)
  case (Cons e es)
  obtain b bs' where b: "encode_ledger_entry e = Inr b" "rcollect encode_ledger_entry es = Inr bs'" "bs = b # bs'"
    using Cons.prems(1) by auto
  note s = bmap_ok_append_Cons [OF Cons.prems(2)]
  have "decode_ledger_entries (length (e # es)) acc (concat bs @ rest) =
      decode_ledger_entries (length es) (binsert (fst e) (snd e) acc) (concat bs' @ rest)"
    using decode_ledger_entry_step [OF b(1)] Cons.prems(3) s by (simp add: b(3))
  also have "binsert (fst e) (snd e) acc = acc @ [e]" using s by (simp add: binsert_last)
  finally show ?case using Cons.IH [OF b(2), of "acc @ [e]"] Cons.prems(3) s by simp
qed simp

lemma encode_ledger_ok: "ledger_ok ledger \<Longrightarrow> \<exists>b. encode_ledger ledger = Inr b"
  unfolding encode_ledger_def ledger_ok_def
  using rcollect_ok [of ledger encode_ledger_entry] encode_ledger_entry_ok by (fastforce simp: MAX_RECORDS_def list_all_iff)

lemma decode_ledger_encoded:
  assumes "encode_ledger ledger = Inr b" "ledger_ok ledger"
  shows "decode_ledger b = Inr ledger"
proof -
  obtain bs where b: "rcollect encode_ledger_entry ledger = Inr bs"
    "b = LEDGER_PLAINTEXT_MAGIC @ write_u32 (length ledger) @ concat bs"
    using assms(1) by (auto simp: encode_ledger_def split: if_splits)
  have o: "bmap_ok ledger" "list_all record_ok ledger" "length ledger \<le> MAX_RECORDS"
    using assms(2) by (auto simp: ledger_ok_def)
  have e: "decode_ledger_entries (length ledger) [] (concat bs) = Inr (ledger, [])"
    using decode_ledger_entries_encoded [OF b(1), of "[]" "[]"] o by simp
  have m: "length LEDGER_PLAINTEXT_MAGIC = 4" by (simp add: LEDGER_PLAINTEXT_MAGIC_def)
  have c: "length ledger < 2 ^ 32" using o(3) by (simp add: MAX_RECORDS_def)
  show ?thesis using o(3) c by (simp add: decode_ledger_def b(2) m e cursor_finish_def)
qed

lemma encode_event_ok: "event_ok ev \<Longrightarrow> \<exists>b. encode_journal_event ev = Inr b"
  using encode_marker_ok encode_last_commit_ok
  by (cases ev) (fastforce simp: encode_journal_event_def checkpoint_ok_def)+

lemma decode_event_encoded:
  assumes "encode_journal_event ev = Inr b" "event_ok ev"
  shows "decode_journal_event b = Inr ev"
proof -
  have m: "decode_marker e = Inr (m, [])" if "encode_marker m = Inr e" "marker_ok m" for m e
    using decode_marker_encoded [OF that, of "[]"] by simp
  show ?thesis
  proof (cases ev)
    case (Checkpoint cp)
    obtain l where l: "encode_last_commit (cp_last_commit cp) = Inr l"
      "b = 4 # write_u64 (cp_generation cp) @ write_u64 (cp_retained_requests cp) @ l @ cp_ledger_digest cp"
      using assms(1) by (auto simp: encode_journal_event_def Checkpoint)
    have c: "cp_generation cp < u64_bound" "cp_retained_requests cp < u64_bound" "length (cp_ledger_digest cp) = 32"
      "pred_option marker_ok (cp_last_commit cp)" using assms(2) by (auto simp: Checkpoint checkpoint_ok_def)
    have d: "decode_last_commit (l @ cp_ledger_digest cp) = Inr (cp_last_commit cp, cp_ledger_digest cp)"
      using decode_last_commit_encoded [OF l(1) c(4)] .
    have r: "\<lparr>cp_generation = cp_generation cp, cp_retained_requests = cp_retained_requests cp,
       cp_last_commit = cp_last_commit cp, cp_ledger_digest = cp_ledger_digest cp\<rparr> = cp" by simp
    have a: "read_exact 32 (cp_ledger_digest cp) = Inr (cp_ledger_digest cp, [])"
      using c(3) by (simp add: read_exact_def)
    show ?thesis using c by (simp add: decode_journal_event_def l(2) d read_array_32_def a r cursor_finish_def Checkpoint)
  next
    case (Intent x)
    then obtain e where e: "encode_marker x = Inr e" "b = 1 # e" using assms(1) by (auto simp: encode_journal_event_def)
    have "decode_marker e = Inr (x, [])" using m [OF e(1)] assms(2) by (simp add: Intent)
    then show ?thesis by (simp add: decode_journal_event_def e(2) cursor_finish_def Intent)
  next
    case (Commit x)
    then obtain e where e: "encode_marker x = Inr e" "b = 2 # e" using assms(1) by (auto simp: encode_journal_event_def)
    have "decode_marker e = Inr (x, [])" using m [OF e(1)] assms(2) by (simp add: Commit)
    then show ?thesis by (simp add: decode_journal_event_def e(2) cursor_finish_def Commit)
  next
    case (Abort x)
    then obtain e where e: "encode_marker x = Inr e" "b = 3 # e" using assms(1) by (auto simp: encode_journal_event_def)
    have "decode_marker e = Inr (x, [])" using m [OF e(1)] assms(2) by (simp add: Abort)
    then show ?thesis by (simp add: decode_journal_event_def e(2) cursor_finish_def Abort)
  qed
qed

end
