(* ===== verification/Durable_Replay.thy ===== *)
theory Durable_Replay
  imports Durable Durable_Codec_Correct
begin

text \<open>
  Sealed files and journals read back, also with a torn last record (\<open>decode_journal_torn\<close>), and
  the replay of a journal against a ledger.  The hypotheses about the barrier and the hash are named
  here: \<open>barrier_opens\<close>, \<open>barrier_size\<close>, \<open>seal_available\<close> and \<open>sha256_size\<close>.
\<close>

section \<open>Sealed frames\<close>

text \<open>What is relied on of the barrier and of SHA-256.\<close>

definition barrier_opens :: "'x durable_lib_scheme \<Rightarrow> bool" where
  "barrier_opens lib \<longleftrightarrow> (\<forall>n c p x. lib_seal lib n c p = Some x \<longrightarrow> lib_open lib c x = Some p)"

definition sha256_size :: "'x durable_lib_scheme \<Rightarrow> bool" where
  "sha256_size lib \<longleftrightarrow> (\<forall>bytes. length (lib_sha256 lib bytes) = 32)"

lemma length_digest32 [simp]: "sha256_size lib \<Longrightarrow> length (digest32 lib d b) = 32"
  by (simp add: digest32_def sha256_size_def)

lemma length_magic [simp]:
  "length SNAPSHOT_MAGIC = 4" "length LEDGER_MAGIC = 4" "length JOURNAL_MAGIC = 4" "length BACKUP_MAGIC = 4"
  by (simp_all add: SNAPSHOT_MAGIC_def LEDGER_MAGIC_def JOURNAL_MAGIC_def BACKUP_MAGIC_def)

lemma open_frame_sealed:
  assumes "sha256_size lib" "length magic = 4" "write_bytes protected = Inr body" "generation < u64_bound"
    and "length protected \<le> MAX_FILE_BYTES"
  shows "open_frame lib magic d ((magic @ write_u64 generation @ body) @ digest32 lib d (magic @ write_u64 generation @ body)) =
    Inr (generation, protected)"
proof -
  have b: "body = write_u32 (length protected) @ protected" using assms(3) by (simp add: write_bytes_Inr_iff)
  have r: "read_bytes MAX_FILE_BYTES body = Inr (protected, [])"
    using read_bytes_write [OF assms(3,5), of "[]"] by simp
  show ?thesis using assms r by (simp add: open_frame_def Let_def cursor_finish_def b)
qed

lemma decode_snapshot_sealed:
  assumes lib: "barrier_opens lib" "sha256_size lib"
    and b: "sealed_snapshot lib n snap = Inr b" and s: "snapshot_ok snap" and l: "length b \<le> MAX_FILE_BYTES"
  shows "decode_snapshot_frame lib b = Inr snap"
proof -
  obtain plain x body where p: "encode_snapshot snap = Inr plain"
    "lib_seal lib n (snapshot_context (sn_generation snap)) plain = Some x" "write_bytes x = Inr body"
    "b = (SNAPSHOT_MAGIC @ write_u64 (sn_generation snap) @ body) @
       digest32 lib ''heptabao.durable-service.snapshot-frame.v2'' (SNAPSHOT_MAGIC @ write_u64 (sn_generation snap) @ body)"
    using b by (auto simp: sealed_snapshot_def Let_def ok_or_iff)
  have g: "sn_generation snap < u64_bound" using s by (simp add: snapshot_ok_def)
  have x: "length x \<le> MAX_FILE_BYTES" using l p(3) by (simp add: p(4) write_bytes_Inr_iff)
  have o: "lib_open lib (snapshot_context (sn_generation snap)) x = Some plain"
    using lib(1) p(2) by (auto simp: barrier_opens_def)
  have "\<not> starts_with b (bytes_of_string ''HBS1'')"
    by (simp add: p(4) starts_with_iff_prefix SNAPSHOT_MAGIC_def byte_of_char_inj)
  then show ?thesis
    using open_frame_sealed [OF lib(2) _ p(3) g x, of SNAPSHOT_MAGIC] o decode_snapshot_encoded [OF p(1) s]
    by (simp add: decode_snapshot_frame_def p(4))
qed

lemma decode_ledger_sealed:
  assumes lib: "barrier_opens lib" "sha256_size lib"
    and b: "sealed_ledger lib n g ledger = Inr b" and s: "ledger_ok ledger" "g < u64_bound" and l: "length b \<le> MAX_FILE_BYTES"
  shows "decode_ledger_frame lib b = Inr (g, ledger)"
proof -
  obtain plain x body where p: "encode_ledger ledger = Inr plain"
    "lib_seal lib n (ledger_context g) plain = Some x" "write_bytes x = Inr body"
    "b = (LEDGER_MAGIC @ write_u64 g @ body) @
       digest32 lib ''heptabao.durable-service.ledger-frame.v2'' (LEDGER_MAGIC @ write_u64 g @ body)"
    using b by (auto simp: sealed_ledger_def Let_def ok_or_iff)
  have x: "length x \<le> MAX_FILE_BYTES" using l p(3) by (simp add: p(4) write_bytes_Inr_iff)
  have o: "lib_open lib (ledger_context g) x = Some plain"
    using lib(1) p(2) by (auto simp: barrier_opens_def)
  show ?thesis
    using open_frame_sealed [OF lib(2) _ p(3) s(2) x, of LEDGER_MAGIC] o decode_ledger_encoded [OF p(1) s(1)]
    by (simp add: decode_ledger_frame_def p(4))
qed

lemma sealed_record_frame:
  assumes "sealed_journal_record lib n s ev = Inr r"
  obtains plain x body where "encode_journal_event ev = Inr plain" "lib_seal lib n (journal_context s) plain = Some x"
    "write_bytes x = Inr body"
    "r = write_u32 (length ((write_u64 s @ body) @ digest32 lib ''heptabao.durable-service.journal-frame.v2'' (write_u64 s @ body))) @
       (write_u64 s @ body) @ digest32 lib ''heptabao.durable-service.journal-frame.v2'' (write_u64 s @ body)"
    "length ((write_u64 s @ body) @ digest32 lib ''heptabao.durable-service.journal-frame.v2'' (write_u64 s @ body)) < 2 ^ 32"
  using assms by (auto simp: sealed_journal_record_def Let_def ok_or_iff not_le split: if_splits)

lemma decode_frame_sealed:
  assumes lib: "barrier_opens lib" "sha256_size lib"
    and r: "encode_journal_event ev = Inr plain" "lib_seal lib n (journal_context s) plain = Some x" "write_bytes x = Inr body"
    and e: "event_ok ev" "s < u64_bound" and l: "length x \<le> MAX_FILE_BYTES"
  shows "decode_frame lib s ((write_u64 s @ body) @ digest32 lib ''heptabao.durable-service.journal-frame.v2'' (write_u64 s @ body)) = Inr ev"
proof -
  have o: "lib_open lib (journal_context s) x = Some plain"
    using lib(1) r(2) by (auto simp: barrier_opens_def)
  have b: "read_bytes MAX_FILE_BYTES body = Inr (x, [])"
    using read_bytes_write [OF r(3) l, of "[]"] by simp
  show ?thesis
    using lib(2) e(2) by (simp add: decode_frame_def Let_def b o cursor_finish_def decode_event_encoded [OF r(1) e(1)])
qed

lemma decode_frames_record:
  assumes lib: "barrier_opens lib" "sha256_size lib"
    and r: "sealed_journal_record lib n s ev = Inr r"
    and e: "event_ok ev" "s + 1 < u64_bound" "length r \<le> MAX_FILE_BYTES" "length evs < MAX_RECORDS"
  shows "decode_frames lib s evs v (r @ rest) = decode_frames lib (s + 1) (evs @ [ev]) (v + length r) rest"
proof -
  obtain plain x body where p: "encode_journal_event ev = Inr plain" "lib_seal lib n (journal_context s) plain = Some x"
    "write_bytes x = Inr body"
    "r = write_u32 (length ((write_u64 s @ body) @ digest32 lib ''heptabao.durable-service.journal-frame.v2'' (write_u64 s @ body))) @
       (write_u64 s @ body) @ digest32 lib ''heptabao.durable-service.journal-frame.v2'' (write_u64 s @ body)"
    "length ((write_u64 s @ body) @ digest32 lib ''heptabao.durable-service.journal-frame.v2'' (write_u64 s @ body)) < 2 ^ 32"
    using r by (rule sealed_record_frame)
  define f where "f = (write_u64 s @ body) @ digest32 lib ''heptabao.durable-service.journal-frame.v2'' (write_u64 s @ body)"
  have f: "r = write_u32 (length f) @ f" "length f < 2 ^ 32" using p(4,5) by (simp_all add: f_def)
  have x: "length x \<le> MAX_FILE_BYTES" "44 \<le> length f" "length f \<le> MAX_FILE_BYTES"
    using e(3) p(3) lib(2) by (auto simp: f f_def write_bytes_Inr_iff)
  have d: "decode_frame lib s f = Inr ev"
    unfolding f_def using decode_frame_sealed [OF lib p(1-3) e(1) _ x(1)] e(2) by simp
  have v: "le_value (write_u32 (length f)) = length f" using f(2) by (simp add: write_u32_def le_value_le_bytes)
  have "decode_frames lib s evs v (write_u32 (length f) @ f @ rest) =
      decode_frames lib (s + 1) (evs @ [ev]) (v + 4 + length f) rest"
    using x e(2,4) by (subst decode_frames.simps) (auto simp: Let_def v d checked_add64_def)
  then show ?thesis by (simp add: f(1) add.assoc)
qed

lemma decode_frames_torn:
  assumes lib: "sha256_size lib"
    and r: "sealed_journal_record lib n s ev = Inr r"
    and e: "length r \<le> MAX_FILE_BYTES" "k < length r"
  shows "decode_frames lib s evs v (take k r) = Inr (s - 1, evs, v, 0 < k)"
proof -
  obtain plain x body where p: "encode_journal_event ev = Inr plain" "lib_seal lib n (journal_context s) plain = Some x"
    "write_bytes x = Inr body"
    "r = write_u32 (length ((write_u64 s @ body) @ digest32 lib ''heptabao.durable-service.journal-frame.v2'' (write_u64 s @ body))) @
       (write_u64 s @ body) @ digest32 lib ''heptabao.durable-service.journal-frame.v2'' (write_u64 s @ body)"
    "length ((write_u64 s @ body) @ digest32 lib ''heptabao.durable-service.journal-frame.v2'' (write_u64 s @ body)) < 2 ^ 32"
    using r by (rule sealed_record_frame)
  define f where "f = (write_u64 s @ body) @ digest32 lib ''heptabao.durable-service.journal-frame.v2'' (write_u64 s @ body)"
  have f: "r = write_u32 (length f) @ f" "length f < 2 ^ 32" using p(4,5) by (simp_all add: f_def)
  have x: "44 \<le> length f" "length f \<le> MAX_FILE_BYTES"
    using e(1) p(3) lib by (auto simp: f f_def write_bytes_Inr_iff)
  have v: "le_value (write_u32 (length f)) = length f" using f(2) by (simp add: write_u32_def le_value_le_bytes)
  show ?thesis
  proof (cases "k < 4")
    case True
    then show ?thesis using e(2) by (subst decode_frames.simps) (auto simp: f(1))
  next
    case False
    have "take 4 (take k r) = write_u32 (length f)" "length (drop 4 (take k r)) = k - 4"
      using False e(2) by (simp_all add: f(1))
    moreover have "k - 4 < length f" "\<not> length (take k r) < 4" "take k r \<noteq> []" using False e(2) by (auto simp: f(1))
    ultimately show ?thesis using x False by (subst decode_frames.simps) (simp add: Let_def v)
  qed
qed

section \<open>The journal\<close>

text \<open>The records of a journal after its magic: one sealed frame for every event, numbered from one.\<close>

inductive journal_holds :: "'x durable_lib_scheme \<Rightarrow> journal_event list \<Rightarrow> byte list \<Rightarrow> bool" for lib where
  empty: "journal_holds lib [] []"
| snoc: "journal_holds lib evs bs \<Longrightarrow> sealed_journal_record lib n (length evs + 1) ev = Inr r \<Longrightarrow> event_ok ev \<Longrightarrow>
    journal_holds lib (evs @ [ev]) (bs @ r)"

lemma decode_frames_journal:
  assumes lib: "barrier_opens lib" "sha256_size lib"
    and "journal_holds lib evs bs" "length evs \<le> MAX_RECORDS" "length bs \<le> MAX_FILE_BYTES"
  shows "decode_frames lib 1 [] 4 (bs @ rest) = decode_frames lib (length evs + 1) evs (4 + length bs) rest"
  using assms(3-)
proof (induction arbitrary: rest)
  case empty
  then show ?case by simp
next
  case (snoc evs bs n ev r)
  have "decode_frames lib 1 [] 4 (bs @ r @ rest) = decode_frames lib (length evs + 1) evs (4 + length bs) (r @ rest)"
    using snoc by simp
  also have "\<dots> = decode_frames lib (length evs + 1 + 1) (evs @ [ev]) (4 + length bs + length r) rest"
    using decode_frames_record [OF lib snoc.hyps(2,3)] snoc.prems by (simp add: MAX_RECORDS_def)
  finally show ?case by (simp add: add.assoc)
qed

lemma decode_journal:
  assumes "barrier_opens lib" "sha256_size lib" "journal_holds lib evs bs" "length evs \<le> MAX_RECORDS" "length bs \<le> MAX_FILE_BYTES"
  shows "decode_journal_frames lib (JOURNAL_MAGIC @ bs) = Inr (length evs, evs, 4 + length bs, False)"
  using decode_frames_journal [OF assms, of "[]"]
  by (simp add: decode_journal_frames_def starts_with_iff_prefix decode_frames.simps [of _ _ _ _ "[]"])

lemma decode_journal_torn:
  assumes lib: "barrier_opens lib" "sha256_size lib"
    and j: "journal_holds lib evs bs" "length evs \<le> MAX_RECORDS" "length bs \<le> MAX_FILE_BYTES"
    and r: "sealed_journal_record lib n (length evs + 1) ev = Inr r" "length r \<le> MAX_FILE_BYTES" "k < length r"
  shows "decode_journal_frames lib (JOURNAL_MAGIC @ bs @ take k r) = Inr (length evs, evs, 4 + length bs, 0 < k)"
  using decode_frames_journal [OF lib j, of "take k r"] decode_frames_torn [OF lib(2) r]
  by (simp add: decode_journal_frames_def starts_with_iff_prefix)

section \<open>Sizes\<close>

definition barrier_size :: "'x durable_lib_scheme \<Rightarrow> nat \<Rightarrow> bool" where
  "barrier_size lib k \<longleftrightarrow> (\<forall>n c p x. lib_seal lib n c p = Some x \<longrightarrow> length x = length p + k)"

definition seal_available :: "'x durable_lib_scheme \<Rightarrow> nat \<Rightarrow> bool" where
  "seal_available lib n \<longleftrightarrow> (\<forall>c p. length p \<le> MAX_FILE_BYTES \<longrightarrow> (\<exists>x. lib_seal lib n c p = Some x))"

lemma sealed_ledger_length:
  assumes "barrier_size lib k" "sha256_size lib" "sealed_ledger lib n g ledger = Inr b" "encode_ledger ledger = Inr plain"
  shows "length b = length plain + k + 48"
  using assms by (auto simp: sealed_ledger_def Let_def ok_or_iff write_bytes_Inr_iff barrier_size_def)

lemma sealed_ledger_ok:
  assumes "barrier_size lib k" "sha256_size lib" "sealed_ledger lib n g ledger = Inr b" "length b \<le> MAX_FILE_BYTES"
    and "seal_available lib m"
  obtains b' where "sealed_ledger lib m g ledger = Inr b'" "length b' = length b"
proof -
  obtain plain where p: "encode_ledger ledger = Inr plain" using assms(3) by (auto simp: sealed_ledger_def)
  note l = sealed_ledger_length [OF assms(1-3) p]
  then have "length plain \<le> MAX_FILE_BYTES" using assms(4) by simp
  then obtain x where x: "lib_seal lib m (ledger_context g) plain = Some x"
    using assms(5) by (auto simp: seal_available_def)
  then have "length x = length plain + k" using assms(1) by (simp add: barrier_size_def)
  then have "length x < 2 ^ 32" using l assms(4) by (simp add: MAX_FILE_BYTES_def)
  then have "\<exists>b'. sealed_ledger lib m g ledger = Inr b'"
    by (simp add: sealed_ledger_def p x ok_or_def write_bytes_def Let_def)
  then show thesis using that sealed_ledger_length [OF assms(1,2) _ p] l by fastforce
qed

text \<open>The records of one marker are equally long.\<close>

lemma sealed_record_length:
  assumes "barrier_size lib k" "sha256_size lib" "sealed_journal_record lib n s ev = Inr r" "encode_journal_event ev = Inr plain"
  shows "length r = length plain + k + 48"
  using assms by (auto simp: sealed_journal_record_def Let_def ok_or_iff write_bytes_Inr_iff barrier_size_def split: if_splits)

lemma marker_record_ok:
  assumes lib: "barrier_size lib k" "sha256_size lib"
    and r: "sealed_journal_record lib n s (Commit m) = Inr r" "length r \<le> MAX_FILE_BYTES"
    and "seal_available lib n'" and ev: "ev = Commit m \<or> ev = Abort m"
  obtains r' where "sealed_journal_record lib n' s' ev = Inr r'" "length r' = length r"
proof -
  obtain e where e: "encode_marker m = Inr e"
    using r(1) by (auto simp: sealed_journal_record_def encode_journal_event_def)
  have p: "encode_journal_event (Commit m) = Inr (2 # e)" by (simp add: encode_journal_event_def e)
  obtain b where p': "encode_journal_event ev = Inr (b # e)"
    using ev by (auto simp: encode_journal_event_def e)
  note l = sealed_record_length [OF lib r(1) p]
  then have "length (b # e) \<le> MAX_FILE_BYTES" using r(2) by simp
  then obtain x where x: "lib_seal lib n' (journal_context s') (b # e) = Some x"
    using assms(5) unfolding seal_available_def by blast
  then have lx: "length x = Suc (length e) + k" using lib(1) by (simp add: barrier_size_def)
  then have "length x < 2 ^ 32 - 100" using l r(2) by (simp add: MAX_FILE_BYTES_def)
  then have "\<exists>r'. sealed_journal_record lib n' s' ev = Inr r'"
    using lib(2) by (simp add: sealed_journal_record_def p' x ok_or_def write_bytes_def Let_def)
  then obtain r' where r': "sealed_journal_record lib n' s' ev = Inr r'" by blast
  have "length r' = length r" using sealed_record_length [OF lib r' p'] l by simp
  with r' show thesis by (rule that)
qed

section \<open>Replay\<close>

lemma recover_events_append:
  "recover_events lib ledger off (evs @ evs') rc =
     rbind (recover_events lib ledger off evs rc) (recover_events lib ledger (off + length evs) evs')"
proof (induction evs arbitrary: off rc)
  case (Cons e evs)
  then show ?case by (cases "recover_event lib ledger off e rc") auto
qed simp

definition committed_ok :: "(request_key, commit_marker) bmap \<Rightarrow> bool" where
  "committed_ok committed \<longleftrightarrow> bmap_ok committed \<and> (\<forall>e \<in> set committed. cm_key (snd e) = fst e)"

lemma committed_ok_insert: "committed_ok c \<Longrightarrow> committed_ok (binsert (cm_key m) m c)"
  unfolding committed_ok_def using set_binsert [of "cm_key m" m c] by auto

lemma marker_from_ledger_Inr:
  "marker_from_ledger k r = Inr m \<longleftrightarrow> validate_ledger_record r = Inr () \<and> validate_marker m = Inr () \<and>
     m = \<lparr>cm_key = k, cm_binding_digest = lr_binding_digest r, cm_recovery_reference = lr_recovery_reference r,
          cm_generation = lr_generation r\<rparr>"
  by (auto simp: marker_from_ledger_def Let_def)

lemma adopt_checkpoint_Inr:
  assumes "adopt_checkpoint pre rc = Inr rc'" "committed_ok (rc_committed rc)"
  shows "committed_ok (rc_committed rc') \<and> rc_pending rc' = rc_pending rc \<and> rc_generation rc' = rc_generation rc \<and>
     rc_last_commit rc' = rc_last_commit rc \<and> rc_reconciliation rc' = rc_reconciliation rc"
  using assms
proof (induction pre arbitrary: rc)
  case (Cons e pre)
  obtain m where m: "marker_from_ledger (fst e) (snd e) = Inr m" "cm_recovery_reference m \<notin> set (rc_references rc)"
    "adopt_checkpoint pre (rc\<lparr>rc_references := bset_insert (cm_recovery_reference m) (rc_references rc),
       rc_committed := binsert (fst e) m (rc_committed rc)\<rparr>) = Inr rc'"
    using Cons.prems(1) by (auto split: if_splits)
  have "cm_key m = fst e" using m(1) by (simp add: marker_from_ledger_Inr)
  then have "committed_ok (binsert (fst e) m (rc_committed rc))" using committed_ok_insert [OF Cons.prems(2), of m] by simp
  then show ?case using Cons.IH [OF m(3)] by simp
qed auto

lemma recover_event_committed_ok:
  assumes "recover_event lib ledger off ev rc = Inr rc'" "committed_ok (rc_committed rc)"
  shows "committed_ok (rc_committed rc')"
  using assms by (cases ev) (auto simp: recover_event_def committed_ok_insert dest!: adopt_checkpoint_Inr split: if_splits)

lemma recover_events_committed_ok:
  assumes "recover_events lib ledger off evs rc = Inr rc'" "committed_ok (rc_committed rc)"
  shows "committed_ok (rc_committed rc')"
  using assms by (induction evs arbitrary: off rc) (auto dest: recover_event_committed_ok)

lemma record_of_marker_inj:
  "cm_key a = cm_key b \<Longrightarrow> record_of_marker a = record_of_marker b \<Longrightarrow> a = b"
  by (cases a; cases b) (simp add: record_of_marker_def)

text \<open>Replay reads of the ledger only the records up to the generation of its checkpoint.\<close>

lemma recover_events_ledger_cong:
  assumes "\<And>cp. Checkpoint cp \<in> set evs \<Longrightarrow> ledger_prefix ledger (cp_generation cp) = ledger_prefix ledger' (cp_generation cp)"
  shows "recover_events lib ledger off evs rc = recover_events lib ledger' off evs rc"
  using assms
proof (induction evs arbitrary: off rc)
  case (Cons e evs)
  have "recover_event lib ledger off e rc = recover_event lib ledger' off e rc"
    using Cons.prems by (cases e) (auto simp: recover_event_def)
  then show ?case using Cons by (simp cong: rbind_cong)
qed simp

section \<open>Consistent ledgers\<close>

lemma check_committed_iff:
  "check_committed g ledger c = Inr () \<longleftrightarrow>
     (\<forall>e \<in> set c. map_of ledger (fst e) = (if cm_generation (snd e) \<le> g then Some (record_of_marker (snd e)) else None))"
  by (induction c) (auto simp: ok_or_iff bcontains_iff map_of_eq_None_iff split: if_splits)

lemma map_of_recovered_ledger: "map_of (recovered_ledger c) k = map_option record_of_marker (map_of c k)"
  by (simp add: recovered_ledger_def map_of_bmap_vals)

lemma length_recovered_ledger [simp]: "length (recovered_ledger c) = length c"
  by (simp add: recovered_ledger_def bmap_vals_def)

lemma keys_recovered_ledger [simp]: "map fst (recovered_ledger c) = map fst c"
  by (simp add: recovered_ledger_def bmap_vals_def comp_def case_prod_beta)

lemma recovered_ledger_insert:
  "recovered_ledger (binsert k m c) = binsert k (record_of_marker m) (recovered_ledger c)"
  by (induction c) (auto simp: recovered_ledger_def bmap_vals_def)

lemma check_ledger_records_Inr:
  assumes "check_ledger_records g ledger gs refs = Inr gs'"
  shows "list_all (\<lambda>e. validate_request_key (fst e) = Inr () \<and> validate_ledger_record (snd e) = Inr () \<and> lr_generation (snd e) \<le> g) ledger
    \<and> distinct (map (\<lambda>e. lr_generation (snd e)) ledger) \<and> distinct (map (\<lambda>e. lr_recovery_reference (snd e)) ledger)
    \<and> set gs' = set gs \<union> (\<lambda>e. lr_generation (snd e)) ` set ledger
    \<and> set gs \<inter> (\<lambda>e. lr_generation (snd e)) ` set ledger = {}
    \<and> set refs \<inter> (\<lambda>e. lr_recovery_reference (snd e)) ` set ledger = {}"
  using assms
proof (induction ledger arbitrary: gs refs)
  case (Cons e ledger)
  obtain u v where s: "validate_request_key (fst e) = Inr u" "validate_ledger_record (snd e) = Inr v"
    "\<not> (g < lr_generation (snd e) \<or> lr_generation (snd e) \<in> set gs \<or> lr_recovery_reference (snd e) \<in> set refs)"
    "check_ledger_records g ledger (bset_insert (lr_generation (snd e)) gs) (bset_insert (lr_recovery_reference (snd e)) refs) = Inr gs'"
    using Cons.prems by (auto simp: Let_def split: if_splits)
  show ?case using Cons.IH [OF s(4)] s(1-3) by (auto simp: set_bset_insert)
qed auto

lemma check_ledger_records_complete:
  assumes "list_all (\<lambda>e. validate_request_key (fst e) = Inr () \<and> validate_ledger_record (snd e) = Inr () \<and> lr_generation (snd e) \<le> g) ledger"
    "distinct (map (\<lambda>e. lr_generation (snd e)) ledger)" "distinct (map (\<lambda>e. lr_recovery_reference (snd e)) ledger)"
    "set gs \<inter> (\<lambda>e. lr_generation (snd e)) ` set ledger = {}" "set refs \<inter> (\<lambda>e. lr_recovery_reference (snd e)) ` set ledger = {}"
  shows "check_ledger_records g ledger gs refs = Inr (fold bset_insert (map (\<lambda>e. lr_generation (snd e)) ledger) gs)"
  using assms
proof (induction ledger arbitrary: gs refs)
  case (Cons e ledger)
  then have "check_ledger_records g ledger (bset_insert (lr_generation (snd e)) gs) (bset_insert (lr_recovery_reference (snd e)) refs) =
    Inr (fold bset_insert (map (\<lambda>e. lr_generation (snd e)) ledger) (bset_insert (lr_generation (snd e)) gs))"
    by (intro Cons.IH) (auto simp: set_bset_insert)
  then show ?case using Cons.prems by (auto simp: Let_def)
qed simp

lemma bset_of_upt:
  assumes "set xs = {1..n}"
  shows "fold bset_insert xs [] = [1..<n + 1]"
proof -
  have "bset_ok (fold bset_insert xs [])" "set (fold bset_insert xs []) = set xs"
    using bset_ok_bset_of [of xs] set_bset_of [of xs] by (simp_all add: bset_of_def)
  moreover have "bset_ok [1..<n + 1]" "set [1..<n + 1] = {1..n}"
    by (simp_all add: bset_ok_iff atLeastLessThanSuc_atLeastAtMost del: upt_Suc)
  ultimately show ?thesis using assms unfolding bset_ok_iff by (simp add: sorted_distinct_set_unique del: upt_Suc)
qed

lemma validate_ledger_generation_iff:
  "validate_ledger_generation ledger g = Inr () \<longleftrightarrow>
     length ledger = g \<and> list_all (\<lambda>e. validate_request_key (fst e) = Inr () \<and> validate_ledger_record (snd e) = Inr ()) ledger
     \<and> distinct (map (\<lambda>e. lr_recovery_reference (snd e)) ledger) \<and> bij_betw (\<lambda>e. lr_generation (snd e)) (set ledger) {1..g}
     \<and> distinct ledger"
  (is "?l \<longleftrightarrow> ?r")
proof
  assume ?l
  then obtain gs where gs: "length ledger = g" "check_ledger_records g ledger [] [] = Inr gs" "gs = [1..<g + 1]"
    by (auto simp: validate_ledger_generation_def split: if_splits)
  note c = check_ledger_records_Inr [OF gs(2)]
  have "set gs = {1..g}" by (simp add: gs(3) atLeastLessThanSuc_atLeastAtMost del: upt_Suc)
  then have "(\<lambda>e. lr_generation (snd e)) ` set ledger = {1..g}" using c by simp
  moreover have "inj_on (\<lambda>e. lr_generation (snd e)) (set ledger)" "distinct ledger" using c by (auto simp: distinct_map)
  ultimately show ?r using c gs(1) by (auto simp: bij_betw_def list_all_iff)
next
  assume r: ?r
  have i: "(\<lambda>e. lr_generation (snd e)) ` set ledger = {1..g}" "inj_on (\<lambda>e. lr_generation (snd e)) (set ledger)" "distinct ledger"
    using r by (auto simp: bij_betw_def)
  have le: "lr_generation (snd e) \<le> g" if "e \<in> set ledger" for e using i(1) that by fastforce
  have "check_ledger_records g ledger [] [] = Inr (fold bset_insert (map (\<lambda>e. lr_generation (snd e)) ledger) [])"
    using r i le by (intro check_ledger_records_complete) (auto simp: list_all_iff distinct_map)
  then show ?l using r i(1) bset_of_upt [of "map (\<lambda>e. lr_generation (snd e)) ledger" g]
    by (simp add: validate_ledger_generation_def)
qed

lemma ledger_generation_le: "validate_ledger_generation ledger g = Inr () \<Longrightarrow> e \<in> set ledger \<Longrightarrow> lr_generation (snd e) \<le> g"
  by (fastforce simp: validate_ledger_generation_iff bij_betw_def)

section \<open>Reopening\<close>

definition reopened ::
  "snapshot \<Rightarrow> ledger \<Rightarrow> (string, reconciliation_status) bmap \<Rightarrow> nat \<Rightarrow> nat \<Rightarrow> nat \<Rightarrow> durable_service" where
  "reopened snap ledger reconciliation sequence bytes capacity =
     \<lparr>ds_snapshot = snap, ds_ledger = ledger, ds_reconciliation = reconciliation, ds_journal_sequence = sequence,
      ds_journal_bytes = bytes, ds_journal_limit = MAX_FILE_BYTES, ds_max_retained_requests = capacity,
      ds_unresolved = False\<rparr>"

text \<open>The files as \<open>reopen\<close> finds them, with what they decode to.\<close>

definition image ::
  "'x durable_lib_scheme \<Rightarrow> snapshot \<Rightarrow> journal_event list \<Rightarrow> byte list \<Rightarrow> byte list \<Rightarrow> nat \<Rightarrow> ledger \<Rightarrow> disk \<Rightarrow> bool" where
  "image lib snap evs bs tail lg ledger disk \<longleftrightarrow>
     (\<exists>sb. disk State_File = Some sb \<and> length sb \<le> MAX_FILE_BYTES \<and> decode_snapshot_frame lib sb = Inr snap) \<and>
     disk Journal_File = Some (JOURNAL_MAGIC @ bs @ tail) \<and> length (JOURNAL_MAGIC @ bs @ tail) \<le> MAX_FILE_BYTES \<and>
     decode_journal_frames lib (JOURNAL_MAGIC @ bs @ tail) = Inr (length evs, evs, 4 + length bs, tail \<noteq> []) \<and>
     (\<exists>lb. disk Ledger_File = Some lb \<and> length lb \<le> MAX_FILE_BYTES \<and> decode_ledger_frame lib lb = Inr (lg, ledger))"

lemma reopen_image:
  assumes "image lib snap evs bs tail lg ledger disk" "validate_capacity cap = Inr ()"
  shows "reopen lib m io (Inr ()) cap disk =
    (case recover lib m io evs lg (tail \<noteq> []) (disk, reopened snap ledger [] (length evs) (4 + length bs) cap) of
       (w, Inl e) \<Rightarrow> (fst w, Inl e)
     | (w, Inr _) \<Rightarrow> (fst w, Inr (snd w)))"
  using assms by (auto simp: image_def reopen_def read_bounded_def reopened_def map_err_def ok_or_def)

lemma recover_settled:
  assumes r: "validate_ledger_generation ledger lg = Inr ()" "recover_events lib ledger 0 evs (recovery_start []) = Inr rc"
    "check_recovery (reopened snap ledger [] sq bl cap) lg rc = Inr ()" "rc_pending rc = None"
    and j: "disk Journal_File = Some (JOURNAL_MAGIC @ bs @ tail)" "bl = 4 + length bs"
    and l: "sealed_ledger lib (m + 1) (sn_generation snap) (recovered_ledger (rc_committed rc)) = Inr lb" "length lb \<le> MAX_FILE_BYTES"
  shows "recover lib m (\<lambda>_. IoDone) evs lg (tail \<noteq> []) (disk, reopened snap ledger [] sq bl cap) =
    ((disk(Journal_File := Some (JOURNAL_MAGIC @ bs), Ledger_File := Some lb),
      reopened snap (recovered_ledger (rc_committed rc)) (recovered_reconciliation (rc_committed rc) (rc_reconciliation rc)) sq bl cap),
     Inr ())"
proof -
  have t: "take (4 + length bs) (JOURNAL_MAGIC @ bs @ tail) = JOURNAL_MAGIC @ bs" by simp
  have d: "disk(Journal_File := Some (JOURNAL_MAGIC @ bs)) = disk" if "tail = []" using j(1) that by auto
  show ?thesis
    using r l j d t by (cases "tail = []")
      (simp_all add: recover_def Let_def reopened_def settle_pending_def on_service_def on_disk_def atomic_write_def truncate_journal_def
        fun_upd_twist)
qed

lemma recover_pending:
  assumes r: "validate_ledger_generation ledger lg = Inr ()" "recover_events lib ledger 0 evs (recovery_start []) = Inr rc"
    "check_recovery (reopened snap ledger [] sq bl cap) lg rc = Inr ()" "rc_pending rc = Some marker"
    and j: "disk Journal_File = Some (JOURNAL_MAGIC @ bs @ tail)" "bl = 4 + length bs"
    and e: "ev = (if published_pending snap rc then Commit marker else Abort marker)"
      "rc' = (if published_pending snap rc then rc\<lparr>rc_committed := binsert (cm_key marker) marker (rc_committed rc)\<rparr>
              else rc\<lparr>rc_reconciliation := binsert (cm_recovery_reference marker) StatusAborted (rc_reconciliation rc)\<rparr>)"
    and f: "sealed_journal_record lib m (sq + 1) ev = Inr r" "bl + length r \<le> MAX_FILE_BYTES" "sq < MAX_RECORDS"
    and l: "sealed_ledger lib (m + 1) (sn_generation snap) (recovered_ledger (rc_committed rc')) = Inr lb" "length lb \<le> MAX_FILE_BYTES"
  shows "recover lib m (\<lambda>_. IoDone) evs lg (tail \<noteq> []) (disk, reopened snap ledger [] sq bl cap) =
    ((disk(Journal_File := Some (JOURNAL_MAGIC @ bs @ r), Ledger_File := Some lb),
      reopened snap (recovered_ledger (rc_committed rc')) (recovered_reconciliation (rc_committed rc') (rc_reconciliation rc'))
        (sq + 1) (bl + length r) cap),
     Inr ())"
proof -
  have t: "take (4 + length bs) (JOURNAL_MAGIC @ bs @ tail) = JOURNAL_MAGIC @ bs" by simp
  have b: "sq + 1 < u64_bound" "bl + length r < u64_bound" using f by (auto simp: MAX_RECORDS_def MAX_FILE_BYTES_def)
  have a: "append_event lib m IoDone ev (d, reopened snap ledger [] sq bl cap) =
     ((d(Journal_File := Some (JOURNAL_MAGIC @ bs @ r)), reopened snap ledger [] (sq + 1) (bl + length r) cap), Inr ())"
    if "d Journal_File = Some (JOURNAL_MAGIC @ bs)" for d
    using f b that
    by (simp add: append_event_def append_frame_def Let_def reopened_def checked_add64_def append_journal_frame_def on_disk_def on_service_def)
  define d where "d = (if tail \<noteq> [] then disk(Journal_File := Some (JOURNAL_MAGIC @ bs)) else disk)"
  have d: "d Journal_File = Some (JOURNAL_MAGIC @ bs)" "d(Journal_File := x) = disk(Journal_File := x)" for x
    using j(1) by (auto simp: d_def)
  have tr: "(if tail \<noteq> [] then on_disk (truncate_journal IoDone (ds_journal_bytes (snd (disk, reopened snap ledger [] sq bl cap))))
       (disk, reopened snap ledger [] sq bl cap) else ((disk, reopened snap ledger [] sq bl cap), Inr ())) =
     ((d, reopened snap ledger [] sq bl cap), Inr ())"
    using j t by (simp add: d_def reopened_def on_disk_def truncate_journal_def)
  have s: "settle_pending lib m IoDone rc (d, reopened snap ledger [] sq bl cap) =
     ((disk(Journal_File := Some (JOURNAL_MAGIC @ bs @ r)), reopened snap ledger [] (sq + 1) (bl + length r) cap), Inr rc')"
    using a [of d, OF d(1)] r(4) by (simp add: settle_pending_def e reopened_def d(2) split: if_splits)
  have c: "check_recovery (snd (disk, reopened snap ledger [] sq bl cap)) lg rc = Inr ()" using r(3) by simp
  have v: "rbind (validate_ledger_generation (ds_ledger (snd (disk, reopened snap ledger [] sq bl cap))) lg)
       (\<lambda>_. rbind (recover_events lib (ds_ledger (snd (disk, reopened snap ledger [] sq bl cap))) 0 evs
            (recovery_start (ds_reconciliation (snd (disk, reopened snap ledger [] sq bl cap)))))
       (\<lambda>rc. rbind (check_recovery (snd (disk, reopened snap ledger [] sq bl cap)) lg rc) (\<lambda>_. Inr rc))) = Inr rc"
    using r by (simp add: reopened_def)
  show ?thesis
    unfolding recover_def Let_def v sbind_simps tr s
    using l by (simp add: reopened_def on_service_def on_disk_def atomic_write_def)
qed

end
