(* ===== verification/Durable_Crash.thy ===== *)
theory Durable_Crash
  imports Durable_Replay
begin

text \<open>
  What every write of a mutation leaves on the disk, and what reopening makes of it.  The invariant
  \<open>durable_holds\<close> ties the service in memory to its three files; \<open>publish_mutation_cases\<close> lists the
  disks a crash can leave, one lemma per crash point (\<open>recovers_torn\<close> to \<open>recovers_committed\<close>)
  shows what is recovered from it, and \<open>publish_recovers\<close> joins them.
\<close>

section \<open>Planning a mutation\<close>

text \<open>What the constructors of requests and secrets check.\<close>

definition mutation_ok :: "binding \<Rightarrow> byte list option \<Rightarrow> bool" where
  "mutation_ok b v \<longleftrightarrow> validate_request_key (bd_key b) = Inr () \<and> validate_resource (bd_resource b) = Inr () \<and>
     (case bd_kind b of Put \<Rightarrow> (\<exists>x. v = Some x \<and> x \<noteq> [] \<and> length x \<le> MAX_SECRET_BYTES) | Delete \<Rightarrow> True)"

definition planned_marker :: "'x durable_lib_scheme \<Rightarrow> durable_service \<Rightarrow> binding \<Rightarrow> commit_marker" where
  "planned_marker lib svc b =
     \<lparr>cm_key = bd_key b, cm_binding_digest = binding_digest lib b,
      cm_recovery_reference = recovery_reference lib (binding_digest lib b) (sn_generation (ds_snapshot svc) + 1)
        (ds_journal_sequence svc + 1),
      cm_generation = sn_generation (ds_snapshot svc) + 1\<rparr>"

definition mutated_entries ::
  "binding \<Rightarrow> byte list option \<Rightarrow> (string \<times> string, byte list) bmap \<Rightarrow> (string \<times> string, byte list) bmap" where
  "mutated_entries b v entries =
     (case bd_kind b of Put \<Rightarrow> binsert (storage_key b) (the v) entries | Delete \<Rightarrow> bremove (storage_key b) entries)"

definition planned_snapshot :: "'x durable_lib_scheme \<Rightarrow> durable_service \<Rightarrow> binding \<Rightarrow> byte list option \<Rightarrow> snapshot" where
  "planned_snapshot lib svc b v =
     \<lparr>sn_generation = sn_generation (ds_snapshot svc) + 1, sn_entries = mutated_entries b v (sn_entries (ds_snapshot svc)),
      sn_last_commit = Some (planned_marker lib svc b)\<rparr>"

definition planned_ledger :: "'x durable_lib_scheme \<Rightarrow> durable_service \<Rightarrow> binding \<Rightarrow> ledger" where
  "planned_ledger lib svc b = binsert (bd_key b) (record_of_marker (planned_marker lib svc b)) (ds_ledger svc)"

lemma plan_mutation_Inr:
  assumes "plan_mutation lib n svc b v = Inr plan"
  shows "length (ds_ledger svc) < ds_max_retained_requests svc"
    "sn_generation (ds_snapshot svc) + 1 < u64_bound" "ds_journal_sequence svc + 2 \<le> MAX_RECORDS"
    "mp_marker plan = planned_marker lib svc b" "mp_snapshot plan = planned_snapshot lib svc b v"
    "mp_ledger plan = planned_ledger lib svc b"
    "sealed_snapshot lib n (planned_snapshot lib svc b v) = Inr (mp_snapshot_bytes plan)"
    "sealed_ledger lib (n + 1) (sn_generation (ds_snapshot svc) + 1) (planned_ledger lib svc b) = Inr (mp_ledger_bytes plan)"
    "sealed_journal_record lib (n + 2) (ds_journal_sequence svc + 1) (Intent (planned_marker lib svc b)) = Inr (mp_intent plan)"
    "sealed_journal_record lib (n + 3) (ds_journal_sequence svc + 2) (Commit (planned_marker lib svc b)) = Inr (mp_commit plan)"
    "length (mp_snapshot_bytes plan) \<le> MAX_FILE_BYTES" "length (mp_ledger_bytes plan) \<le> MAX_FILE_BYTES"
    "ds_journal_bytes svc + length (mp_intent plan) + length (mp_commit plan) \<le> ds_journal_limit svc"
    "bd_kind b = Put \<Longrightarrow> v \<noteq> None"
proof -
  obtain entries where e: "changed_entries b v (sn_entries (ds_snapshot svc)) = Inr entries"
    using assms by (auto simp: plan_mutation_def Let_def ok_or_iff split: if_splits)
  then have m: "entries = mutated_entries b v (sn_entries (ds_snapshot svc))" "bd_kind b = Put \<Longrightarrow> v \<noteq> None"
    by (auto simp: changed_entries_def mutated_entries_def ok_or_iff split: mutation_kind.splits)
  note p = assms [unfolded plan_mutation_def Let_def e rbind_simps m(1), folded record_of_marker_def]
  have g: "sn_generation (ds_snapshot svc) + 1 < u64_bound" "ds_journal_sequence svc + 2 < u64_bound"
    using assms by (auto simp: plan_mutation_def Let_def ok_or_iff checked_add64_def split: if_splits)
  have c: "checked_add64 (sn_generation (ds_snapshot svc)) 1 = Some (sn_generation (ds_snapshot svc) + 1)"
    "checked_add64 (ds_journal_sequence svc) 1 = Some (ds_journal_sequence svc + 1)"
    "checked_add64 (ds_journal_sequence svc + 1) 1 = Some (ds_journal_sequence svc + 2)"
    using g by (simp_all add: checked_add64_def)
  note q = p [unfolded c ok_or_simps rbind_simps, folded planned_marker_def, folded planned_snapshot_def planned_ledger_def]
  show "length (ds_ledger svc) < ds_max_retained_requests svc"
    "sn_generation (ds_snapshot svc) + 1 < u64_bound" "ds_journal_sequence svc + 2 \<le> MAX_RECORDS"
    "mp_marker plan = planned_marker lib svc b" "mp_snapshot plan = planned_snapshot lib svc b v"
    "mp_ledger plan = planned_ledger lib svc b"
    "sealed_snapshot lib n (planned_snapshot lib svc b v) = Inr (mp_snapshot_bytes plan)"
    "sealed_ledger lib (n + 1) (sn_generation (ds_snapshot svc) + 1) (planned_ledger lib svc b) = Inr (mp_ledger_bytes plan)"
    "sealed_journal_record lib (n + 2) (ds_journal_sequence svc + 1) (Intent (planned_marker lib svc b)) = Inr (mp_intent plan)"
    "sealed_journal_record lib (n + 3) (ds_journal_sequence svc + 2) (Commit (planned_marker lib svc b)) = Inr (mp_commit plan)"
    "length (mp_snapshot_bytes plan) \<le> MAX_FILE_BYTES" "length (mp_ledger_bytes plan) \<le> MAX_FILE_BYTES"
    "ds_journal_bytes svc + length (mp_intent plan) + length (mp_commit plan) \<le> ds_journal_limit svc"
    using q g by (auto simp: not_le not_less split: if_splits)
  show "bd_kind b = Put \<Longrightarrow> v \<noteq> None" by (rule m(2))
qed

lemma hex_pair_ok: "length (hex_pair b) = 2 \<and> list_all is_ascii_hexdigit (hex_pair b)"
proof -
  have "is_ascii_hexdigit (''0123456789abcdef'' ! i)" if "i < 16" for i
  proof -
    have "list_all is_ascii_hexdigit ''0123456789abcdef''" by code_simp
    moreover have "i < length ''0123456789abcdef''" using that by simp
    ultimately show ?thesis unfolding list_all_length by blast
  qed
  then show ?thesis using unat_byte_bound [of b] by (simp add: hex_pair_def)
qed

lemma recovery_reference_ok:
  assumes "sha256_size lib"
  shows "length (recovery_reference lib d g s) = 32" "list_all is_ascii_hexdigit (recovery_reference lib d g s)"
proof -
  have "length (concat (map hex_pair bs)) = 2 * length bs" "list_all is_ascii_hexdigit (concat (map hex_pair bs))" for bs
    by (induction bs) (simp_all add: hex_pair_ok)
  then show "length (recovery_reference lib d g s) = 32" "list_all is_ascii_hexdigit (recovery_reference lib d g s)"
    using assms by (simp_all add: recovery_reference_def)
qed

lemma planned_marker_ok:
  assumes "sha256_size lib" "mutation_ok b v" "binding_digest lib b \<noteq> zero_digest"
    and "sn_generation (ds_snapshot svc) + 1 < u64_bound"
  shows "marker_ok (planned_marker lib svc b)"
proof -
  have "length (binding_digest lib b) = 32" using assms(1) by (simp add: binding_digest_def)
  then show ?thesis
    using assms by (simp add: marker_ok_def validate_marker_def planned_marker_def recovery_reference_ok mutation_ok_def)
qed

lemma planned_snapshot_ok:
  assumes "sha256_size lib" "mutation_ok b v" "binding_digest lib b \<noteq> zero_digest"
    and "snapshot_ok (ds_snapshot svc)" "length (sn_entries (ds_snapshot svc)) < MAX_RECORDS"
    and "sn_generation (ds_snapshot svc) + 1 < u64_bound"
  shows "snapshot_ok (planned_snapshot lib svc b v)"
proof -
  let ?es = "sn_entries (ds_snapshot svc)"
  have s: "bmap_ok ?es" "list_all entry_ok ?es" using assms(4) by (auto simp: snapshot_ok_def)
  have "validate_durable_namespace (fst (storage_key b)) = Inr ()" "validate_resource (snd (storage_key b)) = Inr ()"
    using assms(2) by (auto simp: mutation_ok_def storage_key_def dest: request_key_ok)
  then have "entry_ok (storage_key b, the v)" if "bd_kind b = Put"
    using assms(2) that by (auto simp: mutation_ok_def entry_ok_def)
  moreover have "length (binsert (storage_key b) x ?es) \<le> MAX_RECORDS" "length (bremove (storage_key b) ?es) \<le> MAX_RECORDS" for x
    using assms(5) length_binsert_le [of "storage_key b" x ?es] length_bremove_le [of "storage_key b" ?es] by linarith+
  ultimately have "bmap_ok (mutated_entries b v ?es) \<and> list_all entry_ok (mutated_entries b v ?es) \<and> length (mutated_entries b v ?es) \<le> MAX_RECORDS"
    using s by (auto simp: mutated_entries_def intro!: list_all_binsert list_all_bremove split: mutation_kind.split)
  then show ?thesis
    using planned_marker_ok [OF assms(1-3,6)] assms(6) by (simp add: snapshot_ok_def planned_snapshot_def)
qed

lemma planned_ledger_ok:
  assumes "sha256_size lib" "mutation_ok b v" "binding_digest lib b \<noteq> zero_digest"
    and "ledger_ok (ds_ledger svc)" "length (ds_ledger svc) < MAX_RECORDS"
    and "sn_generation (ds_snapshot svc) + 1 < u64_bound"
  shows "ledger_ok (planned_ledger lib svc b)"
proof -
  note m = planned_marker_ok [OF assms(1-3,6)]
  have "record_ok (bd_key b, record_of_marker (planned_marker lib svc b))"
    using m marker_okD [OF m] assms(2)
    by (auto simp: record_ok_def record_of_marker_def validate_ledger_record_def marker_ok_def mutation_ok_def)
  moreover have "length (planned_ledger lib svc b) \<le> Suc (length (ds_ledger svc))"
    unfolding planned_ledger_def by (rule length_binsert_le)
  ultimately show ?thesis
    using assms(4,5) by (simp add: ledger_ok_def planned_ledger_def list_all_binsert)
qed

section \<open>The writes of a mutation\<close>

definition appended :: "disk \<Rightarrow> byte list \<Rightarrow> disk" where
  "appended disk bytes = disk(Journal_File := map_option (\<lambda>old. old @ bytes) (disk Journal_File))"

lemma append_frame_cases:
  assumes "append_frame io frame (disk, svc) = ((disk', svc'), res)" "disk Journal_File = Some old"
    and "ds_journal_bytes svc + length frame \<le> ds_journal_limit svc" "ds_journal_sequence svc < MAX_RECORDS"
    and "ds_journal_limit svc = MAX_FILE_BYTES"
  obtains (torn) k where "k < length frame" "disk' = appended disk (take k frame)" "res \<noteq> Inr ()"
  | (whole) "disk' = appended disk frame" "res \<noteq> Inr ()"
  | (complete) "disk' = appended disk frame" "res = Inr ()"
      "svc' = svc\<lparr>ds_journal_sequence := ds_journal_sequence svc + 1, ds_journal_bytes := ds_journal_bytes svc + length frame\<rparr>"
proof -
  have c: "checked_add64 (ds_journal_sequence svc) 1 = Some (ds_journal_sequence svc + 1)"
    "checked_add64 (ds_journal_bytes svc) (length frame) = Some (ds_journal_bytes svc + length frame)"
    using assms(3-5) by (auto simp: checked_add64_def MAX_FILE_BYTES_def MAX_RECORDS_def)
  have g: "\<not> (ds_journal_limit svc < ds_journal_bytes svc + length frame \<or> MAX_RECORDS < ds_journal_sequence svc + 1)"
    using assms(3,4) by simp
  note a = assms(1) [unfolded append_frame_def Let_def snd_conv c ok_or_simps rbind_simps if_not_P [OF g] sbind_simps prod.case]
  have r: "(disk', res) = (case io of IoDone \<Rightarrow> (appended disk frame, Inr ()) | IoFailed k \<Rightarrow> (appended disk (take k frame), Inl ServiceIo))"
    using a assms(2) by (auto simp: append_journal_frame_def appended_def on_disk_def on_service_def split: io_result.splits)
  have s: "res = Inr () \<Longrightarrow> svc' = svc\<lparr>ds_journal_sequence := ds_journal_sequence svc + 1, ds_journal_bytes := ds_journal_bytes svc + length frame\<rparr>"
    using a assms(2) by (auto simp: append_journal_frame_def on_disk_def on_service_def split: io_result.splits)
  show thesis
  proof (cases io)
    case IoDone
    with r show thesis using that(3) s by auto
  next
    case (IoFailed k)
    with r show thesis using that(1,2) by (cases "k < length frame") auto
  qed
qed

lemma publish_mutation_cases:
  assumes "publish_mutation io fp plan (disk, svc) = ((disk', svc'), res)" "disk Journal_File = Some old"
    and "ds_journal_bytes svc + length (mp_intent plan) + length (mp_commit plan) \<le> MAX_FILE_BYTES"
    and "ds_journal_sequence svc + 2 \<le> MAX_RECORDS" "ds_journal_limit svc = MAX_FILE_BYTES"
    and "length (mp_snapshot_bytes plan) \<le> MAX_FILE_BYTES" "length (mp_ledger_bytes plan) \<le> MAX_FILE_BYTES" "mp_commit plan \<noteq> []"
  obtains (torn) k where "k < length (mp_intent plan)" "disk' = appended disk (take k (mp_intent plan))" "res \<noteq> Inr ()"
  | (intended) "disk' = appended disk (mp_intent plan)" "res \<noteq> Inr ()"
  | (published) k where "k < length (mp_commit plan)" "res \<noteq> Inr ()"
      "disk' = (appended disk (mp_intent plan @ take k (mp_commit plan)))(State_File := Some (mp_snapshot_bytes plan))"
  | (committed) "disk' = (appended disk (mp_intent plan @ mp_commit plan))(State_File := Some (mp_snapshot_bytes plan))" "res \<noteq> Inr ()"
  | (complete) "disk' = (appended disk (mp_intent plan @ mp_commit plan))
        (State_File := Some (mp_snapshot_bytes plan), Ledger_File := Some (mp_ledger_bytes plan))"
      "res = Inr () \<Longrightarrow> svc' = svc\<lparr>ds_snapshot := mp_snapshot plan, ds_ledger := mp_ledger plan,
         ds_journal_sequence := ds_journal_sequence svc + 2,
         ds_journal_bytes := ds_journal_bytes svc + length (mp_intent plan) + length (mp_commit plan)\<rparr>"
proof -
  let ?i = "mp_intent plan" and ?c = "mp_commit plan"
  define d1 where "d1 = appended disk ?i"
  define s1 where "s1 = svc\<lparr>ds_journal_sequence := ds_journal_sequence svc + 1, ds_journal_bytes := ds_journal_bytes svc + length ?i\<rparr>"
  obtain w r where a: "append_frame (io 0) ?i (disk, svc) = (w, r)" by fastforce
  obtain dw sw where w: "w = (dw, sw)" by fastforce
  have lim: "ds_journal_bytes svc + length ?i \<le> ds_journal_limit svc" "ds_journal_sequence svc < MAX_RECORDS" using assms(3-5) by auto
  show thesis
  proof (cases rule: append_frame_cases [OF a [unfolded w] assms(2) lim assms(5)])
    case (1 k)
    then have "disk' = dw \<and> res \<noteq> Inr ()" using assms(1) a w by (cases r) (auto simp: publish_mutation_def)
    then show thesis using 1 torn by blast
  next
    case 2
    then have "disk' = dw \<and> res \<noteq> Inr ()" using assms(1) a w by (cases r) (auto simp: publish_mutation_def)
    then show thesis using 2 intended by blast
  next
    case 3
    show thesis
    proof (cases "fp = AfterIntent \<or> io 1 = IoFailed 0")
      case True
      then have "disk' = dw \<and> res \<noteq> Inr ()" using assms(1,6) a w 3 by (auto simp: publish_mutation_def on_disk_def atomic_write_def split: if_splits simp del: One_nat_def)
      then show thesis using 3 intended by blast
    next
      case nf: False
      define d2 where "d2 = d1(State_File := Some (mp_snapshot_bytes plan))"
      define s2 where "s2 = s1\<lparr>ds_snapshot := mp_snapshot plan\<rparr>"
      have d2: "d2 Journal_File = Some (old @ ?i)" using assms(2) by (simp add: d2_def d1_def appended_def)
      have da: "appended d2 x = (appended disk (?i @ x))(State_File := Some (mp_snapshot_bytes plan))" for x
        using assms(2) by (auto simp: d2_def d1_def appended_def)
      show thesis
      proof (cases "io 1 = IoDone \<and> fp \<noteq> AfterSnapshotPublication")
        case False
        then have "disk' = d2 \<and> res \<noteq> Inr ()"
          using assms(1,6) a w 3 nf by (cases "io 1") (auto simp: publish_mutation_def on_disk_def on_service_def atomic_write_def d2_def d1_def split: if_splits simp del: One_nat_def)
        moreover have "appended d2 [] = d2" using d2 by (auto simp: appended_def)
        ultimately show thesis using published [of 0] assms(8) da [of "[]"] by simp
      next
        case True
        obtain w' r' where a': "append_frame (io 2) ?c (d2, s2) = (w', r')" by fastforce
        obtain dw' sw' where w': "w' = (dw', sw')" by fastforce
        have rest: "((disk', svc'), res) = sbind (w', r') (\<lambda>w _. if fp = AfterCommitJournal then (w, Inl RecoveryRequired)
           else sbind (on_disk (atomic_write (io 3) Ledger_File (mp_ledger_bytes plan)) w) (\<lambda>w _.
             (on_service (\<lambda>svc. svc\<lparr>ds_ledger := mp_ledger plan\<rparr>) w, Inr ())))"
          using assms(1,6) a w 3 nf True a'
          by (simp add: publish_mutation_def on_disk_def on_service_def atomic_write_def Let_def d2_def d1_def s1_def s2_def del: One_nat_def)
        have lim': "ds_journal_bytes s2 + length ?c \<le> ds_journal_limit s2" "ds_journal_sequence s2 < MAX_RECORDS"
          "ds_journal_limit s2 = MAX_FILE_BYTES" using assms(3-5) by (auto simp: s2_def s1_def)
        show thesis
        proof (cases rule: append_frame_cases [OF a' [unfolded w'] d2 lim'])
          case (1 k)
          then have "disk' = dw' \<and> res \<noteq> Inr ()" using rest w' by (cases r') auto
          then show thesis using 1 published [of k] da by simp
        next
          case 2
          then have "disk' = dw' \<and> res \<noteq> Inr ()" using rest w' by (cases r') auto
          then show thesis using 2 committed da by simp
        next
          case c3: 3
          show thesis
          proof (cases "fp = AfterCommitJournal \<or> io 3 = IoFailed 0")
            case True
            then have "disk' = dw' \<and> res \<noteq> Inr ()" using rest w' c3 assms(7) by (auto simp: on_disk_def atomic_write_def split: if_splits)
            then show thesis using c3 committed da by simp
          next
            case False
            then have "disk' = dw'(Ledger_File := Some (mp_ledger_bytes plan))"
              using rest w' c3 assms(7) by (cases "io 3") (auto simp: on_disk_def on_service_def atomic_write_def)
            moreover have "res = Inr () \<Longrightarrow> svc' = sw'\<lparr>ds_ledger := mp_ledger plan\<rparr>"
              using rest w' c3 assms(7) by (cases "io 3") (auto simp: on_disk_def on_service_def atomic_write_def split: if_splits)
            ultimately show thesis using c3 complete da by (simp add: s2_def s1_def)
          qed
        qed
      qed
    qed
  qed
qed

section \<open>The invariant of a running service\<close>

definition settled :: "'x durable_lib_scheme \<Rightarrow> ledger \<Rightarrow> journal_event list \<Rightarrow> snapshot \<Rightarrow> recovery \<Rightarrow> bool" where
  "settled lib ledger evs snap rc \<longleftrightarrow>
     recover_events lib ledger 0 evs (recovery_start []) = Inr rc \<and> rc_pending rc = None \<and>
     recovered_ledger (rc_committed rc) = ledger \<and> rc_generation rc = sn_generation snap \<and> rc_last_commit rc = sn_last_commit snap"

definition consistent :: "snapshot \<Rightarrow> ledger \<Rightarrow> nat \<Rightarrow> bool" where
  "consistent snap ledger capacity \<longleftrightarrow>
     snapshot_ok snap \<and> ledger_ok ledger \<and> validate_ledger_generation ledger (sn_generation snap) = Inr () \<and>
     length (sn_entries snap) \<le> sn_generation snap \<and> (sn_generation snap = 0 \<longrightarrow> sn_last_commit snap = None) \<and>
     length ledger \<le> capacity \<and> validate_capacity capacity = Inr ()"

definition durable_holds ::
  "'x durable_lib_scheme \<Rightarrow> journal_event list \<Rightarrow> byte list \<Rightarrow> recovery \<Rightarrow> world \<Rightarrow> bool" where
  "durable_holds lib evs bs rc w \<longleftrightarrow>
     (case w of (disk, svc) \<Rightarrow>
        \<not> ds_unresolved svc \<and> ds_journal_limit svc = MAX_FILE_BYTES \<and>
        consistent (ds_snapshot svc) (ds_ledger svc) (ds_max_retained_requests svc) \<and>
        (\<exists>sb. disk State_File = Some sb \<and> length sb \<le> MAX_FILE_BYTES \<and> decode_snapshot_frame lib sb = Inr (ds_snapshot svc)) \<and>
        disk Journal_File = Some (JOURNAL_MAGIC @ bs) \<and> journal_holds lib evs bs \<and> 4 + length bs \<le> MAX_FILE_BYTES \<and>
        length evs \<le> MAX_RECORDS \<and> ds_journal_sequence svc = length evs \<and> ds_journal_bytes svc = 4 + length bs \<and>
        (\<exists>n lb. disk Ledger_File = Some lb \<and> length lb \<le> MAX_FILE_BYTES \<and>
           sealed_ledger lib n (sn_generation (ds_snapshot svc)) (ds_ledger svc) = Inr lb) \<and>
        settled lib (ds_ledger svc) evs (ds_snapshot svc) rc \<and>
        (\<forall>e \<in> set (ds_ledger svc). reconcile svc (lr_recovery_reference (snd e)) = StatusCommitted (lr_generation (snd e))))"

lemma consistent_bounds:
  assumes "consistent snap ledger cap"
  shows "length ledger = sn_generation snap" "sn_generation snap \<le> cap" "cap \<le> MAX_RECORDS" "sn_generation snap < u64_bound"
    "sn_generation snap = 0 \<Longrightarrow> sn_entries snap = []"
  using assms by (auto simp: consistent_def validate_ledger_generation_iff validate_capacity_def snapshot_ok_def split: if_splits)

section \<open>Facts of replay\<close>

definition recovery_ok :: "recovery \<Rightarrow> bool" where
  "recovery_ok rc \<longleftrightarrow>
     committed_ok (rc_committed rc) \<and>
     (\<forall>e \<in> set (rc_committed rc). cm_recovery_reference (snd e) \<in> set (rc_references rc)) \<and>
     fst ` set (rc_reconciliation rc) \<subseteq> set (rc_references rc) \<and>
     (\<forall>m. rc_pending rc = Some m \<longrightarrow> cm_generation m = rc_generation rc + 1 \<and> cm_recovery_reference m \<in> set (rc_references rc))"

lemma recovery_ok_start [simp]: "recovery_ok (recovery_start [])"
  by (simp add: recovery_ok_def recovery_start_def committed_ok_def)

lemma recovery_ok_committed:
  assumes "recovery_ok rc" "cm_recovery_reference m \<in> set (rc_references rc)"
  shows "committed_ok (binsert (cm_key m) m (rc_committed rc))"
    "\<forall>e \<in> set (binsert (cm_key m) m (rc_committed rc)). cm_recovery_reference (snd e) \<in> set (rc_references rc)"
  using assms committed_ok_insert set_binsert [of "cm_key m" m "rc_committed rc"] by (auto simp: recovery_ok_def)

lemma adopt_checkpoint_ok:
  assumes "adopt_checkpoint pre rc = Inr rc'" "recovery_ok rc"
  shows "recovery_ok rc' \<and> rc_generation rc' = rc_generation rc"
  using assms
proof (induction pre arbitrary: rc)
  case (Cons e pre)
  obtain m where m: "marker_from_ledger (fst e) (snd e) = Inr m"
    "adopt_checkpoint pre (rc\<lparr>rc_references := bset_insert (cm_recovery_reference m) (rc_references rc),
       rc_committed := binsert (fst e) m (rc_committed rc)\<rparr>) = Inr rc'"
    using Cons.prems(1) by (auto split: if_splits)
  let ?rc = "rc\<lparr>rc_references := bset_insert (cm_recovery_reference m) (rc_references rc)\<rparr>"
  have k: "fst e = cm_key m" using m(1) by (simp add: marker_from_ledger_Inr)
  have "recovery_ok ?rc" using Cons.prems(2) by (auto simp: recovery_ok_def set_bset_insert)
  then have "recovery_ok (?rc\<lparr>rc_committed := binsert (cm_key m) m (rc_committed ?rc)\<rparr>)"
    using recovery_ok_committed [of ?rc m] by (simp add: recovery_ok_def set_bset_insert)
  then show ?case using Cons.IH [OF m(2)] k by simp
qed auto

lemma recover_event_ok:
  assumes "recover_event lib ledger off ev rc = Inr rc'" "recovery_ok rc"
  shows "recovery_ok rc' \<and> (case ev of Checkpoint cp \<Rightarrow> off = 0 \<and> rc_generation rc' = cp_generation cp | _ \<Rightarrow> rc_generation rc \<le> rc_generation rc')"
proof (cases ev)
  case (Intent m)
  then have "rc' = rc\<lparr>rc_references := bset_insert (cm_recovery_reference m) (rc_references rc), rc_pending := Some m\<rparr>"
    "cm_generation m = rc_generation rc + 1"
    using assms(1) by (auto simp: recover_event_def ok_or_iff checked_add64_def split: if_splits)
  then show ?thesis using Intent assms(2) by (auto simp: recovery_ok_def set_bset_insert)
next
  case (Commit m)
  then have m: "rc_pending rc = Some m"
    "rc' = rc\<lparr>rc_pending := None, rc_generation := cm_generation m, rc_last_commit := Some m, rc_committed := binsert (cm_key m) m (rc_committed rc)\<rparr>"
    using assms(1) by (auto simp: recover_event_def split: if_splits)
  then show ?thesis
    using assms(2) recovery_ok_committed [OF assms(2), of m] Commit by (simp add: recovery_ok_def)
next
  case (Abort m)
  then have "rc_pending rc = Some m"
    "rc' = rc\<lparr>rc_pending := None, rc_reconciliation := binsert (cm_recovery_reference m) StatusAborted (rc_reconciliation rc)\<rparr>"
    using assms(1) by (auto simp: recover_event_def split: if_splits)
  then show ?thesis using Abort assms(2) by (simp add: recovery_ok_def)
next
  case (Checkpoint cp)
  then obtain pre where "off = 0" "rc_pending rc = None"
    "adopt_checkpoint pre (rc\<lparr>rc_saw_checkpoint := True, rc_generation := cp_generation cp, rc_last_commit := cp_last_commit cp\<rparr>) = Inr rc'"
    using assms(1) by (auto simp: recover_event_def split: if_splits)
  then show ?thesis using adopt_checkpoint_ok assms(2) Checkpoint by (fastforce simp: recovery_ok_def)
qed

lemma recover_events_ok:
  assumes "recover_events lib ledger off evs rc = Inr rc'" "recovery_ok rc"
  shows "recovery_ok rc' \<and> (0 < off \<longrightarrow> rc_generation rc \<le> rc_generation rc') \<and>
    (\<forall>cp. Checkpoint cp \<in> set evs \<longrightarrow> off = 0 \<and> cp_generation cp \<le> rc_generation rc')"
  using assms
proof (induction evs arbitrary: off rc)
  case (Cons e evs)
  obtain rc1 where r: "recover_event lib ledger off e rc = Inr rc1" "recover_events lib ledger (Suc off) evs rc1 = Inr rc'"
    using Cons.prems(1) by auto
  note s = recover_event_ok [OF r(1) Cons.prems(2)]
  then have "recovery_ok rc1" by simp
  note t = Cons.IH [OF r(2) this]
  then show ?case using s by (cases e) (auto dest: order_trans)
qed auto

lemma settled_ok: "settled lib ledger evs snap rc \<Longrightarrow> recovery_ok rc"
  using recover_events_ok recovery_ok_start by (fastforce simp: settled_def)

lemma settled_references:
  assumes "settled lib ledger evs snap rc" "e \<in> set ledger"
  shows "lr_recovery_reference (snd e) \<in> set (rc_references rc)"
proof -
  have "e \<in> set (recovered_ledger (rc_committed rc))" using assms by (simp add: settled_def)
  then obtain e' where "e' \<in> set (rc_committed rc)" "e = (fst e', record_of_marker (snd e'))"
    by (auto simp: recovered_ledger_def bmap_vals_def case_prod_beta)
  then show ?thesis using settled_ok [OF assms(1)] by (auto simp: recovery_ok_def record_of_marker_def)
qed

lemma settled_keys: "settled lib ledger evs snap rc \<Longrightarrow> fst ` set (rc_committed rc) = fst ` set ledger"
  unfolding settled_def by (metis keys_recovered_ledger set_map)

section \<open>The mutation in the replay\<close>

lemma set_binsert_new: "k \<notin> fst ` set m \<Longrightarrow> set (binsert k v m) = insert (k, v) (set m)"
  by (induction m) auto

lemma filter_binsert_new: "k \<notin> fst ` set m \<Longrightarrow> \<not> P (k, v) \<Longrightarrow> filter P (binsert k v m) = filter P m"
  by (induction m) auto

text \<open>A mutation that the running service may perform.\<close>

definition mutation_ready ::
  "'x durable_lib_scheme \<Rightarrow> journal_event list \<Rightarrow> recovery \<Rightarrow> durable_service \<Rightarrow> binding \<Rightarrow> byte list option \<Rightarrow> bool" where
  "mutation_ready lib evs rc svc b v \<longleftrightarrow>
     mutation_ok b v \<and> binding_digest lib b \<noteq> zero_digest \<and> map_of (ds_ledger svc) (bd_key b) = None \<and>
     cm_recovery_reference (planned_marker lib svc b) \<notin> set (rc_references rc)"

definition intended :: "commit_marker \<Rightarrow> recovery \<Rightarrow> recovery" where
  "intended m rc = rc\<lparr>rc_references := bset_insert (cm_recovery_reference m) (rc_references rc), rc_pending := Some m\<rparr>"

definition aborted :: "commit_marker \<Rightarrow> recovery \<Rightarrow> recovery" where
  "aborted m rc = (intended m rc)\<lparr>rc_pending := None,
     rc_reconciliation := binsert (cm_recovery_reference m) StatusAborted (rc_reconciliation rc)\<rparr>"

definition accepted :: "commit_marker \<Rightarrow> recovery \<Rightarrow> recovery" where
  "accepted m rc = (intended m rc)\<lparr>rc_pending := None, rc_generation := cm_generation m, rc_last_commit := Some m,
     rc_committed := binsert (cm_key m) m (rc_committed rc)\<rparr>"

lemma recover_intent:
  assumes s: "settled lib (ds_ledger svc) evs (ds_snapshot svc) rc" and r: "mutation_ready lib evs rc svc b v" "sha256_size lib"
    and g: "sn_generation (ds_snapshot svc) + 1 < u64_bound" "ds_journal_sequence svc = length evs" "length evs \<le> MAX_RECORDS"
  shows "recover_events lib (ds_ledger svc) 0 (evs @ [Intent (planned_marker lib svc b)]) (recovery_start []) =
    Inr (intended (planned_marker lib svc b) rc)"
proof -
  let ?m = "planned_marker lib svc b"
  have "marker_ok ?m" using planned_marker_ok [OF r(2) _ _ g(1)] r(1) by (auto simp: mutation_ready_def)
  then have v: "validate_marker ?m = Inr ()" by (simp add: marker_ok_def)
  have "bd_key b \<notin> fst ` set (rc_committed rc)"
    using r(1) settled_keys [OF s] by (simp add: mutation_ready_def map_of_eq_None_iff)
  then have c: "\<not> bcontains (rc_committed rc) (cm_key ?m)" by (auto simp: bcontains_iff map_of_eq_None_iff planned_marker_def)
  have "length evs + 1 < u64_bound" using g(3) by (simp add: MAX_RECORDS_def)
  then have "recover_event lib (ds_ledger svc) (length evs) (Intent ?m) rc = Inr (intended ?m rc)"
    using v c s r g by (simp add: recover_event_def settled_def mutation_ready_def intended_def checked_add64_def ok_or_def)
      (simp add: planned_marker_def)
  then show ?thesis using s by (simp add: recover_events_append settled_def)
qed

lemma settled_aborted:
  assumes "settled lib (ds_ledger svc) evs (ds_snapshot svc) rc"
    and i: "recover_events lib (ds_ledger svc) 0 (evs @ [Intent m]) (recovery_start []) = Inr (intended m rc)"
  shows "settled lib (ds_ledger svc) (evs @ [Intent m, Abort m]) (ds_snapshot svc) (aborted m rc)"
proof -
  have "recover_events lib (ds_ledger svc) 0 ((evs @ [Intent m]) @ [Abort m]) (recovery_start []) = Inr (aborted m rc)"
    unfolding recover_events_append [of _ _ _ "evs @ [Intent m]"] i by (simp add: recover_event_def intended_def aborted_def)
  then show ?thesis using assms(1) by (simp add: settled_def aborted_def intended_def)
qed

lemma recover_accepted:
  assumes i: "recover_events lib ledger 0 (evs @ [Intent m]) (recovery_start []) = Inr (intended m rc)"
  shows "recover_events lib ledger 0 (evs @ [Intent m, Commit m]) (recovery_start []) = Inr (accepted m rc)"
proof -
  have "recover_events lib ledger 0 ((evs @ [Intent m]) @ [Commit m]) (recovery_start []) = Inr (accepted m rc)"
    unfolding recover_events_append [of _ _ _ "evs @ [Intent m]"] i by (simp add: recover_event_def intended_def accepted_def)
  then show ?thesis by simp
qed

lemma settled_accepted:
  assumes s: "settled lib (ds_ledger svc) evs (ds_snapshot svc) rc" and r: "mutation_ready lib evs rc svc b v" and m: "m = planned_marker lib svc b"
    and a: "recover_events lib (ds_ledger svc) 0 (evs @ [Intent m, Commit m]) (recovery_start []) = Inr (accepted m rc)"
  shows "settled lib (planned_ledger lib svc b) (evs @ [Intent m, Commit m]) (planned_snapshot lib svc b v) (accepted m rc)"
proof -
  have k: "bd_key b \<notin> fst ` set (ds_ledger svc)" using r by (simp add: mutation_ready_def map_of_eq_None_iff)
  have "ledger_prefix (planned_ledger lib svc b) (cp_generation cp) = ledger_prefix (ds_ledger svc) (cp_generation cp)"
    if "Checkpoint cp \<in> set (evs @ [Intent m, Commit m])" for cp
  proof -
    have "cp_generation cp \<le> rc_generation rc"
      using recover_events_ok [of lib "ds_ledger svc" 0 evs "recovery_start []" rc] s that by (auto simp: settled_def)
    then have "\<not> lr_generation (snd (bd_key b, record_of_marker (planned_marker lib svc b))) \<le> cp_generation cp"
      using s by (simp add: settled_def record_of_marker_def planned_marker_def)
    then show ?thesis
      unfolding ledger_prefix_def planned_ledger_def
      by (simp add: filter_binsert_new [OF k, where P = "\<lambda>e. lr_generation (snd e) \<le> cp_generation cp"])
  qed
  then have "recover_events lib (planned_ledger lib svc b) 0 (evs @ [Intent m, Commit m]) (recovery_start []) = Inr (accepted m rc)"
    using recover_events_ledger_cong [of "evs @ [Intent m, Commit m]" "planned_ledger lib svc b" "ds_ledger svc" lib 0 "recovery_start []"] a by simp
  then show ?thesis
    using s by (simp add: settled_def accepted_def intended_def recovered_ledger_insert planned_ledger_def planned_snapshot_def m)
      (simp add: planned_marker_def)
qed

lemma consistent_planned:
  assumes c: "consistent (ds_snapshot svc) (ds_ledger svc) cap" and s: "settled lib (ds_ledger svc) evs (ds_snapshot svc) rc"
    and r: "mutation_ready lib evs rc svc b v" "sha256_size lib" and l: "length (ds_ledger svc) < cap"
  shows "consistent (planned_snapshot lib svc b v) (planned_ledger lib svc b) cap"
proof -
  let ?m = "planned_marker lib svc b" and ?L = "ds_ledger svc" and ?g = "sn_generation (ds_snapshot svc)"
  note cb = consistent_bounds [OF c]
  have g: "?g + 1 < u64_bound" "?g < MAX_RECORDS" "length ?L < MAX_RECORDS" "length (sn_entries (ds_snapshot svc)) < MAX_RECORDS"
    using cb l c by (auto simp: consistent_def MAX_RECORDS_def)
  have mo: "mutation_ok b v" "binding_digest lib b \<noteq> zero_digest" using r(1) by (auto simp: mutation_ready_def)
  have k: "bd_key b \<notin> fst ` set ?L" using r(1) by (simp add: mutation_ready_def map_of_eq_None_iff)
  have ok: "snapshot_ok (planned_snapshot lib svc b v)" "ledger_ok (planned_ledger lib svc b)"
    using planned_snapshot_ok [OF r(2) mo] planned_ledger_ok [OF r(2) mo] c g by (auto simp: consistent_def)
  have set: "set (planned_ledger lib svc b) = insert (bd_key b, record_of_marker ?m) (set ?L)"
    unfolding planned_ledger_def by (rule set_binsert_new [OF k])
  have len: "length (planned_ledger lib svc b) = Suc (length ?L)"
    unfolding planned_ledger_def by (rule length_binsert_new [OF k])
  have old: "distinct (map (\<lambda>e. lr_recovery_reference (snd e)) ?L)" "bij_betw (\<lambda>e. lr_generation (snd e)) (set ?L) {1..?g}"
    "length ?L = ?g" "distinct ?L"
    using c by (auto simp: consistent_def validate_ledger_generation_iff)
  have d: "distinct (planned_ledger lib svc b)" using len set old(4) k by (intro card_distinct) (force simp: distinct_card card_insert_if)
  have new: "lr_recovery_reference (record_of_marker ?m) = cm_recovery_reference ?m" "lr_generation (record_of_marker ?m) = Suc ?g"
    by (simp_all add: record_of_marker_def planned_marker_def)
  have inj: "inj_on (\<lambda>e. lr_recovery_reference (snd e)) (set (planned_ledger lib svc b))"
    using old(1) settled_references [OF s] r(1) new unfolding set distinct_map inj_on_insert mutation_ready_def by auto
  have bij: "bij_betw (\<lambda>e. lr_generation (snd e)) (set (planned_ledger lib svc b)) {1..?g + 1}"
  proof -
    have "bij_betw (\<lambda>e. lr_generation (snd e)) (set ?L \<union> {(bd_key b, record_of_marker ?m)}) ({1..?g} \<union> {Suc ?g})"
      using old(2) by (rule bij_betw_combine) (auto simp: bij_betw_def new)
    moreover have "{1..?g} \<union> {Suc ?g} = {1..?g + 1}" by auto
    moreover have "set ?L \<union> {(bd_key b, record_of_marker ?m)} = set (planned_ledger lib svc b)" using set by auto
    ultimately show ?thesis by (simp only:)
  qed
  have v: "validate_ledger_generation (planned_ledger lib svc b) (?g + 1) = Inr ()"
    unfolding validate_ledger_generation_iff using len old(3) d inj bij ok(2) by (auto simp: distinct_map ledger_ok_def record_ok_def list_all_iff)
  have "length (mutated_entries b v (sn_entries (ds_snapshot svc))) \<le> Suc (length (sn_entries (ds_snapshot svc)))"
    using length_binsert_le length_bremove_le [THEN le_SucI] by (auto simp: mutated_entries_def split: mutation_kind.split)
  then have "length (sn_entries (planned_snapshot lib svc b v)) \<le> ?g + 1" using c by (simp add: planned_snapshot_def consistent_def)
  then show ?thesis
    using ok v len l c by (simp add: consistent_def planned_snapshot_def)
qed

section \<open>Recovery after each crash point\<close>

lemma check_recovery_ok:
  assumes s: "rc_pending rc = None \<or> \<not> published_pending snap rc"
    and c: "committed_ok (rc_committed rc)" "recovered_ledger (rc_committed rc) = L" "rc_generation rc = sn_generation snap"
      "rc_last_commit rc = sn_last_commit snap" "consistent snap L cap"
    and l: "ledger = L \<and> lg = sn_generation snap \<or>
      (\<exists>k r. map_of ledger k = None \<and> L = binsert k r ledger \<and> lr_generation r = Suc lg \<and> sn_generation snap = Suc lg \<and>
         (\<forall>e \<in> set ledger. lr_generation (snd e) \<le> lg))"
  shows "check_recovery (reopened snap ledger [] sq bl cap) lg rc = Inr ()"
proof -
  note cb = consistent_bounds [OF c(5)]
  have p: "\<not> published_pending snap rc" using s by (auto simp: published_pending_def is_some_and_def)
  have len: "length (rc_committed rc) = sn_generation snap" using cb(1) c(2) by auto
  have m: "map_of L (fst e) = Some (record_of_marker (snd e))" if "e \<in> set (rc_committed rc)" for e
  proof -
    have "map_of (rc_committed rc) (fst e) = Some (snd e)"
      using c(1) that by (cases e) (auto simp: committed_ok_def bmap_ok_def strict_sorted_iff)
    then show ?thesis using map_of_recovered_ledger [of "rc_committed rc" "fst e"] c(2) by simp
  qed
  have g: "lr_generation (snd e) \<le> sn_generation snap" if "e \<in> set L" for e
    using c(5) that by (auto simp: consistent_def intro: ledger_generation_le)
  have gm: "cm_generation (snd e) \<le> sn_generation snap" if "e \<in> set (rc_committed rc)" for e
    using g [OF map_of_SomeD [OF m [OF that]]] by (simp add: record_of_marker_def)
  have keys: "fst ` set L = fst ` set (rc_committed rc)" using keys_recovered_ledger [of "rc_committed rc"] c(2) by (metis set_map)
  have "check_committed lg ledger (rc_committed rc) = Inr () \<and> (\<forall>e \<in> set ledger. fst e \<in> fst ` set (rc_committed rc)) \<and> lg \<le> sn_generation snap \<and> sn_generation snap \<le> lg + 1"
  proof (cases "ledger = L \<and> lg = sn_generation snap")
    case True
    then show ?thesis using m gm keys by (auto simp: check_committed_iff)
  next
    case False
    then obtain k r where n: "map_of ledger k = None" "L = binsert k r ledger" "lr_generation r = Suc lg" "sn_generation snap = Suc lg"
      "\<And>e. e \<in> set ledger \<Longrightarrow> lr_generation (snd e) \<le> lg" using l by blast
    have "map_of ledger (fst e) = (if cm_generation (snd e) \<le> lg then Some (record_of_marker (snd e)) else None)"
      if e: "e \<in> set (rc_committed rc)" for e
    proof (cases "fst e = k")
      case True
      then have "record_of_marker (snd e) = r" using m [OF e] n(2) by simp
      then show ?thesis using n(1,3) True by (auto simp: record_of_marker_def)
    next
      case False
      then have "map_of ledger (fst e) = Some (record_of_marker (snd e))" using m [OF e] n(2) by simp
      then show ?thesis using n(5) [OF map_of_SomeD] by (fastforce simp: record_of_marker_def)
    qed
    then show ?thesis using n(2,4) keys by (auto simp: check_committed_iff)
  qed
  then show ?thesis
    using p len c(3-5) cb by (auto simp: check_recovery_def Let_def reopened_def saturating_add64_def bcontains_iff map_of_eq_None_iff list_ex_iff consistent_def image_iff)
qed

lemma check_recovery_published:
  assumes c: "committed_ok (rc_committed rc)" "recovered_ledger (rc_committed rc) = ledger" "rc_generation rc = lg"
    and v: "validate_ledger_generation ledger lg = Inr ()" "length ledger < cap" "lg < u64_bound"
    and p: "published_pending snap rc" "sn_generation snap \<noteq> 0"
  shows "check_recovery (reopened snap ledger [] sq bl cap) lg rc = Inr ()"
proof -
  have len: "length (rc_committed rc) = lg" "length ledger = lg" using v c(2) by (auto simp: validate_ledger_generation_iff)
  have m: "map_of ledger (fst e) = Some (record_of_marker (snd e))" if "e \<in> set (rc_committed rc)" for e
  proof -
    have "map_of (rc_committed rc) (fst e) = Some (snd e)"
      using c(1) that by (cases e) (auto simp: committed_ok_def bmap_ok_def strict_sorted_iff)
    then show ?thesis using map_of_recovered_ledger [of "rc_committed rc" "fst e"] c(2) by simp
  qed
  have "lr_generation (snd e) \<le> lg" if "e \<in> set ledger" for e
    by (rule ledger_generation_le [OF v(1) that])
  then have gm: "cm_generation (snd e) \<le> lg" if "e \<in> set (rc_committed rc)" for e
    using map_of_SomeD [OF m [OF that]] by (force simp: record_of_marker_def)
  have keys: "fst ` set ledger = fst ` set (rc_committed rc)" using keys_recovered_ledger [of "rc_committed rc"] c(2) by (metis set_map)
  have cc: "check_committed lg ledger (rc_committed rc) = Inr ()" using m gm by (simp add: check_committed_iff)
  have le: "\<not> (rc_generation rc < lg \<or> saturating_add64 lg 1 < rc_generation rc)"
    using c(3) v(3) by (simp add: saturating_add64_def)
  have ex: "\<not> list_ex (\<lambda>e. \<not> bcontains (rc_committed rc) (fst e)) ledger"
    using keys by (auto simp: list_ex_iff bcontains_iff map_of_eq_None_iff image_iff)
  show ?thesis
    using p le cc ex v(2) len c(3) by (simp add: check_recovery_def Let_def reopened_def)
qed

section \<open>Reconciliation\<close>

lemma map_of_recovered_reconciliation_other:
  assumes "\<forall>e \<in> set c. cm_recovery_reference (snd e) \<noteq> ref"
  shows "map_of (recovered_reconciliation c recon) ref = map_of recon ref"
  using assms unfolding recovered_reconciliation_def by (induction c arbitrary: recon) auto

lemma map_of_recovered_reconciliation_committed:
  assumes "distinct (map (\<lambda>e. cm_recovery_reference (snd e)) c)" "e \<in> set c"
  shows "map_of (recovered_reconciliation c recon) (cm_recovery_reference (snd e)) = Some (StatusCommitted (cm_generation (snd e)))"
  using assms
proof (induction c arbitrary: recon)
  case (Cons a c)
  let ?r = "binsert (cm_recovery_reference (snd a)) (StatusCommitted (cm_generation (snd a))) recon"
  have u: "recovered_reconciliation (a # c) recon = recovered_reconciliation c ?r" by (simp add: recovered_reconciliation_def)
  show ?case
  proof (cases "e = a")
    case True
    have "\<forall>x \<in> set c. cm_recovery_reference (snd x) \<noteq> cm_recovery_reference (snd a)" using Cons.prems(1) by (metis (mono_tags, lifting) distinct.simps(2) image_eqI list.simps(9) list.set_map)
    then show ?thesis using map_of_recovered_reconciliation_other [of c _ ?r] True u by simp
  next
    case False
    then show ?thesis using Cons u by simp
  qed
qed simp

lemma recovered_references:
  "map (\<lambda>e. lr_recovery_reference (snd e)) (recovered_ledger c) = map (\<lambda>e. cm_recovery_reference (snd e)) c"
  by (simp add: recovered_ledger_def bmap_vals_def comp_def case_prod_beta record_of_marker_def)

text \<open>What the recovered service answers about a reference.\<close>

lemma reconcile_recovered:
  assumes "validate_ledger_generation (recovered_ledger c) g = Inr ()" "e \<in> set (recovered_ledger c)"
    and "ds_reconciliation svc = recovered_reconciliation c recon"
  shows "reconcile svc (lr_recovery_reference (snd e)) = StatusCommitted (lr_generation (snd e))"
proof -
  have d: "distinct (map (\<lambda>e. cm_recovery_reference (snd e)) c)"
    using assms(1) recovered_references [of c] by (simp add: validate_ledger_generation_iff)
  obtain e' where "e' \<in> set c" "snd e = record_of_marker (snd e')"
    using assms(2) by (auto simp: recovered_ledger_def bmap_vals_def)
  then show ?thesis
    using map_of_recovered_reconciliation_committed [OF d] assms(3) by (simp add: reconcile_def record_of_marker_def)
qed

section \<open>Reopening a consistent directory\<close>

lemma reopen_settled:
  assumes lib: "barrier_opens lib" "sha256_size lib" "barrier_size lib k" "seal_available lib (n + 1)"
    and i: "image lib snap evs bs tail lg ledger disk" and j: "journal_holds lib evs bs" "length evs \<le> MAX_RECORDS" "4 + length bs \<le> MAX_FILE_BYTES"
    and c: "consistent snap L cap" "settled lib L evs snap rc" "recover_events lib ledger 0 evs (recovery_start []) = Inr rc"
    and v: "validate_ledger_generation ledger lg = Inr ()"
    and l: "ledger = L \<and> lg = sn_generation snap \<or>
      (\<exists>k r. map_of ledger k = None \<and> L = binsert k r ledger \<and> lr_generation r = Suc lg \<and> sn_generation snap = Suc lg \<and>
         (\<forall>e \<in> set ledger. lr_generation (snd e) \<le> lg))"
    and z: "sealed_ledger lib n' (sn_generation snap) L = Inr lb" "length lb \<le> MAX_FILE_BYTES"
  shows "\<exists>disk' svc'. reopen lib n (\<lambda>_. IoDone) (Inr ()) cap disk = (disk', Inr svc') \<and> durable_holds lib evs bs rc (disk', svc') \<and>
    ds_snapshot svc' = snap \<and> ds_ledger svc' = L \<and> ds_max_retained_requests svc' = cap \<and>
    ds_reconciliation svc' = recovered_reconciliation (rc_committed rc) (rc_reconciliation rc)"
proof -
  note ok = settled_ok [OF c(2)]
  have s: "rc_pending rc = None" "recovered_ledger (rc_committed rc) = L" "rc_generation rc = sn_generation snap" "rc_last_commit rc = sn_last_commit snap"
    using c(2) by (auto simp: settled_def)
  have ck: "check_recovery (reopened snap ledger [] (length evs) (4 + length bs) cap) lg rc = Inr ()"
    using ok s c(1) l by (intro check_recovery_ok) (auto simp: recovery_ok_def)
  obtain lb' where lb': "sealed_ledger lib (n + 1) (sn_generation snap) L = Inr lb'" "length lb' = length lb"
    using sealed_ledger_ok [OF lib(3,2) z lib(4)] by blast
  have jf: "disk Journal_File = Some (JOURNAL_MAGIC @ bs @ tail)" using i by (simp add: image_def)
  have cap: "validate_capacity cap = Inr ()" using c(1) by (simp add: consistent_def)
  let ?d = "disk(Journal_File := Some (JOURNAL_MAGIC @ bs), Ledger_File := Some lb')"
  let ?s = "reopened snap L (recovered_reconciliation (rc_committed rc) (rc_reconciliation rc)) (length evs) (4 + length bs) cap"
  have lbs: "sealed_ledger lib (n + 1) (sn_generation snap) (recovered_ledger (rc_committed rc)) = Inr lb'" "length lb' \<le> MAX_FILE_BYTES"
    using lb' s(2) z(2) by auto
  have "reopen lib n (\<lambda>_. IoDone) (Inr ()) cap disk = (?d, Inr ?s)"
    using recover_settled [where disk = disk and bs = bs and tail = tail and m = n, OF v c(3) ck s(1) jf refl lbs] by (simp add: reopen_image [OF i cap] s(2))
  moreover have "\<forall>e \<in> set L. reconcile ?s (lr_recovery_reference (snd e)) = StatusCommitted (lr_generation (snd e))"
    using reconcile_recovered [of "rc_committed rc" "sn_generation snap" _ ?s "rc_reconciliation rc"] c(1) s(2)
    by (simp add: reopened_def consistent_def)
  then have "durable_holds lib evs bs rc (?d, ?s)"
    using i j c(1,2) lb' z(2) by (auto simp: durable_holds_def reopened_def image_def)
  ultimately show ?thesis by (auto simp: reopened_def)
qed

lemma reopen_pending:
  assumes lib: "barrier_opens lib" "sha256_size lib" "barrier_size lib k" "seal_available lib n" "seal_available lib (n + 1)"
    and i: "image lib snap (evs @ [Intent m]) bs tail lg ledger disk"
    and j: "journal_holds lib (evs @ [Intent m]) bs" "length evs + 2 \<le> MAX_RECORDS" "marker_ok m"
    and t: "sealed_journal_record lib n'' s (Commit m) = Inr r" "4 + length bs + length r \<le> MAX_FILE_BYTES"
    and p: "recover_events lib ledger 0 (evs @ [Intent m]) (recovery_start []) = Inr rc0" "rc_pending rc0 = Some m"
      "check_recovery (reopened snap ledger [] (length evs + 1) (4 + length bs) cap) lg rc0 = Inr ()"
      "validate_ledger_generation ledger lg = Inr ()"
    and e: "ev = (if published_pending snap rc0 then Commit m else Abort m)"
      "rc1 = (if published_pending snap rc0 then rc0\<lparr>rc_committed := binsert (cm_key m) m (rc_committed rc0)\<rparr>
              else rc0\<lparr>rc_reconciliation := binsert (cm_recovery_reference m) StatusAborted (rc_reconciliation rc0)\<rparr>)"
    and c: "consistent snap L cap" "settled lib L (evs @ [Intent m, ev]) snap rc"
      "rc_committed rc1 = rc_committed rc" "rc_reconciliation rc1 = rc_reconciliation rc"
    and z: "sealed_ledger lib n' (sn_generation snap) L = Inr lb" "length lb \<le> MAX_FILE_BYTES"
  shows "\<exists>disk' svc' bs'. reopen lib n (\<lambda>_. IoDone) (Inr ()) cap disk = (disk', Inr svc') \<and>
    durable_holds lib (evs @ [Intent m, ev]) bs' rc (disk', svc') \<and>
    ds_snapshot svc' = snap \<and> ds_ledger svc' = L \<and> ds_max_retained_requests svc' = cap \<and>
    ds_reconciliation svc' = recovered_reconciliation (rc_committed rc) (rc_reconciliation rc)"
proof -
  have s: "recovered_ledger (rc_committed rc) = L" using c(2) by (simp add: settled_def)
  have rl: "length r \<le> MAX_FILE_BYTES" using t(2) by simp
  have "ev = Commit m \<or> ev = Abort m" using e(1) by simp
  then obtain r' where r': "sealed_journal_record lib n (length evs + 1 + 1) ev = Inr r'" "length r' = length r"
    by (rule marker_record_ok [OF lib(3,2) t(1) rl lib(4)])
  obtain lb' where lb': "sealed_ledger lib (n + 1) (sn_generation snap) L = Inr lb'" "length lb' = length lb"
    using sealed_ledger_ok [OF lib(3,2) z lib(5)] by blast
  have jf: "disk Journal_File = Some (JOURNAL_MAGIC @ bs @ tail)" using i by (simp add: image_def)
  have cap: "validate_capacity cap = Inr ()" using c(1) by (simp add: consistent_def)
  let ?d = "disk(Journal_File := Some (JOURNAL_MAGIC @ bs @ r'), Ledger_File := Some lb')"
  let ?s = "reopened snap L (recovered_reconciliation (rc_committed rc) (rc_reconciliation rc)) (length evs + 2) (4 + length bs + length r') cap"
  have lbs: "sealed_ledger lib (n + 1) (sn_generation snap) (recovered_ledger (rc_committed rc1)) = Inr lb'" "length lb' \<le> MAX_FILE_BYTES"
    using lb' s z(2) c(3) by auto
  have lim: "4 + length bs + length r' \<le> MAX_FILE_BYTES" "length evs + 1 < MAX_RECORDS" using r'(2) t(2) j(2) by auto
  have "reopen lib n (\<lambda>_. IoDone) (Inr ()) cap disk = (?d, Inr ?s)"
    using recover_pending [where disk = disk and bs = bs and tail = tail and m = n, OF p(4,1,3,2) jf refl e r'(1) lim lbs] by (simp add: reopen_image [OF i cap] s c(3,4))
  moreover have "\<forall>e \<in> set L. reconcile ?s (lr_recovery_reference (snd e)) = StatusCommitted (lr_generation (snd e))"
    using reconcile_recovered [of "rc_committed rc" "sn_generation snap" _ ?s "rc_reconciliation rc"] c(1) s
    by (simp add: reopened_def consistent_def)
  moreover have "journal_holds lib ((evs @ [Intent m]) @ [ev]) (bs @ r')"
    using j(1) r'(1) j(3) e(1) by (intro journal_holds.snoc) auto
  ultimately have "durable_holds lib (evs @ [Intent m, ev]) (bs @ r') rc (?d, ?s)"
    using i j(2) c(1,2) lb' z(2) lim by (auto simp: durable_holds_def reopened_def image_def)
  with \<open>reopen lib n (\<lambda>_. IoDone) (Inr ()) cap disk = (?d, Inr ?s)\<close> show ?thesis by (auto simp: reopened_def)
qed

text \<open>A proper prefix of the next record, which the crash of an append leaves.\<close>

definition torn_tail :: "'x durable_lib_scheme \<Rightarrow> nat \<Rightarrow> byte list \<Rightarrow> bool" where
  "torn_tail lib sequence tail \<longleftrightarrow>
     (\<exists>n r ev k. sealed_journal_record lib n (sequence + 1) ev = Inr r \<and> k < length r \<and> tail = take k r \<and> length r \<le> MAX_FILE_BYTES)"

lemma torn_tailI:
  "sealed_journal_record lib n (sequence + 1) ev = Inr r \<Longrightarrow> k < length r \<Longrightarrow> length r \<le> MAX_FILE_BYTES \<Longrightarrow> torn_tail lib sequence (take k r)"
  by (auto simp: torn_tail_def)

lemma image_intro:
  assumes lib: "barrier_opens lib" "sha256_size lib"
    and s: "disk State_File = Some sb" "length sb \<le> MAX_FILE_BYTES" "decode_snapshot_frame lib sb = Inr snap"
    and l: "disk Ledger_File = Some lb" "length lb \<le> MAX_FILE_BYTES" "sealed_ledger lib n lg ledger = Inr lb" "ledger_ok ledger" "lg < u64_bound"
    and j: "disk Journal_File = Some (JOURNAL_MAGIC @ bs @ tail)" "journal_holds lib evs bs" "length evs \<le> MAX_RECORDS"
    and t: "4 + length bs + length tail \<le> MAX_FILE_BYTES"
      "tail = [] \<or> torn_tail lib (length evs) tail"
  shows "image lib snap evs bs tail lg ledger disk"
proof -
  have "decode_journal_frames lib (JOURNAL_MAGIC @ bs @ tail) = Inr (length evs, evs, 4 + length bs, tail \<noteq> [])"
  proof (cases "tail = []")
    case True
    then show ?thesis using decode_journal [OF lib j(2,3)] t(1) by simp
  next
    case False
    then obtain n r ev k where r: "sealed_journal_record lib n (length evs + 1) ev = Inr r" "k < length r" "tail = take k r" "length r \<le> MAX_FILE_BYTES"
      using t(2) by (auto simp: torn_tail_def)
    moreover have "0 < k" using False r by (cases k) auto
    ultimately show ?thesis using decode_journal_torn [OF lib j(2,3) _ r(1,4,2)] t(1) False by simp
  qed
  then show ?thesis
    using s l j t decode_ledger_sealed [OF lib l(3,4,5,2)] by (auto simp: image_def)
qed

text \<open>What the crash of a mutation leaves is recovered as the state before it or the state after it.\<close>

definition recovers_to ::
  "'x durable_lib_scheme \<Rightarrow> nat \<Rightarrow> nat \<Rightarrow> disk \<Rightarrow> snapshot \<Rightarrow> ledger \<Rightarrow> string \<Rightarrow> reconciliation_status \<Rightarrow> bool" where
  "recovers_to lib n cap disk snap ledger ref status \<longleftrightarrow>
     (\<exists>disk' svc' evs bs rc. reopen lib n (\<lambda>_. IoDone) (Inr ()) cap disk = (disk', Inr svc') \<and>
        durable_holds lib evs bs rc (disk', svc') \<and> ds_snapshot svc' = snap \<and> ds_ledger svc' = ledger \<and>
        ds_max_retained_requests svc' = cap \<and> reconcile svc' ref = status)"

lemma reconcile_unused:
  assumes "recovery_ok rc" "ref \<notin> set (rc_references rc)"
    and "ds_reconciliation svc = recovered_reconciliation (rc_committed rc) recon"
  shows "reconcile svc ref = unwrap_or (map_of recon ref) StatusUnknown"
proof -
  have "\<forall>e \<in> set (rc_committed rc). cm_recovery_reference (snd e) \<noteq> ref" using assms(1,2) unfolding recovery_ok_def by blast
  then show ?thesis using assms(3) by (simp add: reconcile_def map_of_recovered_reconciliation_other)
qed

lemma reconcile_new:
  assumes "consistent snap L cap" "settled lib L evs snap rc"
    and "ds_reconciliation svc = recovered_reconciliation (rc_committed rc) recon" "e \<in> set L"
  shows "reconcile svc (lr_recovery_reference (snd e)) = StatusCommitted (lr_generation (snd e))"
  using assms reconcile_recovered [of "rc_committed rc" "sn_generation snap" e svc recon] by (auto simp: consistent_def settled_def)

lemma planned_in_ledger:
  assumes "mutation_ready lib evs rc svc b v"
  shows "(bd_key b, record_of_marker (planned_marker lib svc b)) \<in> set (planned_ledger lib svc b)"
  using assms set_binsert_new [of "bd_key b" "ds_ledger svc"] by (simp add: planned_ledger_def mutation_ready_def map_of_eq_None_iff)

lemma sealed_record_not_Nil:
  assumes "barrier_size lib k" "sha256_size lib" "sealed_journal_record lib n s ev = Inr r"
  shows "r \<noteq> []"
proof -
  obtain p where "encode_journal_event ev = Inr p" using assms(3) by (auto simp: sealed_journal_record_def)
  then show ?thesis using sealed_record_length [OF assms] by auto
qed

definition mutation_planned ::
  "'x durable_lib_scheme \<Rightarrow> nat \<Rightarrow> journal_event list \<Rightarrow> byte list \<Rightarrow> recovery \<Rightarrow> disk \<Rightarrow> durable_service \<Rightarrow> binding \<Rightarrow>
   byte list option \<Rightarrow> mutation_plan \<Rightarrow> bool" where
  "mutation_planned lib n evs bs rc disk svc b v plan \<longleftrightarrow>
     barrier_opens lib \<and> sha256_size lib \<and> durable_holds lib evs bs rc (disk, svc) \<and> mutation_ready lib evs rc svc b v \<and>
     plan_mutation lib n svc b v = Inr plan"

lemma planned_state:
  assumes "mutation_planned lib n evs bs rc disk svc b v plan"
  shows "consistent (ds_snapshot svc) (ds_ledger svc) (ds_max_retained_requests svc)"
    "settled lib (ds_ledger svc) evs (ds_snapshot svc) rc" "journal_holds lib evs bs"
    "length evs + 2 \<le> MAX_RECORDS" "4 + length bs + length (mp_intent plan) + length (mp_commit plan) \<le> MAX_FILE_BYTES"
    "ds_journal_sequence svc = length evs" "ds_journal_bytes svc = 4 + length bs" "ds_journal_limit svc = MAX_FILE_BYTES"
    "disk Journal_File = Some (JOURNAL_MAGIC @ bs)" "marker_ok (planned_marker lib svc b)"
    "consistent (planned_snapshot lib svc b v) (planned_ledger lib svc b) (ds_max_retained_requests svc)"
    "sealed_journal_record lib (n + 2) (length evs + 1) (Intent (planned_marker lib svc b)) = Inr (mp_intent plan)"
    "sealed_journal_record lib (n + 3) (length evs + 2) (Commit (planned_marker lib svc b)) = Inr (mp_commit plan)"
proof -
  have h: "sha256_size lib" "durable_holds lib evs bs rc (disk, svc)" "mutation_ready lib evs rc svc b v" "plan_mutation lib n svc b v = Inr plan"
    using assms by (auto simp: mutation_planned_def)
  note pl = plan_mutation_Inr [OF h(4)]
  show s: "consistent (ds_snapshot svc) (ds_ledger svc) (ds_max_retained_requests svc)"
    "settled lib (ds_ledger svc) evs (ds_snapshot svc) rc" "journal_holds lib evs bs"
    "ds_journal_sequence svc = length evs" "ds_journal_bytes svc = 4 + length bs" "ds_journal_limit svc = MAX_FILE_BYTES"
    "disk Journal_File = Some (JOURNAL_MAGIC @ bs)"
    using h(2) by (auto simp: durable_holds_def)
  show "length evs + 2 \<le> MAX_RECORDS" "4 + length bs + length (mp_intent plan) + length (mp_commit plan) \<le> MAX_FILE_BYTES"
    "sealed_journal_record lib (n + 2) (length evs + 1) (Intent (planned_marker lib svc b)) = Inr (mp_intent plan)"
    "sealed_journal_record lib (n + 3) (length evs + 2) (Commit (planned_marker lib svc b)) = Inr (mp_commit plan)"
    using pl(3,13,9,10) s(4-6) by simp_all
  show "marker_ok (planned_marker lib svc b)" using planned_marker_ok [OF h(1) _ _ pl(2)] h(3) by (auto simp: mutation_ready_def)
  show "consistent (planned_snapshot lib svc b v) (planned_ledger lib svc b) (ds_max_retained_requests svc)"
    by (rule consistent_planned [OF s(1,2) h(3,1) pl(1)])
qed

lemma planned_files:
  assumes "mutation_planned lib n evs bs rc disk svc b v plan"
  obtains sb n0 lb where "disk State_File = Some sb" "length sb \<le> MAX_FILE_BYTES" "decode_snapshot_frame lib sb = Inr (ds_snapshot svc)"
      "disk Ledger_File = Some lb" "length lb \<le> MAX_FILE_BYTES"
      "sealed_ledger lib n0 (sn_generation (ds_snapshot svc)) (ds_ledger svc) = Inr lb"
  using assms by (auto simp: mutation_planned_def durable_holds_def)

lemma planned_writes:
  assumes "mutation_planned lib n evs bs rc disk svc b v plan"
  shows "length (mp_snapshot_bytes plan) \<le> MAX_FILE_BYTES" "length (mp_ledger_bytes plan) \<le> MAX_FILE_BYTES"
    "decode_snapshot_frame lib (mp_snapshot_bytes plan) = Inr (planned_snapshot lib svc b v)"
    "sealed_ledger lib (n + 1) (sn_generation (planned_snapshot lib svc b v)) (planned_ledger lib svc b) = Inr (mp_ledger_bytes plan)"
    "sn_generation (planned_snapshot lib svc b v) = Suc (sn_generation (ds_snapshot svc))"
    "length (ds_ledger svc) < ds_max_retained_requests svc"
proof -
  have lib: "barrier_opens lib" "sha256_size lib" and p: "plan_mutation lib n svc b v = Inr plan" using assms by (auto simp: mutation_planned_def)
  note pl = plan_mutation_Inr [OF p]
  show "length (mp_snapshot_bytes plan) \<le> MAX_FILE_BYTES" "length (mp_ledger_bytes plan) \<le> MAX_FILE_BYTES"
    "length (ds_ledger svc) < ds_max_retained_requests svc" using pl by auto
  show g: "sn_generation (planned_snapshot lib svc b v) = Suc (sn_generation (ds_snapshot svc))" by (simp add: planned_snapshot_def)
  show "sealed_ledger lib (n + 1) (sn_generation (planned_snapshot lib svc b v)) (planned_ledger lib svc b) = Inr (mp_ledger_bytes plan)"
    using pl(8) g by simp
  show "decode_snapshot_frame lib (mp_snapshot_bytes plan) = Inr (planned_snapshot lib svc b v)"
    using decode_snapshot_sealed [OF lib pl(7) _ pl(11)] planned_state(11) [OF assms] by (auto simp: consistent_def)
qed

lemma planned_journal:
  assumes "mutation_planned lib n evs bs rc disk svc b v plan"
  shows "journal_holds lib (evs @ [Intent (planned_marker lib svc b)]) (bs @ mp_intent plan)"
    "journal_holds lib (evs @ [Intent (planned_marker lib svc b), Commit (planned_marker lib svc b)]) (bs @ mp_intent plan @ mp_commit plan)"
proof -
  let ?m = "planned_marker lib svc b"
  note st = planned_state [OF assms]
  have e: "event_ok (Intent ?m)" "event_ok (Commit ?m)" using st(10) by simp_all
  show j: "journal_holds lib (evs @ [Intent ?m]) (bs @ mp_intent plan)" by (rule journal_holds.snoc [OF st(3,12) e(1)])
  have "sealed_journal_record lib (n + 3) (length (evs @ [Intent ?m]) + 1) (Commit ?m) = Inr (mp_commit plan)" using st(13) by simp
  from journal_holds.snoc [OF j this e(2)]
  show "journal_holds lib (evs @ [Intent ?m, Commit ?m]) (bs @ mp_intent plan @ mp_commit plan)" by simp
qed

lemma planned_replay:
  assumes "mutation_planned lib n evs bs rc disk svc b v plan" and m: "m = planned_marker lib svc b"
  shows "recover_events lib (ds_ledger svc) 0 (evs @ [Intent m]) (recovery_start []) = Inr (intended m rc)"
    "recover_events lib (ds_ledger svc) 0 (evs @ [Intent m, Commit m]) (recovery_start []) = Inr (accepted m rc)"
    "settled lib (ds_ledger svc) (evs @ [Intent m, Abort m]) (ds_snapshot svc) (aborted m rc)"
    "settled lib (planned_ledger lib svc b) (evs @ [Intent m, Commit m]) (planned_snapshot lib svc b v) (accepted m rc)"
proof -
  have h: "sha256_size lib" "mutation_ready lib evs rc svc b v" "plan_mutation lib n svc b v = Inr plan"
    using assms by (auto simp: mutation_planned_def)
  note st = planned_state [OF assms(1)]
  have "length evs \<le> MAX_RECORDS" using st(4) by simp
  from recover_intent [OF st(2) h(2,1) plan_mutation_Inr(2) [OF h(3)] st(6) this]
  show i: "recover_events lib (ds_ledger svc) 0 (evs @ [Intent m]) (recovery_start []) = Inr (intended m rc)" by (simp add: m)
  show a: "recover_events lib (ds_ledger svc) 0 (evs @ [Intent m, Commit m]) (recovery_start []) = Inr (accepted m rc)"
    by (rule recover_accepted [OF i])
  show "settled lib (ds_ledger svc) (evs @ [Intent m, Abort m]) (ds_snapshot svc) (aborted m rc)" by (rule settled_aborted [OF st(2) i])
  show "settled lib (planned_ledger lib svc b) (evs @ [Intent m, Commit m]) (planned_snapshot lib svc b v) (accepted m rc)"
    by (rule settled_accepted [OF st(2) h(2) m a])
qed

lemma planned_reconcile:
  assumes "mutation_planned lib n evs bs rc disk svc b v plan" and m: "m = planned_marker lib svc b"
  shows "ds_reconciliation s = recovered_reconciliation (rc_committed rc) (rc_reconciliation rc) \<Longrightarrow>
      reconcile s (cm_recovery_reference m) = StatusUnknown"
    "ds_reconciliation s = recovered_reconciliation (rc_committed (aborted m rc)) (rc_reconciliation (aborted m rc)) \<Longrightarrow>
      reconcile s (cm_recovery_reference m) = StatusAborted"
    "ds_reconciliation s = recovered_reconciliation (rc_committed (accepted m rc)) (rc_reconciliation (accepted m rc)) \<Longrightarrow>
      reconcile s (cm_recovery_reference m) = StatusCommitted (Suc (sn_generation (ds_snapshot svc)))"
proof -
  have r: "mutation_ready lib evs rc svc b v" using assms by (auto simp: mutation_planned_def)
  have ro: "recovery_ok rc" by (rule settled_ok [OF planned_state(2) [OF assms(1)]])
  have used: "cm_recovery_reference m \<notin> set (rc_references rc)" using r m by (simp add: mutation_ready_def)
  then have "map_of (rc_reconciliation rc) (cm_recovery_reference m) = None" using ro by (auto simp: recovery_ok_def map_of_eq_None_iff)
  then show "reconcile s (cm_recovery_reference m) = StatusUnknown"
    if "ds_reconciliation s = recovered_reconciliation (rc_committed rc) (rc_reconciliation rc)"
    using reconcile_unused [OF ro used that] by simp
  show "reconcile s (cm_recovery_reference m) = StatusAborted"
    if "ds_reconciliation s = recovered_reconciliation (rc_committed (aborted m rc)) (rc_reconciliation (aborted m rc))"
    using reconcile_unused [OF ro used, of s] that by (simp add: aborted_def intended_def)
  show "reconcile s (cm_recovery_reference m) = StatusCommitted (Suc (sn_generation (ds_snapshot svc)))"
    if "ds_reconciliation s = recovered_reconciliation (rc_committed (accepted m rc)) (rc_reconciliation (accepted m rc))"
    using reconcile_new [OF planned_state(11) [OF assms(1)] planned_replay(4) [OF assms] that planned_in_ledger [OF r]] m
    by (simp add: record_of_marker_def) (simp add: planned_marker_def)
qed

lemma recovers_torn:
  assumes p: "mutation_planned lib n evs bs rc disk svc b v plan"
    and lib: "barrier_size lib k" "seal_available lib (m + 1)"
    and q: "q < length (mp_intent plan)" "disk' = appended disk (take q (mp_intent plan))"
  shows "recovers_to lib m (ds_max_retained_requests svc) disk' (ds_snapshot svc) (ds_ledger svc)
    (cm_recovery_reference (planned_marker lib svc b)) StatusUnknown"
proof -
  note st = planned_state [OF p] and pb = planned_replay [OF p refl]
  have l: "barrier_opens lib" "sha256_size lib" using p by (auto simp: mutation_planned_def)
  obtain sb n0 lb where f: "disk State_File = Some sb" "length sb \<le> MAX_FILE_BYTES" "decode_snapshot_frame lib sb = Inr (ds_snapshot svc)"
      "disk Ledger_File = Some lb" "length lb \<le> MAX_FILE_BYTES" "sealed_ledger lib n0 (sn_generation (ds_snapshot svc)) (ds_ledger svc) = Inr lb"
    by (rule planned_files [OF p])
  have v: "validate_ledger_generation (ds_ledger svc) (sn_generation (ds_snapshot svc)) = Inr ()" "ledger_ok (ds_ledger svc)"
    "recover_events lib (ds_ledger svc) 0 evs (recovery_start []) = Inr rc" "length evs \<le> MAX_RECORDS" "4 + length bs \<le> MAX_FILE_BYTES"
    using st(1,2,4,5) by (auto simp: consistent_def settled_def)
  have tl: "torn_tail lib (length evs) (take q (mp_intent plan))" using torn_tailI [OF st(12) q(1)] st(5) by simp
  have i: "image lib (ds_snapshot svc) evs bs (take q (mp_intent plan)) (sn_generation (ds_snapshot svc)) (ds_ledger svc) disk'"
    using f st(3,5,9) v q tl consistent_bounds(4) [OF st(1)]
    by (intro image_intro [OF l, where sb = sb and lb = lb and n = n0]) (auto simp: appended_def)
  show ?thesis
    using reopen_settled [OF l lib i st(3) v(4,5) st(1,2) v(3,1) _ f(6,5)] planned_reconcile(1) [OF p refl]
    unfolding recovers_to_def by blast
qed

lemma recovers_intended:
  assumes p: "mutation_planned lib n evs bs rc disk svc b v plan"
    and lib: "barrier_size lib k" "seal_available lib m" "seal_available lib (m + 1)"
    and q: "disk' = appended disk (mp_intent plan)"
  shows "recovers_to lib m (ds_max_retained_requests svc) disk' (ds_snapshot svc) (ds_ledger svc)
    (cm_recovery_reference (planned_marker lib svc b)) StatusAborted"
proof -
  let ?m = "planned_marker lib svc b"
  note st = planned_state [OF p] and pb = planned_replay [OF p refl]
  have l: "barrier_opens lib" "sha256_size lib" using p by (auto simp: mutation_planned_def)
  obtain sb n0 lb where f: "disk State_File = Some sb" "length sb \<le> MAX_FILE_BYTES" "decode_snapshot_frame lib sb = Inr (ds_snapshot svc)"
      "disk Ledger_File = Some lb" "length lb \<le> MAX_FILE_BYTES" "sealed_ledger lib n0 (sn_generation (ds_snapshot svc)) (ds_ledger svc) = Inr lb"
    by (rule planned_files [OF p])
  have v: "validate_ledger_generation (ds_ledger svc) (sn_generation (ds_snapshot svc)) = Inr ()" "ledger_ok (ds_ledger svc)"
    "length (evs @ [Intent ?m]) \<le> MAX_RECORDS"
    using st(1,4) by (auto simp: consistent_def)
  note j = planned_journal(1) [OF p]
  have i: "image lib (ds_snapshot svc) (evs @ [Intent ?m]) (bs @ mp_intent plan) [] (sn_generation (ds_snapshot svc)) (ds_ledger svc) disk'"
    using f j st(5,9) v q consistent_bounds(4) [OF st(1)]
    by (intro image_intro [OF l, where sb = sb and lb = lb and n = n0]) (auto simp: appended_def)
  have np: "\<not> published_pending (ds_snapshot svc) (intended ?m rc)"
    by (simp add: published_pending_def intended_def is_some_and_def planned_marker_def)
  have ck: "check_recovery (reopened (ds_snapshot svc) (ds_ledger svc) [] (length evs + 1) (4 + length (bs @ mp_intent plan))
       (ds_max_retained_requests svc)) (sn_generation (ds_snapshot svc)) (intended ?m rc) = Inr ()"
    using np settled_ok [OF st(2)] st(1,2)
    by (intro check_recovery_ok [where L = "ds_ledger svc"]) (auto simp: intended_def settled_def recovery_ok_def)
  have pend: "rc_pending (intended ?m rc) = Some ?m" by (simp add: intended_def)
  have t: "4 + length (bs @ mp_intent plan) + length (mp_commit plan) \<le> MAX_FILE_BYTES" using st(5) by simp
  have e: "Abort ?m = (if published_pending (ds_snapshot svc) (intended ?m rc) then Commit ?m else Abort ?m)" using np by simp
  have c: "rc_committed (if published_pending (ds_snapshot svc) (intended ?m rc)
      then (intended ?m rc)\<lparr>rc_committed := binsert (cm_key ?m) ?m (rc_committed (intended ?m rc))\<rparr>
      else (intended ?m rc)\<lparr>rc_reconciliation := binsert (cm_recovery_reference ?m) StatusAborted (rc_reconciliation (intended ?m rc))\<rparr>) =
      rc_committed (aborted ?m rc)"
    "rc_reconciliation (if published_pending (ds_snapshot svc) (intended ?m rc)
      then (intended ?m rc)\<lparr>rc_committed := binsert (cm_key ?m) ?m (rc_committed (intended ?m rc))\<rparr>
      else (intended ?m rc)\<lparr>rc_reconciliation := binsert (cm_recovery_reference ?m) StatusAborted (rc_reconciliation (intended ?m rc))\<rparr>) =
      rc_reconciliation (aborted ?m rc)"
    using np by (simp_all add: aborted_def intended_def)
  show ?thesis
    using reopen_pending [OF l lib i j st(4,10,13) t pb(1) pend ck v(1) e refl st(1) pb(3) c f(6,5)] planned_reconcile(2) [OF p refl]
    unfolding recovers_to_def by blast
qed

lemma recovers_published:
  assumes p: "mutation_planned lib n evs bs rc disk svc b v plan"
    and lib: "barrier_size lib k" "seal_available lib m" "seal_available lib (m + 1)"
    and q: "q < length (mp_commit plan)"
      "disk' = (appended disk (mp_intent plan @ take q (mp_commit plan)))(State_File := Some (mp_snapshot_bytes plan))"
  shows "recovers_to lib m (ds_max_retained_requests svc) disk' (planned_snapshot lib svc b v) (planned_ledger lib svc b)
    (cm_recovery_reference (planned_marker lib svc b)) (StatusCommitted (Suc (sn_generation (ds_snapshot svc))))"
proof -
  let ?m = "planned_marker lib svc b"
  note st = planned_state [OF p] and pb = planned_replay [OF p refl] and w = planned_writes [OF p]
  have l: "barrier_opens lib" "sha256_size lib" using p by (auto simp: mutation_planned_def)
  obtain sb n0 lb where f: "disk Ledger_File = Some lb" "length lb \<le> MAX_FILE_BYTES" "sealed_ledger lib n0 (sn_generation (ds_snapshot svc)) (ds_ledger svc) = Inr lb"
    by (rule planned_files [OF p])
  have v: "validate_ledger_generation (ds_ledger svc) (sn_generation (ds_snapshot svc)) = Inr ()" "ledger_ok (ds_ledger svc)"
    "length (evs @ [Intent ?m]) \<le> MAX_RECORDS"
    using st(1,4) by (auto simp: consistent_def)
  have t: "4 + length (bs @ mp_intent plan) + length (mp_commit plan) \<le> MAX_FILE_BYTES" using st(5) by simp
  have tl: "torn_tail lib (length (evs @ [Intent ?m])) (take q (mp_commit plan))"
    using torn_tailI [where sequence = "Suc (length evs)" and ev = "Commit ?m" and n = "n + 3", OF _ q(1)] st(13) t by simp
  note j = planned_journal(1) [OF p]
  have i: "image lib (planned_snapshot lib svc b v) (evs @ [Intent ?m]) (bs @ mp_intent plan) (take q (mp_commit plan))
      (sn_generation (ds_snapshot svc)) (ds_ledger svc) disk'"
    using f j t st(9) v q tl w(1,3) consistent_bounds(4) [OF st(1)]
    by (intro image_intro [OF l, where sb = "mp_snapshot_bytes plan" and lb = lb and n = n0]) (auto simp: appended_def)
  have pp: "published_pending (planned_snapshot lib svc b v) (intended ?m rc)"
    by (simp add: published_pending_def intended_def is_some_and_def planned_snapshot_def) (simp add: planned_marker_def)
  have ck: "check_recovery (reopened (planned_snapshot lib svc b v) (ds_ledger svc) [] (length evs + 1) (4 + length (bs @ mp_intent plan))
       (ds_max_retained_requests svc)) (sn_generation (ds_snapshot svc)) (intended ?m rc) = Inr ()"
    using pp settled_ok [OF st(2)] st(2) v(1) w(5,6) consistent_bounds(4) [OF st(1)]
    by (intro check_recovery_published) (auto simp: intended_def settled_def recovery_ok_def)
  have pend: "rc_pending (intended ?m rc) = Some ?m" by (simp add: intended_def)
  have e: "Commit ?m = (if published_pending (planned_snapshot lib svc b v) (intended ?m rc) then Commit ?m else Abort ?m)" using pp by simp
  have c: "rc_committed (if published_pending (planned_snapshot lib svc b v) (intended ?m rc)
      then (intended ?m rc)\<lparr>rc_committed := binsert (cm_key ?m) ?m (rc_committed (intended ?m rc))\<rparr>
      else (intended ?m rc)\<lparr>rc_reconciliation := binsert (cm_recovery_reference ?m) StatusAborted (rc_reconciliation (intended ?m rc))\<rparr>) =
      rc_committed (accepted ?m rc)"
    "rc_reconciliation (if published_pending (planned_snapshot lib svc b v) (intended ?m rc)
      then (intended ?m rc)\<lparr>rc_committed := binsert (cm_key ?m) ?m (rc_committed (intended ?m rc))\<rparr>
      else (intended ?m rc)\<lparr>rc_reconciliation := binsert (cm_recovery_reference ?m) StatusAborted (rc_reconciliation (intended ?m rc))\<rparr>) =
      rc_reconciliation (accepted ?m rc)"
    using pp by (simp_all add: accepted_def intended_def)
  show ?thesis
    using reopen_pending [OF l lib i j st(4,10,13) t pb(1) pend ck v(1) e refl st(11) pb(4) c w(4,2)] planned_reconcile(3) [OF p refl]
    unfolding recovers_to_def by blast
qed

lemma recovers_committed:
  assumes p: "mutation_planned lib n evs bs rc disk svc b v plan"
    and lib: "barrier_size lib k" "seal_available lib (m + 1)"
    and q: "disk' = (appended disk (mp_intent plan @ mp_commit plan))(State_File := Some (mp_snapshot_bytes plan)) \<or>
      disk' = (appended disk (mp_intent plan @ mp_commit plan))
        (State_File := Some (mp_snapshot_bytes plan), Ledger_File := Some (mp_ledger_bytes plan))"
  shows "recovers_to lib m (ds_max_retained_requests svc) disk' (planned_snapshot lib svc b v) (planned_ledger lib svc b)
    (cm_recovery_reference (planned_marker lib svc b)) (StatusCommitted (Suc (sn_generation (ds_snapshot svc))))"
proof -
  let ?m = "planned_marker lib svc b" and ?S = "planned_snapshot lib svc b v" and ?L = "planned_ledger lib svc b"
  note st = planned_state [OF p] and pb = planned_replay [OF p refl] and w = planned_writes [OF p] and j = planned_journal(2) [OF p]
  have l: "barrier_opens lib" "sha256_size lib" and r: "mutation_ready lib evs rc svc b v" using p by (auto simp: mutation_planned_def)
  obtain sb n0 lb where f: "disk Ledger_File = Some lb" "length lb \<le> MAX_FILE_BYTES" "sealed_ledger lib n0 (sn_generation (ds_snapshot svc)) (ds_ledger svc) = Inr lb"
    by (rule planned_files [OF p])
  have v: "validate_ledger_generation (ds_ledger svc) (sn_generation (ds_snapshot svc)) = Inr ()" "ledger_ok (ds_ledger svc)"
    "validate_ledger_generation ?L (sn_generation ?S) = Inr ()" "ledger_ok ?L"
    "length (evs @ [Intent ?m, Commit ?m]) \<le> MAX_RECORDS" "4 + length (bs @ mp_intent plan @ mp_commit plan) \<le> MAX_FILE_BYTES"
    using st(1,4,5,11) by (auto simp: consistent_def)
  have le: "\<forall>e \<in> set (ds_ledger svc). lr_generation (snd e) \<le> sn_generation (ds_snapshot svc)"
    using ledger_generation_le [OF v(1)] by blast
  have n: "map_of (ds_ledger svc) (bd_key b) = None" "lr_generation (record_of_marker ?m) = Suc (sn_generation (ds_snapshot svc))"
    using r by (simp_all add: mutation_ready_def record_of_marker_def planned_marker_def)
  have re: "recover_events lib ?L 0 (evs @ [Intent ?m, Commit ?m]) (recovery_start []) = Inr (accepted ?m rc)"
    using pb(4) by (simp add: settled_def)
  have "\<exists>lg ledger. image lib ?S (evs @ [Intent ?m, Commit ?m]) (bs @ mp_intent plan @ mp_commit plan) [] lg ledger disk' \<and>
      (ledger = ?L \<and> lg = sn_generation ?S \<or> ledger = ds_ledger svc \<and> lg = sn_generation (ds_snapshot svc))"
    using q
  proof
    assume d: "disk' = (appended disk (mp_intent plan @ mp_commit plan))(State_File := Some (mp_snapshot_bytes plan))"
    have "image lib ?S (evs @ [Intent ?m, Commit ?m]) (bs @ mp_intent plan @ mp_commit plan) [] (sn_generation (ds_snapshot svc)) (ds_ledger svc) disk'"
      using f j d st(9) v w(1,3) consistent_bounds(4) [OF st(1)]
      by (intro image_intro [OF l, where sb = "mp_snapshot_bytes plan" and lb = lb and n = n0]) (auto simp: appended_def)
    then show ?thesis by blast
  next
    assume d: "disk' = (appended disk (mp_intent plan @ mp_commit plan))
        (State_File := Some (mp_snapshot_bytes plan), Ledger_File := Some (mp_ledger_bytes plan))"
    have "image lib ?S (evs @ [Intent ?m, Commit ?m]) (bs @ mp_intent plan @ mp_commit plan) [] (sn_generation ?S) ?L disk'"
      using j d st(9) v w(1-4) consistent_bounds(4) [OF st(11)]
      by (intro image_intro [OF l, where sb = "mp_snapshot_bytes plan" and lb = "mp_ledger_bytes plan" and n = "n + 1"]) (auto simp: appended_def)
    then show ?thesis by blast
  qed
  then obtain lg ledger where i: "image lib ?S (evs @ [Intent ?m, Commit ?m]) (bs @ mp_intent plan @ mp_commit plan) [] lg ledger disk'"
    "recover_events lib ledger 0 (evs @ [Intent ?m, Commit ?m]) (recovery_start []) = Inr (accepted ?m rc)"
    "validate_ledger_generation ledger lg = Inr ()"
    "ledger = ?L \<and> lg = sn_generation ?S \<or>
      (\<exists>k r. map_of ledger k = None \<and> ?L = binsert k r ledger \<and> lr_generation r = Suc lg \<and> sn_generation ?S = Suc lg \<and>
         (\<forall>e \<in> set ledger. lr_generation (snd e) \<le> lg))"
    using re pb(2) v(1,3) n le w(5) planned_ledger_def by metis
  show ?thesis
    using reopen_settled [OF l lib i(1) j v(5,6) st(11) pb(4) i(2,3,4) w(4,2)] planned_reconcile(3) [OF p refl]
    unfolding recovers_to_def by blast
qed

section \<open>Executing and reopening\<close>

lemma reopen_unchanged:
  assumes lib: "barrier_opens lib" "sha256_size lib" "barrier_size lib k" "seal_available lib (m + 1)"
    and h: "durable_holds lib evs bs rc (disk, svc)"
  shows "\<exists>disk' svc'. reopen lib m (\<lambda>_. IoDone) (Inr ()) (ds_max_retained_requests svc) disk = (disk', Inr svc') \<and>
    durable_holds lib evs bs rc (disk', svc') \<and> ds_snapshot svc' = ds_snapshot svc \<and> ds_ledger svc' = ds_ledger svc \<and>
    ds_max_retained_requests svc' = ds_max_retained_requests svc \<and>
    ds_reconciliation svc' = recovered_reconciliation (rc_committed rc) (rc_reconciliation rc)"
proof -
  obtain sb n0 lb where f: "disk State_File = Some sb" "length sb \<le> MAX_FILE_BYTES" "decode_snapshot_frame lib sb = Inr (ds_snapshot svc)"
      "disk Ledger_File = Some lb" "length lb \<le> MAX_FILE_BYTES" "sealed_ledger lib n0 (sn_generation (ds_snapshot svc)) (ds_ledger svc) = Inr lb"
    using h by (auto simp: durable_holds_def)
  have st: "consistent (ds_snapshot svc) (ds_ledger svc) (ds_max_retained_requests svc)" "settled lib (ds_ledger svc) evs (ds_snapshot svc) rc"
      "journal_holds lib evs bs" "length evs \<le> MAX_RECORDS" "4 + length bs \<le> MAX_FILE_BYTES" "disk Journal_File = Some (JOURNAL_MAGIC @ bs)"
    using h by (auto simp: durable_holds_def)
  have v: "validate_ledger_generation (ds_ledger svc) (sn_generation (ds_snapshot svc)) = Inr ()" "ledger_ok (ds_ledger svc)"
    "recover_events lib (ds_ledger svc) 0 evs (recovery_start []) = Inr rc"
    using st(1,2) by (auto simp: consistent_def settled_def)
  have i: "image lib (ds_snapshot svc) evs bs [] (sn_generation (ds_snapshot svc)) (ds_ledger svc) disk"
    using f st v consistent_bounds(4) [OF st(1)] by (intro image_intro [OF lib(1,2), where sb = sb and lb = lb and n = n0]) auto
  show ?thesis using reopen_settled [OF lib i st(3,4,5,1,2) v(3,1) _ f(6,5)] by blast
qed

lemma execute_new:
  assumes x: "execute lib n io (Inr ()) fp b v (disk, svc) = ((disk', svc'), res)"
    and "\<not> ds_unresolved svc" "map_of (ds_ledger svc) (bd_key b) = None"
  obtains (refused) e where "plan_mutation lib n svc b v = Inl e" "disk' = disk" "svc' = svc" "res = Inl e"
  | (failed) plan svc'' e where "plan_mutation lib n svc b v = Inr plan"
      "publish_mutation io fp plan (disk, svc\<lparr>ds_unresolved := True\<rparr>) = ((disk', svc''), Inl e)"
      "res = Inl (OutcomeUnknown (cm_recovery_reference (mp_marker plan)))" "svc' = svc''"
  | (done_ok) plan svc'' where "plan_mutation lib n svc b v = Inr plan"
      "publish_mutation io fp plan (disk, svc\<lparr>ds_unresolved := True\<rparr>) = ((disk', svc''), Inr ())"
      "res = Inr (Committed (cm_generation (mp_marker plan)) (cm_recovery_reference (mp_marker plan)))"
      "svc' = svc''\<lparr>ds_reconciliation := binsert (cm_recovery_reference (mp_marker plan)) (StatusCommitted (cm_generation (mp_marker plan)))
         (ds_reconciliation svc''), ds_unresolved := False\<rparr>"
proof (cases "plan_mutation lib n svc b v")
  case (Inl e)
  then have "disk' = disk \<and> svc' = svc \<and> res = Inl e" using x assms(2,3) by (simp add: execute_def)
  then show thesis using refused [OF Inl] by blast
next
  case (Inr plan)
  obtain w r where p: "publish_mutation io fp plan (disk, svc\<lparr>ds_unresolved := True\<rparr>) = (w, r)" by fastforce
  obtain d s where w: "w = (d, s)" by fastforce
  note x' = x [unfolded execute_def Let_def on_service_def snd_conv fst_conv Inr sbind_simps map_err_simps assms(3) option.case p]
  show thesis
  proof (cases r)
    case (Inl e)
    then have "d = disk' \<and> s = svc' \<and> res = Inl (OutcomeUnknown (cm_recovery_reference (mp_marker plan)))" using x' assms(2) w by simp
    then show thesis using failed [OF \<open>plan_mutation lib n svc b v = Inr plan\<close>] p w Inl by blast
  next
    case (Inr u)
    then have "d = disk' \<and> res = Inr (Committed (cm_generation (mp_marker plan)) (cm_recovery_reference (mp_marker plan))) \<and>
      svc' = s\<lparr>ds_reconciliation := binsert (cm_recovery_reference (mp_marker plan)) (StatusCommitted (cm_generation (mp_marker plan)))
         (ds_reconciliation s), ds_unresolved := False\<rparr>" using x' assms(2) w by auto
    then show thesis using done_ok [OF \<open>plan_mutation lib n svc b v = Inr plan\<close>] p w Inr by simp
  qed
qed

lemma publish_recovers:
  assumes p: "mutation_planned lib n evs bs rc disk svc b v plan"
    and lib: "barrier_size lib k" "seal_available lib m" "seal_available lib (m + 1)"
    and x: "publish_mutation io fp plan (disk, svc\<lparr>ds_unresolved := True\<rparr>) = ((disk', svc'), res)"
    and ref: "ref = cm_recovery_reference (planned_marker lib svc b)"
  shows "(res \<noteq> Inr () \<and> (\<exists>status \<in> {StatusUnknown, StatusAborted}.
            recovers_to lib m (ds_max_retained_requests svc) disk' (ds_snapshot svc) (ds_ledger svc) ref status)) \<or>
         recovers_to lib m (ds_max_retained_requests svc) disk' (planned_snapshot lib svc b v) (planned_ledger lib svc b) ref
            (StatusCommitted (Suc (sn_generation (ds_snapshot svc))))"
proof -
  note st = planned_state [OF p] and w = planned_writes [OF p]
  have sz: "sha256_size lib" using p by (simp add: mutation_planned_def)
  have l: "ds_journal_bytes (svc\<lparr>ds_unresolved := True\<rparr>) + length (mp_intent plan) + length (mp_commit plan) \<le> MAX_FILE_BYTES"
    "ds_journal_sequence (svc\<lparr>ds_unresolved := True\<rparr>) + 2 \<le> MAX_RECORDS" "ds_journal_limit (svc\<lparr>ds_unresolved := True\<rparr>) = MAX_FILE_BYTES"
    using st(4-8) by simp_all
  have ne: "mp_commit plan \<noteq> []" by (rule sealed_record_not_Nil [OF lib(1) sz st(13)])
  show ?thesis
  proof (cases rule: publish_mutation_cases [OF x st(9) l w(1,2) ne])
    case (1 q)
    from recovers_torn [OF p lib(1,3) 1(1,2)] 1(3) show ?thesis unfolding ref by blast
  next
    case 2
    from recovers_intended [OF p lib 2(1)] 2(2) show ?thesis unfolding ref by blast
  next
    case (3 q)
    from recovers_published [OF p lib 3(1,3)] show ?thesis unfolding ref by blast
  next
    case 4
    from recovers_committed [OF p lib(1,3)] 4(1) show ?thesis unfolding ref by blast
  next
    case 5
    from recovers_committed [OF p lib(1,3)] 5(1) show ?thesis unfolding ref by blast
  qed
qed

lemma publish_holds:
  assumes p: "mutation_planned lib n evs bs rc disk svc b v plan"
    and lib: "barrier_size lib k"
    and x: "publish_mutation io fp plan (disk, svc\<lparr>ds_unresolved := True\<rparr>) = ((disk', svc'), Inr ())"
    and m: "m = planned_marker lib svc b"
    and s: "svc'' = svc'\<lparr>ds_reconciliation := binsert (cm_recovery_reference m) (StatusCommitted (cm_generation m)) (ds_reconciliation svc'),
         ds_unresolved := False\<rparr>"
  shows "durable_holds lib (evs @ [Intent m, Commit m]) (bs @ mp_intent plan @ mp_commit plan) (accepted m rc) (disk', svc'')"
    "svc'' = svc\<lparr>ds_snapshot := planned_snapshot lib svc b v, ds_ledger := planned_ledger lib svc b, ds_journal_sequence := length evs + 2,
       ds_journal_bytes := 4 + length bs + length (mp_intent plan) + length (mp_commit plan),
       ds_reconciliation := binsert (cm_recovery_reference m) (StatusCommitted (cm_generation m)) (ds_reconciliation svc), ds_unresolved := False\<rparr>"
proof -
  note st = planned_state [OF p] and w = planned_writes [OF p] and r = planned_replay(4) [OF p refl]
  have h: "sha256_size lib" "durable_holds lib evs bs rc (disk, svc)" "mutation_ready lib evs rc svc b v" "plan_mutation lib n svc b v = Inr plan"
    using p by (auto simp: mutation_planned_def)
  note pl = plan_mutation_Inr [OF h(4)]
  have l: "ds_journal_bytes (svc\<lparr>ds_unresolved := True\<rparr>) + length (mp_intent plan) + length (mp_commit plan) \<le> MAX_FILE_BYTES"
    "ds_journal_sequence (svc\<lparr>ds_unresolved := True\<rparr>) + 2 \<le> MAX_RECORDS" "ds_journal_limit (svc\<lparr>ds_unresolved := True\<rparr>) = MAX_FILE_BYTES"
    using st(4-8) by simp_all
  have ne: "mp_commit plan \<noteq> []" by (rule sealed_record_not_Nil [OF lib(1) h(1) st(13)])
  have d: "disk' = (appended disk (mp_intent plan @ mp_commit plan))
        (State_File := Some (mp_snapshot_bytes plan), Ledger_File := Some (mp_ledger_bytes plan))"
    "svc' = (svc\<lparr>ds_unresolved := True\<rparr>)\<lparr>ds_snapshot := mp_snapshot plan, ds_ledger := mp_ledger plan,
         ds_journal_sequence := ds_journal_sequence (svc\<lparr>ds_unresolved := True\<rparr>) + 2,
         ds_journal_bytes := ds_journal_bytes (svc\<lparr>ds_unresolved := True\<rparr>) + length (mp_intent plan) + length (mp_commit plan)\<rparr>"
    using publish_mutation_cases [OF x st(9) l w(1,2) ne] by blast+
  show s': "svc'' = svc\<lparr>ds_snapshot := planned_snapshot lib svc b v, ds_ledger := planned_ledger lib svc b, ds_journal_sequence := length evs + 2,
       ds_journal_bytes := 4 + length bs + length (mp_intent plan) + length (mp_commit plan),
       ds_reconciliation := binsert (cm_recovery_reference m) (StatusCommitted (cm_generation m)) (ds_reconciliation svc), ds_unresolved := False\<rparr>"
    using s d(2) st(6,7) pl(5,6) by simp
  have k: "bd_key b \<notin> fst ` set (ds_ledger svc)" using h(3) by (simp add: mutation_ready_def map_of_eq_None_iff)
  have "reconcile svc'' (lr_recovery_reference (snd e)) = StatusCommitted (lr_generation (snd e))" if e: "e \<in> set (planned_ledger lib svc b)" for e
  proof (cases "e = (bd_key b, record_of_marker m)")
    case True
    then show ?thesis by (simp add: s' reconcile_def record_of_marker_def)
  next
    case False
    then have o: "e \<in> set (ds_ledger svc)" using e set_binsert_new [OF k] by (auto simp: planned_ledger_def m)
    then have "lr_recovery_reference (snd e) \<noteq> cm_recovery_reference m"
      using settled_references [OF st(2) o] h(3) m by (auto simp: mutation_ready_def)
    then show ?thesis using h(2) o by (auto simp: s' reconcile_def durable_holds_def)
  qed
  then show "durable_holds lib (evs @ [Intent m, Commit m]) (bs @ mp_intent plan @ mp_commit plan) (accepted m rc) (disk', svc'')"
    using st(4,5,8,9,11) w planned_journal(2) [OF p] r m by (auto simp: durable_holds_def s' d(1) appended_def)
qed

end
