(* ===== verification/Durable_Correct.thy ===== *)
theory Durable_Correct
  imports Durable_Crash Shamir
begin

text \<open>
  The properties of the durable service: atomicity under crashes, retries that apply once, the
  invariant of all runs (\<open>durable_run\<close>), compaction, backup and restore, progress, and the
  poisoning after an unknown outcome; the server's barrier discharges the hypotheses about sealing
  (\<open>barrier_lib_opens\<close>, \<open>barrier_lib_seals\<close>).
\<close>

section \<open>Checkpoints\<close>

definition marker_of :: "request_key \<times> ledger_record \<Rightarrow> commit_marker" where
  "marker_of e = \<lparr>cm_key = fst e, cm_binding_digest = lr_binding_digest (snd e), cm_recovery_reference = lr_recovery_reference (snd e),
     cm_generation = lr_generation (snd e)\<rparr>"

lemma record_of_marker_of [simp]: "record_of_marker (marker_of e) = snd e"
  by (simp add: record_of_marker_def marker_of_def)

lemma marker_from_ledger_ok: "record_ok e \<Longrightarrow> marker_from_ledger (fst e) (snd e) = Inr (marker_of e)"
  by (auto simp: marker_from_ledger_Inr record_ok_def marker_of_def validate_marker_def validate_ledger_record_def split: if_splits)

lemma adopt_checkpoint_complete:
  assumes "list_all record_ok pre" "distinct (map (\<lambda>e. lr_recovery_reference (snd e)) pre)"
    "\<forall>e \<in> set pre. lr_recovery_reference (snd e) \<notin> set (rc_references rc)"
    "bmap_ok pre" "\<forall>e \<in> set (rc_committed rc). \<forall>e' \<in> set pre. fst e < fst e'"
  shows "\<exists>refs. adopt_checkpoint pre rc =
    Inr (rc\<lparr>rc_references := refs, rc_committed := rc_committed rc @ map (\<lambda>e. (fst e, marker_of e)) pre\<rparr>)"
  using assms
proof (induction pre arbitrary: rc)
  case Nil
  show ?case by (rule exI [where x = "rc_references rc"]) simp
next
  case (Cons e pre)
  let ?rc = "rc\<lparr>rc_references := bset_insert (lr_recovery_reference (snd e)) (rc_references rc),
       rc_committed := rc_committed rc @ [(fst e, marker_of e)]\<rparr>"
  have m: "marker_from_ledger (fst e) (snd e) = Inr (marker_of e)" using marker_from_ledger_ok Cons.prems(1) by simp
  have b: "binsert (fst e) (marker_of e) (rc_committed rc) = rc_committed rc @ [(fst e, marker_of e)]"
    using Cons.prems(5) by (intro binsert_last) auto
  have "\<exists>refs. adopt_checkpoint pre ?rc =
    Inr (?rc\<lparr>rc_references := refs, rc_committed := rc_committed ?rc @ map (\<lambda>e. (fst e, marker_of e)) pre\<rparr>)"
  proof (rule Cons.IH)
    have "lr_recovery_reference (snd e') \<noteq> lr_recovery_reference (snd e)" if "e' \<in> set pre" for e'
      using Cons.prems(2) that by (metis (mono_tags, lifting) distinct.simps(2) image_eqI list.set_map list.simps(9))
    then show "\<forall>e \<in> set pre. lr_recovery_reference (snd e) \<notin> set (rc_references ?rc)" using Cons.prems(3) by (simp add: set_bset_insert)
    show "\<forall>e \<in> set (rc_committed ?rc). \<forall>e' \<in> set pre. fst e < fst e'" using Cons.prems(4,5) by (simp add: bmap_ok_def ball_Un)
  qed (use Cons.prems in \<open>simp_all add: bmap_ok_def\<close>)
  then show ?case using m b Cons.prems(3) by (auto simp: marker_of_def)
qed

lemma recovered_ledger_markers: "recovered_ledger (map (\<lambda>e. (fst e, marker_of e)) pre) = pre"
  by (induction pre) (auto simp: recovered_ledger_def bmap_vals_def)

lemma checkpoint_marker_of_Inr:
  assumes "checkpoint_marker_of lib snap ledger = Inr cp"
  obtains encoded where "validate_committed_state snap (sn_generation snap) ledger = Inr ()" "encode_ledger ledger = Inr encoded"
    "cp = \<lparr>cp_generation = sn_generation snap, cp_retained_requests = length ledger, cp_last_commit = sn_last_commit snap,
          cp_ledger_digest = digest32 lib ''heptabao.durable-service.checkpoint-ledger.v1'' encoded\<rparr>"
  using assms by (auto simp: checkpoint_marker_of_def)

lemma validate_checkpoint_own:
  assumes "checkpoint_marker_of lib snap ledger = Inr cp" "consistent snap ledger cap"
  shows "validate_checkpoint lib cp ledger = Inr ()" "cp_generation cp = sn_generation snap" "cp_last_commit cp = sn_last_commit snap"
proof -
  from assms(1) obtain encoded where e: "validate_committed_state snap (sn_generation snap) ledger = Inr ()" "encode_ledger ledger = Inr encoded"
    "cp = \<lparr>cp_generation = sn_generation snap, cp_retained_requests = length ledger, cp_last_commit = sn_last_commit snap,
          cp_ledger_digest = digest32 lib ''heptabao.durable-service.checkpoint-ledger.v1'' encoded\<rparr>"
    by (rule checkpoint_marker_of_Inr)
  then show "validate_checkpoint lib cp ledger = Inr ()" "cp_generation cp = sn_generation snap" "cp_last_commit cp = sn_last_commit snap"
    using consistent_bounds(1) [OF assms(2)] assms(2)
    by (auto simp: validate_checkpoint_def validate_committed_state_def consistent_def split: if_splits)
qed

lemma settled_checkpoint:
  assumes c: "consistent snap ledger cap" and p: "checkpoint_marker_of lib snap ledger = Inr cp"
  shows "\<exists>rc. settled lib ledger [Checkpoint cp] snap rc \<and> rc_reconciliation rc = []"
proof -
  note v = validate_checkpoint_own [OF p c]
  have o: "bmap_ok ledger" "list_all record_ok ledger" "validate_ledger_generation ledger (sn_generation snap) = Inr ()"
    using c by (auto simp: consistent_def ledger_ok_def)
  have f: "filter (\<lambda>e. lr_generation (snd e) \<le> sn_generation snap) ledger = ledger"
    using ledger_generation_le [OF o(3)] by (simp add: filter_id_conv)
  have "ledger_prefix ledger (cp_generation cp) = Inr ledger" unfolding ledger_prefix_def Let_def v(2) f o(3) by simp
  moreover have "distinct (map (\<lambda>e. lr_recovery_reference (snd e)) ledger)" using o(3) by (simp add: validate_ledger_generation_iff)
  then obtain refs where "adopt_checkpoint ledger ((recovery_start [])\<lparr>rc_saw_checkpoint := True, rc_generation := cp_generation cp, rc_last_commit := cp_last_commit cp\<rparr>) =
    Inr ((recovery_start [])\<lparr>rc_saw_checkpoint := True, rc_generation := cp_generation cp, rc_last_commit := cp_last_commit cp,
      rc_references := refs, rc_committed := map (\<lambda>e. (fst e, marker_of e)) ledger\<rparr>)"
    using adopt_checkpoint_complete [of ledger "(recovery_start [])\<lparr>rc_saw_checkpoint := True, rc_generation := cp_generation cp, rc_last_commit := cp_last_commit cp\<rparr>"] o
    by (auto simp: recovery_start_def)
  ultimately have "recover_events lib ledger 0 [Checkpoint cp] (recovery_start []) =
    Inr ((recovery_start [])\<lparr>rc_saw_checkpoint := True, rc_generation := cp_generation cp, rc_last_commit := cp_last_commit cp,
      rc_references := refs, rc_committed := map (\<lambda>e. (fst e, marker_of e)) ledger\<rparr>)"
    using v(1) by (simp add: recover_event_def recovery_start_def)
  then show ?thesis using v(2,3) by (auto simp: settled_def recovered_ledger_markers recovery_start_def)
qed

lemma checkpoint_event_ok:
  assumes "consistent snap ledger cap" "checkpoint_marker_of lib snap ledger = Inr cp" "sha256_size lib"
  shows "event_ok (Checkpoint cp)"
proof -
  from assms(2) obtain encoded where "cp = \<lparr>cp_generation = sn_generation snap, cp_retained_requests = length ledger, cp_last_commit = sn_last_commit snap,
          cp_ledger_digest = digest32 lib ''heptabao.durable-service.checkpoint-ledger.v1'' encoded\<rparr>"
    by (rule checkpoint_marker_of_Inr)
  then show ?thesis
    using assms(1,3) consistent_bounds [OF assms(1)] by (auto simp: checkpoint_ok_def consistent_def snapshot_ok_def)
qed

lemma checkpoint_journal_Inr:
  assumes "checkpoint_journal lib n svc = Inr journal"
  obtains cp r where "checkpoint_marker_of lib (ds_snapshot svc) (ds_ledger svc) = Inr cp"
    "sealed_journal_record lib n 1 (Checkpoint cp) = Inr r" "journal = JOURNAL_MAGIC @ r"
  using assms by (auto simp: checkpoint_journal_def)

section \<open>Compaction\<close>

text \<open>Replacing the journal by a checkpoint keeps the invariant and the state.\<close>

lemma compacted_holds:
  assumes h: "durable_holds lib evs bs rc (disk, svc)" and z: "sha256_size lib"
    and j: "checkpoint_journal lib n svc = Inr journal" "length journal \<le> MAX_FILE_BYTES"
  obtains evs' bs' rc' where
    "durable_holds lib evs' bs' rc' (disk(Journal_File := Some journal), svc\<lparr>ds_journal_sequence := 1, ds_journal_bytes := length journal\<rparr>)"
proof -
  obtain cp r where r: "checkpoint_marker_of lib (ds_snapshot svc) (ds_ledger svc) = Inr cp"
    "sealed_journal_record lib n 1 (Checkpoint cp) = Inr r" "journal = JOURNAL_MAGIC @ r"
    by (rule checkpoint_journal_Inr [OF j(1)])
  have c: "consistent (ds_snapshot svc) (ds_ledger svc) (ds_max_retained_requests svc)" using h by (simp add: durable_holds_def)
  obtain rc' where s: "settled lib (ds_ledger svc) [Checkpoint cp] (ds_snapshot svc) rc'" using settled_checkpoint [OF c r(1)] by blast
  have "journal_holds lib ([] @ [Checkpoint cp]) ([] @ r)"
    using checkpoint_event_ok [OF c r(1) z] r(2) by (intro journal_holds.snoc [where n = n] journal_holds.empty) simp_all
  then have "durable_holds lib [Checkpoint cp] r rc' (disk(Journal_File := Some journal), svc\<lparr>ds_journal_sequence := 1, ds_journal_bytes := length journal\<rparr>)"
    using h s j(2) r(3) by (auto simp: durable_holds_def reconcile_def MAX_RECORDS_def)
  then show thesis by (rule that)
qed

lemma compact_cases:
  assumes "durable_compact lib n io (Inr ()) (disk, svc) = ((disk', svc'), res)" "\<not> ds_unresolved svc" "ds_journal_limit svc = MAX_FILE_BYTES"
  obtains (unchanged) "disk' = disk" "\<And>out. res \<noteq> Inr out"
  | (replaced) journal where "checkpoint_journal lib n svc = Inr journal" "length journal \<le> MAX_FILE_BYTES" "disk' = disk(Journal_File := Some journal)"
      "\<And>out. res = Inr out \<Longrightarrow> svc' = svc\<lparr>ds_journal_sequence := 1, ds_journal_bytes := length journal\<rparr>"
proof (cases "rbind (validate_committed_state (ds_snapshot svc) (sn_generation (ds_snapshot svc)) (ds_ledger svc)) (\<lambda>_.
      rbind (checkpoint_journal lib n svc) (\<lambda>journal. if ds_journal_limit svc < length journal then Inl JournalCapacityExhausted else Inr journal))")
  case (Inl e)
  then have "disk' = disk \<and> res = Inl e" using assms by (simp add: durable_compact_def Let_def)
  then show thesis using unchanged by simp
next
  case (Inr journal)
  then have j: "checkpoint_journal lib n svc = Inr journal" "length journal \<le> MAX_FILE_BYTES" using assms(3) by (auto split: if_splits)
  have c: "((disk', svc'), res) = sbind (on_disk (atomic_write io Journal_File journal) (disk, svc\<lparr>ds_unresolved := True\<rparr>)) (\<lambda>w _.
        (on_service (\<lambda>svc. svc\<lparr>ds_journal_sequence := 1, ds_journal_bytes := length journal, ds_unresolved := False\<rparr>) w,
         Inr \<lparr>co_generation = sn_generation (ds_snapshot svc), co_retained_requests = length (ds_ledger svc),
              co_journal_bytes_before = ds_journal_bytes svc, co_journal_bytes_after = length journal\<rparr>))"
    using assms(1,2) Inr by (simp add: durable_compact_def Let_def on_service_def)
  show thesis
  proof (cases "io = IoFailed 0")
    case True
    then have "disk' = disk \<and> res = Inl ServiceIo" using c j(2) by (simp add: on_disk_def atomic_write_def)
    then show thesis using unchanged by simp
  next
    case False
    then have "disk' = disk(Journal_File := Some journal) \<and> (\<forall>out. res = Inr out \<longrightarrow>
        svc' = (svc\<lparr>ds_unresolved := True\<rparr>)\<lparr>ds_journal_sequence := 1, ds_journal_bytes := length journal, ds_unresolved := False\<rparr>)"
      using c j(2) by (cases io) (auto simp: on_disk_def on_service_def atomic_write_def)
    moreover have "(svc\<lparr>ds_unresolved := True\<rparr>)\<lparr>ds_journal_sequence := 1, ds_journal_bytes := length journal, ds_unresolved := False\<rparr> =
      svc\<lparr>ds_journal_sequence := 1, ds_journal_bytes := length journal\<rparr>" using assms(2) by (cases svc) simp
    ultimately show thesis using replaced [OF j] by simp
  qed
qed

section \<open>Backups\<close>

lemma encode_backup_Inr:
  assumes "encode_backup lib g state journal ledger = Inr encoded" "sha256_size lib" "g < u64_bound"
  shows "read_backup lib encoded = Inr (g, state, journal, ledger)"
proof -
  define payload where "payload = BACKUP_MAGIC @ write_u16 BACKUP_VERSION @ write_u16 0 @ write_u64 g @ write_u32 (length state) @ state @
     write_u32 (length journal) @ journal @ write_u32 (length ledger) @ ledger"
  have l: "length state \<le> MAX_FILE_BYTES" "length journal \<le> MAX_FILE_BYTES" "length ledger \<le> MAX_FILE_BYTES" "length payload + 32 \<le> MAX_BACKUP_BYTES"
    "encoded = payload @ digest32 lib ''heptabao.durable-service.backup.v1'' payload"
    using assms(1) by (auto simp: encode_backup_def write_bytes_Inr_iff payload_def Let_def split: if_splits)
  have w: "length x < 2 ^ 32" if "length x \<le> MAX_FILE_BYTES" for x :: "byte list" using that by (simp add: MAX_FILE_BYTES_def)
  have m: "length BACKUP_MAGIC = 4" "BACKUP_VERSION < 2 ^ 16" by (simp_all add: BACKUP_MAGIC_def BACKUP_VERSION_def)
  have rb: "read_bytes MAX_FILE_BYTES (write_u32 (length x) @ x @ rest) = Inr (x, rest)" if "length x \<le> MAX_FILE_BYTES" for x rest
    using read_bytes_write [of x "write_u32 (length x) @ x" MAX_FILE_BYTES rest] w [OF that] that by (simp add: write_bytes_Inr_iff)
  have rl: "read_bytes MAX_FILE_BYTES (write_u32 (length x) @ x) = Inr (x, [])" if "length x \<le> MAX_FILE_BYTES" for x
    using rb [OF that, of "[]"] by simp
  have p: "60 \<le> length payload + 32" using m by (simp add: payload_def)
  have t: "take (length encoded - 32) encoded = payload"
    "drop (length encoded - 32) encoded = digest32 lib ''heptabao.durable-service.backup.v1'' payload" "length encoded = length payload + 32"
    using l(5) assms(2) by simp_all
  have r: "read_exact 4 payload = Inr (BACKUP_MAGIC, write_u16 BACKUP_VERSION @ write_u16 0 @ write_u64 g @ write_u32 (length state) @ state @
     write_u32 (length journal) @ journal @ write_u32 (length ledger) @ ledger)"
    unfolding payload_def using m(1) by simp
  show ?thesis
    using l(1-4) p m(2) assms(3) unfolding read_backup_def Let_def t(1,2) constant_time_eq_iff r rbind_simps prod.case
    by (simp add: t(3) rb rl cursor_finish_def)
qed

lemma rebuild_reconciliation_ok:
  assumes "list_all (\<lambda>e. validate_ledger_record (snd e) = Inr ()) ledger"
  shows "rebuild_reconciliation ledger recon =
    Inr (recovered_reconciliation (map (\<lambda>e. (fst e, marker_of e)) ledger) recon)"
  using assms by (induction ledger arbitrary: recon) (auto simp: recovered_reconciliation_def marker_of_def)

lemma decode_backup_exported:
  assumes lib: "barrier_opens lib" "sha256_size lib"
    and c: "consistent (ds_snapshot svc) (ds_ledger svc) cap0" "length (ds_ledger svc) \<le> cap"
    and x: "export_backup lib n (Inr ()) svc = Inr encoded"
  obtains sb lb cp r where "decode_backup lib encoded cap = Inr \<lparr>bk_snapshot_bytes = sb, bk_journal_bytes = JOURNAL_MAGIC @ r, bk_ledger_bytes = lb,
      bk_snapshot = ds_snapshot svc, bk_ledger = ds_ledger svc, bk_journal_sequence = 1\<rparr>"
    "decode_snapshot_frame lib sb = Inr (ds_snapshot svc)" "sealed_ledger lib (n + 1) (sn_generation (ds_snapshot svc)) (ds_ledger svc) = Inr lb"
    "checkpoint_marker_of lib (ds_snapshot svc) (ds_ledger svc) = Inr cp" "journal_holds lib [Checkpoint cp] r"
    "length sb \<le> MAX_FILE_BYTES" "length lb \<le> MAX_FILE_BYTES" "4 + length r \<le> MAX_FILE_BYTES"
proof -
  let ?S = "ds_snapshot svc" and ?L = "ds_ledger svc"
  obtain sb lb j where e: "validate_committed_state ?S (sn_generation ?S) ?L = Inr ()" "sealed_snapshot lib n ?S = Inr sb"
    "sealed_ledger lib (n + 1) (sn_generation ?S) ?L = Inr lb" "checkpoint_journal lib (n + 2) svc = Inr j"
    "encode_backup lib (sn_generation ?S) sb j lb = Inr encoded"
    using x by (auto simp: export_backup_def split: if_splits)
  obtain cp r where r: "checkpoint_marker_of lib ?S ?L = Inr cp" "sealed_journal_record lib (n + 2) 1 (Checkpoint cp) = Inr r" "j = JOURNAL_MAGIC @ r"
    by (rule checkpoint_journal_Inr [OF e(4)])
  have l: "length sb \<le> MAX_FILE_BYTES" "length lb \<le> MAX_FILE_BYTES" "4 + length r \<le> MAX_FILE_BYTES"
    using e(5) r(3) by (auto simp: encode_backup_def split: if_splits)
  have ok: "snapshot_ok ?S" "ledger_ok ?L" "sn_generation ?S < u64_bound" using c(1) consistent_bounds(4) by (auto simp: consistent_def)
  have "journal_holds lib ([] @ [Checkpoint cp]) ([] @ r)"
    using checkpoint_event_ok [OF c(1) r(1) lib(2)] r(2) by (intro journal_holds.snoc [where n = "n + 2"] journal_holds.empty) simp_all
  then have jh: "journal_holds lib [Checkpoint cp] r" by simp
  have dj: "decode_journal_frames lib j = Inr (1, [Checkpoint cp], 4 + length r, False)"
    using decode_journal [OF lib jh] l(3) r(3) by (simp add: MAX_RECORDS_def)
  have ds: "decode_snapshot_frame lib sb = Inr ?S" by (rule decode_snapshot_sealed [OF lib e(2) ok(1) l(1)])
  have dl: "decode_ledger_frame lib lb = Inr (sn_generation ?S, ?L)" by (rule decode_ledger_sealed [OF lib e(3) ok(2,3) l(2)])
  note v = validate_checkpoint_own [OF r(1) c(1)]
  have "decode_backup lib encoded cap = Inr \<lparr>bk_snapshot_bytes = sb, bk_journal_bytes = JOURNAL_MAGIC @ r, bk_ledger_bytes = lb,
      bk_snapshot = ?S, bk_ledger = ?L, bk_journal_sequence = 1\<rparr>"
    unfolding decode_backup_def encode_backup_Inr [OF e(5) lib(2) ok(3)] ds dl dj rbind_simps prod.case
    using c(2) e(1) v r(3) by simp
  then show thesis using that ds e(3) r(1) jh l by blast
qed

lemma restored_holds:
  assumes lib: "barrier_opens lib" "sha256_size lib"
    and src: "consistent (ds_snapshot svc) (ds_ledger svc) cap0" and x: "export_backup lib n (Inr ()) svc = Inr encoded"
    and t: "\<not> ds_unresolved tgt" "ds_journal_limit tgt = MAX_FILE_BYTES" "length (ds_ledger svc) \<le> ds_max_retained_requests tgt"
      "validate_capacity (ds_max_retained_requests tgt) = Inr ()" "allow \<or> sn_generation (ds_snapshot tgt) \<le> sn_generation (ds_snapshot svc)"
  obtains disk' tgt' evs bs rc where
    "restore_backup lib (\<lambda>_. IoDone) (Inr ()) encoded allow (disk, tgt) =
       ((disk', tgt'), Inr \<lparr>ro_previous_generation = sn_generation (ds_snapshot tgt), ro_restored_generation = sn_generation (ds_snapshot svc),
          ro_retained_requests = length (ds_ledger svc)\<rparr>)"
    "durable_holds lib evs bs rc (disk', tgt')" "ds_snapshot tgt' = ds_snapshot svc" "ds_ledger tgt' = ds_ledger svc"
proof -
  let ?S = "ds_snapshot svc" and ?L = "ds_ledger svc"
  obtain sb lb cp r where d: "decode_backup lib encoded (ds_max_retained_requests tgt) = Inr \<lparr>bk_snapshot_bytes = sb, bk_journal_bytes = JOURNAL_MAGIC @ r, bk_ledger_bytes = lb,
      bk_snapshot = ?S, bk_ledger = ?L, bk_journal_sequence = 1\<rparr>"
    "decode_snapshot_frame lib sb = Inr ?S" "sealed_ledger lib (n + 1) (sn_generation ?S) ?L = Inr lb"
    "checkpoint_marker_of lib ?S ?L = Inr cp" "journal_holds lib [Checkpoint cp] r"
    "length sb \<le> MAX_FILE_BYTES" "length lb \<le> MAX_FILE_BYTES" "4 + length r \<le> MAX_FILE_BYTES"
    by (rule decode_backup_exported [OF lib src t(3) x])
  obtain rc where s: "settled lib ?L [Checkpoint cp] ?S rc" using settled_checkpoint [OF src d(4)] by blast
  let ?ms = "map (\<lambda>e. (fst e, marker_of e)) ?L"
  have vl: "list_all (\<lambda>e. validate_ledger_record (snd e) = Inr ()) ?L" "validate_ledger_generation ?L (sn_generation ?S) = Inr ()"
    using src by (auto simp: consistent_def ledger_ok_def record_ok_def list_all_iff)
  let ?d = "disk(State_File := Some sb, Ledger_File := Some lb, Journal_File := Some (JOURNAL_MAGIC @ r))"
  let ?t = "tgt\<lparr>ds_snapshot := ?S, ds_ledger := ?L, ds_journal_sequence := 1, ds_journal_bytes := 4 + length r,
     ds_reconciliation := recovered_reconciliation ?ms []\<rparr>"
  have rb: "\<not> (sn_generation ?S < sn_generation (ds_snapshot tgt) \<and> \<not> allow)" using t(5) by auto
  have "restore_backup lib (\<lambda>_. IoDone) (Inr ()) encoded allow (disk, tgt) =
       ((?d, ?t\<lparr>ds_unresolved := False\<rparr>), Inr \<lparr>ro_previous_generation = sn_generation (ds_snapshot tgt), ro_restored_generation = sn_generation ?S,
          ro_retained_requests = length ?L\<rparr>)"
    using t(1) d(1,6-8) rb rebuild_reconciliation_ok [OF vl(1)]
    by (simp add: restore_backup_def Let_def on_disk_def on_service_def atomic_write_def)
  moreover have "\<forall>e \<in> set ?L. reconcile (?t\<lparr>ds_unresolved := False\<rparr>) (lr_recovery_reference (snd e)) = StatusCommitted (lr_generation (snd e))"
    using reconcile_recovered [of ?ms "sn_generation ?S" _ "?t\<lparr>ds_unresolved := False\<rparr>" "[]"] vl(2) by (simp add: recovered_ledger_markers)
  then have "durable_holds lib [Checkpoint cp] r rc (?d, ?t\<lparr>ds_unresolved := False\<rparr>)"
    using d s t src by (auto simp: durable_holds_def MAX_RECORDS_def consistent_def)
  ultimately show thesis by (rule that) simp_all
qed

section \<open>A new service\<close>

lemma all_files: "(\<forall>f. P f) \<longleftrightarrow> P State_File \<and> P Journal_File \<and> P Ledger_File"
  by (metis durable_file.exhaust)

lemma create_new_holds:
  assumes lib: "barrier_opens lib" "sha256_size lib" "barrier_size lib k"
    and x: "create_new lib n (\<lambda>_. IoDone) (Inr ()) cap disk = (disk', Inr svc)"
  shows "durable_holds lib [] [] (recovery_start []) (disk', svc)" "sn_entries (ds_snapshot svc) = []" "ds_ledger svc = []"
    "ds_max_retained_requests svc = cap"
proof -
  let ?S = "\<lparr>sn_generation = 0, sn_entries = [], sn_last_commit = None\<rparr> :: snapshot"
  obtain sb lb where e: "validate_capacity cap = Inr ()" "\<forall>f. disk f = None" "sealed_snapshot lib n ?S = Inr sb" "sealed_ledger lib (n + 1) 0 [] = Inr lb"
    "length sb \<le> MAX_FILE_BYTES" "length lb \<le> MAX_FILE_BYTES"
    "disk' = disk(State_File := Some sb, Journal_File := Some JOURNAL_MAGIC, Ledger_File := Some lb)"
    "svc = \<lparr>ds_snapshot = ?S, ds_ledger = [], ds_reconciliation = [], ds_journal_sequence = 0,
                  ds_journal_bytes = length JOURNAL_MAGIC, ds_journal_limit = MAX_FILE_BYTES,
                  ds_max_retained_requests = cap, ds_unresolved = False\<rparr>"
    using x by (cases "validate_capacity cap"; cases "sealed_snapshot lib n ?S"; cases "sealed_ledger lib (n + 1) 0 []")
      (auto simp: create_new_def Let_def atomic_write_def initialize_journal_def all_files split: if_splits)
  have ok: "snapshot_ok ?S" by (simp add: snapshot_ok_def)
  have ds: "decode_snapshot_frame lib sb = Inr ?S" by (rule decode_snapshot_sealed [OF lib(1,2) e(3) ok e(5)])
  have "consistent ?S [] cap" using ok e(1) by (simp add: consistent_def ledger_ok_def validate_ledger_generation_iff bij_betw_def)
  moreover have "settled lib [] [] ?S (recovery_start [])" by (simp add: settled_def recovery_start_def recovered_ledger_def bmap_vals_def)
  ultimately show "durable_holds lib [] [] (recovery_start []) (disk', svc)"
    using e ds journal_holds.empty by (auto simp: durable_holds_def MAX_FILE_BYTES_def)
  show "sn_entries (ds_snapshot svc) = []" "ds_ledger svc = []" "ds_max_retained_requests svc = cap" using e by auto
qed

section \<open>The server's barrier\<close>

text \<open>The service over the server's barrier, which draws a nonce for each of its calls.\<close>

definition barrier_lib ::
  "(byte list \<Rightarrow> byte list) \<Rightarrow> aead_fn \<Rightarrow> aead_fn \<Rightarrow> (nat \<Rightarrow> rng) \<Rightarrow> byte list \<Rightarrow> durable_lib" where
  "barrier_lib sha256 seal open_aead fill key =
     \<lparr>lib_sha256 = sha256, lib_seal = (\<lambda>n. barrier_seal seal (fill n) key), lib_open = barrier_open open_aead key\<rparr>"

definition aead_opens :: "aead_fn \<Rightarrow> aead_fn \<Rightarrow> bool" where
  "aead_opens seal open_aead \<longleftrightarrow>
     (\<forall>key nonce ctx p x. seal key nonce ctx p = Some x \<longrightarrow> length x = length p + 16 \<and> open_aead key nonce ctx x = Some p)"

definition aead_seals :: "aead_fn \<Rightarrow> byte list \<Rightarrow> bool" where
  "aead_seals seal key \<longleftrightarrow> (\<forall>nonce ctx p. length nonce = 12 \<longrightarrow> length p \<le> MAX_FILE_BYTES \<longrightarrow> seal key nonce ctx p \<noteq> None)"

lemma barrier_lib_opens:
  assumes "aead_opens seal open_aead"
  shows "barrier_opens (barrier_lib sha256 seal open_aead fill key)" "barrier_size (barrier_lib sha256 seal open_aead fill key) 32"
proof -
  have a: "length x = length p + 16" "open_aead key nonce ctx x = Some p" if "seal key nonce ctx p = Some x" for nonce ctx p x
    using assms that unfolding aead_opens_def by blast+
  show "barrier_opens (barrier_lib sha256 seal open_aead fill key)"
    using a by (auto simp: barrier_opens_def barrier_lib_def barrier_seal_def barrier_open_def Let_def split: option.splits)
  show "barrier_size (barrier_lib sha256 seal open_aead fill key) 32"
    using a by (auto simp: barrier_size_def barrier_lib_def barrier_seal_def Let_def split: option.splits)
qed

lemma barrier_lib_seals:
  assumes "aead_seals seal key" "fill n 0 \<noteq> None"
  shows "seal_available (barrier_lib sha256 seal open_aead fill key) n"
  using assms by (fastforce simp: seal_available_def aead_seals_def barrier_lib_def barrier_seal_def Let_def)

section \<open>Crashes and retries\<close>

lemma execute_recovers:
  assumes lib: "barrier_opens lib" "sha256_size lib" "barrier_size lib k" "seal_available lib m" "seal_available lib (m + 1)"
    and h: "durable_holds lib evs bs rc (disk, svc)" and r: "mutation_ready lib evs rc svc b v"
    and x: "execute lib n io (Inr ()) fp b v (disk, svc) = ((disk', svc'), res)"
    and ref: "ref = cm_recovery_reference (planned_marker lib svc b)"
  shows "(\<forall>out. res \<noteq> Inr out) \<and> (\<exists>status \<in> {StatusUnknown, StatusAborted}.
            recovers_to lib m (ds_max_retained_requests svc) disk' (ds_snapshot svc) (ds_ledger svc) ref status) \<or>
         recovers_to lib m (ds_max_retained_requests svc) disk' (planned_snapshot lib svc b v) (planned_ledger lib svc b) ref
            (StatusCommitted (Suc (sn_generation (ds_snapshot svc))))"
proof -
  have u: "\<not> ds_unresolved svc" "map_of (ds_ledger svc) (bd_key b) = None" and s: "settled lib (ds_ledger svc) evs (ds_snapshot svc) rc"
    using h r by (auto simp: durable_holds_def mutation_ready_def)
  show ?thesis
    using x u
  proof (cases rule: execute_new)
    case (refused e)
    have ro: "recovery_ok rc" and nu: "ref \<notin> set (rc_references rc)" using settled_ok [OF s] r ref by (auto simp: mutation_ready_def)
    then have "map_of (rc_reconciliation rc) ref = None" by (auto simp: recovery_ok_def map_of_eq_None_iff)
    then have "recovers_to lib m (ds_max_retained_requests svc) disk (ds_snapshot svc) (ds_ledger svc) ref StatusUnknown"
      using reopen_unchanged [OF lib(1-3,5) h] reconcile_unused [OF ro nu] unfolding recovers_to_def by fastforce
    then show ?thesis using refused by blast
  next
    case (failed plan svc'' e)
    then have p: "mutation_planned lib n evs bs rc disk svc b v plan" using lib h r by (simp add: mutation_planned_def)
    show ?thesis using publish_recovers [OF p lib(3-5) failed(2) ref] failed(3) by blast
  next
    case (done_ok plan svc'')
    then have p: "mutation_planned lib n evs bs rc disk svc b v plan" using lib h r by (simp add: mutation_planned_def)
    show ?thesis using publish_recovers [OF p lib(3-5) done_ok(2) ref] by blast
  qed
qed

lemma on_disk_service: "on_disk f w = (w', r) \<Longrightarrow> snd w' = snd w"
  by (auto simp: on_disk_def split: prod.splits)

lemma snd_fst_on_disk [simp]: "snd (fst (on_disk f w)) = snd w"
  by (simp add: on_disk_def split: prod.splits)

lemma append_frame_snapshot: "append_frame io f w = (w', r) \<Longrightarrow> ds_snapshot (snd w') = ds_snapshot (snd w)"
  by (cases r) (auto simp: append_frame_def Let_def on_service_def sbind_def dest: on_disk_service split: prod.splits sum.splits if_splits)

lemma publish_mutation_snapshot:
  assumes "publish_mutation io fp plan w = (w', Inr ())"
  shows "ds_snapshot (snd w') = mp_snapshot plan"
proof -
  obtain w1 w2 w3 w4 where "append_frame (io 2) (mp_commit plan) (on_service (\<lambda>svc. svc\<lparr>ds_snapshot := mp_snapshot plan\<rparr>) w2) = (w3, Inr ())"
    "on_disk (atomic_write (io 3) Ledger_File (mp_ledger_bytes plan)) w3 = (w4, Inr ())"
    "w' = on_service (\<lambda>svc. svc\<lparr>ds_ledger := mp_ledger plan\<rparr>) w4"
    using assms unfolding publish_mutation_def Let_def sbind_result_iff by (fastforce split: if_split_asm simp: sbind_result_iff)
  then show ?thesis by (auto simp: on_service_def dest!: append_frame_snapshot on_disk_service)
qed

section \<open>Runs of the service\<close>

text \<open>The recovery references that the journal and the ledger of a directory already use.\<close>

definition used_references :: "'x durable_lib_scheme \<Rightarrow> world \<Rightarrow> string list" where
  "used_references lib w =
     (case decode_journal_frames lib (unwrap_or (fst w Journal_File) []) of
        Inr (_, evs, _, _) \<Rightarrow>
          (case recover_events lib (ds_ledger (snd w)) 0 evs (recovery_start []) of Inr rc \<Rightarrow> rc_references rc | Inl _ \<Rightarrow> [])
      | Inl _ \<Rightarrow> [])"

definition mutation_fresh :: "'x durable_lib_scheme \<Rightarrow> world \<Rightarrow> binding \<Rightarrow> byte list option \<Rightarrow> bool" where
  "mutation_fresh lib w b v \<longleftrightarrow>
     mutation_ok b v \<and> binding_digest lib b \<noteq> zero_digest \<and>
     cm_recovery_reference (planned_marker lib (snd w) b) \<notin> set (used_references lib w)"

lemma used_references_holds:
  assumes "barrier_opens lib" "sha256_size lib" "durable_holds lib evs bs rc w"
  shows "used_references lib w = rc_references rc"
proof -
  obtain disk svc where w: "w = (disk, svc)" by fastforce
  have h: "journal_holds lib evs bs" "length evs \<le> MAX_RECORDS" "length bs \<le> MAX_FILE_BYTES" "disk Journal_File = Some (JOURNAL_MAGIC @ bs)"
    "recover_events lib (ds_ledger svc) 0 evs (recovery_start []) = Inr rc"
    using assms(3) w by (auto simp: durable_holds_def settled_def)
  show ?thesis by (simp add: used_references_def w h(4,5) decode_journal [OF assms(1,2) h(1-3)])
qed

inductive durable_run :: "'x durable_lib_scheme \<Rightarrow> world \<Rightarrow> bool" for lib where
  created: "create_new lib n (\<lambda>_. IoDone) (Inr ()) cap disk = (disk', Inr svc) \<Longrightarrow> durable_run lib (disk', svc)"
| executed: "durable_run lib w \<Longrightarrow> mutation_fresh lib w b v \<Longrightarrow> execute lib n io (Inr ()) fp b v w = (w', Inr out) \<Longrightarrow>
    durable_run lib w'"
| crashed: "durable_run lib w \<Longrightarrow> mutation_fresh lib w b v \<Longrightarrow> execute lib n io (Inr ()) fp b v w = (w', res) \<Longrightarrow>
    reopen lib m (\<lambda>_. IoDone) (Inr ()) (ds_max_retained_requests (snd w)) (fst w') = (disk', Inr svc') \<Longrightarrow> durable_run lib (disk', svc')"
| compacted: "durable_run lib w \<Longrightarrow> durable_compact lib n io (Inr ()) w = (w', Inr out) \<Longrightarrow> durable_run lib w'"
| interrupted: "durable_run lib w \<Longrightarrow> durable_compact lib n io (Inr ()) w = (w', res) \<Longrightarrow>
    reopen lib m (\<lambda>_. IoDone) (Inr ()) (ds_max_retained_requests (snd w)) (fst w') = (disk', Inr svc') \<Longrightarrow> durable_run lib (disk', svc')"
| restored: "durable_run lib w \<Longrightarrow> durable_run lib w0 \<Longrightarrow> export_backup lib n (Inr ()) (snd w0) = Inr backup \<Longrightarrow>
    restore_backup lib (\<lambda>_. IoDone) (Inr ()) backup allow w = (w', Inr out) \<Longrightarrow> durable_run lib w'"

lemma execute_duplicate:
  assumes "map_of (ds_ledger (snd w)) (bd_key b) = Some existing" "execute lib n io g fp b v w = (w', res)"
  shows "w' = w" "res = Inr out \<Longrightarrow> out = Duplicate (lr_generation existing) (lr_recovery_reference existing)"
  using assms by (cases g; auto simp: execute_def Let_def split: if_splits)+

lemma execute_holds:
  assumes lib: "barrier_opens lib" "sha256_size lib" "barrier_size lib k"
    and h: "durable_holds lib evs bs rc (disk, svc)" and r: "mutation_ready lib evs rc svc b v"
    and x: "execute lib n io (Inr ()) fp b v (disk, svc) = ((disk', svc'), Inr out)"
  obtains evs' bs' rc' where "durable_holds lib evs' bs' rc' (disk', svc')" "ds_snapshot svc' = planned_snapshot lib svc b v"
    "ds_ledger svc' = planned_ledger lib svc b"
    "out = Committed (Suc (sn_generation (ds_snapshot svc))) (cm_recovery_reference (planned_marker lib svc b))"
proof -
  have u: "\<not> ds_unresolved svc" "map_of (ds_ledger svc) (bd_key b) = None" using h r by (auto simp: durable_holds_def mutation_ready_def)
  show thesis
    using x u
  proof (cases rule: execute_new)
    case (done_ok plan svc'')
    then have p: "mutation_planned lib n evs bs rc disk svc b v plan" using lib h r by (simp add: mutation_planned_def)
    have m: "mp_marker plan = planned_marker lib svc b" by (rule plan_mutation_Inr(4) [OF done_ok(1)])
    note ph = publish_holds [OF p lib(3) done_ok(2) refl done_ok(4) [unfolded m]]
    show thesis using that [OF ph(1)] ph(2) done_ok(3) m by (simp add: planned_marker_def)
  qed simp_all
qed

lemma mutation_fresh_ready:
  assumes "barrier_opens lib" "sha256_size lib" "durable_holds lib evs bs rc w" "mutation_fresh lib w b v" "map_of (ds_ledger (snd w)) (bd_key b) = None"
  shows "mutation_ready lib evs rc (snd w) b v"
  using assms used_references_holds [OF assms(1-3)] by (simp add: mutation_ready_def mutation_fresh_def)

lemma recovers_to_holds:
  assumes "recovers_to lib m cap disk snap ledger ref status" "reopen lib m (\<lambda>_. IoDone) (Inr ()) cap disk = (disk', Inr svc')"
  obtains evs bs rc where "durable_holds lib evs bs rc (disk', svc')" "ds_snapshot svc' = snap" "ds_ledger svc' = ledger"
    "ds_max_retained_requests svc' = cap" "reconcile svc' ref = status"
  using assms by (auto simp: recovers_to_def)

lemma compact_reopens:
  assumes lib: "barrier_opens lib" "sha256_size lib" "barrier_size lib k" "seal_available lib (m + 1)"
    and h: "durable_holds lib evs bs rc (disk, svc)" and c: "durable_compact lib n io (Inr ()) (disk, svc) = ((disk', svc'), res)"
  shows "\<exists>disk'' svc'' evs' bs' rc'. reopen lib m (\<lambda>_. IoDone) (Inr ()) (ds_max_retained_requests svc) disk' = (disk'', Inr svc'') \<and>
    durable_holds lib evs' bs' rc' (disk'', svc'') \<and> ds_snapshot svc'' = ds_snapshot svc \<and> ds_ledger svc'' = ds_ledger svc"
proof -
  have u: "\<not> ds_unresolved svc" "ds_journal_limit svc = MAX_FILE_BYTES" using h by (auto simp: durable_holds_def)
  show ?thesis
    using c u
  proof (cases rule: compact_cases)
    case unchanged
    then show ?thesis using reopen_unchanged [OF lib h] by blast
  next
    case (replaced journal)
    obtain evs' bs' rc' where h': "durable_holds lib evs' bs' rc' (disk(Journal_File := Some journal),
        svc\<lparr>ds_journal_sequence := 1, ds_journal_bytes := length journal\<rparr>)"
      by (rule compacted_holds [OF h lib(2) replaced(1,2)])
    show ?thesis using reopen_unchanged [OF lib h'] unfolding replaced(3) by simp blast
  qed
qed

lemma compact_holds:
  assumes lib: "sha256_size lib" and h: "durable_holds lib evs bs rc (disk, svc)"
    and c: "durable_compact lib n io (Inr ()) (disk, svc) = ((disk', svc'), Inr out)"
  obtains evs' bs' rc' where "durable_holds lib evs' bs' rc' (disk', svc')" "ds_snapshot svc' = ds_snapshot svc" "ds_ledger svc' = ds_ledger svc"
    "ds_reconciliation svc' = ds_reconciliation svc"
proof -
  have u: "\<not> ds_unresolved svc" "ds_journal_limit svc = MAX_FILE_BYTES" using h by (auto simp: durable_holds_def)
  show thesis
    using c u
  proof (cases rule: compact_cases)
    case (replaced journal)
    obtain evs' bs' rc' where "durable_holds lib evs' bs' rc' (disk(Journal_File := Some journal),
        svc\<lparr>ds_journal_sequence := 1, ds_journal_bytes := length journal\<rparr>)"
      by (rule compacted_holds [OF h lib replaced(1,2)])
    then show thesis using that replaced(3,4) by fastforce
  qed blast
qed

lemma restore_backup_Inr:
  assumes "restore_backup lib io (Inr ()) backup allow (disk, svc) = (w', Inr out)"
  obtains restored where "\<not> ds_unresolved svc" "decode_backup lib backup (ds_max_retained_requests svc) = Inr restored"
    "allow \<or> sn_generation (ds_snapshot svc) \<le> sn_generation (bk_snapshot restored)"
  using assms by (cases "decode_backup lib backup (ds_max_retained_requests svc)") (auto simp: restore_backup_def Let_def split: if_splits)

lemma decode_backup_capacity:
  assumes "decode_backup lib encoded cap = Inr rs"
  shows "length (bk_ledger rs) \<le> cap" "length (bk_ledger rs) \<le> cap' \<Longrightarrow> decode_backup lib encoded cap' = Inr rs"
proof -
  obtain g sb j lb snap lg ledger sq evs vf tl where e: "read_backup lib encoded = Inr (g, sb, j, lb)" "decode_snapshot_frame lib sb = Inr snap"
    "decode_ledger_frame lib lb = Inr (lg, ledger)" "decode_journal_frames lib j = Inr (sq, evs, vf, tl)"
    using assms by (auto simp: decode_backup_def)
  note d = decode_backup_def [of lib encoded, unfolded e rbind_simps prod.case]
  have r: "bk_ledger rs = ledger" "length ledger \<le> cap" using assms unfolding d by (auto split: if_splits)
  then show "length (bk_ledger rs) \<le> cap" by simp
  show "decode_backup lib encoded cap' = Inr rs" if "length (bk_ledger rs) \<le> cap'"
    using assms that r unfolding d by (simp split: if_split_asm)
qed

lemma decode_backup_own:
  assumes "barrier_opens lib" "sha256_size lib" "consistent (ds_snapshot svc) (ds_ledger svc) cap0"
    and "export_backup lib n (Inr ()) svc = Inr encoded" "decode_backup lib encoded cap = Inr rs"
  shows "length (ds_ledger svc) \<le> cap \<and> bk_snapshot rs = ds_snapshot svc"
proof -
  let ?c = "max cap (length (ds_ledger svc))"
  obtain sb lb cp r where "decode_backup lib encoded ?c = Inr \<lparr>bk_snapshot_bytes = sb, bk_journal_bytes = JOURNAL_MAGIC @ r, bk_ledger_bytes = lb,
      bk_snapshot = ds_snapshot svc, bk_ledger = ds_ledger svc, bk_journal_sequence = 1\<rparr>"
    by (rule decode_backup_exported [OF assms(1-3) max.cobounded2 assms(4)])
  then show ?thesis using decode_backup_capacity(1) [OF assms(5)] decode_backup_capacity(2) [OF assms(5), of ?c] by auto
qed

theorem durable_run_holds:
  assumes "durable_run lib w" and lib: "barrier_opens lib" "sha256_size lib" "barrier_size lib k" "\<And>n. seal_available lib n"
  shows "\<exists>evs bs rc. durable_holds lib evs bs rc w"
  using assms(1)
proof induction
  case (created n cap disk disk' svc)
  then show ?case using create_new_holds(1) [OF lib(1-3)] by blast
next
  case (executed w b v n io fp w' out)
  obtain evs bs rc where h: "durable_holds lib evs bs rc w" using executed by blast
  show ?case
  proof (cases "map_of (ds_ledger (snd w)) (bd_key b)")
    case None
    note r = mutation_fresh_ready [OF lib(1,2) h executed(2) None]
    have x: "execute lib n io (Inr ()) fp b v (fst w, snd w) = ((fst w', snd w'), Inr out)" using executed(3) by simp
    from h have "durable_holds lib evs bs rc (fst w, snd w)" by simp
    then obtain evs' bs' rc' where "durable_holds lib evs' bs' rc' (fst w', snd w')" using r x by (rule execute_holds [OF lib(1-3)])
    then show ?thesis by auto
  next
    case (Some existing)
    then show ?thesis using execute_duplicate(1) [OF Some executed(3)] h by blast
  qed
next
  case (crashed w b v n io fp w' res m disk' svc')
  obtain evs bs rc where h: "durable_holds lib evs bs rc w" using crashed by blast
  show ?case
  proof (cases "map_of (ds_ledger (snd w)) (bd_key b)")
    case None
    note r = mutation_fresh_ready [OF lib(1,2) h crashed(2) None]
    show ?thesis
      using execute_recovers [OF lib(1-3) lib(4) lib(4), of evs bs rc "fst w" "snd w" b v n io fp "fst w'" "snd w'" res _ m] h r crashed(3,4)
      by (auto simp: recovers_to_def)
  next
    case (Some existing)
    then have "w' = w" by (rule execute_duplicate(1) [OF _ crashed(3)])
    then show ?thesis using reopen_unchanged [OF lib(1-3) lib(4), of evs bs rc "fst w" "snd w" m] h crashed(4) by auto
  qed
next
  case (compacted w n io w' out)
  then obtain evs bs rc where "durable_holds lib evs bs rc w" by blast
  then have h: "durable_holds lib evs bs rc (fst w, snd w)" by simp
  have "durable_compact lib n io (Inr ()) (fst w, snd w) = ((fst w', snd w'), Inr out)" using compacted(2) by simp
  with h obtain evs' bs' rc' where "durable_holds lib evs' bs' rc' (fst w', snd w')" by (rule compact_holds [OF lib(2)])
  then show ?case by auto
next
  case (interrupted w n io w' res m disk' svc')
  then obtain evs bs rc where "durable_holds lib evs bs rc w" by blast
  then show ?case using compact_reopens [OF lib(1-3) lib(4), of evs bs rc "fst w" "snd w" n io "fst w'" "snd w'" res m] interrupted(2,3) by auto
next
  case (restored w w0 n backup allow w' out)
  then obtain evs bs rc evs0 bs0 rc0 where h: "durable_holds lib evs bs rc w" "durable_holds lib evs0 bs0 rc0 w0" by blast
  obtain disk svc where w: "w = (disk, svc)" by fastforce
  have c: "consistent (ds_snapshot (snd w0)) (ds_ledger (snd w0)) (ds_max_retained_requests (snd w0))" using h(2) by (auto simp: durable_holds_def)
  obtain rs where rs: "\<not> ds_unresolved svc" "decode_backup lib backup (ds_max_retained_requests svc) = Inr rs"
    "allow \<or> sn_generation (ds_snapshot svc) \<le> sn_generation (bk_snapshot rs)"
    by (rule restore_backup_Inr [OF restored(4) [unfolded w]])
  have b: "length (ds_ledger (snd w0)) \<le> ds_max_retained_requests svc" "bk_snapshot rs = ds_snapshot (snd w0)"
    using decode_backup_own [OF lib(1,2) c restored(3) rs(2)] by auto
  have t: "ds_journal_limit svc = MAX_FILE_BYTES" "validate_capacity (ds_max_retained_requests svc) = Inr ()"
    using h(1) w by (auto simp: durable_holds_def consistent_def)
  have g: "allow \<or> sn_generation (ds_snapshot svc) \<le> sn_generation (ds_snapshot (snd w0))" using rs(3) b(2) by simp
  obtain disk' svc' evs' bs' rc' where "restore_backup lib (\<lambda>_. IoDone) (Inr ()) backup allow (disk, svc) =
       ((disk', svc'), Inr \<lparr>ro_previous_generation = sn_generation (ds_snapshot svc), ro_restored_generation = sn_generation (ds_snapshot (snd w0)),
          ro_retained_requests = length (ds_ledger (snd w0))\<rparr>)" "durable_holds lib evs' bs' rc' (disk', svc')"
    by (rule restored_holds [OF lib(1,2) c restored(3) rs(1) t(1) b(1) t(2) g])
  then show ?case using restored(4) w by auto
qed

section \<open>A service to try the theorems on\<close>

definition sample_durable_lib :: durable_lib where
  "sample_durable_lib =
     barrier_lib (\<lambda>_. replicate 32 1) (\<lambda>_ _ _ p. Some (p @ replicate 16 0)) (\<lambda>_ _ _ x. Some (take (length x - 16) x)) (\<lambda>_ _. Some (\<lambda>_. 7)) (replicate 32 0)"

definition sample_durable_binding :: binding where
  "sample_durable_binding =
     \<lparr>bd_key = RequestKey ''alice'' ''prod'' ''req-1'', bd_resource = ''secret/app'', bd_kind = Put,
      bd_authorization_digest = replicate 32 2, bd_value_digest = replicate 32 3\<rparr>"

definition sample_durable_world :: world where
  "sample_durable_world =
     (case create_new sample_durable_lib 0 (\<lambda>_. IoDone) (Inr ()) 8 (\<lambda>_. None) of (disk, r) \<Rightarrow> (disk, projr r))"

lemma sample_durable_laws:
  "barrier_opens sample_durable_lib" "barrier_size sample_durable_lib 32" "sha256_size sample_durable_lib" "seal_available sample_durable_lib n"
proof -
  show "barrier_opens sample_durable_lib" "barrier_size sample_durable_lib 32"
    unfolding sample_durable_lib_def by (rule barrier_lib_opens, simp add: aead_opens_def)+
  show "sha256_size sample_durable_lib" by (simp add: sha256_size_def sample_durable_lib_def barrier_lib_def)
  show "seal_available sample_durable_lib n"
    unfolding sample_durable_lib_def by (rule barrier_lib_seals) (simp_all add: aead_seals_def)
qed

lemma sample_durable_mutation: "mutation_ok sample_durable_binding (Some [9, 9])"
proof -
  have "validate_request_key (bd_key sample_durable_binding) = Inr ()" "validate_resource (bd_resource sample_durable_binding) = Inr ()"
    by code_simp+
  then show ?thesis by (simp add: mutation_ok_def sample_durable_binding_def MAX_SECRET_BYTES_def)
qed

lemma sample_durable_created:
  obtains disk svc where "create_new sample_durable_lib 0 (\<lambda>_. IoDone) (Inr ()) 8 (\<lambda>_. None) = (disk, Inr svc)" "sample_durable_world = (disk, svc)"
proof -
  let ?S = "\<lparr>sn_generation = 0, sn_entries = [], sn_last_commit = None\<rparr> :: snapshot"
  have s: "\<exists>b. sealed_snapshot sample_durable_lib 0 ?S = Inr b \<and> length b \<le> MAX_FILE_BYTES"
    by (simp add: sealed_snapshot_def encode_snapshot_def encode_last_commit_def sample_durable_lib_def barrier_lib_def barrier_seal_def ok_or_def write_bytes_def Let_def digest32_def MAX_FILE_BYTES_def MAX_RECORDS_def SNAPSHOT_PLAINTEXT_MAGIC_def)
  have l: "\<exists>b. sealed_ledger sample_durable_lib 1 0 [] = Inr b \<and> length b \<le> MAX_FILE_BYTES"
    by (simp add: sealed_ledger_def encode_ledger_def sample_durable_lib_def barrier_lib_def barrier_seal_def ok_or_def write_bytes_def Let_def digest32_def MAX_FILE_BYTES_def MAX_RECORDS_def LEDGER_PLAINTEXT_MAGIC_def)
  have "\<exists>disk svc. create_new sample_durable_lib 0 (\<lambda>_. IoDone) (Inr ()) 8 (\<lambda>_. None) = (disk, Inr svc)"
    using s l by (auto simp: create_new_def Let_def validate_capacity_def MAX_RECORDS_def atomic_write_def initialize_journal_def)
  then show thesis using that by (auto simp: sample_durable_world_def)
qed

lemma sample_durable_holds:
  "durable_holds sample_durable_lib [] [] (recovery_start []) sample_durable_world"
  "mutation_ready sample_durable_lib [] (recovery_start []) (snd sample_durable_world) sample_durable_binding (Some [9, 9])"
  "durable_run sample_durable_lib sample_durable_world"
proof -
  obtain disk svc where c: "create_new sample_durable_lib 0 (\<lambda>_. IoDone) (Inr ()) 8 (\<lambda>_. None) = (disk, Inr svc)" "sample_durable_world = (disk, svc)"
    by (rule sample_durable_created)
  note h = create_new_holds [OF sample_durable_laws(1,3,2) c(1)]
  show "durable_holds sample_durable_lib [] [] (recovery_start []) sample_durable_world" using h(1) c(2) by simp
  show "mutation_ready sample_durable_lib [] (recovery_start []) (snd sample_durable_world) sample_durable_binding (Some [9, 9])"
    unfolding c(2) using h(3) sample_durable_mutation
    by (simp add: mutation_ready_def recovery_start_def binding_digest_def digest32_def sample_durable_lib_def barrier_lib_def zero_digest_def)
  show "durable_run sample_durable_lib sample_durable_world" using durable_run.created [OF c(1)] c(2) by simp
qed

section \<open>The properties\<close>

text \<open>
  C34: A mutation of the durable service is atomic under crashes.  Whatever the outcome of each of its
  four writes and whichever failpoint stops it, reopening the directory succeeds and gives a service
  that is either in the state before the mutation (and then \<^verbatim>\<open>execute\<close> did not report a commit, and
  the reference reconciles to unknown or aborted) or in the state after it, whose reference
  reconciles to committed at the new generation.  The recovered service satisfies the invariant again.
\<close>

theorem durable_crash_atomic:
  assumes "barrier_opens lib" "sha256_size lib" "barrier_size lib k" "seal_available lib m" "seal_available lib (m + 1)"
    and "durable_holds lib evs bs rc (disk, svc)" "mutation_ready lib evs rc svc b v"
    and "execute lib n io (Inr ()) fp b v (disk, svc) = ((disk', svc'), res)"
  shows "(\<forall>out. res \<noteq> Inr out) \<and> (\<exists>status \<in> {StatusUnknown, StatusAborted}.
            recovers_to lib m (ds_max_retained_requests svc) disk' (ds_snapshot svc) (ds_ledger svc)
              (cm_recovery_reference (planned_marker lib svc b)) status) \<or>
         recovers_to lib m (ds_max_retained_requests svc) disk' (planned_snapshot lib svc b v) (planned_ledger lib svc b)
           (cm_recovery_reference (planned_marker lib svc b)) (StatusCommitted (Suc (sn_generation (ds_snapshot svc))))"
  by (rule execute_recovers [OF assms refl])

text \<open>
  C35: Retrying after a crash applies the mutation exactly once.  However the first attempt ended, the
  same request sent again to the reopened service, when it is answered, leaves the entries as one
  application of the mutation makes them, one generation on; the answer names that generation.
\<close>

theorem retry_applies_once:
  assumes "barrier_opens lib" "sha256_size lib" "barrier_size lib k" "seal_available lib m" "seal_available lib (m + 1)"
    and "durable_holds lib evs bs rc (disk, svc)" "mutation_ready lib evs rc svc b v"
    and "execute lib n io (Inr ()) fp b v (disk, svc) = ((disk', svc'), res)"
    and "reopen lib m (\<lambda>_. IoDone) (Inr ()) (ds_max_retained_requests svc) disk' = (disk2, r2)"
  shows "\<exists>svc2. r2 = Inr svc2 \<and>
    (\<forall>n2 io2 fp2 w3 out. execute lib n2 io2 (Inr ()) fp2 b v (disk2, svc2) = (w3, Inr out) \<longrightarrow>
      sn_entries (ds_snapshot (snd w3)) = mutated_entries b v (sn_entries (ds_snapshot svc)) \<and>
      sn_generation (ds_snapshot (snd w3)) = Suc (sn_generation (ds_snapshot svc)) \<and>
      (\<exists>ref. out \<in> {Committed (Suc (sn_generation (ds_snapshot svc))) ref, Duplicate (Suc (sn_generation (ds_snapshot svc))) ref}))"
proof -
  note cr = execute_recovers [OF assms(1-8) refl]
  then obtain svc2 where r2: "r2 = Inr svc2" using assms(9) by (auto simp: recovers_to_def)
  have key: "map_of (ds_ledger svc) (bd_key b) = None" using assms(7) by (simp add: mutation_ready_def)
  have st: "ds_snapshot svc2 = ds_snapshot svc \<and> ds_ledger svc2 = ds_ledger svc \<and> \<not> ds_unresolved svc2 \<or>
      ds_snapshot svc2 = planned_snapshot lib svc b v \<and> ds_ledger svc2 = planned_ledger lib svc b"
    using cr assms(9) r2 by (auto simp: recovers_to_def durable_holds_def)
  have "sn_entries (ds_snapshot (snd w3)) = mutated_entries b v (sn_entries (ds_snapshot svc)) \<and>
      sn_generation (ds_snapshot (snd w3)) = Suc (sn_generation (ds_snapshot svc)) \<and>
      (\<exists>ref. out \<in> {Committed (Suc (sn_generation (ds_snapshot svc))) ref, Duplicate (Suc (sn_generation (ds_snapshot svc))) ref})"
    if x: "execute lib n2 io2 (Inr ()) fp2 b v (disk2, svc2) = (w3, Inr out)" for n2 io2 fp2 w3 out
    using st
  proof
    assume s: "ds_snapshot svc2 = ds_snapshot svc \<and> ds_ledger svc2 = ds_ledger svc \<and> \<not> ds_unresolved svc2"
    then have k: "map_of (ds_ledger svc2) (bd_key b) = None" using key by simp
    obtain d3 s3 where w3: "w3 = (d3, s3)" by fastforce
    show ?thesis
      using x [unfolded w3] s [THEN conjunct2, THEN conjunct2] k
    proof (cases rule: execute_new)
      case (done_ok plan svc'')
      have "ds_snapshot svc'' = planned_snapshot lib svc2 b v"
        using publish_mutation_snapshot [OF done_ok(2)] plan_mutation_Inr(5) [OF done_ok(1)] by simp
      then show ?thesis
        using done_ok(3,4) plan_mutation_Inr(4) [OF done_ok(1)] s w3 by (simp add: planned_snapshot_def) (simp add: planned_marker_def)
    qed simp_all
  next
    assume s: "ds_snapshot svc2 = planned_snapshot lib svc b v \<and> ds_ledger svc2 = planned_ledger lib svc b"
    then have k: "map_of (ds_ledger (snd (disk2, svc2))) (bd_key b) = Some (record_of_marker (planned_marker lib svc b))"
      by (simp add: planned_ledger_def)
    show ?thesis
      using execute_duplicate(1) [OF k x] execute_duplicate(2) [OF k x refl] s
      by (simp add: planned_snapshot_def record_of_marker_def) (simp add: planned_marker_def)
  qed
  with r2 show ?thesis by blast
qed




text \<open>
  C36: A running service agrees with its directory.  In every state that creation, mutations, crashes
  with reopening, compactions and restored backups reach, the ledger holds one record for each
  generation, every record's reference reconciles to the generation of its commit, and reopening the
  directory gives the same snapshot and ledger.
\<close>

theorem durable_run_reopens:
  assumes "durable_run lib (disk, svc)" "barrier_opens lib" "sha256_size lib" "barrier_size lib k" "\<And>n. seal_available lib n"
  shows "bij_betw (\<lambda>e. lr_generation (snd e)) (set (ds_ledger svc)) {1..sn_generation (ds_snapshot svc)} \<and>
    (\<forall>e \<in> set (ds_ledger svc). reconcile svc (lr_recovery_reference (snd e)) = StatusCommitted (lr_generation (snd e))) \<and>
    (\<exists>disk' svc'. reopen lib n (\<lambda>_. IoDone) (Inr ()) (ds_max_retained_requests svc) disk = (disk', Inr svc') \<and>
      ds_snapshot svc' = ds_snapshot svc \<and> ds_ledger svc' = ds_ledger svc)"
proof -
  obtain evs bs rc where h: "durable_holds lib evs bs rc (disk, svc)" using durable_run_holds [OF assms] by blast
  then have "bij_betw (\<lambda>e. lr_generation (snd e)) (set (ds_ledger svc)) {1..sn_generation (ds_snapshot svc)}"
    by (auto simp: durable_holds_def consistent_def validate_ledger_generation_iff)
  moreover have "\<forall>e \<in> set (ds_ledger svc). reconcile svc (lr_recovery_reference (snd e)) = StatusCommitted (lr_generation (snd e))"
    using h by (simp add: durable_holds_def)
  ultimately show ?thesis using reopen_unchanged [OF assms(2-4) assms(5) h] by blast
qed

text \<open>
  C37: Compaction is transparent.  Whatever the outcome of its write, reopening the directory gives the
  snapshot and the ledger of before; when it succeeds the service also keeps them in memory.
\<close>

theorem compaction_transparent:
  assumes "barrier_opens lib" "sha256_size lib" "barrier_size lib k" "seal_available lib (m + 1)"
    and "durable_holds lib evs bs rc (disk, svc)" "durable_compact lib n io (Inr ()) (disk, svc) = ((disk', svc'), res)"
  shows "(\<exists>disk'' svc'' evs' bs' rc'. reopen lib m (\<lambda>_. IoDone) (Inr ()) (ds_max_retained_requests svc) disk' = (disk'', Inr svc'') \<and>
      durable_holds lib evs' bs' rc' (disk'', svc'') \<and> ds_snapshot svc'' = ds_snapshot svc \<and> ds_ledger svc'' = ds_ledger svc) \<and>
    (\<forall>out. res = Inr out \<longrightarrow>
      ds_snapshot svc' = ds_snapshot svc \<and> ds_ledger svc' = ds_ledger svc \<and> ds_reconciliation svc' = ds_reconciliation svc)"
proof -
  have "ds_snapshot svc' = ds_snapshot svc \<and> ds_ledger svc' = ds_ledger svc \<and> ds_reconciliation svc' = ds_reconciliation svc" if "res = Inr out" for out
  proof -
    have "durable_compact lib n io (Inr ()) (disk, svc) = ((disk', svc'), Inr out)" using assms(6) that by simp
    with assms(2,5) show ?thesis by (rule compact_holds) simp
  qed
  then show ?thesis using compact_reopens [OF assms] by blast
qed

text \<open>
  C38: A backup restores the state it was taken from.  The backup that a running service exports is
  accepted by every running service over the same barrier that has room for its records and does not
  refuse the rollback, which then has the exporting service's snapshot and ledger and satisfies the invariant.
\<close>

theorem backup_restores:
  assumes "barrier_opens lib" "sha256_size lib"
    and "durable_holds lib evs bs rc (disk, svc)" "export_backup lib n (Inr ()) svc = Inr backup"
    and "durable_holds lib evs2 bs2 rc2 (disk2, tgt)" "length (ds_ledger svc) \<le> ds_max_retained_requests tgt"
    and "allow \<or> sn_generation (ds_snapshot tgt) \<le> sn_generation (ds_snapshot svc)"
  shows "\<exists>disk' tgt' evs' bs' rc'.
    restore_backup lib (\<lambda>_. IoDone) (Inr ()) backup allow (disk2, tgt) =
      ((disk', tgt'), Inr \<lparr>ro_previous_generation = sn_generation (ds_snapshot tgt), ro_restored_generation = sn_generation (ds_snapshot svc),
         ro_retained_requests = length (ds_ledger svc)\<rparr>) \<and>
    durable_holds lib evs' bs' rc' (disk', tgt') \<and> ds_snapshot tgt' = ds_snapshot svc \<and> ds_ledger tgt' = ds_ledger svc"
proof -
  have s: "consistent (ds_snapshot svc) (ds_ledger svc) (ds_max_retained_requests svc)"
    and t: "\<not> ds_unresolved tgt" "ds_journal_limit tgt = MAX_FILE_BYTES" "validate_capacity (ds_max_retained_requests tgt) = Inr ()"
    using assms(3,5) by (auto simp: durable_holds_def consistent_def)
  obtain disk' tgt' evs' bs' rc' where "restore_backup lib (\<lambda>_. IoDone) (Inr ()) backup allow (disk2, tgt) =
      ((disk', tgt'), Inr \<lparr>ro_previous_generation = sn_generation (ds_snapshot tgt), ro_restored_generation = sn_generation (ds_snapshot svc),
         ro_retained_requests = length (ds_ledger svc)\<rparr>)"
    "durable_holds lib evs' bs' rc' (disk', tgt')" "ds_snapshot tgt' = ds_snapshot svc" "ds_ledger tgt' = ds_ledger svc"
    by (rule restored_holds [OF assms(1,2) s assms(4) t(1,2) assms(6) t(3) assms(7)])
  then show ?thesis by blast
qed

section \<open>Progress\<close>

lemma length_encode_marker:
  assumes "encode_marker m = Inr e" "marker_ok m"
  shows "length e = 88 + length (rk_principal (cm_key m)) + length (rk_namespace (cm_key m)) + length (rk_request_id (cm_key m))"
proof -
  have "length (cm_binding_digest m) = 32" "length (cm_recovery_reference m) = 32" using marker_okD [OF assms(2)] assms(2) by (auto simp: marker_ok_def)
  then show ?thesis using assms(1) by (auto simp: encode_marker_def encode_request_key_def dest!: length_encode_string)
qed

lemma sealed_snapshot_available:
  assumes "barrier_size lib k" "sha256_size lib" "seal_available lib n" "encode_snapshot snap = Inr p" "length p + k + 48 \<le> MAX_FILE_BYTES"
  obtains b where "sealed_snapshot lib n snap = Inr b" "length b \<le> MAX_FILE_BYTES"
proof -
  obtain x where x: "lib_seal lib n (snapshot_context (sn_generation snap)) p = Some x" using assms(3,5) unfolding seal_available_def by fastforce
  then have l: "length x = length p + k" using assms(1) by (simp add: barrier_size_def)
  then have "length x < 2 ^ 32" using assms(5) by (simp add: MAX_FILE_BYTES_def)
  then show thesis using that x l assms(2,4,5) by (simp add: sealed_snapshot_def ok_or_def write_bytes_def Let_def)
qed

lemma sealed_ledger_available:
  assumes "barrier_size lib k" "sha256_size lib" "seal_available lib n" "encode_ledger ledger = Inr p" "length p + k + 48 \<le> MAX_FILE_BYTES"
  obtains b where "sealed_ledger lib n g ledger = Inr b" "length b \<le> MAX_FILE_BYTES"
proof -
  obtain x where x: "lib_seal lib n (ledger_context g) p = Some x" using assms(3,5) unfolding seal_available_def by fastforce
  then have l: "length x = length p + k" using assms(1) by (simp add: barrier_size_def)
  then have "length x < 2 ^ 32" using assms(5) by (simp add: MAX_FILE_BYTES_def)
  then show thesis using that x l assms(2,4,5) by (simp add: sealed_ledger_def ok_or_def write_bytes_def Let_def)
qed

lemma sealed_record_available:
  assumes "barrier_size lib k" "sha256_size lib" "seal_available lib n" "encode_journal_event ev = Inr p" "length p + k + 48 \<le> MAX_FILE_BYTES"
  obtains b where "sealed_journal_record lib n s ev = Inr b" "length b = length p + k + 48"
proof -
  obtain x where x: "lib_seal lib n (journal_context s) p = Some x" using assms(3,5) unfolding seal_available_def by fastforce
  then have l: "length x = length p + k" using assms(1) by (simp add: barrier_size_def)
  then have "length x < 2 ^ 32 - 100" using assms(5) by (simp add: MAX_FILE_BYTES_def)
  then show thesis using that x l assms(2,4) by (simp add: sealed_journal_record_def ok_or_def write_bytes_def Let_def)
qed

text \<open>There is room for the mutation in each of the files.\<close>

definition mutation_fits ::
  "'x durable_lib_scheme \<Rightarrow> nat \<Rightarrow> durable_service \<Rightarrow> binding \<Rightarrow> byte list option \<Rightarrow> bool" where
  "mutation_fits lib k svc b v \<longleftrightarrow>
     length (ds_ledger svc) < ds_max_retained_requests svc \<and> ds_journal_sequence svc + 2 \<le> MAX_RECORDS \<and>
     (\<exists>s l e. encode_snapshot (planned_snapshot lib svc b v) = Inr s \<and> length s + k + 48 \<le> MAX_FILE_BYTES \<and>
        encode_ledger (planned_ledger lib svc b) = Inr l \<and> length l + k + 48 \<le> MAX_FILE_BYTES \<and>
        encode_marker (planned_marker lib svc b) = Inr e \<and>
        ds_journal_bytes svc + 2 * (length e + k + 49) \<le> ds_journal_limit svc)"

lemma plan_mutation_fits:
  assumes lib: "barrier_size lib k" "sha256_size lib" "\<forall>i < 4. seal_available lib (n + i)"
    and h: "durable_holds lib evs bs rc (disk, svc)" "mutation_ready lib evs rc svc b v" and f: "mutation_fits lib k svc b v"
  shows "\<exists>plan. plan_mutation lib n svc b v = Inr plan"
proof -
  let ?m = "planned_marker lib svc b"
  obtain s l e where f: "length (ds_ledger svc) < ds_max_retained_requests svc" "ds_journal_sequence svc + 2 \<le> MAX_RECORDS"
      "encode_snapshot (planned_snapshot lib svc b v) = Inr s" "length s + k + 48 \<le> MAX_FILE_BYTES"
      "encode_ledger (planned_ledger lib svc b) = Inr l" "length l + k + 48 \<le> MAX_FILE_BYTES"
      "encode_marker ?m = Inr e" "ds_journal_bytes svc + 2 * (length e + k + 49) \<le> MAX_FILE_BYTES" "ds_journal_limit svc = MAX_FILE_BYTES"
    using f h(1) by (auto simp: mutation_fits_def durable_holds_def)
  have a: "seal_available lib n" "seal_available lib (n + 1)" "seal_available lib (n + 2)" "seal_available lib (n + 3)"
    using lib(3) [rule_format, of 0] lib(3) [rule_format, of 1] lib(3) [rule_format, of 2] lib(3) [rule_format, of 3] by auto
  obtain sb where sb: "sealed_snapshot lib n (planned_snapshot lib svc b v) = Inr sb" "length sb \<le> MAX_FILE_BYTES"
    by (rule sealed_snapshot_available [OF lib(1,2) a(1) f(3,4)])
  obtain lb where lb: "sealed_ledger lib (n + 1) (sn_generation (ds_snapshot svc) + 1) (planned_ledger lib svc b) = Inr lb" "length lb \<le> MAX_FILE_BYTES"
    by (rule sealed_ledger_available [OF lib(1,2) a(2) f(5,6)])
  have ev: "encode_journal_event (Intent ?m) = Inr (1 # e)" "encode_journal_event (Commit ?m) = Inr (2 # e)"
    "length (1 # e) + k + 48 \<le> MAX_FILE_BYTES" "length (2 # e) + k + 48 \<le> MAX_FILE_BYTES"
    using f(7,8) by (simp_all add: encode_journal_event_def)
  obtain i where i: "sealed_journal_record lib (n + 2) (ds_journal_sequence svc + 1) (Intent ?m) = Inr i" "length i = length (1 # e) + k + 48"
    by (rule sealed_record_available [OF lib(1,2) a(3) ev(1,3)])
  obtain c where c: "sealed_journal_record lib (n + 3) (ds_journal_sequence svc + 2) (Commit ?m) = Inr c" "length c = length (2 # e) + k + 48"
    by (rule sealed_record_available [OF lib(1,2) a(4) ev(2,4)])
  have ad: "checked_add64 (sn_generation (ds_snapshot svc)) 1 = Some (sn_generation (ds_snapshot svc) + 1)"
    "checked_add64 (ds_journal_sequence svc) 1 = Some (ds_journal_sequence svc + 1)"
    "checked_add64 (ds_journal_sequence svc + 1) 1 = Some (ds_journal_sequence svc + 2)"
    using f(2) h(1) consistent_bounds [of "ds_snapshot svc" "ds_ledger svc" "ds_max_retained_requests svc"]
    by (auto simp: checked_add64_def MAX_RECORDS_def durable_holds_def)
  have ce: "changed_entries b v (sn_entries (ds_snapshot svc)) = Inr (mutated_entries b v (sn_entries (ds_snapshot svc)))"
    using h(2) by (auto simp: changed_entries_def mutated_entries_def mutation_ready_def mutation_ok_def ok_or_def split: mutation_kind.splits)
  show ?thesis
    unfolding plan_mutation_def Let_def ad ok_or_simps rbind_simps ce planned_marker_def [symmetric] planned_snapshot_def [symmetric]
      planned_ledger_def [symmetric] sb(1) lb(1) i(1) c(1)
    using f sb(2) lb(2) i(2) c(2) by simp
qed

lemma append_frame_done:
  assumes "disk Journal_File = Some old" "ds_journal_bytes svc + length frame \<le> ds_journal_limit svc" "ds_journal_sequence svc < MAX_RECORDS"
    and "ds_journal_limit svc = MAX_FILE_BYTES"
  shows "append_frame IoDone frame (disk, svc) = ((disk(Journal_File := Some (old @ frame)),
    svc\<lparr>ds_journal_sequence := ds_journal_sequence svc + 1, ds_journal_bytes := ds_journal_bytes svc + length frame\<rparr>), Inr ())"
proof -
  have c: "checked_add64 (ds_journal_sequence svc) 1 = Some (ds_journal_sequence svc + 1)"
    "checked_add64 (ds_journal_bytes svc) (length frame) = Some (ds_journal_bytes svc + length frame)"
    using assms(2-4) by (auto simp: checked_add64_def MAX_FILE_BYTES_def MAX_RECORDS_def)
  have g: "\<not> (ds_journal_limit svc < ds_journal_bytes svc + length frame \<or> MAX_RECORDS < ds_journal_sequence svc + 1)"
    using assms(2,3) by simp
  show ?thesis
    unfolding append_frame_def Let_def snd_conv c ok_or_simps rbind_simps if_not_P [OF g] sbind_simps prod.case
    by (simp add: append_journal_frame_def on_disk_def on_service_def assms(1))
qed

lemma execute_planned:
  assumes lib: "barrier_size lib k" and p: "mutation_planned lib n evs bs rc disk svc b v plan"
  shows "\<exists>w'. execute lib n (\<lambda>_. IoDone) (Inr ()) NoFailpoint b v (disk, svc) =
    (w', Inr (Committed (Suc (sn_generation (ds_snapshot svc))) (cm_recovery_reference (planned_marker lib svc b))))"
proof -
  have h: "durable_holds lib evs bs rc (disk, svc)" "mutation_ready lib evs rc svc b v" and pl: "plan_mutation lib n svc b v = Inr plan"
    using p by (auto simp: mutation_planned_def)
  note st = planned_state [OF p] and w = planned_writes [OF p]
  have pub: "\<exists>w'. publish_mutation (\<lambda>_. IoDone) NoFailpoint plan (disk, svc\<lparr>ds_unresolved := True\<rparr>) = (w', Inr ())"
    using st(4-9) w(1,2)
    by (simp add: publish_mutation_def append_frame_done Let_def on_disk_def on_service_def atomic_write_def)
  have "\<not> ds_unresolved svc" "map_of (ds_ledger svc) (bd_key b) = None" using h by (auto simp: durable_holds_def mutation_ready_def)
  then show ?thesis
    using pub pl plan_mutation_Inr(4) [OF pl] by (auto simp: execute_def Let_def on_service_def planned_marker_def)
qed

text \<open>
  C39: Without faults a mutation commits.  A running service with room in its files for the new
  snapshot, ledger and journal records, whose barrier seals, commits every valid new request at the
  next generation.
\<close>

theorem execute_commits:
  assumes "barrier_opens lib" "sha256_size lib" "barrier_size lib k" "\<forall>i < 4. seal_available lib (n + i)"
    and "durable_holds lib evs bs rc (disk, svc)" "mutation_ready lib evs rc svc b v" "mutation_fits lib k svc b v"
  shows "\<exists>w'. execute lib n (\<lambda>_. IoDone) (Inr ()) NoFailpoint b v (disk, svc) =
    (w', Inr (Committed (Suc (sn_generation (ds_snapshot svc))) (cm_recovery_reference (planned_marker lib svc b))))"
proof -
  obtain plan where "plan_mutation lib n svc b v = Inr plan" using plan_mutation_fits [OF assms(3,2,4-7)] by blast
  then have "mutation_planned lib n evs bs rc disk svc b v plan" using assms by (simp add: mutation_planned_def)
  then show ?thesis by (rule execute_planned [OF assms(3)])
qed

section \<open>Instances\<close>

text \<open>The sample put is stopped after its snapshot is published.\<close>

definition sample_crash :: "world \<times> (service_error + mutation_outcome)" where
  "sample_crash = execute sample_durable_lib 2 (\<lambda>_. IoDone) (Inr ()) AfterSnapshotPublication sample_durable_binding (Some [9, 9]) sample_durable_world"

definition sample_reopened :: "disk \<times> (service_error + durable_service)" where
  "sample_reopened = reopen sample_durable_lib 6 (\<lambda>_. IoDone) (Inr ()) (ds_max_retained_requests (snd sample_durable_world)) (fst (fst sample_crash))"

lemma sample_crash_pairs:
  "execute sample_durable_lib 2 (\<lambda>_. IoDone) (Inr ()) AfterSnapshotPublication sample_durable_binding (Some [9, 9])
     (fst sample_durable_world, snd sample_durable_world) = ((fst (fst sample_crash), snd (fst sample_crash)), snd sample_crash)"
  "reopen sample_durable_lib 6 (\<lambda>_. IoDone) (Inr ()) (ds_max_retained_requests (snd sample_durable_world)) (fst (fst sample_crash)) =
     (fst sample_reopened, snd sample_reopened)"
  "durable_holds sample_durable_lib [] [] (recovery_start []) (fst sample_durable_world, snd sample_durable_world)"
  using sample_durable_holds(1) by (simp_all add: sample_crash_def sample_reopened_def)

lemma sample_durable_state:
  "ds_snapshot (snd sample_durable_world) = \<lparr>sn_generation = 0, sn_entries = [], sn_last_commit = None\<rparr>" "ds_ledger (snd sample_durable_world) = []"
  "\<not> ds_unresolved (snd sample_durable_world)" "ds_journal_sequence (snd sample_durable_world) = 0" "ds_journal_bytes (snd sample_durable_world) = 4"
  "ds_journal_limit (snd sample_durable_world) = MAX_FILE_BYTES" "ds_max_retained_requests (snd sample_durable_world) = 8"
proof -
  obtain disk svc where c: "create_new sample_durable_lib 0 (\<lambda>_. IoDone) (Inr ()) 8 (\<lambda>_. None) = (disk, Inr svc)" "sample_durable_world = (disk, svc)"
    by (rule sample_durable_created)
  note h = create_new_holds [OF sample_durable_laws(1,3,2) c(1)]
  have k: "consistent (ds_snapshot svc) (ds_ledger svc) 8" using h(1,4) by (simp add: durable_holds_def)
  then have "sn_generation (ds_snapshot svc) = 0" "sn_last_commit (ds_snapshot svc) = None"
    using consistent_bounds(1) [OF k] h(3) by (auto simp: consistent_def)
  then show "ds_snapshot (snd sample_durable_world) = \<lparr>sn_generation = 0, sn_entries = [], sn_last_commit = None\<rparr>"
    unfolding c(2) using h(2) by (cases "ds_snapshot svc") simp
  show "ds_ledger (snd sample_durable_world) = []" "\<not> ds_unresolved (snd sample_durable_world)" "ds_journal_sequence (snd sample_durable_world) = 0"
    "ds_journal_bytes (snd sample_durable_world) = 4" "ds_journal_limit (snd sample_durable_world) = MAX_FILE_BYTES"
    "ds_max_retained_requests (snd sample_durable_world) = 8"
    unfolding c(2) using h by (auto simp: durable_holds_def)
qed

lemma sample_durable_fits: "mutation_fits sample_durable_lib 32 (snd sample_durable_world) sample_durable_binding (Some [9, 9])"
proof -
  let ?m = "planned_marker sample_durable_lib (snd sample_durable_world) sample_durable_binding"
  note s = sample_durable_state
  have ok: "marker_ok ?m"
    using sample_durable_holds(2) by (intro planned_marker_ok [OF sample_durable_laws(3)]) (auto simp: mutation_ready_def s)
  have key: "cm_key ?m = RequestKey ''alice'' ''prod'' ''req-1''" by (simp add: planned_marker_def sample_durable_binding_def)
  obtain e where e: "encode_marker ?m = Inr e" using encode_marker_ok [OF ok] by blast
  have le: "length e = 102" using length_encode_marker [OF e ok] by (simp add: key)
  obtain p q where pq: "encode_string_checked ''prod'' = Inr p" "encode_string_checked ''secret/app'' = Inr q"
    using encode_string_checked_ok [of "''prod''"] encode_string_checked_ok [of "''secret/app''"] by auto
  have "encode_entry ((''prod'', ''secret/app''), [9, 9]) = Inr (p @ q @ write_u32 2 @ [9, 9])"
    by (simp add: encode_entry_def pq write_bytes_def) (simp add: numeral_2_eq_2)
  then obtain x where x: "encode_entry ((''prod'', ''secret/app''), [9, 9]) = Inr x" "length x = 28"
    using length_encode_string [OF pq(1)] length_encode_string [OF pq(2)] by simp
  have me: "mutated_entries sample_durable_binding (Some [9, 9]) [] = [((''prod'', ''secret/app''), [9, 9])]"
    by (simp add: mutated_entries_def sample_durable_binding_def storage_key_def)
  have sn: "encode_snapshot (planned_snapshot sample_durable_lib (snd sample_durable_world) sample_durable_binding (Some [9, 9])) =
      Inr (SNAPSHOT_PLAINTEXT_MAGIC @ write_u64 1 @ (1 # e) @ write_u32 1 @ x)"
    by (simp add: encode_snapshot_def planned_snapshot_def encode_last_commit_def e s me x)
  have "bd_key sample_durable_binding = cm_key ?m" by (simp add: planned_marker_def)
  then obtain y where y: "encode_ledger_entry (bd_key sample_durable_binding, record_of_marker ?m) = Inr y" "length y = 102"
    using e le by (simp add: encode_ledger_entry_def encode_marker_def record_of_marker_def)
  have lg: "encode_ledger (planned_ledger sample_durable_lib (snd sample_durable_world) sample_durable_binding) =
      Inr (LEDGER_PLAINTEXT_MAGIC @ write_u32 1 @ y)"
    by (simp add: encode_ledger_def planned_ledger_def s y)
  show ?thesis
    unfolding mutation_fits_def sn lg e
    by (simp add: s MAX_RECORDS_def MAX_FILE_BYTES_def le x(2) y(2) SNAPSHOT_PLAINTEXT_MAGIC_def LEDGER_PLAINTEXT_MAGIC_def)
qed

theorem durable_crash_atomic_witness:
  "durable_holds sample_durable_lib [] [] (recovery_start []) sample_durable_world \<and>
   mutation_ready sample_durable_lib [] (recovery_start []) (snd sample_durable_world) sample_durable_binding (Some [9, 9]) \<and>
   (\<exists>snap ledger status. recovers_to sample_durable_lib 6 (ds_max_retained_requests (snd sample_durable_world)) (fst (fst sample_crash)) snap ledger
      (cm_recovery_reference (planned_marker sample_durable_lib (snd sample_durable_world) sample_durable_binding)) status)"
  using durable_crash_atomic [OF sample_durable_laws(1,3,2) sample_durable_laws(4) sample_durable_laws(4) sample_crash_pairs(3)
      sample_durable_holds(2) sample_crash_pairs(1), of 6] sample_durable_holds
  by blast

theorem retry_applies_once_witness:
  "\<exists>svc2. snd sample_reopened = Inr svc2 \<and>
    (\<forall>w3 out. execute sample_durable_lib 9 (\<lambda>_. IoDone) (Inr ()) NoFailpoint sample_durable_binding (Some [9, 9]) (fst sample_reopened, svc2) = (w3, Inr out) \<longrightarrow>
      sn_entries (ds_snapshot (snd w3)) = mutated_entries sample_durable_binding (Some [9, 9]) (sn_entries (ds_snapshot (snd sample_durable_world))))"
  using retry_applies_once [OF sample_durable_laws(1,3,2) sample_durable_laws(4) sample_durable_laws(4) sample_crash_pairs(3)
      sample_durable_holds(2) sample_crash_pairs(1,2)]
  by blast



theorem execute_commits_witness:
  "\<exists>w'. execute sample_durable_lib 2 (\<lambda>_. IoDone) (Inr ()) NoFailpoint sample_durable_binding (Some [9, 9]) (fst sample_durable_world, snd sample_durable_world) =
    (w', Inr (Committed 1 (cm_recovery_reference (planned_marker sample_durable_lib (snd sample_durable_world) sample_durable_binding))))"
  using execute_commits [OF sample_durable_laws(1,3,2) _ sample_crash_pairs(3) sample_durable_holds(2) sample_durable_fits, of 2] sample_durable_laws(4)
  by (simp add: sample_durable_state)

theorem durable_run_reopens_witness:
  "durable_run sample_durable_lib sample_durable_world \<and>
   (\<exists>disk svc. reopen sample_durable_lib 3 (\<lambda>_. IoDone) (Inr ()) (ds_max_retained_requests (snd sample_durable_world)) (fst sample_durable_world) =
      (disk, Inr svc) \<and> ds_snapshot svc = ds_snapshot (snd sample_durable_world))"
  using durable_run_reopens [of sample_durable_lib "fst sample_durable_world" "snd sample_durable_world" 32 3] sample_durable_laws sample_durable_holds(3)
  by auto

theorem compaction_transparent_witness:
  "\<exists>disk svc. reopen sample_durable_lib 5 (\<lambda>_. IoDone) (Inr ()) (ds_max_retained_requests (snd sample_durable_world))
      (fst (fst (durable_compact sample_durable_lib 2 (IoFailed 1) (Inr ()) sample_durable_world))) = (disk, Inr svc) \<and>
    ds_ledger svc = ds_ledger (snd sample_durable_world)"
proof -
  let ?r = "durable_compact sample_durable_lib 2 (IoFailed 1) (Inr ()) sample_durable_world"
  have x: "durable_compact sample_durable_lib 2 (IoFailed 1) (Inr ()) (fst sample_durable_world, snd sample_durable_world) =
     ((fst (fst ?r), snd (fst ?r)), snd ?r)" by simp
  show ?thesis
    using compaction_transparent [OF sample_durable_laws(1,3,2) sample_durable_laws(4) sample_crash_pairs(3) x, of 5] by blast
qed

lemma sample_export: "\<exists>backup. export_backup sample_durable_lib 2 (Inr ()) (snd sample_durable_world) = Inr backup"
proof -
  note s = sample_durable_state and l = sample_durable_laws
  have v: "validate_committed_state (ds_snapshot (snd sample_durable_world)) 0 [] = Inr ()"
    by (simp add: s validate_committed_state_def validate_ledger_generation_def)
  have es: "encode_snapshot (ds_snapshot (snd sample_durable_world)) = Inr (SNAPSHOT_PLAINTEXT_MAGIC @ write_u64 0 @ [0] @ write_u32 0)"
    and el: "encode_ledger [] = Inr (LEDGER_PLAINTEXT_MAGIC @ write_u32 0)"
    by (simp_all add: s encode_snapshot_def encode_last_commit_def encode_ledger_def)
  obtain sb where sb: "sealed_snapshot sample_durable_lib 2 (ds_snapshot (snd sample_durable_world)) = Inr sb" "length sb \<le> MAX_FILE_BYTES"
    by (rule sealed_snapshot_available [OF l(2,3,4) es]) (simp add: MAX_FILE_BYTES_def SNAPSHOT_PLAINTEXT_MAGIC_def)
  obtain lb where lb: "sealed_ledger sample_durable_lib 3 0 [] = Inr lb" "length lb \<le> MAX_FILE_BYTES"
    by (rule sealed_ledger_available [OF l(2,3,4) el]) (simp add: MAX_FILE_BYTES_def LEDGER_PLAINTEXT_MAGIC_def)
  obtain cp where cp: "checkpoint_marker_of sample_durable_lib (ds_snapshot (snd sample_durable_world)) [] = Inr cp"
    "cp_last_commit cp = None" "length (cp_ledger_digest cp) = 32"
    using v el l(3) by (simp add: checkpoint_marker_of_def s)
  have ev: "encode_journal_event (Checkpoint cp) = Inr (4 # write_u64 (cp_generation cp) @ write_u64 (cp_retained_requests cp) @ [0] @ cp_ledger_digest cp)"
    by (simp add: encode_journal_event_def cp(2) encode_last_commit_def)
  obtain r where r: "sealed_journal_record sample_durable_lib 4 1 (Checkpoint cp) = Inr r"
      "length r = length (4 # write_u64 (cp_generation cp) @ write_u64 (cp_retained_requests cp) @ [0] @ cp_ledger_digest cp) + 32 + 48"
    by (rule sealed_record_available [OF l(2,3,4) ev]) (simp add: MAX_FILE_BYTES_def cp(3))
  have "length sb < 2 ^ 32" "length lb < 2 ^ 32" using sb(2) lb(2) by (simp_all add: MAX_FILE_BYTES_def)
  moreover have "length sb + length lb \<le> 2 * MAX_FILE_BYTES" using sb(2) lb(2) by simp
  ultimately show ?thesis
    using v sb lb cp(1) r cp(3)
    by (simp add: export_backup_def s checkpoint_journal_def encode_backup_def write_bytes_def Let_def MAX_FILE_BYTES_def MAX_BACKUP_BYTES_def BACKUP_MAGIC_def)
qed

theorem backup_restores_witness:
  "\<exists>backup disk' svc'. export_backup sample_durable_lib 2 (Inr ()) (snd sample_durable_world) = Inr backup \<and>
    fst (restore_backup sample_durable_lib (\<lambda>_. IoDone) (Inr ()) backup False (fst sample_durable_world, snd sample_durable_world)) = (disk', svc') \<and>
    ds_snapshot svc' = ds_snapshot (snd sample_durable_world)"
proof -
  obtain backup where b: "export_backup sample_durable_lib 2 (Inr ()) (snd sample_durable_world) = Inr backup" using sample_export by blast
  have l: "length (ds_ledger (snd sample_durable_world)) \<le> ds_max_retained_requests (snd sample_durable_world)" by (simp add: sample_durable_state)
  show ?thesis
    using backup_restores [OF sample_durable_laws(1,3) sample_crash_pairs(3) b sample_crash_pairs(3) l, of False] b by auto
qed

end
