(* ===== verification/Audit_Stream.thy ===== *)
theory Audit_Stream
  imports Auth_Base
begin

text \<open>
  The authenticated audit stream of the server: the record chain of \<^verbatim>\<open>audit_event\<close> and
  \<^verbatim>\<open>verify_audit_from\<close> in \<^verbatim>\<open>crates/heptabao-server/src/service.rs\<close>, and the
  rotation of its file into archived segments in \<^verbatim>\<open>audit_rotation.rs\<close>.

  The audit directory is the record \<open>audit_files\<close>: the active file, the signed manifest, the
  staging file of the manifest and the archived segments. Every write takes the outcome of its
  system calls as an argument. \<open>IoFailed k\<close> is an error of the operating system or the end of
  the process: a file that was being created is missing for \<open>k = 0\<close> and has its first
  \<open>k - 1\<close> bytes otherwise; a file that was being appended to has got \<open>k\<close> bytes; a
  truncation, a removal or a rename happened unless \<open>k = 0\<close>, and only its sync failed.
  Permissions and the identity of a file are such outcomes too. The serializers of
  \<^verbatim>\<open>serde_json\<close> for the structures of this component are parameters.
\<close>

section \<open>Data\<close>

record audit_unsigned =
  au_schema :: nat
  au_sequence :: nat
  au_previous :: string
  au_time :: nat
  au_kind :: string
  au_path_digest :: string
  au_status :: "nat option"

record audit_record =
  ad_event :: audit_unsigned
  ad_mac :: string

record frontier =
  fr_sequence :: nat
  fr_mac :: "byte list"

record segment =
  sg_id :: nat
  sg_length :: nat
  sg_digest :: "byte list"
  sg_start :: frontier
  sg_end :: frontier

record manifest =
  mf_schema :: nat
  mf_generation :: nat
  mf_base :: frontier
  mf_segments :: "segment list"
  mf_pending :: "segment option"
  mf_garbage :: "segment list"

record audit_lib = auth_lib +
  event_to_vec :: "audit_unsigned \<Rightarrow> byte list option"
  record_to_vec :: "audit_record \<Rightarrow> byte list option"
  record_from_slice :: "byte list \<Rightarrow> audit_record option"
  manifest_to_vec :: "manifest \<Rightarrow> byte list option"
  signed_to_vec :: "manifest \<times> string \<Rightarrow> byte list option"
  signed_from_slice :: "byte list \<Rightarrow> (manifest \<times> string) option"

record audit_config =
  ac_segment_bytes :: nat
  ac_retained_segments :: nat

record audit_rotation =
  at_config :: audit_config
  at_manifest :: manifest
  at_manifest_exists :: bool

record audit_files =
  af_active :: "byte list"
  af_manifest :: "byte list option"
  af_staging :: "byte list option"
  af_segments :: "(nat, byte list) bmap"

type_synonym audit_world = "audit_files \<times> audit_rotation"

type_synonym io_trace = "nat list \<Rightarrow> io_result"

abbreviation sub_io :: "nat \<Rightarrow> io_trace \<Rightarrow> io_trace" where
  "sub_io k io \<equiv> (\<lambda>p. io (k # p))"

definition MAX_SEGMENT_BYTES :: nat where
  "MAX_SEGMENT_BYTES = 32 * 1024 * 1024"

definition MAX_AUDIT_BYTES :: nat where
  "MAX_AUDIT_BYTES = 32 * 1024 * 1024"

definition MAX_MANIFEST_BYTES :: nat where
  "MAX_MANIFEST_BYTES = 128 * 1024"

definition STAGING_MAGIC :: "byte list" where
  "STAGING_MAGIC = bytes_of_string ''heptabao-audit-manifest-staging-v1'' @ [10]"

definition frontier_default :: frontier where
  "frontier_default = \<lparr>fr_sequence = 0, fr_mac = replicate 32 0\<rparr>"

definition manifest_empty :: manifest where
  "manifest_empty = \<lparr>mf_schema = 1, mf_generation = 0, mf_base = frontier_default, mf_segments = [],
     mf_pending = None, mf_garbage = []\<rparr>"

definition audit_config_default :: audit_config where
  "audit_config_default = \<lparr>ac_segment_bytes = MAX_SEGMENT_BYTES, ac_retained_segments = 8\<rparr>"

definition audit_config_validate :: "audit_config \<Rightarrow> string + audit_config" where
  "audit_config_validate config =
     (if \<not> (4096 \<le> ac_segment_bytes config \<and> ac_segment_bytes config \<le> MAX_SEGMENT_BYTES)
         \<or> \<not> (1 \<le> ac_retained_segments config \<and> ac_retained_segments config \<le> 64)
      then Inl ''invalid audit rotation/retention bounds'' else Inr config)"

section \<open>The chain of records\<close>

primrec verify_records ::
  "'x audit_lib_scheme \<Rightarrow> byte list \<Rightarrow> byte list list \<Rightarrow> frontier \<Rightarrow> string + frontier" where
  "verify_records lib key [] fr = Inr fr"
| "verify_records lib key (line # lines) fr =
     rbind (ok_or (record_from_slice lib line) ''unsupported or corrupt authenticated audit format'') (\<lambda>record.
     let event = ad_event record in
     if au_schema event \<noteq> 2 \<or> Some (au_sequence event) \<noteq> checked_add64 (fr_sequence fr) 1
        \<or> au_previous event \<noteq> base64_encode lib (fr_mac fr)
     then Inl ''audit chain is inconsistent''
     else
       rbind (ok_or (base64_decode lib (ad_mac record)) ''invalid audit authenticator'') (\<lambda>tag.
       if length tag \<noteq> 32 then Inl ''invalid audit authenticator length''
       else
         rbind (ok_or (event_to_vec lib event) ''invalid audit payload'') (\<lambda>payload.
         if hmac_sign lib ''SHA256'' key payload \<noteq> tag then Inl ''audit authentication failed''
         else verify_records lib key lines \<lparr>fr_sequence = au_sequence event, fr_mac = tag\<rparr>)))"

definition verify_audit_from ::
  "'x audit_lib_scheme \<Rightarrow> byte list \<Rightarrow> byte list \<Rightarrow> frontier \<Rightarrow> string + frontier" where
  "verify_audit_from lib key bytes fr =
     (if MAX_AUDIT_BYTES < length bytes then Inl ''audit capacity exceeded''
      else if bytes \<noteq> [] \<and> \<not> ends_with bytes [10]
      then Inl ''audit is truncated or oversized; preserve evidence for recovery''
      else if contains_sub [10, 10] bytes \<or> starts_with bytes [10] then Inl ''audit contains empty records''
      else verify_records lib key (takeWhile (\<lambda>line. line \<noteq> []) (split_on 10 bytes)) fr)"

section \<open>The signed manifest\<close>

definition manifest_tag :: "'x audit_lib_scheme \<Rightarrow> byte list \<Rightarrow> byte list \<Rightarrow> byte list" where
  "manifest_tag lib key bytes =
     hmac_sign lib ''SHA256'' key (bytes_of_string ''heptabao.audit.rotation.manifest.v1'' @ [0] @ bytes)"

definition audit_read_bounded :: "nat \<Rightarrow> byte list \<Rightarrow> string + byte list" where
  "audit_read_bounded maximum bytes = (if maximum < length bytes then Inl ''audit file exceeds bound'' else Inr bytes)"

definition decode_manifest :: "'x audit_lib_scheme \<Rightarrow> byte list \<Rightarrow> byte list \<Rightarrow> string + manifest" where
  "decode_manifest lib key file =
     rbind (audit_read_bounded (MAX_MANIFEST_BYTES + length STAGING_MAGIC) file) (\<lambda>bytes.
     rbind (ok_or (strip_prefix STAGING_MAGIC bytes) ''invalid audit manifest framing'') (\<lambda>json.
     rbind (ok_or (signed_from_slice lib json) ''invalid audit manifest'') (\<lambda>(manifest, mac).
     rbind (ok_or (manifest_to_vec lib manifest) ''invalid audit manifest'') (\<lambda>payload.
     rbind (ok_or (base64_decode lib mac) ''invalid audit manifest tag'') (\<lambda>tag.
     if manifest_tag lib key payload \<noteq> tag then Inl ''audit manifest authentication failed''
     else Inr manifest)))))"

text \<open>Steps on the two halves of the state that cannot fail, and system calls that can.\<close>

definition on_files :: "(audit_files \<Rightarrow> audit_files) \<Rightarrow> audit_world \<Rightarrow> audit_world" where
  "on_files change w = (change (fst w), snd w)"

definition sys_call :: "io_result \<Rightarrow> (audit_files \<Rightarrow> audit_files) \<Rightarrow> audit_world \<Rightarrow> audit_world \<times> (string + unit)" where
  "sys_call io change w =
     (case io of
        IoDone \<Rightarrow> (on_files change w, Inr ())
      | IoFailed k \<Rightarrow> (if k = 0 then w else on_files change w, Inl ''audit input/output error''))"

definition create_file ::
  "io_result \<Rightarrow> (byte list \<Rightarrow> audit_files \<Rightarrow> audit_files) \<Rightarrow> byte list \<Rightarrow> audit_world \<Rightarrow> audit_world \<times> (string + unit)" where
  "create_file io put bytes w =
     (case io of
        IoDone \<Rightarrow> (on_files (put bytes) w, Inr ())
      | IoFailed k \<Rightarrow> (if k = 0 then w else on_files (put (take (k - 1) bytes)) w, Inl ''audit input/output error''))"

definition discard_staging :: "io_trace \<Rightarrow> audit_world \<Rightarrow> audit_world \<times> (string + unit)" where
  "discard_staging io w =
     (case af_staging (fst w) of
        None \<Rightarrow> (w, Inr ())
      | Some file \<Rightarrow>
          sbind (w, audit_read_bounded (MAX_MANIFEST_BYTES + length STAGING_MAGIC) file) (\<lambda>w bytes.
          let prefix_length = min (length bytes) (length STAGING_MAGIC) in
          if take prefix_length bytes \<noteq> take prefix_length STAGING_MAGIC
          then (w, Inl ''unrecognized file occupies audit staging path'')
          else sys_call (io [0]) (\<lambda>f. f\<lparr>af_staging := None\<rparr>) w))"

definition audit_publish ::
  "'x audit_lib_scheme \<Rightarrow> io_trace \<Rightarrow> byte list \<Rightarrow> manifest \<Rightarrow> audit_world \<Rightarrow> audit_world \<times> (string + unit)" where
  "audit_publish lib io key manifest w =
     sbind (w,
       case af_manifest (fst w) of
         Some file \<Rightarrow>
           if \<not> at_manifest_exists (snd w) then Inl ''audit manifest changed outside its writer''
           else rbind (decode_manifest lib key file) (\<lambda>current.
             if current \<noteq> at_manifest (snd w) then Inl ''audit manifest changed outside its writer'' else Inr ())
       | None \<Rightarrow> if at_manifest_exists (snd w) then Inl ''audit input/output error'' else Inr ()) (\<lambda>w _.
     sbind (discard_staging (sub_io 0 io) w) (\<lambda>w _.
     sbind (w,
       rbind (ok_or (manifest_to_vec lib manifest) ''invalid audit manifest'') (\<lambda>payload.
       rbind (ok_or (signed_to_vec lib (manifest, base64_encode lib (manifest_tag lib key payload))) ''invalid audit manifest'') (\<lambda>bytes.
       if MAX_MANIFEST_BYTES < length bytes then Inl ''audit manifest exceeds bound'' else Inr bytes))) (\<lambda>w bytes.
     sbind (create_file (io [1]) (\<lambda>b f. f\<lparr>af_staging := Some b\<rparr>) (STAGING_MAGIC @ bytes) w) (\<lambda>w _.
     sbind (sys_call (io [2]) (\<lambda>f. f\<lparr>af_manifest := af_staging f, af_staging := None\<rparr>) w) (\<lambda>w _.
     ((fst w, (snd w)\<lparr>at_manifest := manifest, at_manifest_exists := True\<rparr>), Inr ()))))))"

section \<open>Segments\<close>

definition audit_sha256 :: "'x audit_lib_scheme \<Rightarrow> byte list \<Rightarrow> byte list" where
  "audit_sha256 lib bytes = sha_digest lib ''sha2-256'' bytes"

definition active_start :: "manifest \<Rightarrow> frontier" where
  "active_start m = (if mf_segments m = [] then mf_base m else sg_end (last (mf_segments m)))"

definition verify_segment :: "'x audit_lib_scheme \<Rightarrow> byte list \<Rightarrow> audit_files \<Rightarrow> segment \<Rightarrow> string + unit" where
  "verify_segment lib key files sg =
     rbind (ok_or (map_of (af_segments files) (sg_id sg)) ''audit input/output error'') (\<lambda>file.
     rbind (audit_read_bounded MAX_SEGMENT_BYTES file) (\<lambda>bytes.
     if length bytes \<noteq> sg_length sg \<or> audit_sha256 lib bytes \<noteq> sg_digest sg
     then Inl ''audit archive content does not match authenticated manifest''
     else
       rbind (verify_audit_from lib key bytes (sg_start sg)) (\<lambda>fr.
       if fr \<noteq> sg_end sg then Inl ''audit archive frontier mismatch'' else Inr ())))"

primrec verify_segments ::
  "'x audit_lib_scheme \<Rightarrow> byte list \<Rightarrow> audit_files \<Rightarrow> nat \<Rightarrow> segment list \<Rightarrow> frontier \<Rightarrow> nat \<Rightarrow> string + nat" where
  "verify_segments lib key files generation [] fr i = Inr i"
| "verify_segments lib key files generation (sg # sgs) fr i =
     (if sg_id sg \<le> i \<or> generation < sg_id sg \<or> sg_start sg \<noteq> fr
         \<or> fr_sequence (sg_end sg) \<le> fr_sequence (sg_start sg) \<or> sg_length sg = 0 \<or> MAX_SEGMENT_BYTES < sg_length sg
      then Inl ''inconsistent audit segment chain''
      else
        rbind (verify_segment lib key files sg) (\<lambda>_.
        verify_segments lib key files generation sgs (sg_end sg) (sg_id sg)))"

definition verify_manifest :: "'x audit_lib_scheme \<Rightarrow> byte list \<Rightarrow> audit_world \<Rightarrow> string + unit" where
  "verify_manifest lib key w =
     (let m = at_manifest (snd w) in
      if mf_schema m \<noteq> 1 \<or> 64 < length (mf_segments m) \<or> 64 < length (mf_garbage m)
         \<or> (mf_segments m = []) \<noteq> (mf_generation m = 0)
         \<or> is_some_and (mf_pending m) (\<lambda>p. mf_segments m = [] \<or> last (mf_segments m) \<noteq> p)
      then Inl ''invalid audit manifest structure''
      else
        rbind (verify_segments lib key (fst w) (mf_generation m) (mf_segments m) (mf_base m) 0) (\<lambda>i.
        if mf_segments m \<noteq> [] \<and> i \<noteq> mf_generation m then Inl ''missing latest audit segment''
        else if list_ex (\<lambda>sg. (if mf_segments m = [] then 0 else sg_id (hd (mf_segments m))) \<le> sg_id sg
                  \<or> fr_sequence (mf_base m) < fr_sequence (sg_end sg)) (mf_garbage m)
        then Inl ''invalid obsolete audit segment'' else Inr ()))"

text \<open>The loop of \<^verbatim>\<open>collect_garbage\<close>: an obsolete segment is removed once it has been verified.\<close>

primrec remove_obsolete ::
  "'x audit_lib_scheme \<Rightarrow> io_trace \<Rightarrow> byte list \<Rightarrow> nat \<Rightarrow> segment list \<Rightarrow> audit_world \<Rightarrow> audit_world \<times> (string + unit)" where
  "remove_obsolete lib io key i [] w = (w, Inr ())"
| "remove_obsolete lib io key i (sg # sgs) w =
     (case map_of (af_segments (fst w)) (sg_id sg) of
        None \<Rightarrow> remove_obsolete lib io key (Suc i) sgs w
      | Some _ \<Rightarrow>
          sbind (w, verify_segment lib key (fst w) sg) (\<lambda>w _.
          sbind (sys_call (io [i]) (\<lambda>f. f\<lparr>af_segments := bremove (sg_id sg) (af_segments f)\<rparr>) w) (\<lambda>w _.
          remove_obsolete lib io key (Suc i) sgs w)))"

definition collect_garbage ::
  "'x audit_lib_scheme \<Rightarrow> io_trace \<Rightarrow> byte list \<Rightarrow> audit_world \<Rightarrow> audit_world \<times> (string + unit)" where
  "collect_garbage lib io key w =
     (if mf_pending (at_manifest (snd w)) \<noteq> None \<or> mf_garbage (at_manifest (snd w)) = [] then (w, Inr ())
      else
        sbind (remove_obsolete lib (sub_io 0 io) key 0 (mf_garbage (at_manifest (snd w))) w) (\<lambda>w _.
        audit_publish lib (sub_io 1 io) key ((at_manifest (snd w))\<lparr>mf_garbage := []\<rparr>) w))"

section \<open>Rotation\<close>

text \<open>The manifest once the new segment is in: the oldest segments beyond the retained ones become garbage.\<close>

function retire_segments :: "nat \<Rightarrow> manifest \<Rightarrow> manifest" where
  "retire_segments retained m =
     (if length (mf_segments m) \<le> retained then m
      else
        let old = hd (mf_segments m) in
        retire_segments retained (m\<lparr>mf_segments := tl (mf_segments m), mf_base := sg_end old, mf_garbage := mf_garbage m @ [old]\<rparr>))"
  by pat_completeness auto
termination
  by (relation "measure (\<lambda>(retained, m). length (mf_segments m))") auto

declare retire_segments.simps [simp del]

text \<open>The copy of the active file, which resumes one that an interrupted rotation left behind.\<close>

definition archive_segment ::
  "io_trace \<Rightarrow> nat \<Rightarrow> byte list \<Rightarrow> audit_world \<Rightarrow> audit_world \<times> (string + unit)" where
  "archive_segment io i bytes w =
     (case map_of (af_segments (fst w)) i of
        None \<Rightarrow> create_file (io [0]) (\<lambda>b f. f\<lparr>af_segments := binsert i b (af_segments f)\<rparr>) bytes w
      | Some file \<Rightarrow>
          sbind (w, audit_read_bounded MAX_SEGMENT_BYTES file) (\<lambda>w pre.
          if \<not> starts_with bytes pre then (w, Inl ''unrecognized audit archive occupant'')
          else
            case io [1] of
              IoDone \<Rightarrow> (on_files (\<lambda>f. f\<lparr>af_segments := binsert i bytes (af_segments f)\<rparr>) w, Inr ())
            | IoFailed k \<Rightarrow>
                (on_files (\<lambda>f. f\<lparr>af_segments := binsert i (pre @ take k (drop (length pre) bytes)) (af_segments f)\<rparr>) w,
                 Inl ''audit input/output error'')))"

definition rotate ::
  "'x audit_lib_scheme \<Rightarrow> io_trace \<Rightarrow> byte list \<Rightarrow> frontier \<Rightarrow> audit_world \<Rightarrow> audit_world \<times> (string + unit)" where
  "rotate lib io key fr w =
     sbind (sys_call (io [0]) id w) (\<lambda>w _.
     sbind (collect_garbage lib (sub_io 1 io) key w) (\<lambda>w _.
     let start = active_start (at_manifest (snd w)) in
     sbind (w,
       rbind (verify_audit_from lib key (af_active (fst w)) start) (\<lambda>observed.
       if observed \<noteq> fr \<or> fr_sequence fr \<le> fr_sequence start
       then Inl ''audit rotation frontier disagrees with active chain''
       else
         rbind (audit_read_bounded MAX_SEGMENT_BYTES (af_active (fst w))) (\<lambda>bytes.
         rbind (ok_or (checked_add64 (mf_generation (at_manifest (snd w))) 1) ''audit generation exhausted'') (\<lambda>i.
         Inr (bytes, \<lparr>sg_id = i, sg_length = length bytes, sg_digest = audit_sha256 lib bytes, sg_start = start, sg_end = fr\<rparr>)))))
       (\<lambda>w (bytes, sg).
     sbind (archive_segment (sub_io 2 io) (sg_id sg) bytes w) (\<lambda>w _.
     let m = at_manifest (snd w);
         pending = retire_segments (ac_retained_segments (at_config (snd w)))
           (m\<lparr>mf_generation := sg_id sg, mf_segments := mf_segments m @ [sg], mf_pending := Some sg\<rparr>) in
     sbind (audit_publish lib (sub_io 3 io) key pending w) (\<lambda>w _.
     sbind (sys_call (io [4]) (\<lambda>f. f\<lparr>af_active := []\<rparr>) w) (\<lambda>w _.
     sbind (audit_publish lib (sub_io 5 io) key ((at_manifest (snd w))\<lparr>mf_pending := None\<rparr>) w) (\<lambda>w _.
     collect_garbage lib (sub_io 6 io) key w)))))))"

definition before_append ::
  "'x audit_lib_scheme \<Rightarrow> io_trace \<Rightarrow> byte list \<Rightarrow> nat \<Rightarrow> frontier \<Rightarrow> audit_world \<Rightarrow> audit_world \<times> (string + unit)" where
  "before_append lib io key added fr w =
     sbind (sys_call (io [0]) id w) (\<lambda>w _.
     let segment_bytes = ac_segment_bytes (at_config (snd w)) in
     if segment_bytes < added then (w, Inl ''single audit record exceeds segment capacity'')
     else if is_some_and (checked_add64 (length (af_active (fst w))) added) (\<lambda>n. n \<le> segment_bytes) then (w, Inr ())
     else rotate lib (sub_io 1 io) key fr w)"

section \<open>Recovery\<close>

definition verify_archive_inventory :: "audit_world \<Rightarrow> string + unit" where
  "verify_archive_inventory w =
     (let m = at_manifest (snd w) in
      rbind (ok_or (checked_add64 (mf_generation m) 1) ''audit generation exhausted'') (\<lambda>next.
      rbind (rcollect (\<lambda>(i, copied).
        if list_ex (\<lambda>sg. sg_id sg = i) (mf_segments m) then Inr ()
        else if i \<noteq> next then Inl ''unexplained audit archive generation''
        else
          rbind (audit_read_bounded MAX_SEGMENT_BYTES (af_active (fst w))) (\<lambda>bytes.
          rbind (audit_read_bounded MAX_SEGMENT_BYTES copied) (\<lambda>copied.
          if bytes = [] \<or> \<not> starts_with bytes copied then Inl ''unexplained audit archive content'' else Inr ())))
        (af_segments (fst w))) (\<lambda>_. Inr ())))"

text \<open>The completion of a rotation whose manifest was published before the active file was emptied.\<close>

definition complete_pending ::
  "'x audit_lib_scheme \<Rightarrow> io_trace \<Rightarrow> byte list \<Rightarrow> audit_world \<Rightarrow> audit_world \<times> (string + unit)" where
  "complete_pending lib io key w =
     (case mf_pending (at_manifest (snd w)) of
        None \<Rightarrow> (w, Inr ())
      | Some sg \<Rightarrow>
          sbind (w, audit_read_bounded MAX_SEGMENT_BYTES (af_active (fst w))) (\<lambda>w bytes.
          sbind (if bytes = [] then (w, Inr ())
                 else if length bytes \<noteq> sg_length sg \<or> audit_sha256 lib bytes \<noteq> sg_digest sg
                 then (w, Inl ''pending audit rotation does not match active file'')
                 else sys_call (io [0]) (\<lambda>f. f\<lparr>af_active := []\<rparr>) w) (\<lambda>w _.
          audit_publish lib (sub_io 1 io) key ((at_manifest (snd w))\<lparr>mf_pending := None\<rparr>) w)))"

definition audit_recover ::
  "'x audit_lib_scheme \<Rightarrow> io_trace \<Rightarrow> byte list \<Rightarrow> audit_world \<Rightarrow> audit_world \<times> (string + frontier)" where
  "audit_recover lib io key w =
     sbind (sys_call (io [0]) id w) (\<lambda>w _.
     sbind (case af_manifest (fst w) of
              None \<Rightarrow> (w, Inr ())
            | Some file \<Rightarrow>
                sbind (w, decode_manifest lib key file) (\<lambda>w m.
                ((fst w, (snd w)\<lparr>at_manifest := m, at_manifest_exists := True\<rparr>), Inr ()))) (\<lambda>w _.
     sbind (w, verify_manifest lib key w) (\<lambda>w _.
     sbind (discard_staging (sub_io 1 io) w) (\<lambda>w _.
     sbind (complete_pending lib (sub_io 2 io) key w) (\<lambda>w _.
     sbind (collect_garbage lib (sub_io 3 io) key w) (\<lambda>w _.
     sbind (w, verify_audit_from lib key (af_active (fst w)) (active_start (at_manifest (snd w)))) (\<lambda>w fr.
     sbind (w, verify_archive_inventory w) (\<lambda>w _.
     (w, Inr fr)))))))))"

definition audit_rotation_new :: "audit_config \<Rightarrow> audit_rotation" where
  "audit_rotation_new config = \<lparr>at_config = config, at_manifest = manifest_empty, at_manifest_exists = False\<rparr>"

section \<open>Events\<close>

text \<open>The part of the service that writes the audit stream.\<close>

record audit_log =
  al_world :: audit_world
  al_key :: "byte list"
  al_frontier :: frontier
  al_failed :: bool

definition encode_event ::
  "'x audit_lib_scheme \<Rightarrow> byte list \<Rightarrow> frontier \<Rightarrow> string \<Rightarrow> string \<Rightarrow> nat \<Rightarrow> nat option \<Rightarrow>
   string + byte list \<times> frontier" where
  "encode_event lib key fr kind fingerprint now status =
     rbind (ok_or (checked_add64 (fr_sequence fr) 1) ''audit sequence exhausted'') (\<lambda>sequence.
     let event = \<lparr>au_schema = 2, au_sequence = sequence, au_previous = base64_encode lib (fr_mac fr), au_time = now,
                  au_kind = kind, au_path_digest = fingerprint, au_status = status\<rparr> in
     rbind (ok_or (event_to_vec lib event) ''audit serialization failed'') (\<lambda>payload.
     let tag = hmac_sign lib ''SHA256'' key payload in
     rbind (ok_or (record_to_vec lib \<lparr>ad_event = event, ad_mac = base64_encode lib tag\<rparr>) ''audit serialization failed'') (\<lambda>bytes.
     Inr (bytes @ [10], \<lparr>fr_sequence = sequence, fr_mac = tag\<rparr>))))"

definition audit_event ::
  "'x audit_lib_scheme \<Rightarrow> io_trace \<Rightarrow> string \<Rightarrow> string \<Rightarrow> nat \<Rightarrow> nat option \<Rightarrow> audit_log \<Rightarrow> audit_log \<times> (string + unit)" where
  "audit_event lib io kind fingerprint now status al =
     (if al_failed al then (al, Inl ''audit requires offline recovery'')
      else
        sbind (al, encode_event lib (al_key al) (al_frontier al) kind fingerprint now status) (\<lambda>al (bytes, fr).
        case before_append lib (sub_io 0 io) (al_key al) (length bytes) (al_frontier al) (al_world al) of
          (w, Inl e) \<Rightarrow> (al\<lparr>al_world := w, al_failed := True\<rparr>, Inl e)
        | (w, Inr _) \<Rightarrow>
            (case io [1] of
               IoFailed k \<Rightarrow>
                 (al\<lparr>al_world := on_files (\<lambda>f. f\<lparr>af_active := af_active f @ take k bytes\<rparr>) w, al_failed := True\<rparr>,
                  Inl ''audit input/output error'')
             | IoDone \<Rightarrow>
                 (al\<lparr>al_world := on_files (\<lambda>f. f\<lparr>af_active := af_active f @ bytes\<rparr>) w, al_frontier := fr\<rparr>, Inr ()))))"

end
