(* ===== verification/Audit_Correct.thy ===== *)
theory Audit_Correct
  imports Audit_Stream
begin

text \<open>
  Correctness of the audit stream of theory \<open>Audit_Stream\<close>. The laws of the serializers and of the
  authenticator are \<open>audit_laws\<close>; \<open>manifest_shrinks\<close> says that a manifest without its
  pending segment or its garbage is not longer than the one with it. \<open>audit_image\<close> describes
  every directory an interrupted event can leave, \<open>audit_holds\<close> the states of a running
  writer. The main results are that an event extends the verified chain by one record, and that
  recovery after an interruption at any system call finds the chain with or without that record.
\<close>


section \<open>Lines\<close>

definition unlines :: "byte list list \<Rightarrow> byte list" where
  "unlines ls = concat (map (\<lambda>l. l @ [10]) ls)"

definition line_ok :: "byte list \<Rightarrow> bool" where
  "line_ok l \<longleftrightarrow> l \<noteq> [] \<and> 10 \<notin> set l"

lemma unlines_simps [simp]:
  "unlines [] = []" "unlines (l # ls) = l @ 10 # unlines ls" "unlines (ls @ ls') = unlines ls @ unlines ls'"
  by (simp_all add: unlines_def)

lemma split_unlines: "\<forall>l \<in> set ls. line_ok l \<Longrightarrow> split_on 10 (unlines ls) = ls @ [[]]"
  by (induction ls) (simp_all add: split_on_append_sep line_ok_def)

lemma takeWhile_lines: "\<forall>l \<in> set ls. line_ok l \<Longrightarrow> takeWhile (\<lambda>l. l \<noteq> []) (ls @ [[]]) = ls"
  by (induction ls) (simp_all add: line_ok_def)

lemma contains_sub_line:
  "10 \<notin> set l \<Longrightarrow> contains_sub [10, 10] (l @ 10 # s) \<longleftrightarrow> prefix [10] s \<or> contains_sub [10, 10] s"
  for l :: "byte list"
  by (induction l) (auto simp: Cons_prefix_Cons)

lemma unlines_head: "\<forall>l \<in> set ls. line_ok l \<Longrightarrow> \<not> prefix [10] (unlines ls)"
  by (cases ls; cases "hd ls") (auto simp: line_ok_def)

lemma unlines_no_empty: "\<forall>l \<in> set ls. line_ok l \<Longrightarrow> \<not> contains_sub [10, 10] (unlines ls)"
proof (induction ls)
  case (Cons l ls)
  then show ?case using unlines_head [of ls] by (simp add: contains_sub_line line_ok_def)
qed simp

lemma unlines_last: "ls \<noteq> [] \<Longrightarrow> suffix [10] (unlines ls)"
  by (induction ls rule: rev_induct) (simp_all add: suffix_def)

lemma verify_unlines:
  assumes "\<forall>l \<in> set ls. line_ok l" "length (unlines ls) \<le> MAX_AUDIT_BYTES"
  shows "verify_audit_from lib key (unlines ls) fr = verify_records lib key ls fr"
proof -
  have "unlines ls \<noteq> [] \<longrightarrow> suffix [10] (unlines ls)" using unlines_last [of ls] by (cases "ls = []") auto
  then show ?thesis
    using assms by (auto simp: verify_audit_from_def split_unlines takeWhile_lines unlines_no_empty unlines_head)
qed

lemma verify_torn:
  assumes "t \<noteq> []" "10 \<notin> set t"
  shows "\<exists>e. verify_audit_from lib key (bs @ t) fr = Inl e"
proof -
  obtain t' x where t: "t = t' @ [x]" using assms(1) by (cases t rule: rev_cases) auto
  then have "\<not> suffix [10] (bs @ t)" using assms(2) by (simp add: suffix_def)
  then show ?thesis using t by (auto simp: verify_audit_from_def)
qed

lemma verify_records_append:
  "verify_records lib key (xs @ ys) fr = rbind (verify_records lib key xs fr) (verify_records lib key ys)"
proof (induction xs arbitrary: fr)
  case (Cons x xs)
  then show ?case by (simp add: Let_def rbind_def ok_or_def split: option.splits sum.splits)
qed simp

section \<open>What the libraries promise\<close>

definition audit_laws :: "'x audit_lib_scheme \<Rightarrow> bool" where
  "audit_laws lib \<longleftrightarrow>
     (\<forall>b. base64_decode lib (base64_encode lib b) = Some b) \<and>
     (\<forall>key m. length (hmac_sign lib ''SHA256'' key m) = 32) \<and>
     (\<forall>r bytes. record_to_vec lib r = Some bytes \<longrightarrow> record_from_slice lib bytes = Some r \<and> line_ok bytes) \<and>
     (\<forall>x bytes. signed_to_vec lib x = Some bytes \<longrightarrow> signed_from_slice lib bytes = Some x)"

lemma audit_lawsD:
  assumes "audit_laws lib"
  shows "base64_decode lib (base64_encode lib b) = Some b" "length (hmac_sign lib ''SHA256'' key m) = 32"
    "record_to_vec lib r = Some bytes \<Longrightarrow> record_from_slice lib bytes = Some r"
    "record_to_vec lib r = Some bytes \<Longrightarrow> line_ok bytes"
    "signed_to_vec lib x = Some bytes \<Longrightarrow> signed_from_slice lib bytes = Some x"
  using assms unfolding audit_laws_def by blast+

lemma encode_event_Inr:
  assumes "audit_laws lib" "encode_event lib key fr kind fp now status = Inr (bytes, fr')"
  obtains l where "bytes = l @ [10]" "line_ok l" "verify_records lib key [l] fr = Inr fr'" "fr_sequence fr' = Suc (fr_sequence fr)"
proof -
  note laws = audit_lawsD [OF assms(1)]
  show ?thesis
    using assms(2) that
    by (auto simp: encode_event_def Let_def ok_or_iff checked_add64_def laws split: if_splits)
qed

section \<open>The manifest\<close>

definition encodable :: "'x audit_lib_scheme \<Rightarrow> byte list \<Rightarrow> manifest \<Rightarrow> bool" where
  "encodable lib key m \<longleftrightarrow>
     (\<exists>payload bytes. manifest_to_vec lib m = Some payload \<and>
        signed_to_vec lib (m, base64_encode lib (manifest_tag lib key payload)) = Some bytes \<and> length bytes \<le> MAX_MANIFEST_BYTES)"

definition manifest_on :: "'x audit_lib_scheme \<Rightarrow> byte list \<Rightarrow> audit_files \<Rightarrow> manifest \<Rightarrow> bool" where
  "manifest_on lib key files m \<longleftrightarrow>
     (case af_manifest files of None \<Rightarrow> m = manifest_empty | Some file \<Rightarrow> decode_manifest lib key file = Inr m)"

definition staging_ok :: "audit_files \<Rightarrow> bool" where
  "staging_ok files \<longleftrightarrow>
     (case af_staging files of
        None \<Rightarrow> True
      | Some b \<Rightarrow> length b \<le> MAX_MANIFEST_BYTES + length STAGING_MAGIC \<and> (prefix b STAGING_MAGIC \<or> prefix STAGING_MAGIC b))"

definition writer_ok :: "'x audit_lib_scheme \<Rightarrow> byte list \<Rightarrow> audit_world \<Rightarrow> bool" where
  "writer_ok lib key w \<longleftrightarrow>
     at_manifest_exists (snd w) = (af_manifest (fst w) \<noteq> None) \<and> manifest_on lib key (fst w) (at_manifest (snd w)) \<and> staging_ok (fst w)"

lemma prefix_take: "prefix b m \<longleftrightarrow> b = take (length b) m"
  by (metis append_eq_conv_conj prefix_def take_is_prefix)

lemma comparable_take: "prefix b m \<or> prefix m b \<longleftrightarrow> take (min (length b) (length m)) b = take (min (length b) (length m)) m"
proof (cases "length b \<le> length m")
  case True
  then have "prefix m b \<Longrightarrow> prefix b m" by (auto simp: prefix_def)
  then show ?thesis using True prefix_take [of b m] by (auto simp: min_def)
next
  case False
  then have "\<not> prefix b m" by (auto dest: prefix_length_le)
  then show ?thesis using False prefix_take [of m b] by (auto simp: min_def)
qed


lemma discard_staging_result:
  assumes "staging_ok (fst w)" "discard_staging io w = (w', r)"
  shows "snd w' = snd w" "fst w' = fst w \<or> fst w' = (fst w)\<lparr>af_staging := None\<rparr>" "r = Inr () \<Longrightarrow> af_staging (fst w') = None"
    "io [0] = IoDone \<Longrightarrow> r = Inr ()"
proof -
  have "snd w' = snd w \<and> (fst w' = fst w \<or> fst w' = (fst w)\<lparr>af_staging := None\<rparr>) \<and> (r = Inr () \<longrightarrow> af_staging (fst w') = None) \<and>
      (io [0] = IoDone \<longrightarrow> r = Inr ())"
  proof (cases "af_staging (fst w)")
    case None
    then show ?thesis using assms(2) by (auto simp: discard_staging_def)
  next
    case (Some b)
    then have "take (min (length b) (length STAGING_MAGIC)) b = take (min (length b) (length STAGING_MAGIC)) STAGING_MAGIC"
      "length b \<le> MAX_MANIFEST_BYTES + length STAGING_MAGIC"
      using assms(1) comparable_take [of b STAGING_MAGIC] by (auto simp: staging_ok_def)
    then show ?thesis using assms(2) Some
      by (auto simp: discard_staging_def audit_read_bounded_def Let_def sys_call_def on_files_def split: io_result.splits if_splits)
  qed
  then show "snd w' = snd w" "fst w' = fst w \<or> fst w' = (fst w)\<lparr>af_staging := None\<rparr>" "r = Inr () \<Longrightarrow> af_staging (fst w') = None"
    "io [0] = IoDone \<Longrightarrow> r = Inr ()" by auto
qed

definition same_data :: "audit_files \<Rightarrow> audit_files \<Rightarrow> bool" where
  "same_data f g \<longleftrightarrow> af_active f = af_active g \<and> af_segments f = af_segments g"

lemma decode_published:
  assumes "audit_laws lib" "manifest_to_vec lib m = Some payload"
    and "signed_to_vec lib (m, base64_encode lib (manifest_tag lib key payload)) = Some bytes" "length bytes \<le> MAX_MANIFEST_BYTES"
  shows "decode_manifest lib key (STAGING_MAGIC @ bytes) = Inr m"
  using assms by (simp add: decode_manifest_def audit_read_bounded_def audit_lawsD)

lemma staging_written:
  assumes "length bytes \<le> MAX_MANIFEST_BYTES"
  shows "staging_ok (f\<lparr>af_staging := Some (take n (STAGING_MAGIC @ bytes))\<rparr>)"
    "staging_ok (f\<lparr>af_staging := Some (STAGING_MAGIC @ bytes)\<rparr>)"
proof -
  have "prefix (take n (STAGING_MAGIC @ bytes)) STAGING_MAGIC \<or> prefix STAGING_MAGIC (take n (STAGING_MAGIC @ bytes))"
    by (cases "n \<le> length STAGING_MAGIC") (auto simp: take_is_prefix)
  then show "staging_ok (f\<lparr>af_staging := Some (take n (STAGING_MAGIC @ bytes))\<rparr>)"
    using assms by (auto simp: staging_ok_def)
  show "staging_ok (f\<lparr>af_staging := Some (STAGING_MAGIC @ bytes)\<rparr>)" using assms by (auto simp: staging_ok_def)
qed

lemma audit_publish_result:
  assumes laws: "audit_laws lib" and w: "writer_ok lib key w" and p: "audit_publish lib io key m w = (w', r)"
  shows "same_data (fst w') (fst w)" "staging_ok (fst w')"
    "manifest_on lib key (fst w') (at_manifest (snd w)) \<or> manifest_on lib key (fst w') m \<and> encodable lib key m"
    "r = Inr () \<Longrightarrow> writer_ok lib key w' \<and> snd w' = (snd w)\<lparr>at_manifest := m, at_manifest_exists := True\<rparr> \<and> af_staging (fst w') = None \<and> encodable lib key m"
    "(\<And>p. io p = IoDone) \<Longrightarrow> encodable lib key m \<Longrightarrow> r = Inr ()"
proof -
  let ?pre = "case af_manifest (fst w) of
         Some file \<Rightarrow>
           if \<not> at_manifest_exists (snd w) then Inl ''audit manifest changed outside its writer''
           else rbind (decode_manifest lib key file) (\<lambda>current.
             if current \<noteq> at_manifest (snd w) then Inl ''audit manifest changed outside its writer'' else Inr ())
       | None \<Rightarrow> if at_manifest_exists (snd w) then Inl ''audit input/output error'' else Inr ()"
  have pre: "?pre = Inr ()" using w by (auto simp: writer_ok_def manifest_on_def split: option.splits)
  obtain w1 r1 where d: "discard_staging (sub_io 0 io) w = (w1, r1)" by (cases "discard_staging (sub_io 0 io) w") auto
  have so: "staging_ok (fst w)" using w by (simp add: writer_ok_def)
  note dr = discard_staging_result [OF so d]
  have f1: "same_data (fst w1) (fst w)" "af_manifest (fst w1) = af_manifest (fst w)" "staging_ok (fst w1)"
    using dr(2) so by (auto simp: same_data_def staging_ok_def)
  have m1: "manifest_on lib key (fst w1) (at_manifest (snd w))" using w f1(2) by (simp add: writer_ok_def manifest_on_def)
  define enc where "enc = rbind (ok_or (manifest_to_vec lib m) ''invalid audit manifest'') (\<lambda>payload.
       rbind (ok_or (signed_to_vec lib (m, base64_encode lib (manifest_tag lib key payload))) ''invalid audit manifest'') (\<lambda>bytes.
       if MAX_MANIFEST_BYTES < length bytes then Inl ''audit manifest exceeds bound'' else Inr bytes))"
  have enc_ok: "length bytes \<le> MAX_MANIFEST_BYTES \<and> decode_manifest lib key (STAGING_MAGIC @ bytes) = Inr m \<and> encodable lib key m"
    if "enc = Inr bytes" for bytes
    using that decode_published [OF laws] by (auto simp: enc_def encodable_def ok_or_iff split: if_splits)
  have enc_ex: "encodable lib key m \<Longrightarrow> \<exists>bytes. enc = Inr bytes"
  proof -
    assume "encodable lib key m"
    then obtain payload bytes where "manifest_to_vec lib m = Some payload" "length bytes \<le> MAX_MANIFEST_BYTES"
      "signed_to_vec lib (m, base64_encode lib (manifest_tag lib key payload)) = Some bytes" by (auto simp: encodable_def)
    then have "enc = Inr bytes" by (simp add: enc_def)
    then show ?thesis by blast
  qed
  have u: "audit_publish lib io key m w =
      sbind (w1, r1) (\<lambda>w _. sbind (w, enc) (\<lambda>w bytes.
        sbind (create_file (io [1]) (\<lambda>b f. f\<lparr>af_staging := Some b\<rparr>) (STAGING_MAGIC @ bytes) w) (\<lambda>w _.
        sbind (sys_call (io [2]) (\<lambda>f. f\<lparr>af_manifest := af_staging f, af_staging := None\<rparr>) w) (\<lambda>w _.
        ((fst w, (snd w)\<lparr>at_manifest := m, at_manifest_exists := True\<rparr>), Inr ())))))"
    unfolding audit_publish_def pre enc_def sbind_simps d by (rule refl)
  have "same_data (fst w') (fst w) \<and> staging_ok (fst w') \<and>
    (manifest_on lib key (fst w') (at_manifest (snd w)) \<or> manifest_on lib key (fst w') m \<and> encodable lib key m) \<and>
    (r = Inr () \<longrightarrow> writer_ok lib key w' \<and> snd w' = (snd w)\<lparr>at_manifest := m, at_manifest_exists := True\<rparr> \<and> af_staging (fst w') = None \<and> encodable lib key m) \<and>
    ((\<forall>p. io p = IoDone) \<longrightarrow> encodable lib key m \<longrightarrow> r = Inr ())"
  proof (cases r1)
    case (Inl e)
    then have "w' = w1 \<and> r = Inl e" using p u by simp
    then show ?thesis using f1 m1 dr(4) Inl by auto
  next
    case (Inr u)
    note r1 = this
    show ?thesis
    proof (cases enc)
      case (Inl e)
      then have "w' = w1 \<and> r = Inl e" using p u r1 by simp
      then show ?thesis using f1 m1 enc_ex Inl by auto
    next
      case (Inr bytes)
      note e = enc_ok [OF Inr]
      have p': "sbind (create_file (io [1]) (\<lambda>b f. f\<lparr>af_staging := Some b\<rparr>) (STAGING_MAGIC @ bytes) w1) (\<lambda>w _.
          sbind (sys_call (io [2]) (\<lambda>f. f\<lparr>af_manifest := af_staging f, af_staging := None\<rparr>) w) (\<lambda>w _.
          ((fst w, (snd w)\<lparr>at_manifest := m, at_manifest_exists := True\<rparr>), Inr ()))) = (w', r)"
        using p u r1 Inr by simp
      show ?thesis
      proof (cases "io [1]")
        case (IoFailed k)
        have "staging_ok (fst w1 \<lparr>af_staging := Some (take (k - 1) (STAGING_MAGIC @ bytes))\<rparr>)"
          by (rule staging_written(1) [OF conjunct1 [OF e]])
        then show ?thesis using p' IoFailed f1 m1
          by (auto simp: create_file_def on_files_def same_data_def manifest_on_def simp del: take_append split: if_splits)
      next
        case IoDone
        then show ?thesis using p' f1 m1 e dr(1) staging_written(2) [of bytes]
          by (auto simp: create_file_def sys_call_def on_files_def same_data_def manifest_on_def writer_ok_def
              split: io_result.splits if_splits) (auto simp: staging_ok_def)
      qed
    qed
  qed
  then show "same_data (fst w') (fst w)" "staging_ok (fst w')"
    "manifest_on lib key (fst w') (at_manifest (snd w)) \<or> manifest_on lib key (fst w') m \<and> encodable lib key m"
    "r = Inr () \<Longrightarrow> writer_ok lib key w' \<and> snd w' = (snd w)\<lparr>at_manifest := m, at_manifest_exists := True\<rparr> \<and> af_staging (fst w') = None \<and> encodable lib key m"
    "(\<And>p. io p = IoDone) \<Longrightarrow> encodable lib key m \<Longrightarrow> r = Inr ()" by auto
qed


section \<open>The chain of segments\<close>

lemma verify_segments_append:
  "verify_segments lib key files g (xs @ ys) fr i =
     rbind (verify_segments lib key files g xs fr i) (verify_segments lib key files g ys (if xs = [] then fr else sg_end (last xs)))"
proof (induction xs arbitrary: fr i)
  case (Cons x xs)
  then show ?case by (cases "verify_segment lib key files x") (auto simp: rbind_def)
qed simp

lemma verify_segment_files:
  "map_of (af_segments f) (sg_id sg) = map_of (af_segments f') (sg_id sg) \<Longrightarrow> verify_segment lib key f sg = verify_segment lib key f' sg"
  by (simp add: verify_segment_def)

lemma verify_segments_files:
  "\<forall>sg \<in> set sgs. map_of (af_segments f) (sg_id sg) = map_of (af_segments f') (sg_id sg) \<Longrightarrow>
   verify_segments lib key f g sgs fr i = verify_segments lib key f' g sgs fr i"
proof (induction sgs arbitrary: fr i)
  case (Cons sg sgs)
  then show ?case using verify_segment_files [of f sg f' lib key] by simp
qed simp

lemma verify_segments_weaken:
  "verify_segments lib key f g sgs fr i = Inr j \<Longrightarrow> i' \<le> i \<Longrightarrow> g \<le> g' \<Longrightarrow>
   verify_segments lib key f g' sgs fr i' = Inr (if sgs = [] then i' else j)"
proof (induction sgs arbitrary: fr i i')
  case (Cons sg sgs)
  from Cons.prems(1) have c: "\<not> (sg_id sg \<le> i \<or> g < sg_id sg \<or> sg_start sg \<noteq> fr \<or> fr_sequence (sg_end sg) \<le> fr_sequence (sg_start sg)
      \<or> sg_length sg = 0 \<or> MAX_SEGMENT_BYTES < sg_length sg)" "verify_segment lib key f sg = Inr ()"
      "verify_segments lib key f g sgs (sg_end sg) (sg_id sg) = Inr j"
    by (auto simp: rbind_Inr_iff split: if_splits)
  have "verify_segments lib key f g' sgs (sg_end sg) (sg_id sg) = Inr (if sgs = [] then sg_id sg else j)"
    by (rule Cons.IH [OF c(3) order_refl Cons.prems(3)])
  moreover have "sgs = [] \<Longrightarrow> j = sg_id sg" using c(3) by simp
  ultimately show ?case using c(1,2) Cons.prems(2,3) by auto
qed simp

lemma verify_segments_chain:
  assumes "verify_segments lib key f g sgs fr i = Inr j"
  shows "\<forall>sg \<in> set sgs. i < sg_id sg \<and> sg_id sg \<le> j \<and> verify_segment lib key f sg = Inr () \<and> fr_sequence (sg_end sg) \<le> fr_sequence (if sgs = [] then fr else sg_end (last sgs))"
    "i \<le> j" "sgs \<noteq> [] \<Longrightarrow> sg_id (last sgs) = j" "fr_sequence fr \<le> fr_sequence (if sgs = [] then fr else sg_end (last sgs))"
proof -
  have "(\<forall>sg \<in> set sgs. i < sg_id sg \<and> sg_id sg \<le> j \<and> verify_segment lib key f sg = Inr () \<and>
        fr_sequence (sg_end sg) \<le> fr_sequence (if sgs = [] then fr else sg_end (last sgs))) \<and>
      i \<le> j \<and> (sgs \<noteq> [] \<longrightarrow> sg_id (last sgs) = j) \<and> fr_sequence fr \<le> fr_sequence (if sgs = [] then fr else sg_end (last sgs))"
    using assms
  proof (induction sgs arbitrary: fr i)
    case (Cons sg sgs)
    from Cons.prems have c: "i < sg_id sg" "sg_start sg = fr" "fr_sequence (sg_start sg) < fr_sequence (sg_end sg)" "verify_segment lib key f sg = Inr ()"
        "verify_segments lib key f g sgs (sg_end sg) (sg_id sg) = Inr j"
      by (auto simp: rbind_Inr_iff not_le split: if_splits)
    show ?case
    proof (cases "sgs = []")
      case True
      then show ?thesis using c by simp
    next
      case False
      with Cons.IH [OF c(5)] show ?thesis using c(1-4) by auto
    qed
  qed simp
  then show "\<forall>sg \<in> set sgs. i < sg_id sg \<and> sg_id sg \<le> j \<and> verify_segment lib key f sg = Inr () \<and> fr_sequence (sg_end sg) \<le> fr_sequence (if sgs = [] then fr else sg_end (last sgs))"
    "i \<le> j" "sgs \<noteq> [] \<Longrightarrow> sg_id (last sgs) = j" "fr_sequence fr \<le> fr_sequence (if sgs = [] then fr else sg_end (last sgs))" by blast+
qed

text \<open>What \<^verbatim>\<open>verify_manifest\<close> accepts.\<close>

definition manifest_ok :: "'x audit_lib_scheme \<Rightarrow> byte list \<Rightarrow> audit_files \<Rightarrow> manifest \<Rightarrow> bool" where
  "manifest_ok lib key files m \<longleftrightarrow>
     mf_schema m = 1 \<and> length (mf_segments m) \<le> 64 \<and> length (mf_garbage m) \<le> 64 \<and> (mf_segments m = [] \<longleftrightarrow> mf_generation m = 0) \<and>
     (mf_pending m = None \<or> mf_segments m \<noteq> [] \<and> mf_pending m = Some (last (mf_segments m))) \<and>
     verify_segments lib key files (mf_generation m) (mf_segments m) (mf_base m) 0 = Inr (mf_generation m) \<and>
     (\<forall>sg \<in> set (mf_garbage m). mf_segments m \<noteq> [] \<and> sg_id sg < sg_id (hd (mf_segments m)) \<and>
        fr_sequence (sg_end sg) \<le> fr_sequence (mf_base m))"

lemma verify_manifest_iff: "verify_manifest lib key w = Inr () \<longleftrightarrow> manifest_ok lib key (fst w) (at_manifest (snd w))"
proof -
  let ?m = "at_manifest (snd w)"
  have a: "is_some_and (mf_pending ?m) (\<lambda>p. mf_segments ?m = [] \<or> last (mf_segments ?m) \<noteq> p) \<longleftrightarrow>
      \<not> (mf_pending ?m = None \<or> mf_segments ?m \<noteq> [] \<and> mf_pending ?m = Some (last (mf_segments ?m)))"
    by (cases "mf_pending ?m") (auto simp: is_some_and_def)
  have b: "list_ex (\<lambda>sg. (if mf_segments ?m = [] then 0 else sg_id (hd (mf_segments ?m))) \<le> sg_id sg
                  \<or> fr_sequence (mf_base ?m) < fr_sequence (sg_end sg)) (mf_garbage ?m) \<longleftrightarrow>
      \<not> (\<forall>sg \<in> set (mf_garbage ?m). mf_segments ?m \<noteq> [] \<and> sg_id sg < sg_id (hd (mf_segments ?m)) \<and>
        fr_sequence (sg_end sg) \<le> fr_sequence (mf_base ?m))"
    by (auto simp: list_ex_iff not_le not_less)
  have c: "verify_segments lib key (fst w) (mf_generation ?m) (mf_segments ?m) (mf_base ?m) 0 = Inr i \<Longrightarrow> mf_segments ?m = [] \<Longrightarrow> i = 0" for i
    by simp
  show ?thesis
    unfolding verify_manifest_def Let_def a b manifest_ok_def
    by (auto simp: rbind_Inr_iff not_less dest: c split: if_splits)
qed

lemma retire_segments_eq:
  "retire_segments r m =
     (let k = length (mf_segments m) - r in
      m\<lparr>mf_segments := drop k (mf_segments m), mf_base := (if k = 0 then mf_base m else sg_end (mf_segments m ! (k - 1))),
        mf_garbage := mf_garbage m @ take k (mf_segments m)\<rparr>)"
proof (induction r m rule: retire_segments.induct)
  case (1 r m)
  show ?case
  proof (cases "length (mf_segments m) \<le> r")
    case True
    then show ?thesis by (subst retire_segments.simps) simp
  next
    case False
    then obtain sg sgs where s: "mf_segments m = sg # sgs" by (cases "mf_segments m") auto
    obtain k where k: "length (mf_segments m) - r = Suc k" "length sgs - r = k" using False s by (cases "Suc (length sgs) - r") auto
    show ?thesis
      using 1 [OF False refl] False k
      by (subst retire_segments.simps) (auto simp: s Let_def nth_Cons')
  qed
qed

lemma active_start_retired:
  assumes "1 \<le> r" "mf_segments m \<noteq> []"
  shows "active_start (retire_segments r m) = active_start m" "mf_segments (retire_segments r m) \<noteq> []"
    "last (mf_segments (retire_segments r m)) = last (mf_segments m)" "mf_generation (retire_segments r m) = mf_generation m"
    "mf_pending (retire_segments r m) = mf_pending m" "mf_schema (retire_segments r m) = mf_schema m"
proof -
  have "\<not> length (mf_segments m) \<le> length (mf_segments m) - r" using assms by (cases "mf_segments m") auto
  then show "active_start (retire_segments r m) = active_start m" "mf_segments (retire_segments r m) \<noteq> []"
    "last (mf_segments (retire_segments r m)) = last (mf_segments m)" "mf_generation (retire_segments r m) = mf_generation m"
    "mf_pending (retire_segments r m) = mf_pending m" "mf_schema (retire_segments r m) = mf_schema m"
    using assms by (auto simp: retire_segments_eq Let_def active_start_def)
qed

lemma manifest_ok_retired:
  assumes m: "manifest_ok lib key files (m\<lparr>mf_segments := sgs, mf_pending := None\<rparr>)" "mf_garbage m = []" "length sgs \<le> 64"
    and new: "mf_generation m < sg_id sg" "sg_start sg = active_start (m\<lparr>mf_segments := sgs\<rparr>)" "fr_sequence (sg_start sg) < fr_sequence (sg_end sg)"
      "sg_length sg \<noteq> 0" "sg_length sg \<le> MAX_SEGMENT_BYTES" "verify_segment lib key files sg = Inr ()"
    and r: "1 \<le> r" "r \<le> 64"
  shows "manifest_ok lib key files (retire_segments r (m\<lparr>mf_generation := sg_id sg, mf_segments := sgs @ [sg], mf_pending := Some sg\<rparr>))"
proof -
  define all where "all = sgs @ [sg]"
  define k where "k = length all - r"
  have v: "verify_segments lib key files (mf_generation m) sgs (mf_base m) 0 = Inr (mf_generation m)" "mf_schema m = 1"
      "sgs = [] \<longleftrightarrow> mf_generation m = 0" using m(1) by (auto simp: manifest_ok_def)
  have "verify_segments lib key files (sg_id sg) sgs (mf_base m) 0 = Inr (mf_generation m)"
    using verify_segments_weaken [OF v(1) order_refl less_imp_le [OF new(1)]] v(3) by (auto split: if_splits)
  then have all: "verify_segments lib key files (sg_id sg) all (mf_base m) 0 = Inr (sg_id sg)"
    using new by (auto simp: all_def verify_segments_append active_start_def split: if_splits)
  obtain i where i: "verify_segments lib key files (sg_id sg) (take k all) (mf_base m) 0 = Inr i"
      "verify_segments lib key files (sg_id sg) (drop k all) (if take k all = [] then mf_base m else sg_end (last (take k all))) i = Inr (sg_id sg)"
  proof -
    have "verify_segments lib key files (sg_id sg) (take k all @ drop k all) (mf_base m) 0 = Inr (sg_id sg)"
      using all by (simp only: append_take_drop_id)
    then show ?thesis using that unfolding verify_segments_append [of _ _ _ _ "take k all"] rbind_Inr_iff by blast
  qed
  have k: "k < length all" using r by (simp add: k_def all_def)
  then have ne: "drop k all \<noteq> []" by simp
  have base: "(if take k all = [] then mf_base m else sg_end (last (take k all))) = (if k = 0 then mf_base m else sg_end (all ! (k - 1)))"
  proof (cases "k = 0")
    case False
    then have "last (take k all) = all ! (k - 1)" using k by (subst last_conv_nth) auto
    then show ?thesis using False k by auto
  qed simp
  have d: "verify_segments lib key files (sg_id sg) (drop k all) (if k = 0 then mf_base m else sg_end (all ! (k - 1))) 0 = Inr (sg_id sg)"
    using verify_segments_weaken [OF i(2) le0 order_refl] ne unfolding base by (simp only: if_False)
  have "i < sg_id (hd (drop k all))" using verify_segments_chain(1) [OF i(2)] ne by (meson hd_in_set)
  moreover have "\<forall>s \<in> set (take k all). sg_id s \<le> i \<and> fr_sequence (sg_end s) \<le> fr_sequence (if k = 0 then mf_base m else sg_end (all ! (k - 1)))"
    using verify_segments_chain(1) [OF i(1)] unfolding base by blast
  ultimately have g: "\<forall>s \<in> set (take k all). sg_id s < sg_id (hd (drop k all)) \<and>
      fr_sequence (sg_end s) \<le> fr_sequence (if k = 0 then mf_base m else sg_end (all ! (k - 1)))" by fastforce
  have "last (drop k all) = sg" using k by (simp add: last_drop) (simp add: all_def)
  moreover have "length (drop k all) \<le> 64" "length (take k all) \<le> 64" using m(3) r by (simp_all add: k_def all_def)
  moreover have "retire_segments r (m\<lparr>mf_generation := sg_id sg, mf_segments := sgs @ [sg], mf_pending := Some sg\<rparr>) =
      m\<lparr>mf_generation := sg_id sg, mf_segments := drop k all, mf_base := (if k = 0 then mf_base m else sg_end (all ! (k - 1))),
        mf_pending := Some sg, mf_garbage := take k all\<rparr>"
    using m(2) by (simp add: retire_segments_eq Let_def k_def all_def del: drop_append take_append)
  ultimately show ?thesis using d g ne v(2) new(1) by (simp add: manifest_ok_def)
qed


section \<open>Directories that can be recovered\<close>

definition known_ids :: "manifest \<Rightarrow> nat set" where
  "known_ids m = sg_id ` set (mf_segments m) \<union> sg_id ` set (mf_garbage m)"

text \<open>
  The active file holds the chain from the last archived segment on; during a rotation it is the copy
  in the last segment, or already empty.
\<close>

definition active_ok :: "'x audit_lib_scheme \<Rightarrow> byte list \<Rightarrow> byte list \<Rightarrow> manifest \<Rightarrow> frontier \<Rightarrow> bool" where
  "active_ok lib key active m fr \<longleftrightarrow>
     (case mf_pending m of
        None \<Rightarrow> \<exists>ls. active = unlines ls \<and> (\<forall>l \<in> set ls. line_ok l) \<and> length active \<le> MAX_SEGMENT_BYTES \<and>
                 verify_records lib key ls (active_start m) = Inr fr
      | Some sg \<Rightarrow> active_start m = fr \<and>
          (active = [] \<or> length active = sg_length sg \<and> audit_sha256 lib active = sg_digest sg \<and> length active \<le> MAX_SEGMENT_BYTES))"

definition archive_ok :: "'x audit_lib_scheme \<Rightarrow> byte list \<Rightarrow> audit_files \<Rightarrow> manifest \<Rightarrow> bool" where
  "archive_ok lib key files m \<longleftrightarrow>
     bmap_ok (af_segments files) \<and>
     (\<forall>sg \<in> set (mf_garbage m). map_of (af_segments files) (sg_id sg) \<noteq> None \<longrightarrow> verify_segment lib key files sg = Inr ()) \<and>
     (\<forall>e \<in> set (af_segments files). fst e \<in> known_ids m \<or>
        mf_pending m = None \<and> fst e = mf_generation m + 1 \<and> af_active files \<noteq> [] \<and> prefix (snd e) (af_active files))"

definition audit_sound :: "'x audit_lib_scheme \<Rightarrow> byte list \<Rightarrow> audit_files \<Rightarrow> manifest \<Rightarrow> frontier \<Rightarrow> bool" where
  "audit_sound lib key files m fr \<longleftrightarrow>
     manifest_ok lib key files m \<and> active_ok lib key (af_active files) m fr \<and> archive_ok lib key files m \<and>
     mf_generation m + 1 < u64_bound \<and>
     (mf_pending m \<noteq> None \<longrightarrow> encodable lib key (m\<lparr>mf_pending := None\<rparr>)) \<and>
     (mf_garbage m \<noteq> [] \<longrightarrow> encodable lib key (m\<lparr>mf_pending := None, mf_garbage := []\<rparr>))"

definition audit_image :: "'x audit_lib_scheme \<Rightarrow> byte list \<Rightarrow> audit_files \<Rightarrow> frontier \<Rightarrow> bool" where
  "audit_image lib key files fr \<longleftrightarrow> staging_ok files \<and> (\<exists>m. manifest_on lib key files m \<and> audit_sound lib key files m fr)"

lemma active_start_update [simp]:
  "active_start (m\<lparr>mf_garbage := g\<rparr>) = active_start m" "active_start (m\<lparr>mf_pending := p\<rparr>) = active_start m"
  by (simp_all add: active_start_def)

lemma garbage_ids_disjoint:
  assumes "manifest_ok lib key files m" "sg \<in> set (mf_garbage m)" "s \<in> set (mf_segments m)"
  shows "sg_id sg < sg_id s"
proof -
  have v: "verify_segments lib key files (mf_generation m) (mf_segments m) (mf_base m) 0 = Inr (mf_generation m)"
    and g: "sg_id sg < sg_id (hd (mf_segments m))" using assms(1,2) by (auto simp: manifest_ok_def)
  obtain x xs where x: "mf_segments m = x # xs" using assms(3) by (cases "mf_segments m") auto
  have "s = x \<or> sg_id x < sg_id s"
    using v assms(3) verify_segments_chain(1) [of lib key files "mf_generation m" xs "sg_end x" "sg_id x" "mf_generation m"]
    by (auto simp: x rbind_Inr_iff split: if_splits)
  then show ?thesis using g by (auto simp: x)
qed

lemma manifest_ok_files:
  assumes "manifest_ok lib key f m" "\<forall>sg \<in> set (mf_segments m). map_of (af_segments f') (sg_id sg) = map_of (af_segments f) (sg_id sg)"
  shows "manifest_ok lib key f' m"
  using assms(1) unfolding manifest_ok_def verify_segments_files [OF assms(2)] .

lemma sound_same_data:
  assumes "same_data f' f" "audit_sound lib key f m fr"
  shows "audit_sound lib key f' m fr"
proof -
  have "verify_segment lib key f' sg = verify_segment lib key f sg" for sg
    using assms(1) by (intro verify_segment_files) (simp add: same_data_def)
  then show ?thesis
    using assms manifest_ok_files [of lib key f m f'] by (auto simp: audit_sound_def same_data_def archive_ok_def)
qed

section \<open>Obsolete segments\<close>

lemma remove_obsolete_result:
  assumes "remove_obsolete lib io key i gs w = (w', r)"
    and "\<forall>sg \<in> set gs. map_of (af_segments (fst w)) (sg_id sg) \<noteq> None \<longrightarrow> verify_segment lib key (fst w) sg = Inr ()"
    and "bmap_ok (af_segments (fst w))"
  shows "snd w' = snd w \<and> af_active (fst w') = af_active (fst w) \<and> af_manifest (fst w') = af_manifest (fst w) \<and>
      af_staging (fst w') = af_staging (fst w) \<and> bmap_ok (af_segments (fst w')) \<and>
      set (af_segments (fst w')) \<subseteq> set (af_segments (fst w)) \<and>
      (\<forall>j. map_of (af_segments (fst w')) j = map_of (af_segments (fst w)) j \<or> j \<in> sg_id ` set gs \<and> map_of (af_segments (fst w')) j = None) \<and>
      (r = Inr () \<longrightarrow> (\<forall>sg \<in> set gs. map_of (af_segments (fst w')) (sg_id sg) = None)) \<and>
      ((\<forall>p. io p = IoDone) \<longrightarrow> r = Inr ())"
  using assms
proof (induction gs arbitrary: i w)
  case (Cons sg gs)
  show ?case
  proof (cases "map_of (af_segments (fst w)) (sg_id sg)")
    case None
    have IH: "remove_obsolete lib io key (Suc i) gs w = (w', r)" using Cons.prems(1) None by simp
    have "\<forall>sg \<in> set gs. map_of (af_segments (fst w)) (sg_id sg) \<noteq> None \<longrightarrow> verify_segment lib key (fst w) sg = Inr ()"
      using Cons.prems(2) by simp
    note IH = Cons.IH [OF IH this Cons.prems(3)]
    moreover have "map_of (af_segments (fst w')) (sg_id sg) = None" using IH None by metis
    ultimately show ?thesis by auto
  next
    case (Some b)
    let ?w = "on_files (\<lambda>f. f\<lparr>af_segments := bremove (sg_id sg) (af_segments f)\<rparr>) w"
    have v: "verify_segment lib key (fst w) sg = Inr ()" using Cons.prems(2) Some by simp
    have sub: "set (bremove (sg_id sg) (af_segments (fst w))) \<subseteq> set (af_segments (fst w))" by (auto simp: bremove_def)
    have step: "sbind (sys_call (io [i]) (\<lambda>f. f\<lparr>af_segments := bremove (sg_id sg) (af_segments f)\<rparr>) w)
        (\<lambda>w _. remove_obsolete lib io key (Suc i) gs w) = (w', r)" using Cons.prems(1) Some v by simp
    show ?thesis
    proof (cases "io [i]")
      case (IoFailed k)
      then show ?thesis using step Some Cons.prems(3) sub by (auto simp: sys_call_def on_files_def split: if_splits)
    next
      case IoDone
      then have r: "remove_obsolete lib io key (Suc i) gs ?w = (w', r)" using step by (simp add: sys_call_def)
      have p2: "\<forall>s \<in> set gs. map_of (af_segments (fst ?w)) (sg_id s) \<noteq> None \<longrightarrow> verify_segment lib key (fst ?w) s = Inr ()"
        using Cons.prems(2) verify_segment_files [of "fst ?w" _ "fst w" lib key] by (auto simp: on_files_def split: if_splits)
      have p3: "bmap_ok (af_segments (fst ?w))" using Cons.prems(3) by (simp add: on_files_def)
      have m: "map_of (af_segments (fst ?w)) j = (if j = sg_id sg then None else map_of (af_segments (fst w)) j)" for j
        by (simp add: on_files_def)
      have o: "snd ?w = snd w" "af_active (fst ?w) = af_active (fst w)" "af_manifest (fst ?w) = af_manifest (fst w)"
          "af_staging (fst ?w) = af_staging (fst w)" "set (af_segments (fst ?w)) \<subseteq> set (af_segments (fst w))"
        using sub by (simp_all add: on_files_def)
      note IH = Cons.IH [OF r p2 p3, unfolded m o(1-4)]
      have none: "map_of (af_segments (fst w')) (sg_id sg) = None" using IH by metis
      have "map_of (af_segments (fst w')) j = map_of (af_segments (fst w)) j \<or> j \<in> sg_id ` set (sg # gs) \<and> map_of (af_segments (fst w')) j = None" for j
      proof -
        have "map_of (af_segments (fst w')) j = (if j = sg_id sg then None else map_of (af_segments (fst w)) j) \<or>
            j \<in> sg_id ` set gs \<and> map_of (af_segments (fst w')) j = None" using IH by blast
        then show ?thesis using none by (auto split: if_splits)
      qed
      moreover have "r = Inr () \<Longrightarrow> \<forall>s \<in> set (sg # gs). map_of (af_segments (fst w')) (sg_id s) = None" using IH none by auto
      ultimately show ?thesis using IH o(5) by blast
    qed
  qed
qed simp

lemma sound_removed:
  assumes s: "audit_sound lib key f m fr" "mf_pending m = None"
    and a: "af_active f' = af_active f" "bmap_ok (af_segments f')" "set (af_segments f') \<subseteq> set (af_segments f)"
    and g: "\<forall>j. map_of (af_segments f') j = map_of (af_segments f) j \<or> j \<in> sg_id ` set (mf_garbage m) \<and> map_of (af_segments f') j = None"
  shows "audit_sound lib key f' m fr"
    "\<forall>sg \<in> set (mf_garbage m). map_of (af_segments f') (sg_id sg) = None \<Longrightarrow> audit_sound lib key f' (m\<lparr>mf_garbage := []\<rparr>) fr"
proof -
  have ok: "manifest_ok lib key f m" using s by (simp add: audit_sound_def)
  have "\<forall>sg \<in> set (mf_segments m). sg_id sg \<notin> sg_id ` set (mf_garbage m)"
    using garbage_ids_disjoint [OF ok] by fastforce
  then have m: "manifest_ok lib key f' m" using g by (intro manifest_ok_files [OF ok]) metis
  have v: "verify_segment lib key f' sg = Inr ()" if "sg \<in> set (mf_garbage m)" "map_of (af_segments f') (sg_id sg) \<noteq> None" for sg
  proof -
    have "map_of (af_segments f') (sg_id sg) = map_of (af_segments f) (sg_id sg)" using g that by metis
    then show ?thesis using s(1) that verify_segment_files [of f' sg f lib key] by (auto simp: audit_sound_def archive_ok_def)
  qed
  have e: "\<forall>e \<in> set (af_segments f'). fst e \<in> known_ids m \<or>
        mf_pending m = None \<and> fst e = mf_generation m + 1 \<and> af_active f' \<noteq> [] \<and> prefix (snd e) (af_active f')"
    using s(1) a(1,3) unfolding audit_sound_def archive_ok_def by auto
  show "audit_sound lib key f' m fr"
    using s(1) m v e a by (auto simp: audit_sound_def archive_ok_def)
  assume n: "\<forall>sg \<in> set (mf_garbage m). map_of (af_segments f') (sg_id sg) = None"
  have "fst e \<in> sg_id ` set (mf_segments m) \<or> fst e \<notin> known_ids m" if "e \<in> set (af_segments f')" for e
  proof -
    have "map_of (af_segments f') (fst e) \<noteq> None" using that by (simp add: map_of_eq_None_iff)
    then have "fst e \<notin> sg_id ` set (mf_garbage m)" using n by auto
    then show ?thesis by (auto simp: known_ids_def)
  qed
  then have "\<forall>e \<in> set (af_segments f'). fst e \<in> sg_id ` set (mf_segments m) \<or>
        mf_pending m = None \<and> fst e = mf_generation m + 1 \<and> af_active f' \<noteq> [] \<and> prefix (snd e) (af_active f')"
    using e by blast
  then have "archive_ok lib key f' (m\<lparr>mf_garbage := []\<rparr>)"
    using a(2) by (simp add: archive_ok_def known_ids_def)
  moreover have "manifest_ok lib key f' (m\<lparr>mf_garbage := []\<rparr>)" using m by (auto simp: manifest_ok_def)
  ultimately show "audit_sound lib key f' (m\<lparr>mf_garbage := []\<rparr>) fr"
    using s a(1) by (simp add: audit_sound_def active_ok_def)
qed

lemma collect_garbage_result:
  assumes laws: "audit_laws lib" and w: "writer_ok lib key w" and s: "audit_sound lib key (fst w) (at_manifest (snd w)) fr"
    and p: "mf_pending (at_manifest (snd w)) = None" and c: "collect_garbage lib io key w = (w', r)"
  shows "audit_image lib key (fst w') fr" "af_active (fst w') = af_active (fst w)"
    "r = Inr () \<Longrightarrow> writer_ok lib key w' \<and> audit_sound lib key (fst w') (at_manifest (snd w')) fr \<and>
       at_manifest (snd w') = (at_manifest (snd w))\<lparr>mf_garbage := []\<rparr> \<and> at_config (snd w') = at_config (snd w)"
    "(\<And>p. io p = IoDone) \<Longrightarrow> r = Inr ()"
proof -
  let ?m = "at_manifest (snd w)"
  have "audit_image lib key (fst w') fr \<and> af_active (fst w') = af_active (fst w) \<and>
    (r = Inr () \<longrightarrow> writer_ok lib key w' \<and> audit_sound lib key (fst w') (at_manifest (snd w')) fr \<and>
       at_manifest (snd w') = ?m\<lparr>mf_garbage := []\<rparr> \<and> at_config (snd w') = at_config (snd w)) \<and> ((\<forall>p. io p = IoDone) \<longrightarrow> r = Inr ())"
  proof (cases "mf_garbage ?m = []")
    case True
    then have "w' = w" "r = Inr ()" using c by (auto simp: collect_garbage_def)
    moreover have "?m = ?m\<lparr>mf_garbage := []\<rparr>" using True by (cases ?m) simp
    ultimately show ?thesis using w s by (auto simp: audit_image_def writer_ok_def)
  next
    case False
    obtain w1 r1 where o: "remove_obsolete lib (sub_io 0 io) key 0 (mf_garbage ?m) w = (w1, r1)"
      by (cases "remove_obsolete lib (sub_io 0 io) key 0 (mf_garbage ?m) w") auto
    have "\<forall>sg \<in> set (mf_garbage ?m). map_of (af_segments (fst w)) (sg_id sg) \<noteq> None \<longrightarrow> verify_segment lib key (fst w) sg = Inr ()"
        "bmap_ok (af_segments (fst w))" using s by (auto simp: audit_sound_def archive_ok_def)
    note ro = remove_obsolete_result [OF o this]
    have w1: "writer_ok lib key w1" using ro w by (auto simp: writer_ok_def manifest_on_def staging_ok_def)
    have s1: "audit_sound lib key (fst w1) ?m fr"
      by (rule sound_removed(1) [OF s p]) (use ro in blast)+
    have img1: "audit_image lib key (fst w1) fr" using s1 w1 ro by (auto simp: audit_image_def writer_ok_def)
    show ?thesis
    proof (cases r1)
      case (Inl e)
      then have "w' = w1" "r = Inl e" using c False p o by (auto simp: collect_garbage_def)
      then show ?thesis using img1 ro Inl by auto
    next
      case (Inr u)
      have pb: "audit_publish lib (sub_io 1 io) key (?m\<lparr>mf_garbage := []\<rparr>) w1 = (w', r)"
        using c False p o Inr ro by (auto simp: collect_garbage_def)
      note pr = audit_publish_result [OF laws w1 pb]
      have s2: "audit_sound lib key (fst w1) (?m\<lparr>mf_garbage := []\<rparr>) fr"
      proof (rule sound_removed(2) [OF s p])
        show "\<forall>sg\<in>set (mf_garbage ?m). map_of (af_segments (fst w1)) (sg_id sg) = None" using ro Inr by auto
      qed (use ro in blast)+
      have enc: "encodable lib key (?m\<lparr>mf_garbage := []\<rparr>)"
      proof -
        have "?m\<lparr>mf_pending := None, mf_garbage := []\<rparr> = ?m\<lparr>mf_garbage := []\<rparr>" using p by (cases ?m) simp
        then show ?thesis using s False by (simp add: audit_sound_def)
      qed
      have s3: "audit_sound lib key (fst w') ?m fr" "audit_sound lib key (fst w') (?m\<lparr>mf_garbage := []\<rparr>) fr"
        using sound_same_data [OF pr(1)] s1 s2 by blast+
      have "manifest_on lib key (fst w') ?m \<or> manifest_on lib key (fst w') (?m\<lparr>mf_garbage := []\<rparr>)" using pr(3) ro by auto
      then have "audit_image lib key (fst w') fr" using s3 pr(2) by (auto simp: audit_image_def)
      moreover have "(\<forall>p. io p = IoDone) \<longrightarrow> r = Inr ()" using pr(5) enc by simp
      moreover have "af_active (fst w') = af_active (fst w)" using pr(1) ro by (simp add: same_data_def)
      ultimately show ?thesis using pr(4) s3 ro by auto
    qed
  qed
  then show "audit_image lib key (fst w') fr" "af_active (fst w') = af_active (fst w)"
    "r = Inr () \<Longrightarrow> writer_ok lib key w' \<and> audit_sound lib key (fst w') (at_manifest (snd w')) fr \<and>
       at_manifest (snd w') = ?m\<lparr>mf_garbage := []\<rparr> \<and> at_config (snd w') = at_config (snd w)"
    "(\<And>p. io p = IoDone) \<Longrightarrow> r = Inr ()" by auto
qed


section \<open>Recovery\<close>

definition audit_config_ok :: "audit_config \<Rightarrow> bool" where
  "audit_config_ok c \<longleftrightarrow> audit_config_validate c = Inr c"

lemma audit_config_okD:
  assumes "audit_config_ok c"
  shows "ac_segment_bytes c \<le> MAX_SEGMENT_BYTES" "1 \<le> ac_retained_segments c" "ac_retained_segments c \<le> 64"
  using assms by (auto simp: audit_config_ok_def audit_config_validate_def split: if_splits)

definition audit_holds :: "'x audit_lib_scheme \<Rightarrow> byte list \<Rightarrow> audit_world \<Rightarrow> frontier \<Rightarrow> bool" where
  "audit_holds lib key w fr \<longleftrightarrow>
     writer_ok lib key w \<and> audit_sound lib key (fst w) (at_manifest (snd w)) fr \<and> audit_config_ok (at_config (snd w)) \<and>
     mf_pending (at_manifest (snd w)) = None \<and> mf_garbage (at_manifest (snd w)) = []"

lemma audit_holds_image: "audit_holds lib key w fr \<Longrightarrow> audit_image lib key (fst w) fr"
  by (auto simp: audit_holds_def audit_image_def writer_ok_def)

lemma sys_call_id: "sys_call io id w = (w, if io = IoDone then Inr () else Inl ''audit input/output error'')"
  by (auto simp: sys_call_def on_files_def split: io_result.splits)

lemma sound_active:
  assumes "audit_sound lib key f m fr" "mf_pending m = None"
  shows "verify_audit_from lib key (af_active f) (active_start m) = Inr fr" "length (af_active f) \<le> MAX_SEGMENT_BYTES"
  using assms by (auto simp: audit_sound_def active_ok_def verify_unlines MAX_AUDIT_BYTES_def MAX_SEGMENT_BYTES_def)

lemma sound_completed:
  assumes "audit_sound lib key f m fr" "mf_pending m = Some sg"
  shows "audit_sound lib key (f\<lparr>af_active := []\<rparr>) (m\<lparr>mf_pending := None\<rparr>) fr" "audit_sound lib key (f\<lparr>af_active := []\<rparr>) m fr"
proof -
  have m: "manifest_ok lib key f m" using assms(1) by (simp add: audit_sound_def)
  have 1: "manifest_ok lib key (f\<lparr>af_active := []\<rparr>) m" by (rule manifest_ok_files [OF m]) simp
  then have 2: "manifest_ok lib key (f\<lparr>af_active := []\<rparr>) (m\<lparr>mf_pending := None\<rparr>)" by (auto simp: manifest_ok_def)
  have 3: "verify_segment lib key (f\<lparr>af_active := []\<rparr>) s = verify_segment lib key f s" for s by (rule verify_segment_files) simp
  have 4: "active_ok lib key [] (m\<lparr>mf_pending := None\<rparr>) fr" "active_ok lib key [] m fr"
    using assms by (auto simp: audit_sound_def active_ok_def intro: exI [of _ "[]"])
  show "audit_sound lib key (f\<lparr>af_active := []\<rparr>) (m\<lparr>mf_pending := None\<rparr>) fr" "audit_sound lib key (f\<lparr>af_active := []\<rparr>) m fr"
    using assms 1 2 3 4 by (auto simp: audit_sound_def archive_ok_def known_ids_def)
qed

lemma complete_pending_ok:
  assumes laws: "audit_laws lib" and w: "writer_ok lib key w" and s: "audit_sound lib key (fst w) (at_manifest (snd w)) fr"
    and io: "\<And>p. io p = IoDone"
  obtains w' where "complete_pending lib io key w = (w', Inr ())" "writer_ok lib key w'"
    "audit_sound lib key (fst w') (at_manifest (snd w')) fr" "mf_pending (at_manifest (snd w')) = None" "at_config (snd w') = at_config (snd w)"
proof (cases "mf_pending (at_manifest (snd w))")
  case None
  then show ?thesis using that [of w] w s by (simp add: complete_pending_def)
next
  case (Some sg)
  let ?m = "at_manifest (snd w)"
  let ?w = "on_files (\<lambda>f. f\<lparr>af_active := []\<rparr>) w"
  have a: "af_active (fst w) = [] \<or> length (af_active (fst w)) = sg_length sg \<and> audit_sha256 lib (af_active (fst w)) = sg_digest sg"
      "length (af_active (fst w)) \<le> MAX_SEGMENT_BYTES"
    using s Some by (auto simp: audit_sound_def active_ok_def)
  have same: "af_active (fst w) = [] \<Longrightarrow> ?w = w" by (cases w) (simp add: on_files_def)
  have w1: "writer_ok lib key ?w" using w by (simp add: writer_ok_def on_files_def manifest_on_def staging_ok_def)
  obtain w' r where pb: "audit_publish lib (sub_io 1 io) key (?m\<lparr>mf_pending := None\<rparr>) ?w = (w', r)"
    by (cases "audit_publish lib (sub_io 1 io) key (?m\<lparr>mf_pending := None\<rparr>) ?w") auto
  note pr = audit_publish_result [OF laws w1 pb]
  have enc: "encodable lib key (?m\<lparr>mf_pending := None\<rparr>)" using s Some by (simp add: audit_sound_def)
  have r: "r = Inr ()" using pr(5) [OF io enc] .
  have "complete_pending lib io key w = (w', Inr ())"
    using Some a pb r same by (auto simp: complete_pending_def audit_read_bounded_def sys_call_def io on_files_def)
  moreover have "audit_sound lib key (fst w') (?m\<lparr>mf_pending := None\<rparr>) fr"
    using sound_same_data [OF pr(1)] sound_completed(1) [OF s Some] by (simp add: on_files_def)
  ultimately show ?thesis using that [of w'] pr(4) [OF r] by (simp add: on_files_def)
qed

lemma rcollect_units: "(\<And>x. x \<in> set xs \<Longrightarrow> f x = Inr ()) \<Longrightarrow> rcollect f xs = Inr (map (\<lambda>_. ()) xs)"
  by (induction xs) auto

lemma inventory_ok:
  assumes "audit_holds lib key w fr"
  shows "verify_archive_inventory w = Inr ()"
proof -
  let ?m = "at_manifest (snd w)"
  let ?f = "\<lambda>(i, copied).
        if list_ex (\<lambda>sg. sg_id sg = i) (mf_segments ?m) then Inr ()
        else if i \<noteq> mf_generation ?m + 1 then Inl ''unexplained audit archive generation''
        else
          rbind (audit_read_bounded MAX_SEGMENT_BYTES (af_active (fst w))) (\<lambda>bytes.
          rbind (audit_read_bounded MAX_SEGMENT_BYTES copied) (\<lambda>copied.
          if bytes = [] \<or> \<not> starts_with bytes copied then Inl ''unexplained audit archive content'' else Inr ()))"
  have s: "audit_sound lib key (fst w) ?m fr" "mf_pending ?m = None" "mf_garbage ?m = []" using assms by (auto simp: audit_holds_def)
  have "?f e = Inr ()" if "e \<in> set (af_segments (fst w))" for e
  proof -
    have "fst e \<in> sg_id ` set (mf_segments ?m) \<or> fst e = mf_generation ?m + 1 \<and> af_active (fst w) \<noteq> [] \<and> prefix (snd e) (af_active (fst w))"
      using s that unfolding audit_sound_def archive_ok_def known_ids_def by auto
    then show ?thesis
    proof
      assume "fst e \<in> sg_id ` set (mf_segments ?m)"
      then have "list_ex (\<lambda>sg. sg_id sg = fst e) (mf_segments ?m)" by (auto simp: list_ex_iff)
      then show ?thesis by (simp add: case_prod_beta)
    next
      assume a: "fst e = mf_generation ?m + 1 \<and> af_active (fst w) \<noteq> [] \<and> prefix (snd e) (af_active (fst w))"
      then have "length (snd e) \<le> MAX_SEGMENT_BYTES" using sound_active(2) [OF s(1,2)] prefix_length_le order_trans by blast
      then show ?thesis using a sound_active(2) [OF s(1,2)] by (simp add: case_prod_beta audit_read_bounded_def)
    qed
  qed
  then have "rcollect ?f (af_segments (fst w)) = Inr (map (\<lambda>_. ()) (af_segments (fst w)))"
    by (rule rcollect_units)
  moreover have "checked_add64 (mf_generation ?m) 1 = Some (mf_generation ?m + 1)" using s(1) by (simp add: audit_sound_def checked_add64_def)
  ultimately show ?thesis by (simp only: verify_archive_inventory_def Let_def ok_or_def option.case rbind_simps)
qed

lemma audit_recover_image:
  assumes laws: "audit_laws lib" and i: "audit_image lib key files fr" and c: "audit_config_ok c" and io: "\<And>p. io p = IoDone"
  obtains w' where "audit_recover lib io key (files, audit_rotation_new c) = (w', Inr fr)" "audit_holds lib key w' fr" "at_config (snd w') = c"
proof -
  obtain m where m: "staging_ok files" "manifest_on lib key files m" "audit_sound lib key files m fr" using i by (auto simp: audit_image_def)
  define w1 where "w1 = (files, (audit_rotation_new c)\<lparr>at_manifest := m, at_manifest_exists := (af_manifest files \<noteq> None)\<rparr>)"
  have w1: "writer_ok lib key w1" using m by (simp add: w1_def writer_ok_def)
  have load: "(case af_manifest files of
              None \<Rightarrow> ((files, audit_rotation_new c), Inr ())
            | Some file \<Rightarrow>
                sbind ((files, audit_rotation_new c), decode_manifest lib key file) (\<lambda>w m.
                ((fst w, (snd w)\<lparr>at_manifest := m, at_manifest_exists := True\<rparr>), Inr ()))) = (w1, Inr ())"
    using m(2) by (auto simp: w1_def manifest_on_def audit_rotation_new_def split: option.splits)
  have vm: "verify_manifest lib key w1 = Inr ()" using m(3) by (simp add: verify_manifest_iff w1_def audit_sound_def)
  obtain w2 r2 where d: "discard_staging (sub_io 1 io) w1 = (w2, r2)" by (cases "discard_staging (sub_io 1 io) w1") auto
  have so: "staging_ok (fst w1)" using m(1) by (simp add: w1_def)
  note dr = discard_staging_result [OF so d]
  have r2: "r2 = Inr ()" using dr(4) io by simp
  have w2: "writer_ok lib key w2" using w1 dr(1,2) by (auto simp: writer_ok_def manifest_on_def staging_ok_def)
  have s2: "audit_sound lib key (fst w2) (at_manifest (snd w2)) fr"
    using sound_same_data [of "fst w2" files lib key m fr] m(3) dr(1,2) by (auto simp: same_data_def w1_def)
  obtain w3 where p: "complete_pending lib (sub_io 2 io) key w2 = (w3, Inr ())" "writer_ok lib key w3"
    "audit_sound lib key (fst w3) (at_manifest (snd w3)) fr" "mf_pending (at_manifest (snd w3)) = None" "at_config (snd w3) = at_config (snd w2)"
    by (rule complete_pending_ok [OF laws w2 s2, of "sub_io 2 io"]) (use io in auto)
  obtain w4 r4 where g: "collect_garbage lib (sub_io 3 io) key w3 = (w4, r4)" by (cases "collect_garbage lib (sub_io 3 io) key w3") auto
  note gr = collect_garbage_result [OF laws p(2,3,4) g]
  have r4: "r4 = Inr ()" using gr(4) io by simp
  have cfg: "at_config (snd w4) = c" using gr(3) [OF r4] p(5) dr(1) by (simp add: w1_def audit_rotation_new_def)
  have h: "audit_holds lib key w4 fr" using gr(3) [OF r4] p(4) cfg c by (auto simp: audit_holds_def)
  then have "verify_audit_from lib key (af_active (fst w4)) (active_start (at_manifest (snd w4))) = Inr fr"
    by (intro sound_active(1)) (auto simp: audit_holds_def)
  then have "audit_recover lib io key (files, audit_rotation_new c) = (w4, Inr fr)"
    using load vm d r2 p(1) g r4 inventory_ok [OF h] by (simp add: audit_recover_def sys_call_id io)
  then show ?thesis using that h cfg by blast
qed


section \<open>Rotation\<close>

definition manifest_shrinks :: "'x audit_lib_scheme \<Rightarrow> byte list \<Rightarrow> bool" where
  "manifest_shrinks lib key \<longleftrightarrow>
     (\<forall>m. encodable lib key m \<longrightarrow> encodable lib key (m\<lparr>mf_pending := None\<rparr>) \<and> encodable lib key (m\<lparr>mf_garbage := []\<rparr>))"

lemma sound_ids:
  assumes "audit_sound lib key f m fr" "mf_garbage m = []"
  shows "\<forall>sg \<in> set (mf_segments m). sg_id sg \<le> mf_generation m \<and> verify_segment lib key f sg = Inr ()"
  using assms verify_segments_chain(1) by (fastforce simp: audit_sound_def manifest_ok_def)

lemma sound_archive:
  "audit_sound lib key f m fr \<Longrightarrow> e \<in> set (af_segments f) \<Longrightarrow> fst e \<in> known_ids m \<or>
     mf_pending m = None \<and> fst e = mf_generation m + 1 \<and> af_active f \<noteq> [] \<and> prefix (snd e) (af_active f)"
  unfolding audit_sound_def archive_ok_def by blast

lemma sound_orphan:
  assumes s: "audit_sound lib key f m fr" "mf_pending m = None" "mf_garbage m = []" "af_active f \<noteq> []" "prefix b (af_active f)"
  shows "audit_sound lib key (f\<lparr>af_segments := binsert (mf_generation m + 1) b (af_segments f)\<rparr>) m fr"
proof -
  let ?f = "f\<lparr>af_segments := binsert (mf_generation m + 1) b (af_segments f)\<rparr>"
  have "manifest_ok lib key f m" using s(1) by (simp add: audit_sound_def)
  moreover have "\<forall>sg \<in> set (mf_segments m). map_of (af_segments ?f) (sg_id sg) = map_of (af_segments f) (sg_id sg)"
    using sound_ids [OF s(1,3)] by auto
  ultimately have "manifest_ok lib key ?f m" by (rule manifest_ok_files)
  moreover have "\<forall>e \<in> set (af_segments ?f). fst e \<in> known_ids m \<or>
      mf_pending m = None \<and> fst e = mf_generation m + 1 \<and> af_active ?f \<noteq> [] \<and> prefix (snd e) (af_active ?f)"
  proof
    fix e assume "e \<in> set (af_segments ?f)"
    then have "e = (mf_generation m + 1, b) \<or> e \<in> set (af_segments f)" using set_binsert [of "mf_generation m + 1" b "af_segments f"] by auto
    then show "fst e \<in> known_ids m \<or> mf_pending m = None \<and> fst e = mf_generation m + 1 \<and> af_active ?f \<noteq> [] \<and> prefix (snd e) (af_active ?f)"
    proof
      assume "e = (mf_generation m + 1, b)"
      then show ?thesis using s(2,4,5) by simp
    next
      assume "e \<in> set (af_segments f)"
      then show ?thesis using sound_archive [OF s(1)] by simp
    qed
  qed
  moreover have "bmap_ok (af_segments ?f)" using s(1) by (simp add: audit_sound_def archive_ok_def)
  ultimately show ?thesis using s(1-3) unfolding audit_sound_def archive_ok_def by simp
qed

lemma archive_result:
  assumes s: "audit_sound lib key (fst w) m fr" "mf_pending m = None" "mf_garbage m = []"
    and a: "archive_segment io (mf_generation m + 1) (af_active (fst w)) w = (w', r)"
  obtains b where "prefix b (af_active (fst w))" "snd w' = snd w"
    "fst w' = fst w \<or> fst w' = (fst w)\<lparr>af_segments := binsert (mf_generation m + 1) b (af_segments (fst w))\<rparr>"
    "r = Inr () \<longrightarrow> fst w' = (fst w)\<lparr>af_segments := binsert (mf_generation m + 1) (af_active (fst w)) (af_segments (fst w))\<rparr>"
proof (cases "map_of (af_segments (fst w)) (mf_generation m + 1)")
  case None
  then have c: "create_file (io [0]) (\<lambda>b f. f\<lparr>af_segments := binsert (mf_generation m + 1) b (af_segments f)\<rparr>) (af_active (fst w)) w = (w', r)"
    using a by (simp add: archive_segment_def)
  show ?thesis
  proof (cases "io [0]")
    case IoDone
    then show ?thesis using c that [of "af_active (fst w)"] by (auto simp: create_file_def on_files_def)
  next
    case (IoFailed k)
    then show ?thesis using c that [of "take (k - 1) (af_active (fst w))"] by (auto simp: create_file_def on_files_def take_is_prefix split: if_splits)
  qed
next
  case (Some copied)
  then have "(mf_generation m + 1, copied) \<in> set (af_segments (fst w))" by (rule map_of_SomeD)
  then have "fst (mf_generation m + 1, copied) \<in> known_ids m \<or> prefix copied (af_active (fst w))"
    using sound_archive [OF s(1)] by fastforce
  then have p: "prefix copied (af_active (fst w))" using sound_ids [OF s(1,3)] s(3) by (auto simp: known_ids_def)
  then obtain rest where rest: "af_active (fst w) = copied @ rest" by (auto simp: prefix_def)
  have l: "length copied \<le> MAX_SEGMENT_BYTES" using sound_active(2) [OF s(1,2)] prefix_length_le [OF p] by simp
  have c: "(case io [1] of
              IoDone \<Rightarrow> (on_files (\<lambda>f. f\<lparr>af_segments := binsert (mf_generation m + 1) (af_active (fst w)) (af_segments f)\<rparr>) w, Inr ())
            | IoFailed k \<Rightarrow>
                (on_files (\<lambda>f. f\<lparr>af_segments := binsert (mf_generation m + 1) (copied @ take k (drop (length copied) (af_active (fst w)))) (af_segments f)\<rparr>) w,
                 Inl ''audit input/output error'')) = (w', r)"
    using a Some p l by (simp add: archive_segment_def audit_read_bounded_def del: One_nat_def)
  show ?thesis
  proof (cases "io [1]")
    case IoDone
    then show ?thesis using c that [of "af_active (fst w)"] by (auto simp: on_files_def)
  next
    case (IoFailed k)
    have "prefix (copied @ take k (drop (length copied) (af_active (fst w)))) (af_active (fst w))" by (simp add: rest take_is_prefix)
    then show ?thesis using c IoFailed that [of "copied @ take k (drop (length copied) (af_active (fst w)))"] by (auto simp: on_files_def)
  qed
qed

text \<open>The manifest that names the archived copy, before and after the active copied is emptied.\<close>

lemma sound_rotated:
  assumes s: "audit_sound lib key f m fr" "mf_pending m = None" "mf_garbage m = []"
    and g: "mf_generation m + 2 < u64_bound" and q: "fr_sequence (active_start m) < fr_sequence fr" and r: "1 \<le> r" "r \<le> 64"
    and sg: "sg = \<lparr>sg_id = mf_generation m + 1, sg_length = length (af_active f), sg_digest = audit_sha256 lib (af_active f),
        sg_start = active_start m, sg_end = fr\<rparr>"
    and P: "P = retire_segments r (m\<lparr>mf_generation := sg_id sg, mf_segments := mf_segments m @ [sg], mf_pending := Some sg\<rparr>)"
    and f': "f' = f\<lparr>af_segments := binsert (mf_generation m + 1) (af_active f) (af_segments f)\<rparr>"
    and e: "encodable lib key P" "manifest_shrinks lib key"
  shows "audit_sound lib key f' P fr" "mf_pending P = Some sg"
proof -
  let ?M = "m\<lparr>mf_generation := sg_id sg, mf_segments := mf_segments m @ [sg], mf_pending := Some sg\<rparr>"
  note ids = sound_ids [OF s(1,3)]
  have act: "verify_audit_from lib key (af_active f) (active_start m) = Inr fr" "length (af_active f) \<le> MAX_SEGMENT_BYTES"
    by (rule sound_active [OF s(1,2)])+
  have ne: "af_active f \<noteq> []"
  proof
    assume "af_active f = []"
    then show False using act(1) q by (simp add: verify_audit_from_def)
  qed
  have vsg: "verify_segment lib key f' sg = Inr ()"
    using act by (simp add: verify_segment_def f' sg audit_read_bounded_def)
  have files: "map_of (af_segments f') i = map_of (af_segments f) i" if "i \<le> mf_generation m" for i using that by (simp add: f')
  have m': "manifest_ok lib key f' (m\<lparr>mf_segments := mf_segments m, mf_pending := None\<rparr>)"
  proof -
    have "m\<lparr>mf_segments := mf_segments m, mf_pending := None\<rparr> = m" using s(2) by (cases m) simp
    moreover have "manifest_ok lib key f m" using s(1) by (simp add: audit_sound_def)
    moreover have "\<forall>s \<in> set (mf_segments m). map_of (af_segments f') (sg_id s) = map_of (af_segments f) (sg_id s)" using ids files by simp
    ultimately show ?thesis using manifest_ok_files [of lib key f m f'] by simp
  qed
  have "length (mf_segments m) \<le> 64" using s(1) by (simp add: audit_sound_def manifest_ok_def)
  then have mo: "manifest_ok lib key f' P"
    unfolding P using ne act(2) q vsg r by (intro manifest_ok_retired [OF m' s(3)]) (auto simp: sg active_start_def)
  have P': "active_start P = active_start ?M" "mf_generation P = sg_id sg" "mf_pending P = Some sg"
    unfolding P using active_start_retired [OF r(1), of ?M] by simp_all
  then have fr: "active_start P = fr" by (simp add: active_start_def sg)
  define k where "k = length (mf_segments m @ [sg]) - r"
  have segs: "mf_segments P = drop k (mf_segments m @ [sg])" "mf_garbage P = take k (mf_segments m @ [sg])"
    unfolding P k_def using s(3) by (simp_all add: retire_segments_eq Let_def del: drop_append take_append)
  have "set (mf_segments P) \<union> set (mf_garbage P) = set (mf_segments m @ [sg])"
    unfolding segs by (metis append_take_drop_id set_append sup_commute)
  then have known: "known_ids P = known_ids m \<union> {sg_id sg}" using s(3) by (auto simp: known_ids_def)
  have vs: "verify_segment lib key f' s = Inr ()" if "s \<in> set (mf_segments m @ [sg])" for s
  proof (cases "s = sg")
    case False
    then have "s \<in> set (mf_segments m)" using that by simp
    then have "sg_id s \<le> mf_generation m" "verify_segment lib key f s = Inr ()" using ids by blast+
    then show ?thesis using verify_segment_files [OF files, of s lib key] by simp
  qed (simp add: vsg)
  have "\<forall>s \<in> set (mf_garbage P). verify_segment lib key f' s = Inr ()" 
  proof
    fix s assume "s \<in> set (mf_garbage P)"
    then have "s \<in> set (mf_segments m @ [sg])" unfolding segs by (rule in_set_takeD)
    then show "verify_segment lib key f' s = Inr ()" by (rule vs)
  qed
  moreover have "\<forall>e \<in> set (af_segments f'). fst e \<in> known_ids P"
  proof
    fix e assume "e \<in> set (af_segments f')"
    then have "e = (mf_generation m + 1, af_active f) \<or> e \<in> set (af_segments f)"
      using set_binsert [of "mf_generation m + 1" "af_active f" "af_segments f"] by (auto simp: f')
    then have "fst e = mf_generation m + 1 \<or> fst e \<in> known_ids m" using sound_archive [OF s(1)] by fastforce
    then show "fst e \<in> known_ids P" by (auto simp: known sg)
  qed
  ultimately have ar: "archive_ok lib key f' P" using s(1) by (simp add: archive_ok_def audit_sound_def f')
  have "active_ok lib key (af_active f') P fr" using act(2) fr P'(3) by (simp add: active_ok_def f' sg)
  moreover have "encodable lib key (P\<lparr>mf_pending := None\<rparr>)" "encodable lib key (P\<lparr>mf_pending := None, mf_garbage := []\<rparr>)"
    using e by (auto simp: manifest_shrinks_def)
  moreover have "mf_generation P + 1 < u64_bound" using g P'(2) by (simp add: sg)
  ultimately show "audit_sound lib key f' P fr" using mo ar by (simp add: audit_sound_def)
  show "mf_pending P = Some sg" by (rule P'(3))
qed


lemma collect_nothing: "mf_garbage (at_manifest (snd w)) = [] \<Longrightarrow> collect_garbage lib io key w = (w, Inr ())"
  by (simp add: collect_garbage_def)

lemma writer_ok_active: "writer_ok lib key w \<Longrightarrow> writer_ok lib key (on_files (\<lambda>f. f\<lparr>af_active := g f\<rparr>) w)"
  by (simp add: writer_ok_def on_files_def manifest_on_def staging_ok_def)

lemma rotate_result:
  assumes laws: "audit_laws lib" "manifest_shrinks lib key" and h: "audit_holds lib key w fr"
    and g: "mf_generation (at_manifest (snd w)) + 2 < u64_bound" and ro: "rotate lib io key fr w = (w', r)"
  shows "audit_image lib key (fst w') fr \<and>
    (r = Inr () \<longrightarrow> audit_holds lib key w' fr \<and> af_active (fst w') = [] \<and> at_config (snd w') = at_config (snd w))"
proof -
  let ?m = "at_manifest (snd w)" and ?f = "fst w"
  have w: "writer_ok lib key w" and s: "audit_sound lib key ?f ?m fr" "mf_pending ?m = None" "mf_garbage ?m = []"
    and c: "audit_config_ok (at_config (snd w))" using h by (auto simp: audit_holds_def)
  note act = sound_active [OF s(1,2)]
  let ?sg = "\<lparr>sg_id = mf_generation ?m + 1, sg_length = length (af_active ?f), sg_digest = audit_sha256 lib (af_active ?f),
        sg_start = active_start ?m, sg_end = fr\<rparr>"
  show ?thesis
  proof (cases "io [0] = IoDone \<and> fr_sequence (active_start ?m) < fr_sequence fr")
    case False
    then have "w' = w \<and> r \<noteq> Inr ()"
      using ro act s(3) by (auto simp: rotate_def sys_call_id collect_nothing Let_def not_less split: if_splits)
    then show ?thesis using audit_holds_image [OF h] by simp
  next
    case True
    then have io: "io [0] = IoDone" and q: "fr_sequence (active_start ?m) < fr_sequence fr" by auto
    define P where "P = retire_segments (ac_retained_segments (at_config (snd w)))
           (?m\<lparr>mf_generation := sg_id ?sg, mf_segments := mf_segments ?m @ [?sg], mf_pending := Some ?sg\<rparr>)"
    obtain w1 r1 where a: "archive_segment (sub_io 2 io) (mf_generation ?m + 1) (af_active ?f) w = (w1, r1)"
      by (cases "archive_segment (sub_io 2 io) (mf_generation ?m + 1) (af_active ?f) w") auto
    obtain b where b: "prefix b (af_active ?f)" "snd w1 = snd w"
        "fst w1 = ?f \<or> fst w1 = ?f\<lparr>af_segments := binsert (mf_generation ?m + 1) b (af_segments ?f)\<rparr>"
        "r1 = Inr () \<longrightarrow> fst w1 = ?f\<lparr>af_segments := binsert (mf_generation ?m + 1) (af_active ?f) (af_segments ?f)\<rparr>"
      by (rule archive_result [OF s a])
    have ne: "af_active ?f \<noteq> []" using act(1) q by (auto simp: verify_audit_from_def)
    have s1: "audit_sound lib key (fst w1) ?m fr" using b(3) s sound_orphan [OF s ne b(1)] by auto
    have w1: "writer_ok lib key w1" using w b(2,3) by (auto simp: writer_ok_def manifest_on_def staging_ok_def)
    have u: "rotate lib io key fr w =
        sbind (w1, r1) (\<lambda>w _.
        sbind (audit_publish lib (sub_io 3 io) key (retire_segments (ac_retained_segments (at_config (snd w)))
           ((at_manifest (snd w))\<lparr>mf_generation := sg_id ?sg, mf_segments := mf_segments (at_manifest (snd w)) @ [?sg], mf_pending := Some ?sg\<rparr>)) w) (\<lambda>w _.
        sbind (sys_call (io [4]) (\<lambda>f. f\<lparr>af_active := []\<rparr>) w) (\<lambda>w _.
        sbind (audit_publish lib (sub_io 5 io) key ((at_manifest (snd w))\<lparr>mf_pending := None\<rparr>) w) (\<lambda>w _.
        collect_garbage lib (sub_io 6 io) key w))))"
    proof -
      have "checked_add64 (mf_generation ?m) 1 = Some (mf_generation ?m + 1)" using g by (simp add: checked_add64_def)
      then have "rbind (verify_audit_from lib key (af_active ?f) (active_start ?m)) (\<lambda>observed.
         if observed \<noteq> fr \<or> fr_sequence fr \<le> fr_sequence (active_start ?m)
         then Inl ''audit rotation frontier disagrees with active chain''
         else
           rbind (audit_read_bounded MAX_SEGMENT_BYTES (af_active ?f)) (\<lambda>bytes.
           rbind (ok_or (checked_add64 (mf_generation ?m) 1) ''audit generation exhausted'') (\<lambda>i.
           Inr (bytes, \<lparr>sg_id = i, sg_length = length bytes, sg_digest = audit_sha256 lib bytes, sg_start = active_start ?m, sg_end = fr\<rparr>)))) =
         Inr (af_active ?f, ?sg)"
        using act q by (simp add: audit_read_bounded_def del: One_nat_def)
      then show ?thesis
        by (simp only: rotate_def sys_call_id io if_True simp_thms sbind_simps collect_nothing [OF s(3)] Let_def prod.case segment.select_convs a)
    qed
    show ?thesis
    proof (cases r1)
      case (Inl e)
      then have "w' = w1" "r = Inl e" using ro u by auto
      then show ?thesis using s1 w1 b(2) by (auto simp: audit_image_def writer_ok_def)
    next
      case (Inr x)
      have f1: "fst w1 = ?f\<lparr>af_segments := binsert (mf_generation ?m + 1) (af_active ?f) (af_segments ?f)\<rparr>" using b(4) Inr by simp
      obtain w2 r2 where p2: "audit_publish lib (sub_io 3 io) key P w1 = (w2, r2)" by (cases "audit_publish lib (sub_io 3 io) key P w1") auto
      note pr2 = audit_publish_result [OF laws(1) w1 p2]
      have snd: "audit_sound lib key (fst w1) P fr" "mf_pending P = Some ?sg" if "encodable lib key P"
        by (rule sound_rotated [OF s g q audit_config_okD(2,3) [OF c] refl P_def f1 that laws(2)])+
      have u2: "rotate lib io key fr w =
          sbind (w2, r2) (\<lambda>w _.
          sbind (sys_call (io [4]) (\<lambda>f. f\<lparr>af_active := []\<rparr>) w) (\<lambda>w _.
          sbind (audit_publish lib (sub_io 5 io) key ((at_manifest (snd w))\<lparr>mf_pending := None\<rparr>) w) (\<lambda>w _.
          collect_garbage lib (sub_io 6 io) key w)))"
        unfolding u Inr sbind_simps b(2) P_def [symmetric] p2 by (rule refl)
      have s2: "audit_sound lib key (fst w2) ?m fr" "encodable lib key P \<Longrightarrow> audit_sound lib key (fst w2) P fr"
        using sound_same_data [OF pr2(1)] s1 snd(1) by blast+
      have img2: "audit_image lib key (fst w2) fr" using pr2(2,3) s2 b(2) by (auto simp: audit_image_def)
      show ?thesis
      proof (cases r2)
        case (Inl e)
        then have "w' = w2" "r = Inl e" using ro u2 by auto
        then show ?thesis using img2 by auto
      next
        case (Inr y)
        then have "r2 = Inr ()" by simp
        note pw2 = pr2(4) [OF this]
        then have e: "encodable lib key P" and m2: "at_manifest (snd w2) = P" and cf2: "at_config (snd w2) = at_config (snd w)" using b(2) by auto
        note pend = snd(2) [OF e]
        let ?w3 = "on_files (\<lambda>f. f\<lparr>af_active := []\<rparr>) w2"
        have s3: "audit_sound lib key (fst ?w3) P fr" "audit_sound lib key (fst ?w3) (P\<lparr>mf_pending := None\<rparr>) fr"
          using sound_completed [OF s2(2) [OF e] pend] by (simp_all add: on_files_def)
        have w3: "writer_ok lib key ?w3" by (rule writer_ok_active) (use pw2 in blast)
        have img3: "audit_image lib key (fst ?w3) fr" using w3 s3(1) m2 by (auto simp: audit_image_def writer_ok_def on_files_def)
        show ?thesis
        proof (cases "io [4]")
          case (IoFailed k)
          then have "w' = (if k = 0 then w2 else ?w3)" "r \<noteq> Inr ()" using ro u2 Inr by (auto simp: sys_call_def)
          then show ?thesis using img2 img3 by auto
        next
          case IoDone
          obtain w4 r4 where p4: "audit_publish lib (sub_io 5 io) key (P\<lparr>mf_pending := None\<rparr>) ?w3 = (w4, r4)"
            by (cases "audit_publish lib (sub_io 5 io) key (P\<lparr>mf_pending := None\<rparr>) ?w3") auto
          note pr4 = audit_publish_result [OF laws(1) w3 p4]
          have u4: "rotate lib io key fr w = sbind (w4, r4) (\<lambda>w _. collect_garbage lib (sub_io 6 io) key w)"
            using u2 Inr IoDone p4 m2 by (simp add: sys_call_def on_files_def)
          have s4: "audit_sound lib key (fst w4) P fr" "audit_sound lib key (fst w4) (P\<lparr>mf_pending := None\<rparr>) fr"
            using sound_same_data [OF pr4(1)] s3 by blast+
          have img4: "audit_image lib key (fst w4) fr" using pr4(2,3) s4 m2 by (auto simp: audit_image_def on_files_def)
          have a4: "af_active (fst w4) = []" using pr4(1) by (simp add: same_data_def on_files_def)
          show ?thesis
          proof (cases r4)
            case (Inl e)
            then have "w' = w4" "r = Inl e" using ro u4 by auto
            then show ?thesis using img4 by auto
          next
            case (Inr z)
            then have "r4 = Inr ()" by simp
            note pw4 = pr4(4) [OF this]
            have cg: "collect_garbage lib (sub_io 6 io) key w4 = (w', r)" using ro u4 Inr by simp
            have m4: "at_manifest (snd w4) = P\<lparr>mf_pending := None\<rparr>" "at_config (snd w4) = at_config (snd w)"
              using pw4 cf2 by (simp_all add: on_files_def)
            note cr = collect_garbage_result [OF laws(1) conjunct1 [OF pw4] _ _ cg, of fr, unfolded m4(1)]
            have "audit_image lib key (fst w') fr" "af_active (fst w') = []" using cr(1,2) s4(2) a4 by auto
            moreover have "audit_holds lib key w' fr \<and> at_config (snd w') = at_config (snd w)" if "r = Inr ()"
              using cr(3) [OF s4(2) _ that] m4(2) c by (auto simp: audit_holds_def)
            ultimately show ?thesis by blast
          qed
        qed
      qed
    qed
  qed
qed


section \<open>Events\<close>

lemma before_append_result:
  assumes laws: "audit_laws lib" "manifest_shrinks lib key" and h: "audit_holds lib key w fr"
    and g: "mf_generation (at_manifest (snd w)) + 2 < u64_bound" and b: "before_append lib io key added fr w = (w', r)"
  shows "audit_image lib key (fst w') fr \<and>
    (r = Inr () \<longrightarrow> audit_holds lib key w' fr \<and> length (af_active (fst w')) + added \<le> ac_segment_bytes (at_config (snd w')) \<and>
       at_config (snd w') = at_config (snd w))"
proof (cases "io [0] = IoDone \<and> added \<le> ac_segment_bytes (at_config (snd w)) \<and>
    \<not> is_some_and (checked_add64 (length (af_active (fst w))) added) (\<lambda>n. n \<le> ac_segment_bytes (at_config (snd w)))")
  case True
  then have "rotate lib (sub_io 1 io) key fr w = (w', r)" using b by (simp add: before_append_def sys_call_id Let_def)
  from rotate_result [OF laws h g this] show ?thesis using True by auto
next
  case False
  then have "w' = w" "r = Inr () \<Longrightarrow> length (af_active (fst w)) + added \<le> ac_segment_bytes (at_config (snd w))"
    using b by (auto simp: before_append_def sys_call_id Let_def is_some_and_def checked_add64_def split: if_splits option.splits)
  then show ?thesis using audit_holds_image [OF h] h by auto
qed

lemma holds_append:
  assumes h: "audit_holds lib key w fr" and l: "line_ok l" "verify_records lib key [l] fr = Inr fr'"
    and len: "length (af_active (fst w)) + length (l @ [10]) \<le> ac_segment_bytes (at_config (snd w))"
  shows "audit_holds lib key (on_files (\<lambda>f. f\<lparr>af_active := af_active f @ l @ [10]\<rparr>) w) fr'"
proof -
  let ?m = "at_manifest (snd w)" and ?f = "(fst w)\<lparr>af_active := af_active (fst w) @ l @ [10]\<rparr>"
  have s: "audit_sound lib key (fst w) ?m fr" "mf_pending ?m = None" "mf_garbage ?m = []" and c: "audit_config_ok (at_config (snd w))"
    and w: "writer_ok lib key w" using h by (auto simp: audit_holds_def)
  have "manifest_ok lib key (fst w) ?m" using s(1) by (simp add: audit_sound_def)
  then have mo: "manifest_ok lib key ?f ?m" by (rule manifest_ok_files) simp
  obtain ls where ls: "af_active (fst w) = unlines ls" "\<forall>l \<in> set ls. line_ok l" "verify_records lib key ls (active_start ?m) = Inr fr"
    using s(1,2) by (auto simp: audit_sound_def active_ok_def)
  have "verify_records lib key (ls @ [l]) (active_start ?m) = Inr fr'"
    using ls(3) l(2) by (simp only: verify_records_append rbind_simps)
  moreover have "af_active ?f = unlines (ls @ [l])" using ls(1) by simp
  moreover have "\<forall>x \<in> set (ls @ [l]). line_ok x" using ls(2) l(1) by auto
  moreover have "length (af_active ?f) \<le> MAX_SEGMENT_BYTES" using len audit_config_okD(1) [OF c] by simp
  ultimately have ao: "active_ok lib key (af_active ?f) ?m fr'" unfolding active_ok_def s(2) option.case by blast
  have "\<forall>e \<in> set (af_segments ?f). fst e \<in> known_ids ?m \<or>
      mf_pending ?m = None \<and> fst e = mf_generation ?m + 1 \<and> af_active ?f \<noteq> [] \<and> prefix (snd e) (af_active ?f)"
  proof
    fix e assume "e \<in> set (af_segments ?f)"
    then have "e \<in> set (af_segments (fst w))" by simp
    from sound_archive [OF s(1) this] show "fst e \<in> known_ids ?m \<or>
      mf_pending ?m = None \<and> fst e = mf_generation ?m + 1 \<and> af_active ?f \<noteq> [] \<and> prefix (snd e) (af_active ?f)"
      by (auto intro: prefix_prefix)
  qed
  then have "archive_ok lib key ?f ?m" using s(1,3) by (simp add: audit_sound_def archive_ok_def)
  then have "audit_sound lib key ?f ?m fr'" using s mo ao by (simp add: audit_sound_def)
  then show ?thesis using w s(2,3) c writer_ok_active [OF w, of "\<lambda>f. af_active f @ l @ [10]"] by (simp add: audit_holds_def on_files_def)
qed

lemma audit_recover_torn:
  assumes h: "audit_holds lib key w fr" and t: "t \<noteq> []" "10 \<notin> set t" and io: "\<And>p. io p = IoDone"
  shows "\<exists>w' e. audit_recover lib io key ((fst w)\<lparr>af_active := af_active (fst w) @ t\<rparr>, audit_rotation_new c) = (w', Inl e)"
proof -
  let ?m = "at_manifest (snd w)" and ?f = "(fst w)\<lparr>af_active := af_active (fst w) @ t\<rparr>"
  have s: "audit_sound lib key (fst w) ?m fr" "mf_pending ?m = None" "mf_garbage ?m = []"
    and w: "writer_ok lib key w" using h by (auto simp: audit_holds_def)
  define w1 where "w1 = (?f, (audit_rotation_new c)\<lparr>at_manifest := ?m, at_manifest_exists := (af_manifest (fst w) \<noteq> None)\<rparr>)"
  have load: "(case af_manifest ?f of
              None \<Rightarrow> ((?f, audit_rotation_new c), Inr ())
            | Some content \<Rightarrow>
                sbind ((?f, audit_rotation_new c), decode_manifest lib key content) (\<lambda>w m.
                ((fst w, (snd w)\<lparr>at_manifest := m, at_manifest_exists := True\<rparr>), Inr ()))) = (w1, Inr ())"
    using w by (auto simp: w1_def writer_ok_def manifest_on_def audit_rotation_new_def split: option.splits)
  have "manifest_ok lib key ?f ?m" by (rule manifest_ok_files [of lib key "fst w"]) (use s(1) in \<open>simp_all add: audit_sound_def\<close>)
  then have vm: "verify_manifest lib key w1 = Inr ()" by (simp add: verify_manifest_iff w1_def)
  obtain w2 r2 where d: "discard_staging (sub_io 1 io) w1 = (w2, r2)" by (cases "discard_staging (sub_io 1 io) w1") auto
  have so: "staging_ok (fst w1)" using w by (simp add: w1_def writer_ok_def staging_ok_def)
  note dr = discard_staging_result [OF so d]
  have r2: "r2 = Inr ()" using dr(4) io by simp
  have m2: "at_manifest (snd w2) = ?m" "af_active (fst w2) = af_active (fst w) @ t" using dr(1,2) by (auto simp: w1_def)
  obtain e where "verify_audit_from lib key (af_active (fst w) @ t) (active_start ?m) = Inl e" using verify_torn [OF t] by blast
  then show ?thesis
    using load vm d r2 m2 s(2,3) by (simp add: audit_recover_def sys_call_id io complete_pending_def collect_nothing)
qed

definition audit_log_ok :: "'x audit_lib_scheme \<Rightarrow> audit_log \<Rightarrow> bool" where
  "audit_log_ok lib al \<longleftrightarrow> audit_holds lib (al_key al) (al_world al) (al_frontier al)"

abbreviation audit_generation :: "audit_log \<Rightarrow> nat" where
  "audit_generation al \<equiv> mf_generation (at_manifest (snd (al_world al)))"

lemma audit_event_cases:
  assumes laws: "audit_laws lib" "manifest_shrinks lib (al_key al)" and h: "audit_log_ok lib al" "\<not> al_failed al"
    and g: "audit_generation al + 2 < u64_bound" and a: "audit_event lib io kind fp now status al = (al', r)"
  obtains (refused) e where "encode_event lib (al_key al) (al_frontier al) kind fp now status = Inl e" "al' = al" "r = Inl e"
  | (rotating) w e where "audit_image lib (al_key al) (fst w) (al_frontier al)" "al' = al\<lparr>al_world := w, al_failed := True\<rparr>" "r = Inl e"
  | (appending) w l fr where "encode_event lib (al_key al) (al_frontier al) kind fp now status = Inr (l @ [10], fr)"
      "line_ok l" "verify_records lib (al_key al) [l] (al_frontier al) = Inr fr" "fr_sequence fr = Suc (fr_sequence (al_frontier al))"
      "audit_holds lib (al_key al) w (al_frontier al)" "at_config (snd w) = at_config (snd (al_world al))"
      "audit_holds lib (al_key al) (on_files (\<lambda>f. f\<lparr>af_active := af_active f @ l @ [10]\<rparr>) w) fr"
      "(al', r) = (case io [1] of
         IoFailed k \<Rightarrow> (al\<lparr>al_world := on_files (\<lambda>f. f\<lparr>af_active := af_active f @ take k (l @ [10])\<rparr>) w, al_failed := True\<rparr>,
                        Inl ''audit input/output error'')
       | IoDone \<Rightarrow> (al\<lparr>al_world := on_files (\<lambda>f. f\<lparr>af_active := af_active f @ l @ [10]\<rparr>) w, al_frontier := fr\<rparr>, Inr ()))"
proof (cases "encode_event lib (al_key al) (al_frontier al) kind fp now status")
  case (Inl e)
  then show ?thesis using refused [of e] a h(2) by (simp add: audit_event_def)
next
  case (Inr p)
  obtain bytes fr where p: "p = (bytes, fr)" by (cases p)
  note enc = Inr [unfolded p]
  obtain l where l: "bytes = l @ [10]" "line_ok l" "verify_records lib (al_key al) [l] (al_frontier al) = Inr fr"
      "fr_sequence fr = Suc (fr_sequence (al_frontier al))"
    by (rule encode_event_Inr [OF laws(1) enc])
  obtain w rb where b: "before_append lib (sub_io 0 io) (al_key al) (length bytes) (al_frontier al) (al_world al) = (w, rb)"
    by (cases "before_append lib (sub_io 0 io) (al_key al) (length bytes) (al_frontier al) (al_world al)") auto
  note br = before_append_result [OF laws h(1) [unfolded audit_log_ok_def] g b]
  show ?thesis
  proof (cases rb)
    case (Inl e)
    then show ?thesis using rotating [of w e] a h(2) enc b br by (simp add: audit_event_def)
  next
    case (Inr u)
    then have w: "audit_holds lib (al_key al) w (al_frontier al)" "at_config (snd w) = at_config (snd (al_world al))"
        "length (af_active (fst w)) + length (l @ [10]) \<le> ac_segment_bytes (at_config (snd w))"
      using br l(1) by auto
    have "audit_event lib io kind fp now status al = (case io [1] of
         IoFailed k \<Rightarrow> (al\<lparr>al_world := on_files (\<lambda>f. f\<lparr>af_active := af_active f @ take k (l @ [10])\<rparr>) w, al_failed := True\<rparr>,
                        Inl ''audit input/output error'')
       | IoDone \<Rightarrow> (al\<lparr>al_world := on_files (\<lambda>f. f\<lparr>af_active := af_active f @ l @ [10]\<rparr>) w, al_frontier := fr\<rparr>, Inr ()))"
      unfolding audit_event_def enc sbind_simps prod.case l(1) [symmetric] b Inr sum.case if_not_P [OF h(2)] by (rule refl)
    then show ?thesis using appending [OF enc [unfolded l(1)] l(2-4) w(1,2) holds_append [OF w(1) l(2,3) w(3)]] a by simp
  qed
qed


section \<open>The audit stream is authentic and survives interruptions\<close>

text \<open>
  C0: an event that is reported as written extends the chain by one record with the next sequence
  number and the authenticator of its predecessor, whether or not the file had to be rotated first.
  The archived segments and the active file then verify, from the start of the chain to the frontier
  that the service keeps in memory.
\<close>

theorem audit_event_appends:
  assumes "audit_laws lib" "manifest_shrinks lib (al_key al)" "audit_log_ok lib al" "audit_generation al + 2 < u64_bound"
    and "audit_event lib io kind fp now status al = (al', Inr ())"
  shows "audit_log_ok lib al' \<and>
    verify_manifest lib (al_key al) (al_world al') = Inr () \<and>
    verify_audit_from lib (al_key al) (af_active (fst (al_world al'))) (active_start (at_manifest (snd (al_world al')))) = Inr (al_frontier al') \<and>
    (\<exists>earlier line rec. af_active (fst (al_world al')) = earlier @ line @ [10] \<and> record_from_slice lib line = Some rec \<and>
       ad_event rec = \<lparr>au_schema = 2, au_sequence = Suc (fr_sequence (al_frontier al)),
         au_previous = base64_encode lib (fr_mac (al_frontier al)), au_time = now, au_kind = kind, au_path_digest = fp, au_status = status\<rparr>)"
proof -
  have nf: "\<not> al_failed al" using assms(5) by (auto simp: audit_event_def)
  from audit_event_cases [OF assms(1-3) nf assms(4,5)]
  obtain w l fr where c: "encode_event lib (al_key al) (al_frontier al) kind fp now status = Inr (l @ [10], fr)"
      "audit_holds lib (al_key al) (on_files (\<lambda>f. f\<lparr>af_active := af_active f @ l @ [10]\<rparr>) w) fr"
      "al' = al\<lparr>al_world := on_files (\<lambda>f. f\<lparr>af_active := af_active f @ l @ [10]\<rparr>) w, al_frontier := fr\<rparr>"
    by cases (auto split: io_result.splits)
  have ok: "audit_log_ok lib al'" using c(2,3) by (simp add: audit_log_ok_def)
  have s: "audit_sound lib (al_key al) (fst (al_world al')) (at_manifest (snd (al_world al'))) (al_frontier al')"
      "mf_pending (at_manifest (snd (al_world al'))) = None" using ok c(3) by (auto simp: audit_log_ok_def audit_holds_def)
  obtain rec where "record_to_vec lib rec = Some l"
      "ad_event rec = \<lparr>au_schema = 2, au_sequence = Suc (fr_sequence (al_frontier al)),
         au_previous = base64_encode lib (fr_mac (al_frontier al)), au_time = now, au_kind = kind, au_path_digest = fp, au_status = status\<rparr>"
    using c(1) by (auto simp: encode_event_def Let_def ok_or_iff checked_add64_def split: if_splits)
  moreover have "af_active (fst (al_world al')) = af_active (fst w) @ l @ [10]" using c(3) by (simp add: on_files_def)
  moreover have "verify_manifest lib (al_key al) (al_world al') = Inr ()" using s(1) by (simp add: verify_manifest_iff audit_sound_def)
  ultimately show ?thesis using ok sound_active(1) [OF s] audit_lawsD(3) [OF assms(1)] by blast
qed

text \<open>
  C0: whatever the outcome of the system calls of an event, also in the middle of a rotation, a
  restarted process that recovers the audit directory either finds the frontier from before the
  event, or the frontier after it, or refuses to start because the last record is torn. An event that
  was reported as written is never lost.
\<close>

theorem audit_crash_recovers:
  assumes "audit_laws lib" "manifest_shrinks lib (al_key al)" "audit_log_ok lib al" "\<not> al_failed al" "audit_generation al + 2 < u64_bound"
    and "audit_event lib io kind fp now status al = (al', r)"
    and "audit_recover lib (\<lambda>_. IoDone) (al_key al) (fst (al_world al'), audit_rotation_new (at_config (snd (al_world al)))) = (w, res)"
  shows "(res = Inr (al_frontier al) \<and> r \<noteq> Inr ()) \<or>
    (\<exists>bytes fr. encode_event lib (al_key al) (al_frontier al) kind fp now status = Inr (bytes, fr) \<and>
       (res = Inr fr \<and> (r = Inr () \<longrightarrow> al_frontier al' = fr) \<or>
        r \<noteq> Inr () \<and> (\<exists>k e. io [1] = IoFailed k \<and> 0 < k \<and> k < length bytes \<and> res = Inl e)))"
proof -
  let ?c = "at_config (snd (al_world al))"
  have cfg: "audit_config_ok ?c" using assms(3) by (simp add: audit_log_ok_def audit_holds_def)
  have rec: "res = Inr fr" if i: "audit_image lib (al_key al) (fst (al_world al')) fr" for fr
  proof -
    obtain w' where "audit_recover lib (\<lambda>_. IoDone) (al_key al) (fst (al_world al'), audit_rotation_new ?c) = (w', Inr fr)"
      by (rule audit_recover_image [OF assms(1) i cfg, of "\<lambda>_. IoDone"]) auto
    then show ?thesis using assms(7) by simp
  qed
  show ?thesis
  proof (cases rule: audit_event_cases [OF assms(1-6), case_names refused rotating appending])
    case (refused e)
    then show ?thesis using rec [of "al_frontier al"] audit_holds_image [OF assms(3) [unfolded audit_log_ok_def]] by simp
  next
    case (rotating w e)
    then show ?thesis using rec by auto
  next
    case (appending w l fr)
    show ?thesis
    proof (cases "io [1]")
      case IoDone
      then have "al' = al\<lparr>al_world := on_files (\<lambda>f. f\<lparr>af_active := af_active f @ l @ [10]\<rparr>) w, al_frontier := fr\<rparr>"
        using appending(8) by simp
      then show ?thesis using rec audit_holds_image [OF appending(7)] appending(1) by auto
    next
      case (IoFailed k)
      then have al': "al' = al\<lparr>al_world := on_files (\<lambda>f. f\<lparr>af_active := af_active f @ take k (l @ [10])\<rparr>) w, al_failed := True\<rparr>" "r \<noteq> Inr ()"
        using appending(8) by auto
      consider "k = 0" | "0 < k" "k < length (l @ [10])" | "length (l @ [10]) \<le> k" by linarith
      then show ?thesis
      proof cases
        case 1
        then have "fst (al_world al') = fst w" using al'(1) by (cases "fst w") (simp add: on_files_def)
        then show ?thesis using rec [of "al_frontier al"] audit_holds_image [OF appending(5)] al'(2) by simp
      next
        case 2
        then have t: "take k (l @ [10]) = take k l" "take k l \<noteq> []" "10 \<notin> set (take k l)"
          using appending(2) by (auto simp: line_ok_def dest: in_set_takeD)
        have "\<exists>w' e. audit_recover lib (\<lambda>_. IoDone) (al_key al) ((fst w)\<lparr>af_active := af_active (fst w) @ take k l\<rparr>, audit_rotation_new ?c) = (w', Inl e)"
          by (rule audit_recover_torn [OF appending(5) t(2,3)]) simp
        then obtain e where "res = Inl e" using assms(7) al'(1) t(1) by (auto simp: on_files_def)
        then show ?thesis using appending(1) al'(2) IoFailed 2 by blast
      next
        case 3
        then have "al_world al' = on_files (\<lambda>f. f\<lparr>af_active := af_active f @ l @ [10]\<rparr>) w" using al'(1) by simp
        then show ?thesis using rec [of fr] audit_holds_image [OF appending(7)] appending(1) al'(2) by auto
      qed
    qed
  qed
qed

section \<open>A concrete instance\<close>

definition sample_mac :: "byte list" where
  "sample_mac = replicate 32 7"

definition sample_audit_event :: "nat \<Rightarrow> byte list \<Rightarrow> audit_unsigned" where
  "sample_audit_event n previous = \<lparr>au_schema = 2, au_sequence = n, au_previous = map char_of_byte previous, au_time = 0,
     au_kind = ''request'', au_path_digest = [], au_status = None\<rparr>"

definition sample_line :: "byte list" where
  "sample_line = replicate 4095 1"

lemma sample_line_ok: "length sample_line = 4095" "line_ok sample_line" "sample_line \<noteq> [2]"
proof -
  show l: "length sample_line = 4095" by (simp add: sample_line_def)
  have "set sample_line \<subseteq> {1}" by (simp add: sample_line_def set_replicate_conv_if)
  moreover have "sample_line \<noteq> []" using l by auto
  ultimately show "line_ok sample_line" by (auto simp: line_ok_def)
  show "sample_line \<noteq> [2]"
  proof
    assume "sample_line = [2]"
    then have "length sample_line = length [2 :: byte]" by (rule arg_cong)
    with l show False by simp
  qed
qed

definition sample_records :: "(audit_record \<times> byte list) list" where
  "sample_records =
     [(\<lparr>ad_event = sample_audit_event 1 (replicate 32 0), ad_mac = map char_of_byte sample_mac\<rparr>, sample_line),
      (\<lparr>ad_event = sample_audit_event 2 sample_mac, ad_mac = map char_of_byte sample_mac\<rparr>, [2])]"

definition sample_audit_lib :: audit_lib where
  "sample_audit_lib =
     \<lparr>hmac_sign = (\<lambda>_ _ _. sample_mac), base64_encode = map char_of_byte, base64_decode = (\<lambda>s. Some (bytes_of_string s)),
      aead_key_ok = (\<lambda>_ _. True), aead_seal = (\<lambda>_ _ _ _ p. Some p), aead_open = (\<lambda>_ _ _ _ p. Some p),
      ed25519_generate = (\<lambda>b. Some b), ed25519_public = (\<lambda>b. Some b), ed25519_sign = (\<lambda>_ m. m), ed25519_verify = (\<lambda>_ _ _. True),
      sha_digest = (\<lambda>_ b. b), json_tuple = (\<lambda>_ b. b), base64url_encode = map char_of_byte,
      base64url_decode = (\<lambda>s. Some (bytes_of_string s)), pbkdf2_derive = (\<lambda>_ _ b. b), pbkdf2_verify = (\<lambda>_ _ _ _. True),
      ecdsa_p256_verify = (\<lambda>_ _ _. True), json_parse = (\<lambda>_. None), json_parse_string = (\<lambda>s. Some s), json_print = (\<lambda>_. []),
      event_to_vec = (\<lambda>_. Some []), record_to_vec = map_of sample_records,
      record_from_slice = map_of (map prod.swap sample_records), manifest_to_vec = (\<lambda>_. Some []),
      signed_to_vec = (\<lambda>x. if x = (manifest_empty, map char_of_byte sample_mac) then Some [3] else None),
      signed_from_slice = (\<lambda>b. if b = [3] then Some (manifest_empty, map char_of_byte sample_mac) else None)\<rparr>"

lemma sample_audit_laws: "audit_laws sample_audit_lib" "manifest_shrinks sample_audit_lib key"
proof -
  have inv: "byte_of_char \<circ> char_of_byte = id" by (simp add: fun_eq_iff)
  have ne: "sample_audit_event 1 (replicate 32 0) \<noteq> sample_audit_event 2 sample_mac" by (simp add: sample_audit_event_def)
  show "audit_laws sample_audit_lib"
    using ne sample_line_ok
    by (auto simp: audit_laws_def sample_audit_lib_def inv sample_mac_def sample_records_def split: if_splits) (auto simp: line_ok_def)
  show "manifest_shrinks sample_audit_lib key"
    by (auto simp: manifest_shrinks_def encodable_def sample_audit_lib_def manifest_empty_def)
qed

definition sample_log :: "byte list \<Rightarrow> frontier \<Rightarrow> audit_log" where
  "sample_log active fr =
     \<lparr>al_world = (\<lparr>af_active = active, af_manifest = None, af_staging = None, af_segments = []\<rparr>,
                 audit_rotation_new \<lparr>ac_segment_bytes = 4096, ac_retained_segments = 2\<rparr>),
      al_key = [], al_frontier = fr, al_failed = False\<rparr>"

definition sample_fr :: frontier where
  "sample_fr = \<lparr>fr_sequence = 1, fr_mac = sample_mac\<rparr>"

lemma sample_config_ok: "audit_config_ok \<lparr>ac_segment_bytes = 4096, ac_retained_segments = 2\<rparr>"
  by (simp add: audit_config_ok_def audit_config_validate_def MAX_SEGMENT_BYTES_def)

lemma sample_encoded:
  "encode_event sample_audit_lib [] frontier_default ''request'' [] 0 None = Inr (sample_line @ [10], sample_fr)"
  by (simp add: encode_event_def frontier_default_def sample_audit_lib_def Let_def checked_add64_def sample_records_def
      sample_audit_event_def sample_fr_def)

lemma sample_log_ok:
  "audit_log_ok sample_audit_lib (sample_log [] frontier_default)"
  "audit_log_ok sample_audit_lib (sample_log (sample_line @ [10]) sample_fr)"
proof -
  obtain l where l: "sample_line @ [10] = l @ [10]" "line_ok l" "verify_records sample_audit_lib [] [l] frontier_default = Inr sample_fr"
    by (rule encode_event_Inr [OF sample_audit_laws(1) sample_encoded]) blast
  have start: "active_start manifest_empty = frontier_default" by (simp add: active_start_def manifest_empty_def)
  have m: "manifest_ok lib [] f manifest_empty" for lib :: audit_lib and f by (simp add: manifest_ok_def manifest_empty_def)
  have a0: "active_ok sample_audit_lib [] [] manifest_empty frontier_default"
    by (auto simp: active_ok_def manifest_empty_def active_start_def intro: exI [of _ "[]"])
  have "sample_line @ [10] = unlines [l]" "length (sample_line @ [10]) \<le> MAX_SEGMENT_BYTES" using l(1) sample_line_ok(1) by (simp_all add: MAX_SEGMENT_BYTES_def)
  then have a1: "active_ok sample_audit_lib [] (sample_line @ [10]) manifest_empty sample_fr"
    unfolding active_ok_def start using l(2,3) by (auto simp: manifest_empty_def intro!: exI [of _ "[l]"])
  have r: "at_manifest (audit_rotation_new c) = manifest_empty" "at_config (audit_rotation_new c) = c"
      "at_manifest_exists (audit_rotation_new c) = False" for c by (simp_all add: audit_rotation_new_def)
  show "audit_log_ok sample_audit_lib (sample_log [] frontier_default)"
    using a0 m sample_config_ok
    by (simp add: audit_log_ok_def audit_holds_def sample_log_def r writer_ok_def manifest_on_def staging_ok_def audit_sound_def archive_ok_def)
      (simp add: manifest_empty_def)
  show "audit_log_ok sample_audit_lib (sample_log (sample_line @ [10]) sample_fr)"
    using a1 m sample_config_ok
    by (simp add: audit_log_ok_def audit_holds_def sample_log_def r writer_ok_def manifest_on_def staging_ok_def audit_sound_def archive_ok_def)
      (simp add: manifest_empty_def)
qed

lemma sample_generation: "audit_generation (sample_log active fr) + 2 < u64_bound"
  by (simp add: sample_log_def audit_rotation_new_def manifest_empty_def)

theorem audit_event_appends_witness:
  "audit_event sample_audit_lib (\<lambda>_. IoDone) ''request'' [] 0 None (sample_log [] frontier_default) =
     (sample_log (sample_line @ [10]) sample_fr, Inr ()) \<and>
   verify_audit_from sample_audit_lib [] (sample_line @ [10]) frontier_default = Inr sample_fr"
proof -
  have e: "audit_event sample_audit_lib (\<lambda>_. IoDone) ''request'' [] 0 None (sample_log [] frontier_default) =
     (sample_log (sample_line @ [10]) sample_fr, Inr ())"
    by (simp add: audit_event_def sample_log_def sample_encoded before_append_def sys_call_id Let_def is_some_and_def checked_add64_def
        sample_line_ok(1) on_files_def audit_rotation_new_def)
  from audit_event_appends [OF sample_audit_laws sample_log_ok(1) sample_generation e] e show ?thesis
    by (simp add: sample_log_def active_start_def audit_rotation_new_def manifest_empty_def)
qed

theorem audit_crash_recovers_witness:
  "\<exists>al' r w res.
     audit_event sample_audit_lib (\<lambda>p. if p = [0, 1, 2, 0] then IoFailed 5 else IoDone) ''request'' [] 0 None
       (sample_log (sample_line @ [10]) sample_fr) = (al', r) \<and>
     audit_recover sample_audit_lib (\<lambda>_. IoDone) [] (fst (al_world al'), audit_rotation_new \<lparr>ac_segment_bytes = 4096, ac_retained_segments = 2\<rparr>) = (w, res) \<and>
     (res = Inr sample_fr \<and> r \<noteq> Inr () \<or>
      (\<exists>bytes fr. encode_event sample_audit_lib [] sample_fr ''request'' [] 0 None = Inr (bytes, fr) \<and> res = Inr fr))"
proof -
  let ?al = "sample_log (sample_line @ [10]) sample_fr" and ?io = "\<lambda>p. if p = [0, 1, 2, 0] then IoFailed 5 else IoDone"
  obtain al' r where e: "audit_event sample_audit_lib ?io ''request'' [] 0 None ?al = (al', r)"
    by (cases "audit_event sample_audit_lib ?io ''request'' [] 0 None ?al") auto
  obtain w res where c: "audit_recover sample_audit_lib (\<lambda>_. IoDone) (al_key ?al) (fst (al_world al'), audit_rotation_new (at_config (snd (al_world ?al)))) = (w, res)"
    by (cases "audit_recover sample_audit_lib (\<lambda>_. IoDone) (al_key ?al) (fst (al_world al'), audit_rotation_new (at_config (snd (al_world ?al))))") auto
  have n: "\<not> al_failed ?al" by (simp add: sample_log_def)
  have s: "al_key ?al = []" "al_frontier ?al = sample_fr" "at_config (snd (al_world ?al)) = \<lparr>ac_segment_bytes = 4096, ac_retained_segments = 2\<rparr>"
    by (simp_all add: sample_log_def audit_rotation_new_def)
  from audit_crash_recovers [OF sample_audit_laws sample_log_ok(2) n sample_generation e c] e c show ?thesis
    unfolding s by (auto split: if_splits)
qed

end
