(* ===== verification/Server_Base.thy ===== *)
theory Server_Base
  imports Auth Engines Durable_Correct Audit_Stream
begin

text \<open>
  The data of the server process of \<^verbatim>\<open>crates/heptabao-server/src/service.rs\<close> and the
  functions that do not need the service: the seal metadata and its files, the collection of unseal
  shares, the checks on names and paths, and the encodings.

  The data directory is the record \<open>data_dir\<close>: the three files of the durable service, the
  seal metadata, the pending rekey and the initialization recovery file. What a request takes from
  outside is the record \<open>server_env\<close>: the random source, the outcome of every write and of
  every permission check, and what the calls to the HA process return. Serializers of
  \<^verbatim>\<open>serde_json\<close> for the structures of the server are parameters of \<open>server_lib\<close>.
\<close>

section \<open>Structures\<close>

record seal_metadata =
  sm_schema :: nat
  sm_generation :: nat
  sm_share_format :: string
  sm_secret_shares :: byte
  sm_secret_threshold :: byte
  sm_wrapped_barrier_key :: string

record pending_rekey_metadata =
  pm_schema :: nat
  pm_active_generation :: nat
  pm_nonce :: string
  pm_verification_nonce :: string
  pm_candidate :: seal_metadata

record rekey_state =
  ry_nonce :: string
  ry_new_shares :: byte
  ry_new_threshold :: byte
  ry_require_verification :: bool
  ry_provided :: "(byte, secret_share) bmap"
  ry_verification :: "pending_rekey_metadata option"
  ry_verification_provided :: "(byte, secret_share) bmap"

record server_state =
  ss_schema :: nat
  ss_cluster_id :: string
  ss_auth :: auth_state
  ss_engines :: engine_state

record server_response =
  rs_status :: nat
  rs_body :: json

record server_lib = audit_lib +
  state_to_vec :: "server_state \<Rightarrow> byte list option"
  state_from_slice :: "byte list \<Rightarrow> server_state option"
  seal_to_vec :: "seal_metadata \<Rightarrow> byte list option"
  seal_from_slice :: "byte list \<Rightarrow> seal_metadata option"
  pending_to_vec :: "pending_rekey_metadata \<Rightarrow> byte list option"
  pending_from_slice :: "byte list \<Rightarrow> pending_rekey_metadata option"
  value_to_vec :: "json \<Rightarrow> byte list option"
  value_from_slice :: "byte list \<Rightarrow> json option"
  barrier_nonce :: "nat \<Rightarrow> rng"

text \<open>
  What the methods of the HA process return during one request; the lock of its mutex is numbered by
  the place that takes it.
\<close>

record ha_calls =
  ha_lock :: "nat \<Rightarrow> bool"
  ha_leader :: "nat option option"
  ha_local_id :: "nat option"
  ha_is_leader :: "bool option"
  ha_linearizable :: bool
  ha_cluster_id :: string
  ha_forward :: "string \<Rightarrow> string \<Rightarrow> string \<Rightarrow> string \<Rightarrow> json \<Rightarrow> server_response option"
  ha_trigger_snapshot :: bool
  ha_commit_state :: "string \<Rightarrow> byte list \<Rightarrow> byte list \<Rightarrow> string + unit"
  ha_latest_committed_state :: "(byte list \<times> byte list) option option"

text \<open>
  Labels distinguish the calls of one request: random draws, operations of the durable service with
  their writes, writes of the server's own files, permission checks and audit events.
\<close>

record server_env =
  env_fill :: entropy
  env_nonce :: nat
  env_io :: "nat \<Rightarrow> nat \<Rightarrow> io_result"
  env_guard :: "nat \<Rightarrow> directory_guard_error + unit"
  env_files :: "nat \<Rightarrow> io_result"
  env_private :: "nat \<Rightarrow> bool"
  env_audit :: "nat \<Rightarrow> io_trace"
  env_ha :: ha_calls

record data_dir =
  dd_present :: bool
  dd_durable :: disk
  dd_seal :: "byte list option"
  dd_pending :: "byte list option"
  dd_recovery :: "byte list option"

definition MAX_STATE_BYTES :: nat where
  "MAX_STATE_BYTES = 768 * 1024"

definition MAX_OPERATIONS :: nat where
  "MAX_OPERATIONS = 32000"

definition MAX_SEAL_SHARES :: byte where
  "MAX_SEAL_SHARES = 16"

definition SEAL_METADATA_LIMIT :: nat where
  "SEAL_METADATA_LIMIT = 64 * 1024"

definition REKEY_METADATA_LIMIT :: nat where
  "REKEY_METADATA_LIMIT = 96 * 1024"

definition INIT_RECOVERY_LIMIT :: nat where
  "INIT_RECOVERY_LIMIT = 16 * 1024"

definition MAX_BACKUP_TRANSFER_BYTES :: nat where
  "MAX_BACKUP_TRANSFER_BYTES = 20 * 1024 * 1024"

definition response_error :: "nat \<Rightarrow> string \<Rightarrow> server_response" where
  "response_error status message = \<lparr>rs_status = status, rs_body = json_object [(''errors'', JArr [JStr message])]\<rparr>"

definition response_ok :: "json \<Rightarrow> server_response" where
  "response_ok body = \<lparr>rs_status = 200, rs_body = body\<rparr>"

definition no_content :: server_response where
  "no_content = \<lparr>rs_status = 204, rs_body = JNull\<rparr>"

text \<open>A handler whose early returns are on the left.\<close>

definition finish :: "'s \<times> ('r + 'r) \<Rightarrow> 's \<times> 'r" where
  "finish r = (fst r, case snd r of Inl resp \<Rightarrow> resp | Inr resp \<Rightarrow> resp)"

definition put_or_post :: "string \<Rightarrow> bool" where
  "put_or_post m = (m = ''PUT'' \<or> m = ''POST'')"

section \<open>Encodings\<close>

definition hex :: "byte list \<Rightarrow> string" where
  "hex bytes = concat (map hex_pair bytes)"

definition hex_digit :: "char \<Rightarrow> nat option" where
  "hex_digit c =
     (if is_ascii_digit c then Some (byte_of c - 48)
      else if 97 \<le> byte_of c \<and> byte_of c \<le> 102 then Some (byte_of c - 87)
      else if 65 \<le> byte_of c \<and> byte_of c \<le> 70 then Some (byte_of c - 55)
      else None)"

text \<open>\<^verbatim>\<open>u8::from_str_radix(s, 16)\<close> on two bytes: a leading plus sign is accepted.\<close>

definition u8_from_hex :: "char \<Rightarrow> char \<Rightarrow> byte option" where
  "u8_from_hex a b =
     (if a = CHR ''+'' then map_option word_of_nat (hex_digit b)
      else Option.bind (hex_digit a) (\<lambda>high. map_option (\<lambda>low. word_of_nat (16 * high + low)) (hex_digit b)))"

fun decode_hex :: "string \<Rightarrow> byte list option" where
  "decode_hex [] = Some []"
| "decode_hex [_] = None"
| "decode_hex (a # b # rest) =
     Option.bind (u8_from_hex a b) (\<lambda>x. map_option (\<lambda>xs. x # xs) (decode_hex rest))"

definition sub_fill :: "nat \<Rightarrow> entropy \<Rightarrow> entropy" where
  "sub_fill k fill = (\<lambda>p. fill (k # p))"

text \<open>A source that is asked for buffers of one length, as the secret sharing and the cipher use it.\<close>

definition rng_of :: "entropy \<Rightarrow> nat \<Rightarrow> rng" where
  "rng_of fill len k = map_option (\<lambda>bytes i. bytes ! i) (fill [k] len)"

definition random_array :: "entropy \<Rightarrow> nat \<Rightarrow> nat \<Rightarrow> string + byte list" where
  "random_array fill l len = ok_or (fill [l] len) ''operating system randomness unavailable''"

definition crypto_digest :: "'x server_lib_scheme \<Rightarrow> byte list \<Rightarrow> byte list" where
  "crypto_digest lib bytes = sha_digest lib ''sha2-256'' bytes"

abbreviation aes_seal :: "'x server_lib_scheme \<Rightarrow> aead_fn" where
  "aes_seal lib \<equiv> aead_seal lib ''aes256-gcm96''"

abbreviation aes_open :: "'x server_lib_scheme \<Rightarrow> aead_fn" where
  "aes_open lib \<equiv> aead_open lib ''aes256-gcm96''"

definition barrier_new :: "'x server_lib_scheme \<Rightarrow> byte list \<Rightarrow> byte list option" where
  "barrier_new lib key = (if aead_key_ok lib ''aes256-gcm96'' key then Some key else None)"

text \<open>The durable service over the barrier with a given key.\<close>

definition server_barrier :: "'x server_lib_scheme \<Rightarrow> byte list \<Rightarrow> durable_lib" where
  "server_barrier lib key = barrier_lib (crypto_digest lib) (aes_seal lib) (aes_open lib) (barrier_nonce lib) key"

section \<open>Names and paths\<close>

definition server_valid_namespace :: "string \<Rightarrow> bool" where
  "server_valid_namespace v =
     (v = [] \<or> (length v \<le> 1024 \<and> list_all (\<lambda>s. s \<noteq> [] \<and> s \<noteq> ''.'' \<and> s \<noteq> ''..'' \<and>
        list_all (\<lambda>b. is_ascii_alphanumeric b \<or> b \<in> set ''-_.'') s) (split_on (CHR ''/'') v)))"

definition server_valid_path :: "string \<Rightarrow> bool" where
  "server_valid_path v =
     (length v \<le> 4096 \<and> \<not> contains_sub ''//'' v \<and> \<not> starts_with v ''/'' \<and>
      list_all (\<lambda>s. s \<noteq> [] \<and> s \<noteq> ''.'' \<and> s \<noteq> ''..'' \<and>
        list_all (\<lambda>b. is_ascii_alphanumeric b \<or> b \<in> set ''-_.:'') s) (split_on (CHR ''/'') (trim_end_matches v (CHR ''/''))))"

definition valid_nonce :: "string \<Rightarrow> bool" where
  "valid_nonce v = (length v = 32 \<and> list_all is_ascii_hexdigit v)"

definition valid_recovery_reference :: "string \<Rightarrow> bool" where
  "valid_recovery_reference v = (length v = 32 \<and> list_all is_ascii_hexdigit v)"

definition bounded_u8_field :: "json \<Rightarrow> string \<Rightarrow> byte \<Rightarrow> string + byte" where
  "bounded_u8_field body field dflt =
     (case json_get body field of
        None \<Rightarrow> Inr dflt
      | Some v \<Rightarrow>
          rbind (ok_or (as_u64 v) ''share configuration fields must be unsigned integers'') (\<lambda>n.
          if 255 < n then Inl ''share configuration field exceeds supported range'' else Inr (word_of_nat n)))"

text \<open>An object all of whose keys are known.\<close>

definition only_fields :: "string list \<Rightarrow> json \<Rightarrow> bool" where
  "only_fields known body = is_some_and (as_object body) (\<lambda>fields. list_all (\<lambda>f. fst f \<in> set known) fields)"

section \<open>Seal metadata\<close>

definition seal_validate :: "'x server_lib_scheme \<Rightarrow> seal_metadata \<Rightarrow> string + unit" where
  "seal_validate lib m =
     (if sm_schema m \<noteq> 1 \<or> sm_generation m = 0 \<or> \<not> (sm_share_format m = ''shamir-v1'' \<or> sm_share_format m = ''raw-v1'')
         \<or> sm_secret_shares m = 0 \<or> MAX_SEAL_SHARES < sm_secret_shares m \<or> sm_secret_threshold m = 0
         \<or> sm_secret_shares m < sm_secret_threshold m
         \<or> sm_share_format m = ''raw-v1'' \<and> (sm_secret_shares m \<noteq> 1 \<or> sm_secret_threshold m \<noteq> 1)
      then Inl ''unsupported or invalid seal metadata''
      else
        rbind (ok_or (base64_decode lib (sm_wrapped_barrier_key m)) ''invalid wrapped barrier key encoding'') (\<lambda>wrapped.
        if length wrapped \<noteq> 64 then Inl ''invalid wrapped barrier key size'' else Inr ()))"

definition seal_associated_data :: "nat \<Rightarrow> nat \<Rightarrow> string \<Rightarrow> byte \<Rightarrow> byte \<Rightarrow> byte list" where
  "seal_associated_data schema generation share_format shares threshold =
     bytes_of_string ''heptabao.seal-metadata.v1'' @ [0] @ le_bytes 4 schema @ le_bytes 8 generation
     @ le_bytes 8 (length share_format) @ bytes_of_string share_format @ [shares, threshold]"

definition associated_data :: "seal_metadata \<Rightarrow> byte list" where
  "associated_data m =
     seal_associated_data (sm_schema m) (sm_generation m) (sm_share_format m) (sm_secret_shares m) (sm_secret_threshold m)"

definition pending_validate_shape :: "'x server_lib_scheme \<Rightarrow> pending_rekey_metadata \<Rightarrow> string + unit" where
  "pending_validate_shape lib p =
     (if pm_schema p \<noteq> 1 \<or> \<not> valid_nonce (pm_nonce p) \<or> \<not> valid_nonce (pm_verification_nonce p) \<or> pm_active_generation p = 0
      then Inl ''unsupported or invalid pending rekey metadata''
      else
        rbind (ok_or (checked_add64 (pm_active_generation p) 1) ''pending rekey generation exhausted'') (\<lambda>next.
        if sm_generation (pm_candidate p) \<noteq> next \<or> sm_share_format (pm_candidate p) \<noteq> ''shamir-v1''
        then Inl ''unsupported or invalid pending rekey metadata''
        else seal_validate lib (pm_candidate p)))"

section \<open>Unseal keys\<close>

definition decode_key_material :: "'x server_lib_scheme \<Rightarrow> string \<Rightarrow> string + byte list" where
  "decode_key_material lib encoded =
     (if encoded = [] \<or> 1024 < length encoded then Inl ''invalid bounded key encoding''
      else if length encoded mod 2 = 0 \<and> list_all is_ascii_hexdigit encoded
      then ok_or (decode_hex encoded) ''invalid hexadecimal key encoding''
      else ok_or (base64_decode lib encoded) ''key must be hexadecimal or standard base64'')"

text \<open>A share is added to those provided; the key comes out once the threshold is reached.\<close>

definition collect_seal_key ::
  "'x server_lib_scheme \<Rightarrow> seal_metadata \<Rightarrow> string \<Rightarrow> (byte, secret_share) bmap \<Rightarrow>
   (byte, secret_share) bmap \<times> (string + byte list option)" where
  "collect_seal_key lib m encoded provided =
     sbind (provided, decode_key_material lib encoded) (\<lambda>provided decoded.
     if sm_share_format m = ''raw-v1'' then
       (provided, if length decoded \<noteq> 32 then Inl ''invalid legacy unseal key length'' else Inr (Some decoded))
     else
       sbind (provided, share_decode (crypto_digest lib) decoded) (\<lambda>provided share.
       if share_total share \<noteq> sm_secret_shares m \<or> share_threshold share \<noteq> sm_secret_threshold m
       then (provided, Inl ''Shamir share does not match this seal generation'')
       else
         sbind (case map_of provided (share_index share) of
                  Some existing \<Rightarrow>
                    (provided, if existing \<noteq> share then Inl ''conflicting Shamir share index'' else Inr ())
                | None \<Rightarrow> (binsert (share_index share) share provided, Inr ())) (\<lambda>provided _.
         if length provided < unat (sm_secret_threshold m) then (provided, Inr None)
         else
           (provided, rbind (combine_shares (take (unat (sm_secret_threshold m)) (map snd provided))) (\<lambda>key. Inr (Some key))))))"

definition decode_initialization_secret :: "'x server_lib_scheme \<Rightarrow> json \<Rightarrow> string + byte list" where
  "decode_initialization_secret lib v =
     rbind (ok_or (as_str v) ''recovery_nonce must be a string'') (\<lambda>encoded.
     if length encoded \<noteq> 44 \<and> length encoded \<noteq> 64 then Inl ''recovery_nonce must contain 32 random bytes''
     else
       rbind (if length encoded = 64 \<and> list_all (\<lambda>b. is_ascii_digit b \<or> (97 \<le> byte_of b \<and> byte_of b \<le> 102)) encoded
              then ok_or (decode_hex encoded) ''invalid recovery_nonce encoding''
              else
                rbind (ok_or (base64_decode lib encoded) ''invalid recovery_nonce encoding'') (\<lambda>decoded.
                if base64_encode lib decoded \<noteq> encoded
                then Inl ''recovery_nonce must use canonical base64 or lowercase hex'' else Inr decoded)) (\<lambda>secret.
       if length secret \<noteq> 32 then Inl ''recovery_nonce must contain 32 random bytes''
       else if secret = replicate 32 0 then Inl ''recovery_nonce must be generated with cryptographic randomness''
       else Inr secret))"

section \<open>The files of the server\<close>

text \<open>
  A file is written beside its place and renamed: a failure with \<open>0\<close> came before the rename,
  any other one after it.
\<close>

definition replace_file :: "io_result \<Rightarrow> (data_dir \<Rightarrow> data_dir) \<Rightarrow> data_dir \<Rightarrow> data_dir \<times> bool" where
  "replace_file io change dir =
     (case io of IoDone \<Rightarrow> (change dir, True) | IoFailed k \<Rightarrow> (if k = 0 then dir else change dir, False))"

definition persist_seal_metadata ::
  "'x server_lib_scheme \<Rightarrow> server_env \<Rightarrow> nat \<Rightarrow> seal_metadata \<Rightarrow> data_dir \<Rightarrow> data_dir \<times> bool" where
  "persist_seal_metadata lib env l m dir =
     (if seal_validate lib m \<noteq> Inr () \<or> \<not> env_private env l then (dir, False)
      else
        case seal_to_vec lib m of
          None \<Rightarrow> (dir, False)
        | Some encoded \<Rightarrow>
            if SEAL_METADATA_LIMIT < length encoded \<or> env_fill env [l] 8 = None then (dir, False)
            else replace_file (env_files env l) (\<lambda>d. d\<lparr>dd_seal := Some encoded\<rparr>) dir)"

definition persist_pending_rekey ::
  "'x server_lib_scheme \<Rightarrow> server_env \<Rightarrow> nat \<Rightarrow> pending_rekey_metadata \<Rightarrow> data_dir \<Rightarrow> data_dir \<times> bool" where
  "persist_pending_rekey lib env l p dir =
     (if pending_validate_shape lib p \<noteq> Inr () \<or> \<not> env_private env l then (dir, False)
      else
        case pending_to_vec lib p of
          None \<Rightarrow> (dir, False)
        | Some encoded \<Rightarrow>
            if REKEY_METADATA_LIMIT < length encoded \<or> env_fill env [l] 8 = None then (dir, False)
            else replace_file (env_files env l) (\<lambda>d. d\<lparr>dd_pending := Some encoded\<rparr>) dir)"

definition delete_pending_rekey :: "server_env \<Rightarrow> nat \<Rightarrow> data_dir \<Rightarrow> data_dir \<times> bool" where
  "delete_pending_rekey env l dir =
     (if dd_pending dir = None then (dir, True)
      else replace_file (env_files env l) (\<lambda>d. d\<lparr>dd_pending := None\<rparr>) dir)"

definition load_seal_metadata ::
  "'x server_lib_scheme \<Rightarrow> server_env \<Rightarrow> nat \<Rightarrow> data_dir \<Rightarrow> string + seal_metadata option" where
  "load_seal_metadata lib env l dir =
     (case dd_seal dir of
        None \<Rightarrow> if env_private env l then Inr None else Inl ''cannot safely open seal metadata''
      | Some encoded \<Rightarrow>
          if \<not> env_private env l then Inl ''seal metadata must be a private regular file''
          else if SEAL_METADATA_LIMIT < length encoded then Inl ''seal metadata exceeds the supported bound''
          else
            rbind (ok_or (seal_from_slice lib encoded) ''invalid seal metadata'') (\<lambda>m.
            rbind (seal_validate lib m) (\<lambda>_. Inr (Some m))))"

text \<open>A marker that was already promoted is deleted.\<close>

definition load_pending_rekey ::
  "'x server_lib_scheme \<Rightarrow> server_env \<Rightarrow> nat \<Rightarrow> seal_metadata option \<Rightarrow> data_dir \<Rightarrow>
   data_dir \<times> (string + pending_rekey_metadata option)" where
  "load_pending_rekey lib env l active dir =
     (case dd_pending dir of
        None \<Rightarrow> (dir, if env_private env l then Inr None else Inl ''cannot safely open pending rekey metadata'')
      | Some encoded \<Rightarrow>
          if \<not> env_private env l then (dir, Inl ''pending rekey metadata must be a private regular file'')
          else if REKEY_METADATA_LIMIT < length encoded then (dir, Inl ''pending rekey metadata exceeds the supported bound'')
          else
            sbind (dir,
              rbind (ok_or (pending_from_slice lib encoded) ''invalid pending rekey metadata'') (\<lambda>p.
              rbind (pending_validate_shape lib p) (\<lambda>_.
              rbind (ok_or active ''pending rekey exists without active seal metadata'') (\<lambda>active.
              Inr (p, active))))) (\<lambda>dir (p, active).
            if pm_candidate p = active then
              (case delete_pending_rekey env l dir of
                 (dir, True) \<Rightarrow> (dir, Inr None)
               | (dir, False) \<Rightarrow> (dir, Inl ''cannot reconcile completed pending rekey marker''))
            else if pm_active_generation p \<noteq> sm_generation active
            then (dir, Inl ''pending rekey does not match the active seal generation'')
            else (dir, Inr (Some p))))"

definition initialization_recovery_pending :: "server_env \<Rightarrow> nat \<Rightarrow> data_dir \<Rightarrow> string + bool" where
  "initialization_recovery_pending env l dir =
     (if env_private env l then Inr (dd_recovery dir \<noteq> None) else Inl ''cannot inspect initialization recovery path'')"

text \<open>The key of the recovery file, derived from the caller's secret and the seal metadata.\<close>

definition initialization_recovery_barrier ::
  "'x server_lib_scheme \<Rightarrow> byte list \<Rightarrow> seal_metadata \<Rightarrow> (byte list \<times> byte list) option" where
  "initialization_recovery_barrier lib secret m =
     Option.bind (seal_to_vec lib m) (\<lambda>encoded.
     let ctx = bytes_of_string ''heptabao.initialization-recovery.v2'' @ [0] @ crypto_digest lib encoded in
     map_option (\<lambda>key. (key, ctx)) (barrier_new lib (hmac_sign lib ''SHA256'' secret ctx)))"

definition write_initialization_recovery ::
  "'x server_lib_scheme \<Rightarrow> server_env \<Rightarrow> nat \<Rightarrow> seal_metadata \<Rightarrow> byte list \<Rightarrow> json \<Rightarrow> data_dir \<Rightarrow> data_dir \<times> bool" where
  "write_initialization_recovery lib env l m secret response stage =
     (case Option.bind (value_to_vec lib response) (\<lambda>plaintext.
             Option.bind (initialization_recovery_barrier lib secret m) (\<lambda>(key, ctx).
             barrier_seal (aes_seal lib) (rng_of (sub_fill l (env_fill env)) 12) key ctx plaintext)) of
        None \<Rightarrow> (stage, False)
      | Some protected \<Rightarrow>
          if INIT_RECOVERY_LIMIT < length protected \<or> dd_recovery stage \<noteq> None then (stage, False)
          else replace_file (env_files env l) (\<lambda>d. d\<lparr>dd_recovery := Some protected\<rparr>) stage)"

definition read_initialization_recovery :: "server_env \<Rightarrow> nat \<Rightarrow> data_dir \<Rightarrow> (byte list option) option" where
  "read_initialization_recovery env l dir =
     (if \<not> env_private env l then None
      else
        case dd_recovery dir of
          None \<Rightarrow> Some None
        | Some protected \<Rightarrow> if INIT_RECOVERY_LIMIT < length protected then None else Some (Some protected))"

definition load_audit_key ::
  "server_env \<Rightarrow> nat \<Rightarrow> byte list option \<Rightarrow> byte list \<Rightarrow> byte list option \<times> (string + byte list)" where
  "load_audit_key env l key_file active =
     (case key_file of
        Some mat \<Rightarrow>
          (key_file, if \<not> env_private env l then Inl ''audit key must be a private regular file''
                     else if length mat \<noteq> 32 then Inl ''invalid audit key size'' else Inr mat)
      | None \<Rightarrow>
          if \<not> env_private env l then (key_file, Inl ''cannot safely open audit key'')
          else if active \<noteq> [] then (key_file, Inl ''existing audit has no authentication key; explicit migration required'')
          else
            sbind (key_file, random_array (env_fill env) l 32) (\<lambda>key_file mat.
            case env_files env l of
              IoDone \<Rightarrow> (Some mat, Inr mat)
            | IoFailed k \<Rightarrow> (if k = 0 then None else Some (take (k - 1) mat), Inl ''cannot persist audit key'')))"

end
