(* ===== verification/Server.thy ===== *)
theory Server
  imports Server_Base
begin

text \<open>
  The service of \<^verbatim>\<open>crates/heptabao-server/src/service.rs\<close>: one record for the process, one
  definition per method, from the audited entry of a request down to the durable commit. The
  branches for a clustered server are included; what its HA process returns is part of the
  environment of the request.
\<close>

record server =
  sv_dir :: data_dir
  sv_audit :: audit_log
  sv_durable :: "(byte list \<times> durable_service) option"
  sv_state :: "server_state option"
  sv_seal :: "seal_metadata option"
  sv_unseal_shares :: "(byte, secret_share) bmap"
  sv_unseal_nonce :: string
  sv_barrier_key :: "byte list option"
  sv_rekey :: "rekey_state option"
  sv_recovery_required :: bool
  sv_ha :: bool

record server_request =
  rq_method :: string
  rq_path :: string
  rq_namespace :: string
  rq_token :: string
  rq_body :: json
  rq_now :: nat
  rq_allow_forward :: bool

datatype wire_rejection = RateLimited | ParseRejected

definition on_dir :: "(data_dir \<Rightarrow> data_dir \<times> bool) \<Rightarrow> server \<Rightarrow> server \<times> bool" where
  "on_dir write sv = (case write (sv_dir sv) of (dir, ok) \<Rightarrow> (sv\<lparr>sv_dir := dir\<rparr>, ok))"

definition initialized :: "server \<Rightarrow> bool" where
  "initialized sv = (dd_durable (sv_dir sv) State_File \<noteq> None)"

definition health_status :: "bool \<Rightarrow> bool \<Rightarrow> bool \<Rightarrow> bool \<Rightarrow> bool \<Rightarrow> bool \<Rightarrow> nat" where
  "health_status init sealed recovery_required ha_enabled standby ha_active =
     (if \<not> init then 501
      else if sealed \<or> recovery_required then 503
      else if ha_enabled \<and> standby then 429
      else if ha_enabled \<and> \<not> ha_active then 503
      else 200)"

section \<open>Audit\<close>

definition wire_code :: "wire_rejection \<Rightarrow> byte list" where
  "wire_code r = bytes_of_string (case r of RateLimited \<Rightarrow> ''rate-limited'' | ParseRejected \<Rightarrow> ''parse-rejected'')"

definition wire_rejection_fingerprint ::
  "'x server_lib_scheme \<Rightarrow> server \<Rightarrow> byte list \<Rightarrow> wire_rejection \<Rightarrow> nat \<Rightarrow> string" where
  "wire_rejection_fingerprint lib sv attempt_id rejection status =
     base64_encode lib (hmac_sign lib ''SHA256'' (al_key (sv_audit sv))
       (bytes_of_string ''heptabao.audit.wire-rejection.v1'' @ le_bytes 8 (length (wire_code rejection)) @ wire_code rejection
        @ le_bytes 2 status @ attempt_id))"

definition request_fingerprint :: "'x server_lib_scheme \<Rightarrow> server \<Rightarrow> server_request \<Rightarrow> string" where
  "request_fingerprint lib sv rq =
     base64_encode lib (hmac_sign lib ''SHA256'' (al_key (sv_audit sv))
       (bytes_of_string ''heptabao.audit.request-fingerprint.v2''
        @ concat (map (\<lambda>field. le_bytes 8 (length field) @ bytes_of_string field)
            [rq_method rq, rq_namespace rq, rq_path rq, rq_token rq])))"

definition server_audit ::
  "'x server_lib_scheme \<Rightarrow> io_trace \<Rightarrow> string \<Rightarrow> string \<Rightarrow> nat \<Rightarrow> nat option \<Rightarrow> server \<Rightarrow> server \<times> bool" where
  "server_audit lib io event fingerprint now status sv =
     (case audit_event lib io event fingerprint now status (sv_audit sv) of
        (al, r) \<Rightarrow> (sv\<lparr>sv_audit := al\<rparr>, r = Inr ()))"

definition handle_wire_rejection ::
  "'x server_lib_scheme \<Rightarrow> server_env \<Rightarrow> byte list \<Rightarrow> wire_rejection \<Rightarrow> nat \<Rightarrow> string \<Rightarrow> nat \<Rightarrow> server \<Rightarrow> server \<times> server_response" where
  "handle_wire_rejection lib env attempt_id rejection status message now sv =
     (let fingerprint = wire_rejection_fingerprint lib sv attempt_id rejection status in
      case server_audit lib (env_audit env 0) ''wire-rejection'' fingerprint now None sv of
        (sv, False) \<Rightarrow> (sv, response_error 503 ''wire rejection audit unavailable'')
      | (sv, True) \<Rightarrow>
          (case server_audit lib (env_audit env 1) ''wire-response'' fingerprint now (Some status) sv of
             (sv, False) \<Rightarrow>
               (sv\<lparr>sv_recovery_required := True\<rparr>, response_error 503 ''wire rejection response audit unavailable'')
           | (sv, True) \<Rightarrow> (sv, response_error status message)))"

section \<open>Commits\<close>

definition current_state_digest :: "'x server_lib_scheme \<Rightarrow> server \<Rightarrow> server_response + byte list" where
  "current_state_digest lib sv =
     rbind (ok_or (sv_state sv) (response_error 503 ''server is sealed'')) (\<lambda>st.
     rbind (ok_or (state_to_vec lib st) (response_error 500 ''state serialization failed'')) (\<lambda>bytes.
     Inr (crypto_digest lib bytes)))"

definition state_put_request :: "'x server_lib_scheme \<Rightarrow> string \<Rightarrow> byte list \<Rightarrow> put_request" where
  "state_put_request lib operation_id bytes =
     \<lparr>pq_principal = ''heptabao-server'', pq_namespace = ''system'', pq_request_id = operation_id, pq_resource = ''state'',
      pq_authorization_digest = crypto_digest lib bytes, pq_value = bytes\<rparr>"

definition put_request_new :: "put_request \<Rightarrow> service_error + put_request" where
  "put_request_new req =
     rbind (validate_request (pq_principal req) (pq_namespace req) (pq_request_id req) (pq_resource req)
       (pq_authorization_digest req)) (\<lambda>_. Inr req)"

definition persist_local ::
  "'x server_lib_scheme \<Rightarrow> server_env \<Rightarrow> nat \<Rightarrow> byte list \<Rightarrow> string \<Rightarrow> server \<Rightarrow> server \<times> (server_response + unit)" where
  "persist_local lib env l bytes operation_id sv =
     sbind (sv, map_err (\<lambda>_. response_error 507 ''state capacity exhausted'') (secret_new bytes)) (\<lambda>sv bytes.
     sbind (sv, map_err (\<lambda>_. response_error 500 ''invalid server commit envelope'')
                  (put_request_new (state_put_request lib operation_id bytes))) (\<lambda>sv req.
     sbind (sv, ok_or (sv_durable sv) (response_error 503 ''server is sealed'')) (\<lambda>sv (key, svc).
     case put_with_failpoint (server_barrier lib key) (env_nonce env + 8 * l) (env_io env l) (env_guard env l) NoFailpoint req
            (dd_durable (sv_dir sv), svc) of
       ((disk, svc), r) \<Rightarrow>
         let sv = sv\<lparr>sv_dir := (sv_dir sv)\<lparr>dd_durable := disk\<rparr>, sv_durable := Some (key, svc)\<rparr> in
         (case r of
            Inr _ \<Rightarrow> (sv, Inr ())
          | Inl (OutcomeUnknown ref) \<Rightarrow>
              (sv\<lparr>sv_recovery_required := True\<rparr>,
               Inl \<lparr>rs_status = 503, rs_body = json_object [(''errors'', JArr [JStr ''durable outcome unknown; do not blindly retry'']),
                      (''recovery_reference'', JStr ref)]\<rparr>)
          | Inl _ \<Rightarrow> (sv, Inl (response_error 503 ''durable state rejected; no response released''))))))"

definition persist ::
  "'x server_lib_scheme \<Rightarrow> server_env \<Rightarrow> nat \<Rightarrow> byte list \<Rightarrow> byte list \<Rightarrow> server \<Rightarrow> server \<times> (server_response + unit)" where
  "persist lib env l bytes base_digest sv =
     sbind (sv, map_err (response_error 503) (random_array (env_fill env) l 16)) (\<lambda>sv i.
     let operation_id = hex i in
     sbind (sv,
       if sv_ha sv then
         if \<not> ha_lock (env_ha env) 0 then Inl (response_error 503 ''HA control state is unavailable'')
         else map_err (response_error 503) (ha_commit_state (env_ha env) operation_id base_digest bytes)
       else Inr ()) (\<lambda>sv _.
     case persist_local lib env l bytes operation_id sv of
       (sv, Inr _) \<Rightarrow> (sv, Inr ())
     | (sv, Inl e) \<Rightarrow> (if sv_ha sv then sv\<lparr>sv_recovery_required := True\<rparr> else sv, Inl e)))"

definition commit_state_bytes ::
  "'x server_lib_scheme \<Rightarrow> server_env \<Rightarrow> nat \<Rightarrow> byte list \<Rightarrow> server \<Rightarrow> server \<times> (server_response + unit)" where
  "commit_state_bytes lib env l bytes sv =
     (if MAX_STATE_BYTES < length bytes then (sv, Inl (response_error 507 ''state capacity exhausted''))
      else sbind (sv, current_state_digest lib sv) (\<lambda>sv base_digest. persist lib env l bytes base_digest sv))"

definition commit_state ::
  "'x server_lib_scheme \<Rightarrow> server_env \<Rightarrow> nat \<Rightarrow> server_state \<Rightarrow> server \<Rightarrow> server \<times> (server_response + unit)" where
  "commit_state lib env l st sv =
     sbind (sv, ok_or (state_to_vec lib st) (response_error 500 ''state serialization failed'')) (\<lambda>sv bytes.
     commit_state_bytes lib env l bytes sv)"

text \<open>The state of a stored value.\<close>

definition stored_state :: "'x server_lib_scheme \<Rightarrow> durable_service \<Rightarrow> server_response + server_state" where
  "stored_state lib svc =
     rbind (map_err (\<lambda>_. response_error 503 ''server state is unavailable'') (durable_get svc ''system'' ''state'')) (\<lambda>v.
     rbind (ok_or v (response_error 503 ''server state is absent; recovery required'')) (\<lambda>bytes.
     rbind (ok_or (state_from_slice lib bytes) (response_error 503 ''server state schema is invalid'')) (\<lambda>st.
     if ss_schema st \<noteq> 1 then Inl (response_error 503 ''unsupported server state schema'') else Inr st)))"

definition refresh_state_from_durable :: "'x server_lib_scheme \<Rightarrow> server \<Rightarrow> server \<times> (server_response + unit)" where
  "refresh_state_from_durable lib sv =
     sbind (sv, rbind (ok_or (sv_durable sv) (response_error 503 ''server is sealed'')) (\<lambda>(key, svc). stored_state lib svc)) (\<lambda>sv st.
     (sv\<lparr>sv_state := Some st, sv_recovery_required := False\<rparr>, Inr ()))"

section \<open>The cluster\<close>

definition sync_from_ha :: "'x server_lib_scheme \<Rightarrow> server_env \<Rightarrow> server \<Rightarrow> server \<times> (server_response + unit)" where
  "sync_from_ha lib env sv =
     (if \<not> sv_ha sv then (sv, Inr ())
      else
        sbind (sv,
          if \<not> ha_lock (env_ha env) 1 then Inl (response_error 503 ''HA control state is unavailable'')
          else ok_or (ha_latest_committed_state (env_ha env)) (response_error 503 ''HA linearizable state is unavailable''))
          (\<lambda>sv committed.
        case committed of
          None \<Rightarrow> (sv, Inr ())
        | Some (digest, bytes) \<Rightarrow>
            sbind (sv, current_state_digest lib sv) (\<lambda>sv current.
            if current = digest then (sv, Inr ())
            else
              sbind (sv,
                rbind (ok_or (state_from_slice lib bytes) (response_error 503 ''HA committed state schema is invalid'')) (\<lambda>st.
                if ss_schema st \<noteq> 1 then Inl (response_error 503 ''unsupported HA committed state schema'')
                else if \<not> ha_lock (env_ha env) 2 then Inl (response_error 503 ''HA control state is unavailable'')
                else if ss_cluster_id st \<noteq> ha_cluster_id (env_ha env)
                then Inl (response_error 503 ''HA committed state belongs to a different cluster'') else Inr st)) (\<lambda>sv st.
              sbind (persist_local lib env 7 bytes (''hasync-'' @ hex digest) sv) (\<lambda>sv _.
              (sv\<lparr>sv_state := Some st, sv_recovery_required := False\<rparr>, Inr ()))))))"

definition ha_observation :: "ha_calls \<Rightarrow> server \<Rightarrow> bool \<times> bool \<times> bool \<times> nat option \<times> nat option" where
  "ha_observation ha sv =
     (if \<not> sv_ha sv then (False, False, True, None, None)
      else if \<not> ha_lock ha 3 then (True, False, False, None, None)
      else
        case ha_local_id ha of
          None \<Rightarrow> (True, False, False, None, None)
        | Some local \<Rightarrow>
            (case ha_leader ha of
               None \<Rightarrow> (True, False, False, None, Some local)
             | Some leader \<Rightarrow>
                 (True, leader \<noteq> None \<and> leader \<noteq> Some local, leader = Some local \<and> ha_linearizable ha, leader, Some local)))"

definition leader_response :: "ha_calls \<Rightarrow> server \<Rightarrow> server_response" where
  "leader_response ha sv =
     (case ha_observation ha sv of (ha_enabled, _, ha_active, leader, local) \<Rightarrow>
        response_ok (json_object [(''ha_enabled'', JBool ha_enabled),
          (''is_self'', JBool (if ha_enabled then ha_active \<and> leader \<noteq> None \<and> leader = local else True)),
          (''leader_address'', JStr []), (''leader_cluster_address'', JStr []), (''performance_standby'', JBool False),
          (''performance_standby_last_remote_wal'', json_u64 0)]))"

section \<open>Unsealing\<close>

definition seal_status :: "server \<Rightarrow> server_response" where
  "seal_status sv =
     (let (seal_type, shares, threshold) =
            (case sv_seal sv of
               Some m \<Rightarrow> (if sm_share_format m = ''raw-v1'' then ''shamir-legacy'' else ''shamir'', sm_secret_shares m, sm_secret_threshold m)
             | None \<Rightarrow> (''shamir-legacy'', 1, 1));
          progress = (if sv_state sv \<noteq> None then 0 else min (length (sv_unseal_shares sv)) 255) in
      response_ok (json_object
        [(''type'', JStr seal_type), (''initialized'', JBool (initialized sv)), (''sealed'', JBool (sv_state sv = None)),
         (''t'', json_u64 (unat threshold)), (''n'', json_u64 (unat shares)), (''progress'', json_u64 progress),
         (''nonce'', JStr (if progress = 0 then [] else sv_unseal_nonce sv)), (''version'', JStr ''HeptaBao-0.2.0''),
         (''migration'', JBool False), (''recovery_seal'', JBool False),
         (''storage_type'', JStr (if sv_ha sv then ''heptabao-raft-v1'' else ''heptabao-durable-v2'')),
         (''seal_generation'', json_u64 (case sv_seal sv of None \<Rightarrow> 0 | Some m \<Rightarrow> sm_generation m))]))"

definition rotate_unseal_nonce :: "server_env \<Rightarrow> server \<Rightarrow> server \<times> bool" where
  "rotate_unseal_nonce env sv =
     (case random_array (env_fill env) 5 16 of
        Inl _ \<Rightarrow> (sv, False)
      | Inr bytes \<Rightarrow> (sv\<lparr>sv_unseal_nonce := hex bytes\<rparr>, True))"

definition activate_barrier ::
  "'x server_lib_scheme \<Rightarrow> server_env \<Rightarrow> byte list \<Rightarrow> server \<Rightarrow> server \<times> (server_response + unit)" where
  "activate_barrier lib env key sv =
     sbind (sv\<lparr>sv_durable := None, sv_state := None\<rparr>,
            ok_or (barrier_new lib key) (response_error 400 ''invalid unseal key'')) (\<lambda>sv key.
     case reopen (server_barrier lib key) (env_nonce env + 24) (env_io env 3) (env_guard env 3) MAX_OPERATIONS (dd_durable (sv_dir sv)) of
       (disk, r) \<Rightarrow>
         sbind (sv\<lparr>sv_dir := (sv_dir sv)\<lparr>dd_durable := disk\<rparr>\<rparr>,
           rbind (map_err (\<lambda>_. response_error 400 ''unseal or recovery failed'') r) (\<lambda>svc.
           rbind (stored_state lib svc) (\<lambda>st.
           if \<not> sv_ha sv then Inr (svc, st)
           else if \<not> ha_lock (env_ha env) 4 then Inl (response_error 503 ''HA identity is unavailable during unseal'')
           else if ss_cluster_id st \<noteq> ha_cluster_id (env_ha env)
           then Inl (response_error 503 ''HA configuration belongs to a different cluster'') else Inr (svc, st)))) (\<lambda>sv (svc, st).
         let sv = sv\<lparr>sv_durable := Some (key, svc), sv_state := Some st, sv_barrier_key := Some key, sv_recovery_required := False\<rparr> in
         if \<not> sv_ha sv then (sv, Inr ())
         else
           case (if ha_lock (env_ha env) 5 then ha_is_leader (env_ha env) else None) of
             None \<Rightarrow> (sv\<lparr>sv_recovery_required := True\<rparr>, Inl (response_error 503 ''HA role is unavailable during unseal''))
           | Some False \<Rightarrow> (sv, Inr ())
           | Some True \<Rightarrow>
               (case sync_from_ha lib env sv of
                  (sv, Inr _) \<Rightarrow> (sv, Inr ())
                | (sv, Inl e) \<Rightarrow> (sv\<lparr>sv_recovery_required := True\<rparr>, Inl e))))"

definition seal_again :: "server \<Rightarrow> server" where
  "seal_again sv = sv\<lparr>sv_state := None, sv_durable := None, sv_barrier_key := None\<rparr>"

text \<open>The first unseal of a directory without seal metadata, which writes it.\<close>

definition unseal_legacy ::
  "'x server_lib_scheme \<Rightarrow> server_env \<Rightarrow> string \<Rightarrow> server \<Rightarrow> server \<times> (server_response + server_response)" where
  "unseal_legacy lib env encoded sv =
     sbind (sv,
       rbind (map_err (response_error 400) (decode_key_material lib encoded)) (\<lambda>decoded.
       if length decoded \<noteq> 32 then Inl (response_error 400 ''invalid legacy unseal key length'') else Inr decoded)) (\<lambda>sv key.
     sbind (activate_barrier lib env key sv) (\<lambda>sv _.
     let m = \<lparr>sm_schema = 1, sm_generation = 1, sm_share_format = ''raw-v1'', sm_secret_shares = 1, sm_secret_threshold = 1,
              sm_wrapped_barrier_key = []\<rparr> in
     case wrap_barrier_key (aes_seal lib) (rng_of (sub_fill 9 (env_fill env)) 12) key (associated_data m) key of
       Inl _ \<Rightarrow> (seal_again sv, Inl (response_error 503 ''legacy seal metadata migration failed''))
     | Inr wrapped \<Rightarrow>
         let m = m\<lparr>sm_wrapped_barrier_key := base64_encode lib wrapped\<rparr> in
         (case on_dir (persist_seal_metadata lib env 33 m) sv of
            (sv, False) \<Rightarrow> (seal_again sv, Inl (response_error 503 ''legacy seal metadata migration failed''))
          | (sv, True) \<Rightarrow> let sv = sv\<lparr>sv_seal := Some m\<rparr> in (sv, Inr (seal_status sv)))))"

text \<open>One share of the current seal generation; the shares are dropped once they were combined and used.\<close>

definition unseal_share ::
  "'x server_lib_scheme \<Rightarrow> server_env \<Rightarrow> seal_metadata \<Rightarrow> string \<Rightarrow> server \<Rightarrow> server \<times> (server_response + server_response)" where
  "unseal_share lib env m encoded sv =
     (case collect_seal_key lib m encoded (sv_unseal_shares sv) of
        (provided, r) \<Rightarrow>
          let sv = sv\<lparr>sv_unseal_shares := provided\<rparr>; cleared = sv\<lparr>sv_unseal_shares := []\<rparr> in
          (case r of
             Inl error \<Rightarrow> (sv, Inl (response_error 400 error))
           | Inr None \<Rightarrow> (sv, Inr (seal_status sv))
           | Inr (Some seal_key) \<Rightarrow>
               (case base64_decode lib (sm_wrapped_barrier_key m) of
                  None \<Rightarrow> (cleared, Inl (response_error 503 ''seal metadata is corrupt''))
                | Some wrapped \<Rightarrow>
                    (case unwrap_barrier_key (aes_open lib) seal_key (associated_data m) wrapped of
                       Inl _ \<Rightarrow> (fst (rotate_unseal_nonce env cleared), Inl (response_error 400 ''unseal failed''))
                     | Inr barrier_key \<Rightarrow>
                         (case activate_barrier lib env barrier_key sv of
                            (sv, Inl e) \<Rightarrow> (fst (rotate_unseal_nonce env (sv\<lparr>sv_unseal_shares := []\<rparr>)), Inl e)
                          | (sv, Inr _) \<Rightarrow>
                              (case rotate_unseal_nonce env (sv\<lparr>sv_unseal_shares := []\<rparr>) of
                                 (sv, False) \<Rightarrow> (seal_again sv, Inl (response_error 503 ''operating system randomness unavailable''))
                               | (sv, True) \<Rightarrow> (sv, Inr (seal_status sv))))))))"

definition unseal :: "'x server_lib_scheme \<Rightarrow> server_env \<Rightarrow> json \<Rightarrow> server \<Rightarrow> server \<times> server_response" where
  "unseal lib env body sv =
     finish (
     if sv_state sv \<noteq> None \<and> \<not> sv_recovery_required sv then (sv, Inl (seal_status sv))
     else if \<not> initialized sv then (sv, Inl (response_error 400 ''not initialized''))
     else if as_object body = None then (sv, Inl (response_error 400 ''invalid unseal request''))
     else if \<not> only_fields [''key'', ''reset'', ''migrate''] body then (sv, Inl (response_error 400 ''unsupported unseal options''))
     else
       sbind (sv,
         case json_get body ''migrate'' of
           None \<Rightarrow> Inr ()
         | Some (JBool b) \<Rightarrow>
             if b then Inl (response_error 501 ''seal migration is not implemented by this endpoint'') else Inr ()
         | Some _ \<Rightarrow> Inl (response_error 400 ''migrate must be a boolean'')) (\<lambda>sv _.
       sbind (sv,
         case json_get body ''reset'' of
           None \<Rightarrow> Inr False
         | Some (JBool b) \<Rightarrow> Inr b
         | Some _ \<Rightarrow> Inl (response_error 400 ''reset must be a boolean'')) (\<lambda>sv reset.
       if reset then
         if json_get body ''key'' \<noteq> None then (sv, Inl (response_error 400 ''reset and key cannot be supplied together''))
         else
           case rotate_unseal_nonce env (sv\<lparr>sv_unseal_shares := []\<rparr>) of
             (sv, False) \<Rightarrow> (sv, Inl (response_error 503 ''operating system randomness unavailable''))
           | (sv, True) \<Rightarrow> (sv, Inl (seal_status sv))
       else if \<not> env_private env 50 then (sv, Inl (response_error 400 ''unsafe data directory''))
       else
         sbind (sv, ok_or (Option.bind (json_get body ''key'') as_str) (response_error 400 ''key is required'')) (\<lambda>sv encoded.
         case sv_seal sv of
           None \<Rightarrow> unseal_legacy lib env encoded sv
         | Some m \<Rightarrow> unseal_share lib env m encoded sv))))"

section \<open>Rekeying\<close>

definition verify_active_barrier :: "'x server_lib_scheme \<Rightarrow> server \<Rightarrow> byte list \<Rightarrow> server_response + unit" where
  "verify_active_barrier lib sv candidate =
     (case sv_barrier_key sv of
        None \<Rightarrow> Inl (response_error 503 ''server must be unsealed for rekey'')
      | Some active \<Rightarrow>
          let proof_of = (\<lambda>key. hmac_sign lib ''SHA256'' key (bytes_of_string ''heptabao.barrier-key-proof.v1'')) in
          if proof_of active \<noteq> proof_of candidate
          then Inl (response_error 400 ''seal shares do not match the active barrier'') else Inr ())"

definition rekey_status :: "server \<Rightarrow> server_response" where
  "rekey_status sv =
     response_ok (json_object
       (case sv_rekey sv of
          Some ry \<Rightarrow>
            (let (progress, required, verification_required, verification_nonce, verification_progress) =
                   (case ry_verification ry of
                      Some p \<Rightarrow> (0, 0, True, pm_verification_nonce p, length (ry_verification_provided ry))
                    | None \<Rightarrow> (length (ry_provided ry), case sv_seal sv of None \<Rightarrow> 1 | Some m \<Rightarrow> unat (sm_secret_threshold m),
                               False, [], 0)) in
             [(''started'', JBool (ry_verification ry = None)), (''nonce'', JStr (ry_nonce ry)),
              (''t'', json_u64 (unat (ry_new_threshold ry))), (''n'', json_u64 (unat (ry_new_shares ry))),
              (''progress'', json_u64 progress), (''required'', json_u64 required),
              (''verification_required'', JBool verification_required), (''verification_nonce'', JStr verification_nonce),
              (''verification_progress'', json_u64 verification_progress),
              (''verification_required_shares'', json_u64 (if verification_required then unat (ry_new_threshold ry) else 0))])
        | None \<Rightarrow>
            [(''started'', JBool False), (''nonce'', JStr []), (''t'', json_u64 0), (''n'', json_u64 0), (''progress'', json_u64 0),
             (''required'', json_u64 (case sv_seal sv of None \<Rightarrow> 1 | Some m \<Rightarrow> unat (sm_secret_threshold m))),
             (''verification_required'', JBool False), (''verification_nonce'', JStr []), (''verification_progress'', json_u64 0),
             (''verification_required_shares'', json_u64 0)]))"

definition rekey_init ::
  "server_env \<Rightarrow> string \<Rightarrow> json \<Rightarrow> server \<Rightarrow> server \<times> (server_response + server_response)" where
  "rekey_init env method body sv =
     (if method = ''GET'' then (sv, Inl (rekey_status sv))
      else if method = ''DELETE'' then
        (case (if is_some_and (sv_rekey sv) (\<lambda>ry. ry_verification ry \<noteq> None)
               then on_dir (delete_pending_rekey env 38) sv else (sv, True)) of
           (sv, False) \<Rightarrow> (sv, Inl (response_error 503 ''cannot durably cancel pending rekey''))
         | (sv, True) \<Rightarrow> (sv\<lparr>sv_rekey := None\<rparr>, Inl no_content))
      else if \<not> put_or_post method then (sv, Inl (response_error 405 ''method not allowed''))
      else if sv_rekey sv \<noteq> None then (sv, Inl (response_error 400 ''rekey is already in progress''))
      else if as_object body = None then (sv, Inl (response_error 400 ''invalid rekey request''))
      else if \<not> only_fields [''secret_shares'', ''secret_threshold'', ''backup'', ''require_verification''] body
      then (sv, Inl (response_error 400 ''unsupported rekey options''))
      else
        sbind (sv,
          rbind (case json_get body ''backup'' of
                   None \<Rightarrow> Inr ()
                 | Some (JBool b) \<Rightarrow>
                     if b then Inl (response_error 501 ''PGP-encrypted rekey backup is not implemented'') else Inr ()
                 | Some _ \<Rightarrow> Inl (response_error 400 ''backup must be a boolean'')) (\<lambda>_.
          rbind (case json_get body ''require_verification'' of
                   None \<Rightarrow> Inr True
                 | Some (JBool b) \<Rightarrow> Inr b
                 | Some _ \<Rightarrow> Inl (response_error 400 ''require_verification must be a boolean'')) (\<lambda>require_verification.
          rbind (map_err (response_error 400) (bounded_u8_field body ''secret_shares'' 5)) (\<lambda>shares.
          rbind (map_err (response_error 400) (bounded_u8_field body ''secret_threshold'' 3)) (\<lambda>threshold.
          if shares = 0 \<or> MAX_SEAL_SHARES < shares \<or> threshold = 0 \<or> shares < threshold
          then Inl (response_error 400 ''invalid rekey share configuration'')
          else
            rbind (map_err (response_error 503) (random_array (env_fill env) 6 16)) (\<lambda>nonce.
            Inr \<lparr>ry_nonce = hex nonce, ry_new_shares = shares, ry_new_threshold = threshold,
                 ry_require_verification = require_verification, ry_provided = [], ry_verification = None,
                 ry_verification_provided = []\<rparr>)))))) (\<lambda>sv ry.
        let sv = sv\<lparr>sv_rekey := Some ry\<rparr> in (sv, Inr (rekey_status sv))))"

definition verify_rekey_share ::
  "'x server_lib_scheme \<Rightarrow> server_env \<Rightarrow> rekey_state \<Rightarrow> string \<Rightarrow> string \<Rightarrow> server \<Rightarrow> server \<times> server_response" where
  "verify_rekey_share lib env ry supplied_nonce supplied_key sv =
     (case ry_verification ry of
        None \<Rightarrow> (sv\<lparr>sv_rekey := Some ry\<rparr>, response_error 500 ''missing pending rekey metadata'')
      | Some p \<Rightarrow>
          if supplied_nonce \<noteq> pm_verification_nonce p
          then (sv\<lparr>sv_rekey := Some ry\<rparr>, response_error 400 ''rekey verification nonce mismatch'')
          else
            case collect_seal_key lib (pm_candidate p) supplied_key (ry_verification_provided ry) of
              (provided, r) \<Rightarrow>
                let ry = ry\<lparr>ry_verification_provided := provided\<rparr>; kept = sv\<lparr>sv_rekey := Some ry\<rparr>;
                    cleared = sv\<lparr>sv_rekey := Some (ry\<lparr>ry_verification_provided := []\<rparr>)\<rparr> in
                (case r of
                   Inl error \<Rightarrow> (kept, response_error 400 error)
                 | Inr None \<Rightarrow>
                     (kept, response_ok (json_object
                        [(''started'', JBool False), (''complete'', JBool False), (''verification_required'', JBool True),
                         (''verification_nonce'', JStr (pm_verification_nonce p)),
                         (''verification_progress'', json_u64 (length provided)),
                         (''verification_required_shares'', json_u64 (unat (sm_secret_threshold (pm_candidate p))))]))
                 | Inr (Some next_seal_key) \<Rightarrow>
                     (case base64_decode lib (sm_wrapped_barrier_key (pm_candidate p)) of
                        None \<Rightarrow> (kept, response_error 503 ''pending rekey metadata is corrupt'')
                      | Some wrapped \<Rightarrow>
                          (case unwrap_barrier_key (aes_open lib) next_seal_key (associated_data (pm_candidate p)) wrapped of
                             Inl _ \<Rightarrow> (cleared, response_error 400 ''rekey verification failed'')
                           | Inr candidate_barrier \<Rightarrow>
                               (case verify_active_barrier lib sv candidate_barrier of
                                  Inl e \<Rightarrow> (cleared, e)
                                | Inr _ \<Rightarrow>
                                    (case on_dir (persist_seal_metadata lib env 36 (pm_candidate p)) sv of
                                       (sv, False) \<Rightarrow>
                                         (sv\<lparr>sv_rekey := Some ry\<rparr>, response_error 503 ''cannot durably promote verified seal generation'')
                                     | (sv, True) \<Rightarrow>
                                         let sv = sv\<lparr>sv_seal := Some (pm_candidate p), sv_unseal_shares := [], sv_rekey := None\<rparr> in
                                         (case on_dir (delete_pending_rekey env 37) sv of
                                            (sv, False) \<Rightarrow>
                                              (sv\<lparr>sv_recovery_required := True\<rparr>,
                                               response_error 503 ''verified seal promoted but pending marker cleanup failed; restart required'')
                                          | (sv, True) \<Rightarrow>
                                              (sv, response_ok (json_object
                                                 [(''started'', JBool False), (''complete'', JBool True),
                                                  (''verification_required'', JBool False),
                                                  (''verification_nonce'', JStr (pm_verification_nonce p))])))))))))"

text \<open>
  The next generation of the seal: the shares of a fresh seal key, and the barrier key wrapped under
  it. The generation is computed between the two.
\<close>

definition generate_seal ::
  "'x server_lib_scheme \<Rightarrow> entropy \<Rightarrow> byte list \<Rightarrow> byte \<Rightarrow> byte \<Rightarrow> server_response + nat \<Rightarrow> byte list \<Rightarrow>
   server_response + seal_metadata \<times> secret_share list" where
  "generate_seal lib fill seal_key shares threshold next barrier_key =
     rbind (map_err (response_error 503)
       (split_secret (rng_of (sub_fill 8 fill) (unat threshold - 1)) seal_key shares threshold)) (\<lambda>generated.
     rbind next (\<lambda>generation.
     let m = \<lparr>sm_schema = 1, sm_generation = generation, sm_share_format = ''shamir-v1'', sm_secret_shares = shares,
              sm_secret_threshold = threshold, sm_wrapped_barrier_key = []\<rparr> in
     rbind (map_err (response_error 503)
       (wrap_barrier_key (aes_seal lib) (rng_of (sub_fill 9 fill) 12) seal_key (associated_data m) barrier_key)) (\<lambda>wrapped.
     Inr (m\<lparr>sm_wrapped_barrier_key := base64_encode lib wrapped\<rparr>, generated))))"

definition share_keys :: "'x server_lib_scheme \<Rightarrow> secret_share list \<Rightarrow> string list" where
  "share_keys lib shares = map (\<lambda>s. hex (share_encode (crypto_digest lib) s)) shares"

definition share_keys_base64 :: "'x server_lib_scheme \<Rightarrow> secret_share list \<Rightarrow> string list" where
  "share_keys_base64 lib shares = map (\<lambda>s. base64_encode lib (share_encode (crypto_digest lib) s)) shares"

text \<open>The checks of a share against the active seal, up to the recovered and verified barrier key.\<close>

definition rekey_authorize ::
  "'x server_lib_scheme \<Rightarrow> seal_metadata \<Rightarrow> byte list \<Rightarrow> server \<Rightarrow> server_response + byte list" where
  "rekey_authorize lib m seal_key sv =
     rbind (ok_or (base64_decode lib (sm_wrapped_barrier_key m)) (response_error 503 ''seal metadata is corrupt'')) (\<lambda>wrapped.
     rbind (map_err (\<lambda>_. response_error 400 ''unseal shares do not authorize rekey'')
       (unwrap_barrier_key (aes_open lib) seal_key (associated_data m) wrapped)) (\<lambda>current.
     rbind (verify_active_barrier lib sv current) (\<lambda>_. Inr current)))"

definition rekey_prepare ::
  "'x server_lib_scheme \<Rightarrow> server_env \<Rightarrow> seal_metadata \<Rightarrow> rekey_state \<Rightarrow> byte list \<Rightarrow> server \<Rightarrow>
   server_response + seal_metadata \<times> secret_share list" where
  "rekey_prepare lib env m ry seal_key sv =
     rbind (rekey_authorize lib m seal_key sv) (\<lambda>current.
     rbind (map_err (response_error 503) (random_array (env_fill env) 7 32)) (\<lambda>next_seal_key.
     generate_seal lib (env_fill env) next_seal_key (ry_new_shares ry) (ry_new_threshold ry)
       (ok_or (checked_add64 (sm_generation m) 1) (response_error 507 ''seal generation exhausted'')) current))"

definition rekey_complete ::
  "'x server_lib_scheme \<Rightarrow> server_env \<Rightarrow> seal_metadata \<Rightarrow> rekey_state \<Rightarrow> seal_metadata \<Rightarrow> secret_share list \<Rightarrow> server \<Rightarrow>
   server \<times> server_response" where
  "rekey_complete lib env m ry next shares sv =
     (let kept = sv\<lparr>sv_rekey := Some ry\<rparr> in
      if ry_require_verification ry then
        case random_array (env_fill env) 20 16 of
          Inl error \<Rightarrow> (kept, response_error 503 error)
        | Inr nonce \<Rightarrow>
            let p = \<lparr>pm_schema = 1, pm_active_generation = sm_generation m, pm_nonce = ry_nonce ry,
                     pm_verification_nonce = hex nonce, pm_candidate = next\<rparr> in
            (case on_dir (persist_pending_rekey lib env 34 p) sv of
               (sv, False) \<Rightarrow> (sv\<lparr>sv_rekey := Some ry\<rparr>, response_error 503 ''cannot durably stage rekey verification'')
             | (sv, True) \<Rightarrow>
                 (sv\<lparr>sv_rekey := Some (ry\<lparr>ry_provided := [], ry_verification := Some p, ry_verification_provided := []\<rparr>)\<rparr>,
                  response_ok (json_object
                    [(''started'', JBool False), (''complete'', JBool True), (''nonce'', JStr (ry_nonce ry)),
                     (''keys'', json_strings (share_keys lib shares)), (''keys_base64'', json_strings (share_keys_base64 lib shares)),
                     (''verification_required'', JBool True), (''verification_nonce'', JStr (pm_verification_nonce p))])))
      else
        case on_dir (persist_seal_metadata lib env 35 next) sv of
          (sv, False) \<Rightarrow> (sv\<lparr>sv_rekey := Some ry\<rparr>, response_error 503 ''cannot durably publish new seal generation'')
        | (sv, True) \<Rightarrow>
            (sv\<lparr>sv_seal := Some next, sv_rekey := None, sv_unseal_shares := []\<rparr>,
             response_ok (json_object
               [(''started'', JBool False), (''complete'', JBool True), (''nonce'', JStr (ry_nonce ry)),
                (''keys'', json_strings (share_keys lib shares)), (''keys_base64'', json_strings (share_keys_base64 lib shares)),
                (''verification_required'', JBool False), (''verification_nonce'', JStr [])])))"

definition rekey_share ::
  "'x server_lib_scheme \<Rightarrow> server_env \<Rightarrow> rekey_state \<Rightarrow> string \<Rightarrow> string \<Rightarrow> server \<Rightarrow> server \<times> server_response" where
  "rekey_share lib env ry supplied_nonce supplied_key sv =
     (if supplied_nonce \<noteq> ry_nonce ry then (sv\<lparr>sv_rekey := Some ry\<rparr>, response_error 400 ''rekey nonce mismatch'')
      else
        case sv_seal sv of
          None \<Rightarrow> (sv\<lparr>sv_rekey := Some ry\<rparr>, response_error 503 ''seal metadata unavailable'')
        | Some m \<Rightarrow>
            (case collect_seal_key lib m supplied_key (ry_provided ry) of
               (provided, r) \<Rightarrow>
                 let ry = ry\<lparr>ry_provided := provided\<rparr>; kept = sv\<lparr>sv_rekey := Some ry\<rparr> in
                 (case r of
                    Inl error \<Rightarrow> (kept, response_error 400 error)
                  | Inr None \<Rightarrow>
                      (kept, response_ok (json_object
                         [(''started'', JBool True), (''nonce'', JStr (ry_nonce ry)), (''t'', json_u64 (unat (ry_new_threshold ry))),
                          (''n'', json_u64 (unat (ry_new_shares ry))), (''progress'', json_u64 (length provided)),
                          (''required'', json_u64 (unat (sm_secret_threshold m))), (''complete'', JBool False),
                          (''verification_required'', JBool False)]))
                  | Inr (Some seal_key) \<Rightarrow>
                      (case rekey_prepare lib env m ry seal_key sv of
                         Inl e \<Rightarrow> (kept, e)
                       | Inr (next, shares) \<Rightarrow> rekey_complete lib env m ry next shares sv))))"

definition rekey_update :: "'x server_lib_scheme \<Rightarrow> server_env \<Rightarrow> string \<Rightarrow> json \<Rightarrow> server \<Rightarrow> server \<times> server_response" where
  "rekey_update lib env method body sv =
     (if \<not> put_or_post method then (sv, response_error 405 ''method not allowed'')
      else if as_object body = None then (sv, response_error 400 ''invalid rekey request'')
      else if \<not> only_fields [''key'', ''nonce''] body then (sv, response_error 400 ''unsupported rekey update fields'')
      else
        case Option.bind (json_get body ''nonce'') as_str of
          None \<Rightarrow> (sv, response_error 400 ''rekey nonce is required'')
        | Some supplied_nonce \<Rightarrow>
            (case Option.bind (json_get body ''key'') as_str of
               None \<Rightarrow> (sv, response_error 400 ''unseal share is required'')
             | Some supplied_key \<Rightarrow>
                 (case sv_rekey sv of
                    None \<Rightarrow> (sv, response_error 400 ''rekey is not in progress'')
                  | Some ry \<Rightarrow>
                      if ry_verification ry \<noteq> None
                      then verify_rekey_share lib env ry supplied_nonce supplied_key (sv\<lparr>sv_rekey := None\<rparr>)
                      else rekey_share lib env ry supplied_nonce supplied_key (sv\<lparr>sv_rekey := None\<rparr>))))"

definition rekey_route :: "'x server_lib_scheme \<Rightarrow> server_env \<Rightarrow> string \<Rightarrow> string \<Rightarrow> json \<Rightarrow> server \<Rightarrow> server \<times> server_response" where
  "rekey_route lib env method path body sv =
     (case initialization_recovery_pending env 51 (sv_dir sv) of
        Inl _ \<Rightarrow> (sv, response_error 503 ''initialization recovery state is unavailable'')
      | Inr True \<Rightarrow> (sv, response_error 409 ''acknowledge initialization recovery before rekey'')
      | Inr False \<Rightarrow>
          if path = ''sys/rekey/init'' then finish (rekey_init env method body sv)
          else if path \<noteq> ''sys/rekey/update'' then (sv, response_error 404 ''unsupported rekey path'')
          else rekey_update lib env method body sv)"

section \<open>Maintenance\<close>

definition recovery_lookup :: "string \<Rightarrow> string \<Rightarrow> server \<Rightarrow> server_response" where
  "recovery_lookup method reference sv =
     (if method \<noteq> ''GET'' then response_error 405 ''recovery lookup requires GET''
      else if \<not> valid_recovery_reference reference then response_error 400 ''invalid recovery reference''
      else
        case sv_durable sv of
          None \<Rightarrow> response_error 503 ''server is sealed''
        | Some (key, svc) \<Rightarrow>
            (case reconcile svc reference of
               StatusCommitted generation \<Rightarrow>
                 response_ok (json_object [(''data'', json_object [(''recovery_reference'', JStr reference),
                   (''status'', JStr ''committed''), (''generation'', json_u64 generation)])])
             | StatusAborted \<Rightarrow>
                 response_ok (json_object [(''data'', json_object [(''recovery_reference'', JStr reference), (''status'', JStr ''aborted'')])])
             | StatusUnknown \<Rightarrow> response_error 404 ''recovery reference is unknown''))"

definition ha_snapshot_failed :: "server_env \<Rightarrow> server \<Rightarrow> bool" where
  "ha_snapshot_failed env sv = (sv_ha sv \<and> \<not> (ha_lock (env_ha env) 6 \<and> ha_trigger_snapshot (env_ha env)))"

definition storage_compact :: "'x server_lib_scheme \<Rightarrow> server_env \<Rightarrow> string \<Rightarrow> json \<Rightarrow> server \<Rightarrow> server \<times> server_response" where
  "storage_compact lib env method body sv =
     (if \<not> put_or_post method then (sv, response_error 405 ''storage compaction requires POST or PUT'')
      else if as_object body \<noteq> Some [] then (sv, response_error 400 ''storage compaction accepts an empty JSON object'')
      else if ha_snapshot_failed env sv then (sv, response_error 503 ''HA snapshot trigger failed'')
      else
        case sv_durable sv of
          None \<Rightarrow> (sv, response_error 503 ''server is sealed'')
        | Some (key, svc) \<Rightarrow>
            (case durable_compact (server_barrier lib key) (env_nonce env + 32) (env_io env 4 0) (env_guard env 4)
                    (dd_durable (sv_dir sv), svc) of
               ((disk, svc), r) \<Rightarrow>
                 let sv = sv\<lparr>sv_dir := (sv_dir sv)\<lparr>dd_durable := disk\<rparr>, sv_durable := Some (key, svc),
                            sv_recovery_required := ds_unresolved svc \<or> sv_recovery_required sv\<rparr> in
                 (sv, case r of
                        Inr out \<Rightarrow> response_ok (json_object [(''data'', json_object
                          [(''generation'', json_u64 (co_generation out)), (''retained_requests'', json_u64 (co_retained_requests out)),
                           (''journal_bytes_before'', json_u64 (co_journal_bytes_before out)),
                           (''journal_bytes_after'', json_u64 (co_journal_bytes_after out))])])
                      | Inl _ \<Rightarrow> response_error 503 ''storage compaction failed; inspect durable state'')))"

definition snapshot_export :: "'x server_lib_scheme \<Rightarrow> server_env \<Rightarrow> server \<Rightarrow> server_response" where
  "snapshot_export lib env sv =
     (if ha_snapshot_failed env sv then response_error 503 ''HA snapshot trigger failed''
      else
        case sv_durable sv of
          None \<Rightarrow> response_error 503 ''server is sealed''
        | Some (key, svc) \<Rightarrow>
            (case export_backup (server_barrier lib key) (env_nonce env + 40) (env_guard env 5) svc of
               Inl _ \<Rightarrow> response_error 503 ''cannot export durable snapshot''
             | Inr backup \<Rightarrow>
                 if MAX_BACKUP_TRANSFER_BYTES < length backup then response_error 507 ''durable snapshot exceeds transfer limit''
                 else response_ok (json_object [(''data'', json_object
                   [(''snapshot'', JStr (base64_encode lib backup)), (''sha256'', JStr (hex (crypto_digest lib backup))),
                    (''generation'', json_u64 (sn_generation (ds_snapshot svc))),
                    (''retained_requests'', json_u64 (length (ds_ledger svc))),
                    (''format'', JStr ''heptabao-encrypted-backup-v1'')])])))"

text \<open>The restore itself: the state in memory is read again from the restored store.\<close>

definition apply_restore ::
  "'x server_lib_scheme \<Rightarrow> server_env \<Rightarrow> string \<Rightarrow> byte list \<Rightarrow> byte list \<Rightarrow> durable_service \<Rightarrow> server \<Rightarrow> server \<times> server_response" where
  "apply_restore lib env path backup key svc sv =
     (case restore_backup (server_barrier lib key) (env_io env 6) (env_guard env 6) backup (path = ''sys/storage/raft/snapshot-force'')
             (dd_durable (sv_dir sv), svc) of
        ((disk, svc), r) \<Rightarrow>
          let sv = sv\<lparr>sv_dir := (sv_dir sv)\<lparr>dd_durable := disk\<rparr>, sv_durable := Some (key, svc)\<rparr> in
          (case r of
             Inl BackupRollbackRejected \<Rightarrow>
               (sv, response_error 400 ''snapshot is older than live state; use snapshot-force only after review'')
           | Inl CorruptState \<Rightarrow> (sv, response_error 400 ''snapshot authentication or structure failed'')
           | Inl BarrierFailure \<Rightarrow> (sv, response_error 400 ''snapshot authentication or structure failed'')
           | Inl _ \<Rightarrow>
               (sv\<lparr>sv_recovery_required := ds_unresolved svc \<or> sv_recovery_required sv\<rparr>,
                response_error 503 ''snapshot restore failed; authoritative recovery required'')
           | Inr out \<Rightarrow>
               (case refresh_state_from_durable lib sv of
                  (sv, Inl e) \<Rightarrow> (sv\<lparr>sv_recovery_required := True\<rparr>, e)
                | (sv, Inr _) \<Rightarrow>
                    (sv, response_ok (json_object [(''data'', json_object
                       [(''previous_generation'', json_u64 (ro_previous_generation out)),
                        (''restored_generation'', json_u64 (ro_restored_generation out)),
                        (''retained_requests'', json_u64 (ro_retained_requests out)),
                        (''rollback'', JBool (ro_restored_generation out < ro_previous_generation out))])])))))"

definition snapshot_restore ::
  "'x server_lib_scheme \<Rightarrow> server_env \<Rightarrow> string \<Rightarrow> string \<Rightarrow> json \<Rightarrow> server \<Rightarrow> server \<times> server_response" where
  "snapshot_restore lib env method path body sv =
     (if sv_ha sv then (sv, response_error 409 ''direct local snapshot restore is forbidden while HA is enabled'')
      else if \<not> put_or_post method then (sv, response_error 405 ''snapshot restore requires POST or PUT'')
      else if as_object body = None then (sv, response_error 400 ''snapshot restore requires a JSON object'')
      else if \<not> only_fields [''snapshot''] body then (sv, response_error 400 ''unsupported snapshot restore field'')
      else
        case Option.bind (json_get body ''snapshot'') as_str of
          None \<Rightarrow> (sv, response_error 400 ''snapshot is required'')
        | Some encoded \<Rightarrow>
            if MAX_BACKUP_TRANSFER_BYTES * 2 < length encoded then (sv, response_error 413 ''encoded snapshot exceeds transfer limit'')
            else
              case base64_decode lib encoded of
                None \<Rightarrow> (sv, response_error 400 ''invalid snapshot encoding'')
              | Some backup \<Rightarrow>
                  if MAX_BACKUP_TRANSFER_BYTES < length backup then (sv, response_error 413 ''snapshot exceeds transfer limit'')
                  else
                    case sv_durable sv of
                      None \<Rightarrow> (sv, response_error 503 ''server is sealed'')
                    | Some (key, svc) \<Rightarrow> apply_restore lib env path backup key svc sv)"

definition maintenance_route ::
  "'x server_lib_scheme \<Rightarrow> server_env \<Rightarrow> string \<Rightarrow> string \<Rightarrow> json \<Rightarrow> server \<Rightarrow> server \<times> server_response" where
  "maintenance_route lib env method path body sv =
     (case strip_prefix ''sys/internal/recovery/'' path of
        Some reference \<Rightarrow> (sv, recovery_lookup method reference sv)
      | None \<Rightarrow>
          if path = ''sys/storage/raft/compact'' then storage_compact lib env method body sv
          else if path = ''sys/storage/raft/snapshot'' \<and> method = ''GET'' then (sv, snapshot_export lib env sv)
          else if path = ''sys/storage/raft/snapshot'' \<or> path = ''sys/storage/raft/snapshot-force''
          then snapshot_restore lib env method path body sv
          else (sv, response_error 404 ''unsupported maintenance path''))"

section \<open>Initialization\<close>

definition stage_empty :: data_dir where
  "stage_empty = \<lparr>dd_present = True, dd_durable = (\<lambda>_. None), dd_seal = None, dd_pending = None, dd_recovery = None\<rparr>"

definition recover_initialization ::
  "'x server_lib_scheme \<Rightarrow> server_env \<Rightarrow> byte list \<Rightarrow> byte \<Rightarrow> byte \<Rightarrow> server \<Rightarrow> server_response" where
  "recover_initialization lib env secret shares threshold sv =
     (case sv_seal sv of
        None \<Rightarrow> response_error 400 ''initialization recovery parameters do not match''
      | Some m \<Rightarrow>
          if sm_secret_shares m \<noteq> shares \<or> sm_secret_threshold m \<noteq> threshold
          then response_error 400 ''initialization recovery parameters do not match''
          else if load_seal_metadata lib env 52 (sv_dir sv) \<noteq> Inr (Some m)
          then response_error 503 ''initialization recovery seal binding changed''
          else
            case read_initialization_recovery env 53 (sv_dir sv) of
              None \<Rightarrow> response_error 503 ''initialization recovery file is unavailable''
            | Some None \<Rightarrow> response_error 409 ''initialization recovery is not pending''
            | Some (Some protected) \<Rightarrow>
                (case initialization_recovery_barrier lib secret m of
                   None \<Rightarrow> response_error 503 ''initialization recovery provider unavailable''
                 | Some (key, ctx) \<Rightarrow>
                     (case barrier_open (aes_open lib) key ctx protected of
                        None \<Rightarrow> response_error 403 ''initialization recovery authentication failed''
                      | Some plaintext \<Rightarrow>
                          if env_files env 41 \<noteq> IoDone then response_error 503 ''initialization publication durability is unknown''
                          else
                            case value_from_slice lib plaintext of
                              None \<Rightarrow> response_error 503 ''initialization recovery response is corrupt''
                            | Some body \<Rightarrow> response_ok body)))"

text \<open>What the request asks for: the shares, the threshold and the recovery secret.\<close>

definition initialize_options ::
  "'x server_lib_scheme \<Rightarrow> json \<Rightarrow> server_response + byte \<times> byte \<times> byte list option" where
  "initialize_options lib body =
     (if \<not> only_fields [''secret_shares'', ''secret_threshold'', ''recovery_nonce''] body
      then Inl (response_error 400 ''unsupported initialization options'')
      else
        rbind (map_err (response_error 400) (bounded_u8_field body ''secret_shares'' 5)) (\<lambda>shares.
        rbind (map_err (response_error 400) (bounded_u8_field body ''secret_threshold'' 3)) (\<lambda>threshold.
        if shares = 0 \<or> MAX_SEAL_SHARES < shares \<or> threshold = 0 \<or> shares < threshold
        then Inl (response_error 400 ''secret shares must be 1..=16 and threshold must be within that set'')
        else
          rbind (map_err (response_error 400) (rtranspose (decode_initialization_secret lib) (json_get body ''recovery_nonce'')))
            (\<lambda>secret. Inr (shares, threshold, secret)))))"

text \<open>The first generation of the seal, the first state, and the root token.\<close>

definition initial_material ::
  "'x server_lib_scheme \<Rightarrow> server_env \<Rightarrow> byte \<Rightarrow> byte \<Rightarrow> nat \<Rightarrow>
   server_response + byte list \<times> seal_metadata \<times> secret_share list \<times> server_state \<times> string" where
  "initial_material lib env shares threshold now =
     rbind (map_err (response_error 503) (random_array (env_fill env) 10 32)) (\<lambda>seal_key.
     rbind (map_err (response_error 503) (random_array (env_fill env) 11 32)) (\<lambda>barrier_key.
     rbind (generate_seal lib (env_fill env) seal_key shares threshold (Inr 1) barrier_key) (\<lambda>(m, generated).
     rbind (map_err (response_error 500) (seal_validate lib m)) (\<lambda>_.
     rbind (ok_or (barrier_new lib barrier_key) (response_error 503 ''cannot construct storage provider'')) (\<lambda>barrier_key.
     rbind (map_err (\<lambda>e. response_error (ae_status e) (ae_message e)) (bootstrap lib (sub_fill 14 (env_fill env)) now))
       (\<lambda>(auth, rtok).
     rbind (map_err (response_error 503) (random_array (env_fill env) 15 16)) (\<lambda>cluster.
     Inr (barrier_key, m, generated,
          \<lparr>ss_schema = 1, ss_cluster_id = base64_encode lib cluster, ss_auth = auth, ss_engines = engine_state_default\<rparr>,
          rtok))))))))"

text \<open>The staged directory: a new durable service that holds the state, and the seal metadata.\<close>

definition initial_stage ::
  "'x server_lib_scheme \<Rightarrow> server_env \<Rightarrow> byte list \<Rightarrow> seal_metadata \<Rightarrow> server_state \<Rightarrow> server_response + data_dir" where
  "initial_stage lib env barrier_key m st =
     (case create_new (server_barrier lib barrier_key) (env_nonce env) (env_io env 0) (env_guard env 0) MAX_OPERATIONS
             (dd_durable stage_empty) of
        (disk, Inl _) \<Rightarrow> Inl (response_error 503 ''cannot prepare durable initialization state'')
      | (disk, Inr svc) \<Rightarrow>
          rbind (ok_or (state_to_vec lib st) (response_error 500 ''state serialization failed'')) (\<lambda>bytes.
          if MAX_STATE_BYTES < length bytes then Inl (response_error 507 ''single-node state capacity exhausted'')
          else
            rbind (map_err (response_error 503) (random_array (env_fill env) 17 16)) (\<lambda>operation_id.
            rbind (map_err (\<lambda>_. response_error 507 ''state capacity exhausted'') (secret_new bytes)) (\<lambda>bytes.
            rbind (map_err (\<lambda>_. response_error 500 ''invalid server commit envelope'')
              (put_request_new (state_put_request lib (hex operation_id) bytes))) (\<lambda>req.
            case put_with_failpoint (server_barrier lib barrier_key) (env_nonce env + 8) (env_io env 1) (env_guard env 1) NoFailpoint req
                   (disk, svc) of
              ((disk, svc), Inl _) \<Rightarrow> Inl (response_error 503 ''staged initialization state was rejected'')
            | ((disk, svc), Inr _) \<Rightarrow>
                (case persist_seal_metadata lib env 30 m (stage_empty\<lparr>dd_durable := disk\<rparr>) of
                   (stage, False) \<Rightarrow> Inl (response_error 503 ''cannot prepare seal metadata'')
                 | (stage, True) \<Rightarrow> Inr stage))))))"

definition initialize_response :: "'x server_lib_scheme \<Rightarrow> secret_share list \<Rightarrow> string \<Rightarrow> byte list option \<Rightarrow> json" where
  "initialize_response lib generated rtok secret =
     (let body = json_object
            [(''keys'', json_strings (share_keys lib generated)), (''keys_base64'', json_strings (share_keys_base64 lib generated)),
             (''root_token'', JStr rtok), (''recovery_keys'', JArr []), (''recovery_keys_base64'', JArr [])] in
      if secret = None then body else json_set body ''init_ack_required'' (JBool True))"

text \<open>The rename of the staged directory; a failure with \<open>0\<close> came before it.\<close>

definition stage_publish :: "server_env \<Rightarrow> data_dir \<Rightarrow> server \<Rightarrow> server \<times> bool option" where
  "stage_publish env stage sv =
     (if dd_present (sv_dir sv) then (sv, None)
      else
        case env_files env 32 of
          IoDone \<Rightarrow> (sv\<lparr>sv_dir := stage\<rparr>, Some True)
        | IoFailed k \<Rightarrow> if k = 0 then (sv, None) else (sv\<lparr>sv_dir := stage\<rparr>, Some False))"

text \<open>The response, and whether it has already been audited.\<close>

definition initialize ::
  "'x server_lib_scheme \<Rightarrow> server_env \<Rightarrow> json \<Rightarrow> nat \<Rightarrow> string \<Rightarrow> server \<Rightarrow> server \<times> server_response \<times> bool" where
  "initialize lib env body now fingerprint sv =
     (if sv_ha sv then
        (sv, response_error 409 ''initialize and unseal a node before enabling HA; HA initialization requires an existing durable state'', False)
      else
        case initialize_options lib body of
          Inl e \<Rightarrow> (sv, e, False)
        | Inr (shares, threshold, secret) \<Rightarrow>
            if initialized sv then
              (sv, case secret of
                     Some s \<Rightarrow> recover_initialization lib env s shares threshold sv
                   | None \<Rightarrow> response_error 400 ''already initialized'', False)
            else
              case initial_material lib env shares threshold now of
                Inl e \<Rightarrow> (sv, e, False)
              | Inr (barrier_key, m, generated, st, rtok) \<Rightarrow>
                  if dd_present (sv_dir sv) \<or> env_fill env [16] 16 = None \<or> env_files env 42 \<noteq> IoDone
                  then (sv, response_error 503 ''cannot create private initialization stage'', False)
                  else
                    (case initial_stage lib env barrier_key m st of
                       Inl e \<Rightarrow> (sv, e, False)
                     | Inr stage \<Rightarrow>
                         let response = initialize_response lib generated rtok secret in
                         (case (case secret of
                                  None \<Rightarrow> (stage, True)
                                | Some s \<Rightarrow> write_initialization_recovery lib env 31 m s response stage) of
                            (stage, False) \<Rightarrow> (sv, response_error 503 ''cannot prepare initialization recovery'', False)
                          | (stage, True) \<Rightarrow>
                              (case server_audit lib (env_audit env 2) ''initialization-response-prepared'' fingerprint now (Some 200) sv of
                                 (sv, False) \<Rightarrow>
                                   (sv, response_error 503 ''initialization response audit unavailable; no active state published'', True)
                               | (sv, True) \<Rightarrow>
                                   (case stage_publish env stage sv of
                                      (sv, None) \<Rightarrow>
                                        (sv, response_error 503 ''initialization publication failed before activation'', False)
                                    | (sv, Some synced) \<Rightarrow>
                                        let sv = (seal_again sv)\<lparr>sv_seal := Some m, sv_unseal_shares := [], sv_rekey := None\<rparr> in
                                        if synced then (sv, response_ok response, True)
                                        else if secret \<noteq> None then
                                          (sv\<lparr>sv_recovery_required := True\<rparr>,
                                           response_error 503 ''initialization publication outcome unknown; retry with the same recovery nonce'',
                                           True)
                                        else
                                          (sv\<lparr>sv_recovery_required := True\<rparr>,
                                           response_ok (json_set response ''warnings''
                                             (JArr [JStr ''initialization published but parent directory sync requires recovery review''])),
                                           True))))))"

definition ack_initialization :: "server_env \<Rightarrow> string \<Rightarrow> json \<Rightarrow> server \<Rightarrow> server \<times> server_response" where
  "ack_initialization env method body sv =
     (if \<not> put_or_post method then (sv, response_error 405 ''initialization acknowledgement requires POST or PUT'')
      else if as_object body \<noteq> Some [] then (sv, response_error 400 ''initialization acknowledgement accepts an empty object'')
      else if env_files env 39 \<noteq> IoDone then (sv, response_error 503 ''cannot remove initialization recovery file'')
      else
        let sv = sv\<lparr>sv_dir := (sv_dir sv)\<lparr>dd_recovery := None\<rparr>\<rparr> in
        if env_files env 40 \<noteq> IoDone
        then (sv\<lparr>sv_recovery_required := True\<rparr>,
              response_error 503 ''initialization acknowledgement outcome unknown; directory sync failed'')
        else (sv, no_content))"

section \<open>Requests\<close>

definition fallback_capability :: "string \<Rightarrow> string" where
  "fallback_capability method =
     (if method = ''GET'' \<or> method = ''HEAD'' then ''read''
      else if method = ''LIST'' then ''list''
      else if method = ''DELETE'' then ''delete''
      else if method = ''PATCH'' then ''patch''
      else ''update'')"

definition auth_failure :: "auth_error \<Rightarrow> server_response" where
  "auth_failure e = response_error (ae_status e) (ae_message e)"

definition dispatch_engines ::
  "'x server_lib_scheme \<Rightarrow> entropy \<Rightarrow> server_state \<Rightarrow> principal \<Rightarrow> string \<Rightarrow> string \<Rightarrow> string \<Rightarrow> json \<Rightarrow> nat \<Rightarrow>
   server_state \<times> server_response" where
  "dispatch_engines lib fill st pr namespace method path body now =
     (let capability = unwrap_or (required_capability (ss_engines st) namespace method path) (fallback_capability method) in
      case (if starts_with path ''sys/mounts'' \<and> \<not> (method = ''GET'' \<or> method = ''LIST'' \<or> method = ''HEAD'')
            then authorize_request (ss_auth st) pr namespace path ''sudo'' now else Inr ()) of
        Inl e \<Rightarrow> (st, auth_failure e)
      | Inr _ \<Rightarrow>
          (case authorize_request (ss_auth st) pr namespace path capability now of
             Inl e \<Rightarrow> (st, auth_failure e)
           | Inr _ \<Rightarrow>
               (case engine_handle lib (sub_fill 4 fill) (ss_engines st) namespace method path body now of
                  (engines, Inr (Some resp)) \<Rightarrow>
                    (if mutated resp then st\<lparr>ss_engines := engines\<rparr> else st, \<lparr>rs_status = resp_status resp, rs_body = resp_body resp\<rparr>)
                | (engines, Inr None) \<Rightarrow> (st, response_error 404 ''unsupported path'')
                | (engines, Inl e) \<Rightarrow> (st, response_error (err_status e) (err_message e)))))"

definition dispatch ::
  "'x server_lib_scheme \<Rightarrow> entropy \<Rightarrow> server_state \<Rightarrow> principal option \<Rightarrow> string \<Rightarrow> string \<Rightarrow> string \<Rightarrow> json \<Rightarrow> nat \<Rightarrow>
   server_state \<times> server_response" where
  "dispatch lib fill st pr namespace method path body now =
     (case auth_handle lib (sub_fill 3 fill) (ss_auth st) pr namespace method path body now of
        (auth, Inr (Some resp)) \<Rightarrow>
          (if ar_mutated resp then st\<lparr>ss_auth := auth\<rparr> else st, \<lparr>rs_status = ar_status resp, rs_body = ar_body resp\<rparr>)
      | (auth, Inl e) \<Rightarrow> (st, auth_failure e)
      | (auth, Inr None) \<Rightarrow>
          (case pr of
             None \<Rightarrow> (st, response_error 403 ''missing client token'')
           | Some pr \<Rightarrow>
               if path = ''sys/leader'' \<and> method = ''GET'' then (st, response_error 500 ''leader route escaped service HA boundary'')
               else if path = ''sys/step-down'' \<or> starts_with path ''sys/storage/raft''
               then (st, response_error 501 ''Raft administrative route is not implemented by this request profile'')
               else dispatch_engines lib fill st pr namespace method path body now))"

text \<open>
  The role of the node in its cluster: a leader first adopts the committed state, any other node
  answers without touching its own.
\<close>

definition cluster_gate ::
  "'x server_lib_scheme \<Rightarrow> server_env \<Rightarrow> server_request \<Rightarrow> server \<Rightarrow> server \<times> (server_response + unit)" where
  "cluster_gate lib env rq sv =
     (let ha = env_ha env in
      if \<not> sv_ha sv then (sv, Inr ())
      else if \<not> ha_lock ha 7 then (sv, Inl (response_error 503 ''HA process lock is unavailable''))
      else
        case ha_leader ha of
          None \<Rightarrow> (sv, Inl (response_error 503 ''HA leader state is unavailable''))
        | Some leader \<Rightarrow>
            (case ha_local_id ha of
               None \<Rightarrow> (sv, Inl (response_error 503 ''HA local identity is unavailable''))
             | Some local \<Rightarrow>
                 if leader = Some local then sync_from_ha lib env sv
                 else if leader = None then (sv, Inl (response_error 503 ''HA cluster has no elected leader''))
                 else if \<not> rq_allow_forward rq then (sv, Inl (response_error 503 ''forwarded request reached a standby node''))
                 else if \<not> ha_lock ha 8 then (sv, Inl (response_error 503 ''HA process lock is unavailable''))
                 else (sv, Inl (unwrap_or (ha_forward ha (rq_method rq) (rq_path rq) (rq_namespace rq) (rq_token rq) (rq_body rq))
                                  (response_error 503 ''HA leader forwarding failed'')))))"

text \<open>Who makes the request, and the state in which the token has paid for its use.\<close>

definition admit ::
  "'x server_lib_scheme \<Rightarrow> server_request \<Rightarrow> server_state \<Rightarrow> server_response + server_state \<times> principal option" where
  "admit lib rq st =
     (if rq_token rq = [] then Inr (st, None)
      else
        case authenticate lib (ss_auth st) (rq_token rq) (rq_now rq) of
          (auth, Inl e) \<Rightarrow> Inl (auth_failure e)
        | (auth, Inr pr) \<Rightarrow> Inr (st\<lparr>ss_auth := auth\<rparr>, Some pr))"

definition is_root :: "principal option \<Rightarrow> bool" where
  "is_root pr = is_some_and pr (\<lambda>p. tok_root (pr_token p))"

definition consumed_use :: "principal option \<Rightarrow> bool" where
  "consumed_use pr = is_some_and pr (\<lambda>p. tok_uses_remaining (pr_token p) \<noteq> None)"

definition seal_route :: "server_env \<Rightarrow> server \<Rightarrow> server \<times> server_response" where
  "seal_route env sv =
     (let sv = (seal_again sv)\<lparr>sv_unseal_shares := [],
            sv_rekey := (case sv_rekey sv of
                           None \<Rightarrow> None
                         | Some ry \<Rightarrow> if ry_verification ry = None then None
                                      else Some (ry\<lparr>ry_provided := [], ry_verification_provided := []\<rparr>))\<rparr> in
      case rotate_unseal_nonce env sv of
        (sv, False) \<Rightarrow> (sv, response_error 503 ''operating system randomness unavailable'')
      | (sv, True) \<Rightarrow> (sv, no_content))"

text \<open>The request once it is dispatched: its effect is committed before its response is released.\<close>

definition commit_request ::
  "'x server_lib_scheme \<Rightarrow> server_env \<Rightarrow> server_request \<Rightarrow> server_state \<Rightarrow> principal option \<Rightarrow> server \<Rightarrow> server \<times> server_response" where
  "commit_request lib env rq st pr sv =
     finish (
     sbind (sv, ok_or (state_to_vec lib st) (response_error 500 ''state serialization failed'')) (\<lambda>sv before.
     case dispatch lib (env_fill env) st pr (rq_namespace rq) (rq_method rq) (rq_path rq) (rq_body rq) (rq_now rq) of
       (st, response) \<Rightarrow>
         sbind (sv, ok_or (state_to_vec lib st) (response_error 500 ''state serialization failed'')) (\<lambda>sv serialized.
         if serialized \<noteq> before then
           sbind (commit_state_bytes lib env 2 serialized sv) (\<lambda>sv _. (sv\<lparr>sv_state := Some st\<rparr>, Inr response))
         else (sv, Inr response))))"

definition handle_admitted ::
  "'x server_lib_scheme \<Rightarrow> server_env \<Rightarrow> server_request \<Rightarrow> server_state \<Rightarrow> principal option \<Rightarrow> server \<Rightarrow> server \<times> server_response" where
  "handle_admitted lib env rq st pr sv =
     (let method = rq_method rq; path = rq_path rq; namespace = rq_namespace rq; body = rq_body rq in
      if path = ''sys/leader'' \<and> method = ''GET'' then
        (sv, case pr of
               None \<Rightarrow> response_error 403 ''missing client token''
             | Some p \<Rightarrow>
                 (case authorize_request (ss_auth st) p namespace path ''read'' (rq_now rq) of
                    Inl e \<Rightarrow> auth_failure e
                  | Inr _ \<Rightarrow> leader_response (env_ha env) sv))
      else if path = ''sys/init/ack'' then
        if namespace \<noteq> [] \<or> \<not> is_root pr then (sv, response_error 403 ''permission denied'')
        else ack_initialization env method body sv
      else if path = ''sys/rekey/init'' \<or> path = ''sys/rekey/update'' then
        if \<not> is_root pr then (sv, response_error 403 ''permission denied'') else rekey_route lib env method path body sv
      else if starts_with path ''sys/internal/recovery/'' \<or> path = ''sys/storage/raft/compact'' \<or> path = ''sys/storage/raft/snapshot''
              \<or> path = ''sys/storage/raft/snapshot-force'' then
        if \<not> is_root pr then (sv, response_error 403 ''permission denied'') else maintenance_route lib env method path body sv
      else if path = ''sys/seal'' \<and> put_or_post method then
        if \<not> is_root pr then (sv, response_error 403 ''permission denied'') else seal_route env sv
      else commit_request lib env rq st pr sv)"

definition health_response :: "server_env \<Rightarrow> nat \<Rightarrow> server \<Rightarrow> server_response" where
  "health_response env now sv =
     (case ha_observation (env_ha env) sv of (ha_enabled, standby, ha_active, _, _) \<Rightarrow>
        \<lparr>rs_status = health_status (initialized sv) (sv_state sv = None) (sv_recovery_required sv) ha_enabled standby ha_active,
         rs_body = json_object
           [(''initialized'', JBool (initialized sv)), (''sealed'', JBool (sv_state sv = None)), (''standby'', JBool standby),
            (''performance_standby'', JBool False),
            (''replication_performance_mode'', JStr (if ha_enabled then ''enabled'' else ''disabled'')),
            (''replication_dr_mode'', JStr ''disabled''), (''server_time_utc'', json_u64 now), (''version'', JStr ''HeptaBao-0.2.0''),
            (''cluster_name'', JStr (if ha_enabled then ''heptabao-ha'' else ''heptabao-single-node'')),
            (''cluster_id'', case sv_state sv of None \<Rightarrow> JNull | Some st \<Rightarrow> JStr (ss_cluster_id st)),
            (''ha_enabled'', JBool ha_enabled), (''ha_active'', JBool ha_active),
            (''recovery_required'', JBool (sv_recovery_required sv))]\<rparr>)"

definition handle_inner :: "'x server_lib_scheme \<Rightarrow> server_env \<Rightarrow> server_request \<Rightarrow> server \<Rightarrow> server \<times> server_response" where
  "handle_inner lib env rq sv =
     (let method = rq_method rq; path = rq_path rq in
      if \<not> server_valid_namespace (rq_namespace rq) \<or> \<not> server_valid_path path
      then (sv, response_error 400 ''invalid canonical namespace or path'')
      else if path = ''sys/health'' \<and> (method = ''GET'' \<or> method = ''HEAD'') then (sv, health_response env (rq_now rq) sv)
      else if path = ''sys/init'' \<and> method = ''GET''
      then (sv, response_ok (json_object [(''initialized'', JBool (initialized sv))]))
      else if path = ''sys/seal-status'' \<and> method = ''GET'' then (sv, seal_status sv)
      else if path = ''sys/unseal'' \<and> put_or_post method then unseal lib env (rq_body rq) sv
      else if sv_state sv = None then (sv, response_error 503 ''server is sealed'')
      else
        case cluster_gate lib env rq sv of
          (sv, Inl e) \<Rightarrow> (sv, e)
        | (sv, Inr _) \<Rightarrow>
            if sv_recovery_required sv
            then (sv, response_error 503 ''authoritative recovery required; unseal with the stored key before retry'')
            else
              (case sv_state sv of
                 None \<Rightarrow> (sv, response_error 503 ''server is sealed'')
               | Some st \<Rightarrow>
                   (case admit lib rq st of
                      Inl e \<Rightarrow> (sv, e)
                    | Inr (st, pr) \<Rightarrow>
                        if consumed_use pr then
                          (case commit_state lib env 1 st sv of
                             (sv, Inl e) \<Rightarrow> (sv, e)
                           | (sv, Inr _) \<Rightarrow> handle_admitted lib env rq st pr (sv\<lparr>sv_state := Some st\<rparr>))
                        else handle_admitted lib env rq st pr sv)))"

definition handle_at_mode :: "'x server_lib_scheme \<Rightarrow> server_env \<Rightarrow> server_request \<Rightarrow> server \<Rightarrow> server \<times> server_response" where
  "handle_at_mode lib env rq sv =
     (let fingerprint = request_fingerprint lib sv rq; now = rq_now rq in
      case server_audit lib (env_audit env 0) ''request'' fingerprint now None sv of
        (sv, False) \<Rightarrow> (sv, response_error 503 ''audit unavailable before entry'')
      | (sv, True) \<Rightarrow>
          if rq_path rq = ''sys/init'' \<and> put_or_post (rq_method rq) then
            (case (if \<not> server_valid_path (rq_path rq) \<or> \<not> server_valid_namespace (rq_namespace rq) \<or> rq_namespace rq \<noteq> []
                   then (sv, response_error 400 ''initialization requires the root namespace'', False)
                   else initialize lib env (rq_body rq) now fingerprint sv) of
               (sv, response, audited) \<Rightarrow>
                 if audited then (sv, response)
                 else
                   case server_audit lib (env_audit env 1) ''response'' fingerprint now (Some (rs_status response)) sv of
                     (sv, True) \<Rightarrow> (sv, response)
                   | (sv, False) \<Rightarrow>
                       (sv\<lparr>sv_recovery_required := initialized sv\<rparr>, response_error 503 ''initialization response audit unavailable''))
          else
            case handle_inner lib env rq sv of
              (sv, response) \<Rightarrow>
                (case server_audit lib (env_audit env 1) ''response'' fingerprint now (Some (rs_status response)) sv of
                   (sv, True) \<Rightarrow> (sv, response)
                 | (sv, False) \<Rightarrow>
                     (sv\<lparr>sv_recovery_required := True\<rparr>,
                      response_error 503 ''response audit failed; outcome unknown; authoritative recovery required'')))"

section \<open>Startup\<close>

text \<open>
  The process opens its audit stream and reads the seal metadata; it starts sealed. The checks of the
  two paths and the search for files of an old layout are booleans. The state is the data directory,
  the audit directory and the file of the audit key.
\<close>

definition service_new ::
  "'x server_lib_scheme \<Rightarrow> server_env \<Rightarrow> bool \<Rightarrow> bool \<Rightarrow> bool \<Rightarrow> audit_config \<Rightarrow> data_dir \<times> audit_files \<times> byte list option \<Rightarrow>
   (data_dir \<times> audit_files \<times> byte list option) \<times> (string + server)" where
  "service_new lib env separate_paths legacy_escrow ha config w =
     sbind (w,
       if \<not> separate_paths then Inl ''data and audit paths must be absolute and separate''
       else if legacy_escrow then Inl ''legacy initialization escrow requires explicit offline migration''
       else
         rbind (if ha then initialization_recovery_pending env 54 (fst w) else Inr False) (\<lambda>pending.
         if pending then Inl ''acknowledge initialization recovery before enabling HA''
         else
           rbind (map_err (\<lambda>_. ''cannot safely open audit rotation files'') (audit_config_validate config)) (\<lambda>config.
           if \<not> env_private env 58 then Inl ''cannot safely open audit rotation files'' else Inr config))) (\<lambda>(dir, files, key_file) config.
     case load_audit_key env 57 key_file (af_active files) of
       (key_file, r) \<Rightarrow>
         sbind ((dir, files, key_file), r) (\<lambda>(dir, files, key_file) key.
         case audit_recover lib (env_audit env 0) key (files, audit_rotation_new config) of
           ((files, rotation), r) \<Rightarrow>
             sbind ((dir, files, key_file), map_err (\<lambda>_. ''audit verification or rotation recovery failed'') r) (\<lambda>(dir, files, key_file) fr.
             sbind ((dir, files, key_file), load_seal_metadata lib env 55 dir) (\<lambda>(dir, files, key_file) m.
             case load_pending_rekey lib env 56 m dir of
               (dir, r) \<Rightarrow>
                 sbind ((dir, files, key_file), r) (\<lambda>(dir, files, key_file) pending.
                 sbind ((dir, files, key_file), random_array (env_fill env) 5 16) (\<lambda>(dir, files, key_file) nonce.
                 ((dir, files, key_file),
                  Inr \<lparr>sv_dir = dir,
                       sv_audit = \<lparr>al_world = (files, rotation), al_key = key, al_frontier = fr, al_failed = False\<rparr>,
                       sv_durable = None, sv_state = None, sv_seal = m, sv_unseal_shares = [], sv_unseal_nonce = hex nonce,
                       sv_barrier_key = None,
                       sv_rekey = map_option (\<lambda>p. \<lparr>ry_nonce = pm_nonce p, ry_new_shares = sm_secret_shares (pm_candidate p),
                         ry_new_threshold = sm_secret_threshold (pm_candidate p), ry_require_verification = True, ry_provided = [],
                         ry_verification = Some p, ry_verification_provided = []\<rparr>) pending,
                       sv_recovery_required = False, sv_ha = ha\<rparr>)))))))"

end
