(* ===== verification/Spec2Isabelle.thy ===== *)
theory Spec2Isabelle
  imports Shamir Engines_Correct Auth_Safety Durable_Correct Audit_Correct Server
begin

text \<open>
  A verification library for HeptaBao.
\<close>

end
